(* ===== verification/Prelude.thy ===== *)
theory Prelude
  imports Main "HOL-Library.Word"
begin

text \<open>
  Shared vocabulary of the development: the Win32 integer types at their width, the faults
  that stand for undefined behaviour of the C++ code, heap buffers with uninitialised cells,
  the little-endian USHORT accesses the packets make through \<^verbatim>\<open>reinterpret_cast\<close>, and
  the combinators in which the C++ functions are written: \<open>ebind\<close> for pure code that may
  fault, \<open>bnd\<close> for code that also changes the world.
\<close>

unbundle bit_operations_syntax

named_theorems buf_simps "rules that evaluate buffer accesses"
named_theorems prog_simps "rules that evaluate world-passing code"

section \<open>Machine types\<close>

type_synonym byte = "8 word"      \<comment> \<open>BYTE, CHAR\<close>
type_synonym ushort = "16 word"   \<comment> \<open>USHORT\<close>
type_synonym uint = "32 word"     \<comment> \<open>UINT, DWORD, HANDLE\<close>
type_synonym tchar = "16 word"    \<comment> \<open>TCHAR; the project file selects the Unicode character set\<close>

section \<open>Faults and pure code that may fault\<close>

text \<open>
  Each constructor is a way in which the C++ code leaves defined behaviour: reading or writing
  outside an allocation, reading a cell that was never written, converting a floating point
  number that does not fit, a printf conversion without an argument or an output that does not
  fit the buffer, a null pointer, or (in a debug build) a failed assertion.
\<close>

datatype fault = OobRead | OobWrite | UninitRead | BadCast | BadFormat | NullDeref | AssertFailed

definition ebind :: "fault + 'a \<Rightarrow> ('a \<Rightarrow> fault + 'b) \<Rightarrow> fault + 'b" where
  "ebind m f = (case m of Inl e \<Rightarrow> Inl e | Inr x \<Rightarrow> f x)"

lemma ebind_simps [simp]:
  "ebind (Inl e) f = Inl e"
  "ebind (Inr x) f = f x"
  by (simp_all add: ebind_def)

lemma ebind_eq_Inr: "ebind m f = Inr y \<longleftrightarrow> (\<exists>x. m = Inr x \<and> f x = Inr y)"
  by (cases m) auto

lemma ebind_assoc: "ebind (ebind m f) g = ebind m (\<lambda>x. ebind (f x) g)"
  by (cases m) auto

section \<open>World-passing code\<close>

type_synonym ('w, 'a) prog = "'w \<Rightarrow> fault + 'a \<times> 'w"

definition ret :: "'a \<Rightarrow> ('w, 'a) prog" where
  "ret x w = Inr (x, w)"

definition bnd :: "('w, 'a) prog \<Rightarrow> ('a \<Rightarrow> ('w, 'b) prog) \<Rightarrow> ('w, 'b) prog" where
  "bnd m f w = (case m w of Inl e \<Rightarrow> Inl e | Inr (x, w') \<Rightarrow> f x w')"

text \<open>Sequencing where the first value is dropped (a C++ expression statement).\<close>

definition seq :: "('w, 'a) prog \<Rightarrow> ('w, 'b) prog \<Rightarrow> ('w, 'b) prog" where
  "seq m k w = (case m w of Inl e \<Rightarrow> Inl e | Inr (_, w') \<Rightarrow> k w')"

definition throw :: "fault \<Rightarrow> ('w, 'a) prog" where
  "throw e w = Inl e"

text \<open>Pure code inside world-passing code.\<close>

definition lift :: "fault + 'a \<Rightarrow> ('w, 'a) prog" where
  "lift r w = (case r of Inl e \<Rightarrow> Inl e | Inr x \<Rightarrow> Inr (x, w))"

text \<open>A call of an external function: it cannot fault, it may change the world.\<close>

definition call :: "('w \<Rightarrow> 'a \<times> 'w) \<Rightarrow> ('w, 'a) prog" where
  "call g w = Inr (g w)"

text \<open>A statement under an \<^verbatim>\<open>if\<close> without an else branch.\<close>

definition ifp :: "bool \<Rightarrow> ('w, unit) prog \<Rightarrow> ('w, unit) prog" where
  "ifp b m = (if b then m else ret ())"

lemma bnd_ret [prog_simps, simp]: "bnd (ret x) f w = f x w"
  by (simp add: bnd_def ret_def)

lemma bnd_throw [prog_simps, simp]: "bnd (throw e) f w = Inl e"
  by (simp add: bnd_def throw_def)

lemma bnd_lift [prog_simps, simp]:
  "bnd (lift (Inr x)) f w = f x w"
  "bnd (lift (Inl e)) f w = Inl e"
  by (simp_all add: bnd_def lift_def)

lemma bnd_call [prog_simps]: "bnd (call g) f w = f (fst (g w)) (snd (g w))"
  by (simp add: bnd_def call_def split: prod.split)

lemma bnd_assoc: "bnd (bnd m f) g = bnd m (\<lambda>x. bnd (f x) g)"
  by (rule ext) (simp add: bnd_def split: sum.split prod.split)

lemma bnd_Inr [prog_simps]: "m w = Inr (x, w') \<Longrightarrow> bnd m f w = f x w'"
  by (simp add: bnd_def)

lemma bnd_Inl [prog_simps]: "m w = Inl e \<Longrightarrow> bnd m f w = Inl e"
  by (simp add: bnd_def)

lemma bnd_eq_Inr:
  "bnd m f w = Inr r \<longleftrightarrow> (\<exists>x w'. m w = Inr (x, w') \<and> f x w' = Inr r)"
  by (auto simp: bnd_def split: sum.splits)

lemma seq_bnd: "seq m k = bnd m (\<lambda>_. k)"
  by (rule ext) (simp add: seq_def bnd_def)

lemma seq_ret [prog_simps, simp]: "seq (ret x) k w = k w"
  by (simp add: seq_bnd)

lemma seq_throw [prog_simps, simp]: "seq (throw e) k w = Inl e"
  by (simp add: seq_bnd)

lemma seq_call [prog_simps]: "seq (call g) k w = k (snd (g w))"
  by (simp add: seq_bnd bnd_call)

lemma seq_Inr [prog_simps]: "m w = Inr (x, w') \<Longrightarrow> seq m k w = k w'"
  by (simp add: seq_def)

lemma seq_Inl [prog_simps]: "m w = Inl e \<Longrightarrow> seq m k w = Inl e"
  by (simp add: seq_def)

lemma ifp_simps [prog_simps, simp]:
  "ifp True m = m"
  "ifp False m = ret ()"
  by (simp_all add: ifp_def)

lemma ret_apply [prog_simps]: "ret x w = Inr (x, w)"
  by (simp add: ret_def)

lemma lift_Inr_apply [prog_simps]: "lift (Inr x) w = Inr (x, w)"
  by (simp add: lift_def)

section \<open>Little-endian 16-bit accesses\<close>

definition lo8 :: "ushort \<Rightarrow> byte" where
  "lo8 v = ucast v"

definition hi8 :: "ushort \<Rightarrow> byte" where
  "hi8 v = ucast (drop_bit 8 v)"

definition le16 :: "byte \<Rightarrow> byte \<Rightarrow> ushort" where
  "le16 lo hi = ucast lo OR push_bit 8 (ucast hi)"

lemma le16_lo8_hi8 [simp]: "le16 (lo8 v) (hi8 v) = v"
  by (rule bit_word_eqI) (auto simp: le16_def lo8_def hi8_def bit_simps)

lemma lo8_le16 [simp]: "lo8 (le16 a b) = a"
  by (rule bit_word_eqI) (auto simp: le16_def lo8_def bit_simps)

lemma hi8_le16 [simp]: "hi8 (le16 a b) = b"
  by (rule bit_word_eqI) (auto simp: le16_def hi8_def bit_simps dest: bit_imp_le_length)

lemma ucast_ucast_byte [simp]:
  "ucast (ucast (v :: byte) :: 16 word) = v"
  "ucast (ucast v :: 17 word) = v"
  "ucast (ucast v :: 16 word) = (ucast v :: 4 word)"
  "ucast (ucast v :: 32 word) = v"
  by (rule bit_word_eqI; auto simp: bit_simps)+

lemma unat_ushort [simp]: "unat (v :: ushort) < 65536"
  using unsigned_less[where 'a=nat and w=v] by simp

lemma unat_byte [simp]: "unat (v :: byte) < 256"
  using unsigned_less[where 'a=nat and w=v] by simp

lemma unat_uint_of_nat: "n < 2 ^ 32 \<Longrightarrow> unat (of_nat n :: uint) = n"
  by (simp add: unsigned_of_nat take_bit_nat_eq_self)

section \<open>Heap buffers\<close>

text \<open>
  \<^verbatim>\<open>new BYTE[n]\<close> gives \<open>n\<close> cells with indeterminate content: a cell is \<open>None\<close> until it is
  written. A pointer into the middle of a buffer is the buffer and an offset.
\<close>

type_synonym buf = "byte option list"

definition new_buf :: "nat \<Rightarrow> buf" where
  "new_buf n = replicate n None"

definition buf_rd :: "buf \<Rightarrow> nat \<Rightarrow> fault + byte" where
  "buf_rd b i =
     (if i < length b then (case b ! i of None \<Rightarrow> Inl UninitRead | Some v \<Rightarrow> Inr v)
      else Inl OobRead)"

definition buf_wr :: "buf \<Rightarrow> nat \<Rightarrow> byte \<Rightarrow> fault + buf" where
  "buf_wr b i v = (if i < length b then Inr (b[i := Some v]) else Inl OobWrite)"

text \<open>\<^verbatim>\<open>*reinterpret_cast<USHORT*>(&b[i])\<close> as a value and as the target of an assignment.\<close>

definition buf_rd16 :: "buf \<Rightarrow> nat \<Rightarrow> fault + ushort" where
  "buf_rd16 b i =
     ebind (buf_rd b i) (\<lambda>lo. ebind (buf_rd b (i + 1)) (\<lambda>hi. Inr (le16 lo hi)))"

definition buf_wr16 :: "buf \<Rightarrow> nat \<Rightarrow> ushort \<Rightarrow> fault + buf" where
  "buf_wr16 b i v = ebind (buf_wr b i (lo8 v)) (\<lambda>b. buf_wr b (i + 1) (hi8 v))"

text \<open>The first \<open>n\<close> bytes at offset \<open>off\<close>, as a callee that is given pointer and length reads them.\<close>

fun buf_slice :: "buf \<Rightarrow> nat \<Rightarrow> nat \<Rightarrow> fault + byte list" where
  "buf_slice b off 0 = Inr []"
| "buf_slice b off (Suc n) =
     ebind (buf_rd b off) (\<lambda>v. ebind (buf_slice b (off + 1) n) (\<lambda>vs. Inr (v # vs)))"

text \<open>The loop \<^verbatim>\<open>for (i = 0; i < n; i++) dst[doff + i] = src[soff + i]\<close>, from index \<open>i\<close> on.\<close>

fun copy_bytes :: "buf \<Rightarrow> nat \<Rightarrow> buf \<Rightarrow> nat \<Rightarrow> nat \<Rightarrow> nat \<Rightarrow> fault + buf" where
  "copy_bytes dst doff src soff i 0 = Inr dst"
| "copy_bytes dst doff src soff i (Suc n) =
     ebind (buf_rd src (soff + i)) (\<lambda>v.
     ebind (buf_wr dst (doff + i) v) (\<lambda>dst.
     copy_bytes dst doff src soff (i + 1) n))"

lemma length_new_buf [simp]: "length (new_buf n) = n"
  by (simp add: new_buf_def)

lemma new_buf_eval [buf_simps, simp]:
  "new_buf 0 = []"
  "new_buf (Suc n) = None # new_buf n"
  "new_buf (numeral k) = None # new_buf (pred_numeral k)"
  "new_buf (numeral k + n) = None # new_buf (pred_numeral k + n)"
  by (simp_all add: new_buf_def numeral_eq_Suc)

lemma buf_rd_eval [buf_simps, simp]:
  "buf_rd [] i = Inl OobRead"
  "buf_rd (Some v # b) 0 = Inr v"
  "buf_rd (None # b) 0 = Inl UninitRead"
  "buf_rd (x # b) (Suc i) = buf_rd b i"
  "buf_rd (x # b) (numeral k) = buf_rd b (pred_numeral k)"
  by (simp_all add: buf_rd_def numeral_eq_Suc)

lemma buf_wr_eval [buf_simps, simp]:
  "buf_wr [] i v = Inl OobWrite"
  "buf_wr (x # b) 0 v = Inr (Some v # b)"
  "buf_wr (x # b) (Suc i) v = ebind (buf_wr b i v) (\<lambda>b. Inr (x # b))"
  "buf_wr (x # b) (numeral k) v = ebind (buf_wr b (pred_numeral k) v) (\<lambda>b. Inr (x # b))"
  by (simp_all add: buf_wr_def numeral_eq_Suc)

lemma buf_rd_map_Some [buf_simps, simp]: "i < length xs \<Longrightarrow> buf_rd (map Some xs) i = Inr (xs ! i)"
  by (simp add: buf_rd_def)

lemma buf_wr_len: "buf_wr b i v = Inr b' \<Longrightarrow> length b' = length b"
  by (auto simp: buf_wr_def split: if_splits)

lemma buf_slice_map_Some:
  "off + n \<le> length xs \<Longrightarrow> buf_slice (map Some xs) off n = Inr (take n (drop off xs))"
proof (induction n arbitrary: off)
  case 0
  then show ?case by simp
next
  case (Suc n)
  then have "off < length xs" by simp
  then have "take (Suc n) (drop off xs) = xs ! off # take n (drop (Suc off) xs)"
    by (simp add: Cons_nth_drop_Suc [symmetric])
  with Suc show ?case by simp
qed

lemma buf_slice_all [simp]: "n = length xs \<Longrightarrow> buf_slice (map Some xs) 0 n = Inr xs"
  by (simp add: buf_slice_map_Some)

text \<open>What the copy loop does when source and destination are large enough and initialised.\<close>

lemma copy_bytes_gen:
  assumes "\<And>j. j < n \<Longrightarrow> soff + i + j < length src \<and> src ! (soff + i + j) = Some (f j)"
    and "doff + i + n \<le> length dst"
  shows "copy_bytes dst doff src soff i n =
    Inr (take (doff + i) dst @ map (\<lambda>j. Some (f j)) [0..<n] @ drop (doff + i + n) dst)"
  using assms
proof (induction n arbitrary: i dst f)
  case 0
  then show ?case by simp
next
  case (Suc n)
  let ?dst = "dst[doff + i := Some (f 0)]"
  from Suc.prems(1)[of 0] have rd: "buf_rd src (soff + i) = Inr (f 0)"
    by (simp add: buf_rd_def)
  from Suc.prems(2) have wr: "buf_wr dst (doff + i) (f 0) = Inr ?dst"
    by (simp add: buf_wr_def)
  have "copy_bytes ?dst doff src soff (i + 1) n =
    Inr (take (doff + (i + 1)) ?dst @ map (\<lambda>j. Some (f (Suc j))) [0..<n] @
      drop (doff + (i + 1) + n) ?dst)"
    using Suc.prems(1)[of "Suc _"] Suc.prems(2) by (intro Suc.IH) simp_all
  moreover have "take (doff + (i + 1)) ?dst = take (doff + i) dst @ [Some (f 0)]"
    using Suc.prems(2) by (simp add: take_Suc_conv_app_nth)
  moreover have "map (\<lambda>j. Some (f j)) [0..<Suc n] = Some (f 0) # map (\<lambda>j. Some (f (Suc j))) [0..<n]"
    by (simp only: map_upt_Suc)
  ultimately show ?case using rd wr by (simp del: upt_Suc)
qed

lemma copy_bytes_map_Some:
  assumes "soff + n \<le> length xs" and "doff + n \<le> length dst"
  shows "copy_bytes dst doff (map Some xs) soff 0 n =
    Inr (take doff dst @ map Some (take n (drop soff xs)) @ drop (doff + n) dst)"
proof -
  have "copy_bytes dst doff (map Some xs) soff 0 n =
    Inr (take (doff + 0) dst @ map (\<lambda>j. Some (xs ! (soff + j))) [0..<n] @ drop (doff + 0 + n) dst)"
    using assms by (intro copy_bytes_gen) auto
  moreover have "map (\<lambda>j. Some (xs ! (soff + j))) [0..<n] = map Some (take n (drop soff xs))"
    using assms(1) by (intro nth_equalityI) auto
  ultimately show ?thesis by simp
qed

text \<open>The loop faults when a source cell is missing or was never written.\<close>

definition cell_ok :: "buf \<Rightarrow> nat \<Rightarrow> bool" where
  "cell_ok b i \<longleftrightarrow> i < length b \<and> b ! i \<noteq> None"

definition bad_read :: "fault \<Rightarrow> bool" where
  "bad_read e \<longleftrightarrow> e = OobRead \<or> e = UninitRead"

lemma buf_rd_cases: "(\<exists>v. buf_rd b i = Inr v) \<and> cell_ok b i \<or>
    (\<exists>e. buf_rd b i = Inl e \<and> bad_read e) \<and> \<not> cell_ok b i"
  by (cases "b ! i") (auto simp: buf_rd_def cell_ok_def bad_read_def)

lemma copy_bytes_short:
  assumes "j < n" and "\<not> cell_ok src (soff + i + j)" and "doff + i + n \<le> length dst"
  shows "\<exists>e. copy_bytes dst doff src soff i n = Inl e \<and> bad_read e"
  using assms
proof (induction n arbitrary: i j dst)
  case 0
  then show ?case by simp
next
  case (Suc n)
  consider v where "buf_rd src (soff + i) = Inr v" "cell_ok src (soff + i)"
    | e where "buf_rd src (soff + i) = Inl e" "bad_read e"
    using buf_rd_cases[of src "soff + i"] by blast
  then show ?case
  proof cases
    case 1
    then obtain j' where j: "j = Suc j'" using Suc.prems(2) by (cases j) auto
    let ?dst = "dst[doff + i := Some v]"
    have "\<exists>e. copy_bytes ?dst doff src soff (i + 1) n = Inl e \<and> bad_read e"
      using Suc.prems j by (intro Suc.IH[of j']) simp_all
    moreover have "buf_wr dst (doff + i) v = Inr ?dst"
      using Suc.prems(3) by (simp add: buf_wr_def)
    ultimately show ?thesis using 1 by simp
  qed simp
qed

lemma buf_rd16_short:
  assumes "\<not> cell_ok b i \<or> \<not> cell_ok b (i + 1)"
  shows "\<exists>e. buf_rd16 b i = Inl e \<and> bad_read e"
  using assms buf_rd_cases[of b i] buf_rd_cases[of b "i + 1"]
  by (auto simp: buf_rd16_def)

text \<open>Two non-empty lists among the ones that are joined.\<close>

lemma concat_map_twice:
  assumes "m < n" and "n < k" and "h m \<noteq> []" and "h n \<noteq> []"
  shows "2 \<le> length (concat (map h [0..<k]))"
proof -
  have "[0..<k] = [0..<m] @ [m] @ [Suc m..<n] @ [n] @ [Suc n..<k]"
    using assms(1,2) upt_add_eq_append[of 0 m "k - m"] upt_add_eq_append[of "Suc m" n "k - n"]
    by (simp add: upt_conv_Cons)
  then show ?thesis using assms(3,4) by (cases "h m"; cases "h n") simp_all
qed

end
