(* ===== verification/Packet.thy ===== *)
theory Packet
  imports Prelude
begin

text \<open>
  The packet classes of \<^verbatim>\<open>sw/src/dbgpacket.h\<close> and \<^verbatim>\<open>dbgpacket.cpp\<close>. An object is its class
  (a constructor of \<open>dbg_packet\<close>) around its one data member, the heap array \<open>m_pData\<close>. A class's
  constructor function is \<open>new_<Class>\<close>, its virtual methods are \<open><Class>_SizeInBytes\<close> and
  \<open><Class>_ReturnBytesExpected\<close>; \<open>SizeInBytes\<close>, \<open>ReturnBytesExpected\<close> and \<open>PacketData\<close> are the
  virtual calls. \<open>CreateObjFromString\<close> is the factory that parses the raw debug dialog's text.
\<close>

section \<open>Enumerations\<close>

datatype DbgPacketOpCode =
    OpEcho | OpCpuMemRd | OpCpuMemWr | OpDbgHlt | OpDbgRun | OpCpuRegRd | OpCpuRegWr
  | OpQueryHlt | OpQueryErrCode | OpPpuMemRd | OpPpuMemWr | OpPpuDisable | OpCartSetCfg

fun opcode :: "DbgPacketOpCode \<Rightarrow> byte" where
  "opcode OpEcho = 0x00"
| "opcode OpCpuMemRd = 0x01"
| "opcode OpCpuMemWr = 0x02"
| "opcode OpDbgHlt = 0x03"
| "opcode OpDbgRun = 0x04"
| "opcode OpCpuRegRd = 0x05"
| "opcode OpCpuRegWr = 0x06"
| "opcode OpQueryHlt = 0x07"
| "opcode OpQueryErrCode = 0x08"
| "opcode OpPpuMemRd = 0x09"
| "opcode OpPpuMemWr = 0x0A"
| "opcode OpPpuDisable = 0x0B"
| "opcode OpCartSetCfg = 0x0C"

text \<open>A value of the enum \<^verbatim>\<open>CpuReg\<close> is any integer a script casts to it, so it stays an integer.\<close>

datatype CpuRegName = RegPcl | RegPch | RegAc | RegX | RegY | RegP | RegS

fun CpuReg :: "CpuRegName \<Rightarrow> uint" where
  "CpuReg RegPcl = 0x00"
| "CpuReg RegPch = 0x01"
| "CpuReg RegAc = 0x02"
| "CpuReg RegX = 0x03"
| "CpuReg RegY = 0x04"
| "CpuReg RegP = 0x05"
| "CpuReg RegS = 0x06"

section \<open>Objects and constructors\<close>

datatype dbg_packet =
    EchoPacket buf
  | CpuMemRdPacket buf
  | CpuMemWrPacket buf
  | DbgHltPacket buf
  | DbgRunPacket buf
  | CpuRegRdPacket buf
  | CpuRegWrPacket buf
  | QueryHltPacket buf
  | PpuMemRdPacket buf
  | PpuMemWrPacket buf
  | PpuDisablePacket buf
  | CartSetCfgPacket buf

text \<open>\<^verbatim>\<open>pEchoData\<close> is a pointer: the buffer \<open>src\<close> and the offset \<open>off\<close> into it.\<close>

definition new_EchoPacket :: "buf \<Rightarrow> nat \<Rightarrow> ushort \<Rightarrow> fault + dbg_packet" where
  "new_EchoPacket src off numBytes =
     ebind (buf_wr (new_buf (1 + 2 + unat numBytes)) 0 (opcode OpEcho)) (\<lambda>m_pData.
     ebind (copy_bytes m_pData 3 src off 0 (unat numBytes)) (\<lambda>m_pData.
     ebind (buf_wr16 m_pData 1 numBytes) (\<lambda>m_pData.
     Inr (EchoPacket m_pData))))"

definition new_CpuMemRdPacket :: "ushort \<Rightarrow> ushort \<Rightarrow> fault + dbg_packet" where
  "new_CpuMemRdPacket addr numBytes =
     ebind (buf_wr (new_buf (1 + 2 + 2)) 0 (opcode OpCpuMemRd)) (\<lambda>m_pData.
     ebind (buf_wr16 m_pData 1 addr) (\<lambda>m_pData.
     ebind (buf_wr16 m_pData 3 numBytes) (\<lambda>m_pData.
     Inr (CpuMemRdPacket m_pData))))"

definition new_CpuMemWrPacket :: "ushort \<Rightarrow> ushort \<Rightarrow> buf \<Rightarrow> nat \<Rightarrow> fault + dbg_packet" where
  "new_CpuMemWrPacket addr numBytes pData off =
     ebind (buf_wr (new_buf (1 + 2 + 2 + unat numBytes)) 0 (opcode OpCpuMemWr)) (\<lambda>m_pData.
     ebind (buf_wr16 m_pData 1 addr) (\<lambda>m_pData.
     ebind (buf_wr16 m_pData 3 numBytes) (\<lambda>m_pData.
     ebind (copy_bytes m_pData 5 pData off 0 (unat numBytes)) (\<lambda>m_pData.
     Inr (CpuMemWrPacket m_pData)))))"

definition new_DbgHltPacket :: "fault + dbg_packet" where
  "new_DbgHltPacket =
     ebind (buf_wr (new_buf 1) 0 (opcode OpDbgHlt)) (\<lambda>m_pData. Inr (DbgHltPacket m_pData))"

definition new_DbgRunPacket :: "fault + dbg_packet" where
  "new_DbgRunPacket =
     ebind (buf_wr (new_buf 1) 0 (opcode OpDbgRun)) (\<lambda>m_pData. Inr (DbgRunPacket m_pData))"

definition new_CpuRegRdPacket :: "uint \<Rightarrow> fault + dbg_packet" where
  "new_CpuRegRdPacket reg =
     ebind (buf_wr (new_buf (1 + 1)) 0 (opcode OpCpuRegRd)) (\<lambda>m_pData.
     ebind (buf_wr m_pData 1 (ucast reg)) (\<lambda>m_pData.
     Inr (CpuRegRdPacket m_pData)))"

definition new_CpuRegWrPacket :: "uint \<Rightarrow> byte \<Rightarrow> fault + dbg_packet" where
  "new_CpuRegWrPacket reg val =
     ebind (buf_wr (new_buf (1 + 1 + 1)) 0 (opcode OpCpuRegWr)) (\<lambda>m_pData.
     ebind (buf_wr m_pData 1 (ucast reg)) (\<lambda>m_pData.
     ebind (buf_wr m_pData 2 val) (\<lambda>m_pData.
     Inr (CpuRegWrPacket m_pData))))"

definition new_QueryHltPacket :: "fault + dbg_packet" where
  "new_QueryHltPacket =
     ebind (buf_wr (new_buf 1) 0 (opcode OpQueryHlt)) (\<lambda>m_pData. Inr (QueryHltPacket m_pData))"

definition new_PpuMemRdPacket :: "ushort \<Rightarrow> ushort \<Rightarrow> fault + dbg_packet" where
  "new_PpuMemRdPacket addr numBytes =
     ebind (buf_wr (new_buf (1 + 2 + 2)) 0 (opcode OpPpuMemRd)) (\<lambda>m_pData.
     ebind (buf_wr16 m_pData 1 addr) (\<lambda>m_pData.
     ebind (buf_wr16 m_pData 3 numBytes) (\<lambda>m_pData.
     Inr (PpuMemRdPacket m_pData))))"

definition new_PpuMemWrPacket :: "ushort \<Rightarrow> ushort \<Rightarrow> buf \<Rightarrow> nat \<Rightarrow> fault + dbg_packet" where
  "new_PpuMemWrPacket addr numBytes pData off =
     ebind (buf_wr (new_buf (1 + 2 + 2 + unat numBytes)) 0 (opcode OpPpuMemWr)) (\<lambda>m_pData.
     ebind (buf_wr16 m_pData 1 addr) (\<lambda>m_pData.
     ebind (buf_wr16 m_pData 3 numBytes) (\<lambda>m_pData.
     ebind (copy_bytes m_pData 5 pData off 0 (unat numBytes)) (\<lambda>m_pData.
     Inr (PpuMemWrPacket m_pData)))))"

definition new_PpuDisablePacket :: "fault + dbg_packet" where
  "new_PpuDisablePacket =
     ebind (buf_wr (new_buf 1) 0 (opcode OpPpuDisable)) (\<lambda>m_pData. Inr (PpuDisablePacket m_pData))"

definition new_CartSetCfgPacket :: "buf \<Rightarrow> fault + dbg_packet" where
  "new_CartSetCfgPacket pINesHeader =
     ebind (buf_wr (new_buf (1 + 5)) 0 (opcode OpCartSetCfg)) (\<lambda>m_pData.
     ebind (buf_rd pINesHeader 4) (\<lambda>h4. ebind (buf_wr m_pData 1 h4) (\<lambda>m_pData.
     ebind (buf_rd pINesHeader 5) (\<lambda>h5. ebind (buf_wr m_pData 2 h5) (\<lambda>m_pData.
     ebind (buf_rd pINesHeader 6) (\<lambda>h6. ebind (buf_wr m_pData 3 h6) (\<lambda>m_pData.
     ebind (buf_rd pINesHeader 7) (\<lambda>h7. ebind (buf_wr m_pData 4 h7) (\<lambda>m_pData.
     ebind (buf_rd pINesHeader 8) (\<lambda>h8. ebind (buf_wr m_pData 5 h8) (\<lambda>m_pData.
     Inr (CartSetCfgPacket m_pData))))))))))))"

section \<open>Virtual methods\<close>

text \<open>The sizes are sums of \<^verbatim>\<open>sizeof\<close> terms, computed as 32-bit unsigned values.\<close>

definition EchoPacket_SizeInBytes :: "buf \<Rightarrow> fault + uint" where
  "EchoPacket_SizeInBytes m_pData = ebind (buf_rd16 m_pData 1) (\<lambda>n. Inr (1 + 2 + ucast n))"

definition EchoPacket_ReturnBytesExpected :: "buf \<Rightarrow> fault + uint" where
  "EchoPacket_ReturnBytesExpected m_pData = ebind (buf_rd16 m_pData 1) (\<lambda>n. Inr (ucast n))"

definition CpuMemRdPacket_SizeInBytes :: "buf \<Rightarrow> fault + uint" where
  "CpuMemRdPacket_SizeInBytes m_pData = Inr (1 + 2 + 2)"

definition CpuMemRdPacket_ReturnBytesExpected :: "buf \<Rightarrow> fault + uint" where
  "CpuMemRdPacket_ReturnBytesExpected m_pData = ebind (buf_rd16 m_pData 3) (\<lambda>n. Inr (ucast n))"

definition CpuMemWrPacket_SizeInBytes :: "buf \<Rightarrow> fault + uint" where
  "CpuMemWrPacket_SizeInBytes m_pData = ebind (buf_rd16 m_pData 3) (\<lambda>n. Inr (1 + 2 + 2 + ucast n))"

definition CpuMemWrPacket_ReturnBytesExpected :: "buf \<Rightarrow> fault + uint" where
  "CpuMemWrPacket_ReturnBytesExpected m_pData = Inr 0"

definition CpuRegRdPacket_SizeInBytes :: "buf \<Rightarrow> fault + uint" where
  "CpuRegRdPacket_SizeInBytes m_pData = Inr (1 + 1)"

definition CpuRegRdPacket_ReturnBytesExpected :: "buf \<Rightarrow> fault + uint" where
  "CpuRegRdPacket_ReturnBytesExpected m_pData = Inr 1"

definition CpuRegWrPacket_SizeInBytes :: "buf \<Rightarrow> fault + uint" where
  "CpuRegWrPacket_SizeInBytes m_pData = Inr (1 + 1 + 1)"

definition CpuRegWrPacket_ReturnBytesExpected :: "buf \<Rightarrow> fault + uint" where
  "CpuRegWrPacket_ReturnBytesExpected m_pData = Inr 0"

definition QueryHltPacket_SizeInBytes :: "buf \<Rightarrow> fault + uint" where
  "QueryHltPacket_SizeInBytes m_pData = Inr 1"

definition QueryHltPacket_ReturnBytesExpected :: "buf \<Rightarrow> fault + uint" where
  "QueryHltPacket_ReturnBytesExpected m_pData = Inr 1"

definition PpuMemRdPacket_SizeInBytes :: "buf \<Rightarrow> fault + uint" where
  "PpuMemRdPacket_SizeInBytes m_pData = Inr (1 + 2 + 2)"

definition PpuMemRdPacket_ReturnBytesExpected :: "buf \<Rightarrow> fault + uint" where
  "PpuMemRdPacket_ReturnBytesExpected m_pData = ebind (buf_rd16 m_pData 3) (\<lambda>n. Inr (ucast n))"

definition PpuMemWrPacket_SizeInBytes :: "buf \<Rightarrow> fault + uint" where
  "PpuMemWrPacket_SizeInBytes m_pData = ebind (buf_rd16 m_pData 3) (\<lambda>n. Inr (1 + 2 + 2 + ucast n))"

definition PpuMemWrPacket_ReturnBytesExpected :: "buf \<Rightarrow> fault + uint" where
  "PpuMemWrPacket_ReturnBytesExpected m_pData = Inr 0"

definition CartSetCfgPacket_SizeInBytes :: "buf \<Rightarrow> fault + uint" where
  "CartSetCfgPacket_SizeInBytes m_pData = Inr (1 + 5 * 1)"

text \<open>The virtual calls. The classes without an out-of-line method answer inline in the header.\<close>

fun PacketData :: "dbg_packet \<Rightarrow> buf" where
  "PacketData (EchoPacket m) = m"
| "PacketData (CpuMemRdPacket m) = m"
| "PacketData (CpuMemWrPacket m) = m"
| "PacketData (DbgHltPacket m) = m"
| "PacketData (DbgRunPacket m) = m"
| "PacketData (CpuRegRdPacket m) = m"
| "PacketData (CpuRegWrPacket m) = m"
| "PacketData (QueryHltPacket m) = m"
| "PacketData (PpuMemRdPacket m) = m"
| "PacketData (PpuMemWrPacket m) = m"
| "PacketData (PpuDisablePacket m) = m"
| "PacketData (CartSetCfgPacket m) = m"

fun SizeInBytes :: "dbg_packet \<Rightarrow> fault + uint" where
  "SizeInBytes (EchoPacket m) = EchoPacket_SizeInBytes m"
| "SizeInBytes (CpuMemRdPacket m) = CpuMemRdPacket_SizeInBytes m"
| "SizeInBytes (CpuMemWrPacket m) = CpuMemWrPacket_SizeInBytes m"
| "SizeInBytes (DbgHltPacket m) = Inr 1"
| "SizeInBytes (DbgRunPacket m) = Inr 1"
| "SizeInBytes (CpuRegRdPacket m) = CpuRegRdPacket_SizeInBytes m"
| "SizeInBytes (CpuRegWrPacket m) = CpuRegWrPacket_SizeInBytes m"
| "SizeInBytes (QueryHltPacket m) = QueryHltPacket_SizeInBytes m"
| "SizeInBytes (PpuMemRdPacket m) = PpuMemRdPacket_SizeInBytes m"
| "SizeInBytes (PpuMemWrPacket m) = PpuMemWrPacket_SizeInBytes m"
| "SizeInBytes (PpuDisablePacket m) = Inr 1"
| "SizeInBytes (CartSetCfgPacket m) = CartSetCfgPacket_SizeInBytes m"

fun ReturnBytesExpected :: "dbg_packet \<Rightarrow> fault + uint" where
  "ReturnBytesExpected (EchoPacket m) = EchoPacket_ReturnBytesExpected m"
| "ReturnBytesExpected (CpuMemRdPacket m) = CpuMemRdPacket_ReturnBytesExpected m"
| "ReturnBytesExpected (CpuMemWrPacket m) = CpuMemWrPacket_ReturnBytesExpected m"
| "ReturnBytesExpected (DbgHltPacket m) = Inr 0"
| "ReturnBytesExpected (DbgRunPacket m) = Inr 0"
| "ReturnBytesExpected (CpuRegRdPacket m) = CpuRegRdPacket_ReturnBytesExpected m"
| "ReturnBytesExpected (CpuRegWrPacket m) = CpuRegWrPacket_ReturnBytesExpected m"
| "ReturnBytesExpected (QueryHltPacket m) = QueryHltPacket_ReturnBytesExpected m"
| "ReturnBytesExpected (PpuMemRdPacket m) = PpuMemRdPacket_ReturnBytesExpected m"
| "ReturnBytesExpected (PpuMemWrPacket m) = PpuMemWrPacket_ReturnBytesExpected m"
| "ReturnBytesExpected (PpuDisablePacket m) = Inr 0"
| "ReturnBytesExpected (CartSetCfgPacket m) = Inr 0"

section \<open>The factory for typed-in packets\<close>

text \<open>
  One character of the input: \<^verbatim>\<open>static_cast<BYTE>\<close> keeps the low byte of the TCHAR, then the
  comparisons decide between a digit's value, a blank (\<^verbatim>\<open>continue\<close>) and anything else.
\<close>

datatype scan_class = Nibble byte | Blank | Invalid

definition classify :: "tchar \<Rightarrow> scan_class" where
  "classify c =
     (let input = (ucast c :: byte) in
      if 0x30 \<le> input \<and> input \<le> 0x39 then Nibble (input - 0x30)
      else if 0x61 \<le> input \<and> input \<le> 0x66 then Nibble (input - 0x61 + 0xA)
      else if 0x41 \<le> input \<and> input \<le> 0x46 then Nibble (input - 0x41 + 0xA)
      else if input = 0x20 then Blank
      else Invalid)"

text \<open>The loop over the string: the array, \<^verbatim>\<open>nibbleIdx\<close>, and \<^verbatim>\<open>success\<close> when it is left.\<close>

fun scan_hex :: "tchar list \<Rightarrow> buf \<Rightarrow> nat \<Rightarrow> fault + (buf \<times> nat \<times> bool)" where
  "scan_hex [] pRawData nibbleIdx = Inr (pRawData, nibbleIdx, True)"
| "scan_hex (c # cs) pRawData nibbleIdx =
     (case classify c of
        Invalid \<Rightarrow> Inr (pRawData, nibbleIdx, False)
      | Blank \<Rightarrow> scan_hex cs pRawData nibbleIdx
      | Nibble nibble \<Rightarrow>
          ebind (if odd nibbleIdx
                 then ebind (buf_rd pRawData (nibbleIdx div 2)) (\<lambda>v. Inr (v OR nibble))
                 else Inr (push_bit 4 nibble)) (\<lambda>v.
          ebind (buf_wr pRawData (nibbleIdx div 2) v) (\<lambda>pRawData.
          scan_hex cs pRawData (Suc nibbleIdx))))"

text \<open>The switch on the first byte; any other opcode leaves the result NULL.\<close>

definition packet_of_raw :: "buf \<Rightarrow> fault + dbg_packet option" where
  "packet_of_raw pRawData =
     ebind (buf_rd pRawData 0) (\<lambda>op.
     if op = opcode OpEcho then
       ebind (buf_rd16 pRawData 1) (\<lambda>numEchoBytes.
       ebind (new_EchoPacket pRawData 3 numEchoBytes) (\<lambda>p. Inr (Some p)))
     else if op = opcode OpCpuMemRd then
       ebind (buf_rd16 pRawData 1) (\<lambda>addr.
       ebind (buf_rd16 pRawData 3) (\<lambda>numBytes.
       ebind (new_CpuMemRdPacket addr numBytes) (\<lambda>p. Inr (Some p))))
     else if op = opcode OpCpuMemWr then
       ebind (buf_rd16 pRawData 1) (\<lambda>addr.
       ebind (buf_rd16 pRawData 3) (\<lambda>numBytes.
       ebind (new_CpuMemWrPacket addr numBytes pRawData 5) (\<lambda>p. Inr (Some p))))
     else Inr None)"

definition CreateObjFromString :: "tchar list \<Rightarrow> fault + dbg_packet option" where
  "CreateObjFromString pString =
     ebind (scan_hex pString (new_buf (length pString div 2)) 0)
       (\<lambda>(pRawData, nibbleIdx, success).
          if success \<and> even nibbleIdx then packet_of_raw pRawData else Inr None)"

end
