(* ===== verification/Protocol.thy ===== *)
theory Protocol
  imports Packet
begin

text \<open>
  The debug protocol as both ends understand it: the abstract commands, their wire format (the
  packet layouts that the comments of \<^verbatim>\<open>hw/src/hci/hci.v\<close> list and that the packet classes
  build) and the number of reply bytes. The lemmas show that the packet classes implement it:
  every constructor succeeds and its array is exactly the encoding, the size it reports is the
  size of that array, and the reply size it announces is the protocol's.
\<close>

section \<open>Commands and their wire format\<close>

datatype cmd =
    Echo "byte list"
  | CpuMemRd ushort ushort          \<comment> \<open>address, count\<close>
  | CpuMemWr ushort "byte list"
  | DbgHlt
  | DbgRun
  | CpuRegRd byte
  | CpuRegWr byte byte
  | QueryHlt
  | QueryErrCode
  | PpuMemRd ushort ushort
  | PpuMemWr ushort "byte list"
  | PpuDisable
  | CartSetCfg byte byte byte byte byte

definition len16 :: "byte list \<Rightarrow> ushort" where
  "len16 ds = of_nat (length ds)"

definition bytes16 :: "ushort \<Rightarrow> byte list" where
  "bytes16 v = [lo8 v, hi8 v]"

fun encode :: "cmd \<Rightarrow> byte list" where
  "encode (Echo ds) = opcode OpEcho # bytes16 (len16 ds) @ ds"
| "encode (CpuMemRd a n) = opcode OpCpuMemRd # bytes16 a @ bytes16 n"
| "encode (CpuMemWr a ds) = opcode OpCpuMemWr # bytes16 a @ bytes16 (len16 ds) @ ds"
| "encode DbgHlt = [opcode OpDbgHlt]"
| "encode DbgRun = [opcode OpDbgRun]"
| "encode (CpuRegRd r) = [opcode OpCpuRegRd, r]"
| "encode (CpuRegWr r v) = [opcode OpCpuRegWr, r, v]"
| "encode QueryHlt = [opcode OpQueryHlt]"
| "encode QueryErrCode = [opcode OpQueryErrCode]"
| "encode (PpuMemRd a n) = opcode OpPpuMemRd # bytes16 a @ bytes16 n"
| "encode (PpuMemWr a ds) = opcode OpPpuMemWr # bytes16 a @ bytes16 (len16 ds) @ ds"
| "encode PpuDisable = [opcode OpPpuDisable]"
| "encode (CartSetCfg b4 b5 b6 b7 b8) = [opcode OpCartSetCfg, b4, b5, b6, b7, b8]"

text \<open>A length field has 16 bits, so a payload has fewer than 65536 bytes.\<close>

fun payload :: "cmd \<Rightarrow> byte list" where
  "payload (Echo ds) = ds"
| "payload (CpuMemWr a ds) = ds"
| "payload (PpuMemWr a ds) = ds"
| "payload _ = []"

definition wf_cmd :: "cmd \<Rightarrow> bool" where
  "wf_cmd c \<longleftrightarrow> length (payload c) < 65536"

fun reply_len :: "cmd \<Rightarrow> nat" where
  "reply_len (Echo ds) = length ds"
| "reply_len (CpuMemRd a n) = unat n"
| "reply_len (PpuMemRd a n) = unat n"
| "reply_len (CpuRegRd r) = 1"
| "reply_len QueryHlt = 1"
| "reply_len QueryErrCode = 1"
| "reply_len _ = 0"

lemma unat_len16 [simp]: "length ds < 65536 \<Longrightarrow> unat (len16 ds) = length ds"
  by (simp add: len16_def unat_of_nat take_bit_nat_eq_self)

lemma length_bytes16 [simp]: "length (bytes16 v) = 2"
  by (simp add: bytes16_def)

section \<open>The packet constructors build the wire format\<close>

text \<open>\<open>ds\<close> lies, initialised, at offset \<open>off\<close> of the buffer \<open>src\<close>.\<close>

definition at_off :: "buf \<Rightarrow> nat \<Rightarrow> byte list \<Rightarrow> bool" where
  "at_off src off ds \<longleftrightarrow> take (length ds) (drop off src) = map Some ds"

lemma at_off_nth:
  assumes "at_off src off ds" and "j < length ds"
  shows "off + j < length src" and "src ! (off + j) = Some (ds ! j)"
proof -
  have eq: "take (length ds) (drop off src) = map Some ds"
    using assms(1) by (simp add: at_off_def)
  from arg_cong[OF eq, of length] assms(2) show l: "off + j < length src" by simp
  from arg_cong[OF eq, of "\<lambda>l. l ! j"] assms(2) l show "src ! (off + j) = Some (ds ! j)" by simp
qed

lemma at_off_Nil [simp]: "at_off src off []"
  by (simp add: at_off_def)

lemma at_off_map_Some [simp]: "at_off (map Some ds) 0 ds"
  by (simp add: at_off_def)

lemma at_off_map_Some_append [simp]: "at_off (map Some (xs @ ds @ ys) @ rest) (length xs) ds"
  by (simp add: at_off_def)

lemma copy_bytes_at:
  assumes "at_off src off ds" and "doff + length ds \<le> length dst"
  shows "copy_bytes dst doff src off 0 (length ds) =
    Inr (take doff dst @ map Some ds @ drop (doff + length ds) dst)"
proof -
  have "copy_bytes dst doff src off 0 (length ds) =
    Inr (take (doff + 0) dst @ map (\<lambda>j. Some (ds ! j)) [0..<length ds] @
      drop (doff + 0 + length ds) dst)"
    using at_off_nth[OF assms(1)] assms(2) by (intro copy_bytes_gen) auto
  moreover have "map (\<lambda>j. Some (ds ! j)) [0..<length ds] = map Some ds"
    by (intro nth_equalityI) auto
  ultimately show ?thesis by simp
qed

lemmas packet_build = buf_wr16_def bytes16_def copy_bytes_at

lemma new_EchoPacket_at:
  assumes "at_off src off ds" and "length ds < 65536"
  shows "new_EchoPacket src off (len16 ds) = Inr (EchoPacket (map Some (encode (Echo ds))))"
  using assms by (simp add: new_EchoPacket_def packet_build)

lemma new_CpuMemRdPacket_eq:
  "new_CpuMemRdPacket a n = Inr (CpuMemRdPacket (map Some (encode (CpuMemRd a n))))"
  by (simp add: new_CpuMemRdPacket_def packet_build)

lemma new_CpuMemWrPacket_at:
  assumes "at_off src off ds" and "length ds < 65536"
  shows "new_CpuMemWrPacket a (len16 ds) src off =
    Inr (CpuMemWrPacket (map Some (encode (CpuMemWr a ds))))"
  using assms by (simp add: new_CpuMemWrPacket_def packet_build)

lemma new_PpuMemRdPacket_eq:
  "new_PpuMemRdPacket a n = Inr (PpuMemRdPacket (map Some (encode (PpuMemRd a n))))"
  by (simp add: new_PpuMemRdPacket_def packet_build)

lemma new_PpuMemWrPacket_at:
  assumes "at_off src off ds" and "length ds < 65536"
  shows "new_PpuMemWrPacket a (len16 ds) src off =
    Inr (PpuMemWrPacket (map Some (encode (PpuMemWr a ds))))"
  using assms by (simp add: new_PpuMemWrPacket_def packet_build)

lemma new_CpuRegRdPacket_eq:
  "new_CpuRegRdPacket r = Inr (CpuRegRdPacket (map Some (encode (CpuRegRd (ucast r)))))"
  by (simp add: new_CpuRegRdPacket_def packet_build)

lemma new_CpuRegWrPacket_eq:
  "new_CpuRegWrPacket r v = Inr (CpuRegWrPacket (map Some (encode (CpuRegWr (ucast r) v))))"
  by (simp add: new_CpuRegWrPacket_def packet_build)

lemma new_simple_packets:
  "new_DbgHltPacket = Inr (DbgHltPacket (map Some (encode DbgHlt)))"
  "new_DbgRunPacket = Inr (DbgRunPacket (map Some (encode DbgRun)))"
  "new_QueryHltPacket = Inr (QueryHltPacket (map Some (encode QueryHlt)))"
  "new_PpuDisablePacket = Inr (PpuDisablePacket (map Some (encode PpuDisable)))"
  by (simp_all add: new_DbgHltPacket_def new_DbgRunPacket_def new_QueryHltPacket_def
      new_PpuDisablePacket_def)

lemma new_CartSetCfgPacket_at:
  assumes "at_off hdr 4 [b4, b5, b6, b7, b8]"
  shows "new_CartSetCfgPacket hdr = Inr (CartSetCfgPacket (map Some (encode (CartSetCfg b4 b5 b6 b7 b8))))"
proof -
  have "hdr ! (4 + j) = Some ([b4, b5, b6, b7, b8] ! j) \<and> 4 + j < length hdr" if "j < 5" for j
    using at_off_nth[OF assms, of j] that by simp
  from this[of 0] this[of 1] this[of 2] this[of 3] this[of 4]
  have "buf_rd hdr 4 = Inr b4" "buf_rd hdr 5 = Inr b5" "buf_rd hdr 6 = Inr b6"
    "buf_rd hdr 7 = Inr b7" "buf_rd hdr 8 = Inr b8"
    by (simp_all add: buf_rd_def)
  then show ?thesis by (simp add: new_CartSetCfgPacket_def)
qed

text \<open>A constructor that copies a payload faults when the source is too short.\<close>

lemma new_EchoPacket_short:
  assumes "j < unat n" and "\<not> cell_ok src (off + j)"
  shows "\<exists>e. new_EchoPacket src off n = Inl e \<and> bad_read e"
proof -
  let ?dst = "Some (opcode OpEcho) # None # None # new_buf (unat n)"
  have "\<exists>e. copy_bytes ?dst 3 src off 0 (unat n) = Inl e \<and> bad_read e"
    using assms by (intro copy_bytes_short[of j]) simp_all
  then show ?thesis by (auto simp: new_EchoPacket_def)
qed

lemma new_CpuMemWrPacket_short:
  assumes "j < unat n" and "\<not> cell_ok src (off + j)"
  shows "\<exists>e. new_CpuMemWrPacket a n src off = Inl e \<and> bad_read e"
proof -
  let ?dst = "map Some (opcode OpCpuMemWr # bytes16 a @ bytes16 n) @ new_buf (unat n)"
  have "\<exists>e. copy_bytes ?dst 5 src off 0 (unat n) = Inl e \<and> bad_read e"
    using assms by (intro copy_bytes_short[of j]) (simp_all add: bytes16_def)
  then show ?thesis by (auto simp: new_CpuMemWrPacket_def buf_wr16_def bytes16_def)
qed

lemmas packet_ctors =
  new_CpuMemRdPacket_eq new_PpuMemRdPacket_eq new_CpuRegRdPacket_eq new_CpuRegWrPacket_eq
  new_simple_packets

section \<open>Which object carries which command\<close>

text \<open>
  \<open>carries p c\<close>: the object \<open>p\<close> is what the class of command \<open>c\<close> builds for it. No class
  exists for \<open>QueryErrCode\<close>, although the opcode is enumerated.
\<close>

fun class_op :: "dbg_packet \<Rightarrow> DbgPacketOpCode" where
  "class_op (EchoPacket m) = OpEcho"
| "class_op (CpuMemRdPacket m) = OpCpuMemRd"
| "class_op (CpuMemWrPacket m) = OpCpuMemWr"
| "class_op (DbgHltPacket m) = OpDbgHlt"
| "class_op (DbgRunPacket m) = OpDbgRun"
| "class_op (CpuRegRdPacket m) = OpCpuRegRd"
| "class_op (CpuRegWrPacket m) = OpCpuRegWr"
| "class_op (QueryHltPacket m) = OpQueryHlt"
| "class_op (PpuMemRdPacket m) = OpPpuMemRd"
| "class_op (PpuMemWrPacket m) = OpPpuMemWr"
| "class_op (PpuDisablePacket m) = OpPpuDisable"
| "class_op (CartSetCfgPacket m) = OpCartSetCfg"

fun cmd_op :: "cmd \<Rightarrow> DbgPacketOpCode" where
  "cmd_op (Echo ds) = OpEcho"
| "cmd_op (CpuMemRd a n) = OpCpuMemRd"
| "cmd_op (CpuMemWr a ds) = OpCpuMemWr"
| "cmd_op DbgHlt = OpDbgHlt"
| "cmd_op DbgRun = OpDbgRun"
| "cmd_op (CpuRegRd r) = OpCpuRegRd"
| "cmd_op (CpuRegWr r v) = OpCpuRegWr"
| "cmd_op QueryHlt = OpQueryHlt"
| "cmd_op QueryErrCode = OpQueryErrCode"
| "cmd_op (PpuMemRd a n) = OpPpuMemRd"
| "cmd_op (PpuMemWr a ds) = OpPpuMemWr"
| "cmd_op PpuDisable = OpPpuDisable"
| "cmd_op (CartSetCfg b4 b5 b6 b7 b8) = OpCartSetCfg"

definition carries :: "dbg_packet \<Rightarrow> cmd \<Rightarrow> bool" where
  "carries p c \<longleftrightarrow> class_op p = cmd_op c \<and> PacketData p = map Some (encode c)"

lemmas packet_methods =
  EchoPacket_SizeInBytes_def EchoPacket_ReturnBytesExpected_def
  CpuMemRdPacket_SizeInBytes_def CpuMemRdPacket_ReturnBytesExpected_def
  CpuMemWrPacket_SizeInBytes_def CpuMemWrPacket_ReturnBytesExpected_def
  CpuRegRdPacket_SizeInBytes_def CpuRegRdPacket_ReturnBytesExpected_def
  CpuRegWrPacket_SizeInBytes_def CpuRegWrPacket_ReturnBytesExpected_def
  QueryHltPacket_SizeInBytes_def QueryHltPacket_ReturnBytesExpected_def
  PpuMemRdPacket_SizeInBytes_def PpuMemRdPacket_ReturnBytesExpected_def
  PpuMemWrPacket_SizeInBytes_def PpuMemWrPacket_ReturnBytesExpected_def
  CartSetCfgPacket_SizeInBytes_def

lemma ucast_len16: "length ds < 65536 \<Longrightarrow> (ucast (len16 ds) :: uint) = of_nat (length ds)"
  by (simp add: len16_def unsigned_of_nat take_bit_nat_eq_self)

lemma carries_PacketData: "carries p c \<Longrightarrow> PacketData p = map Some (encode c)"
  by (simp add: carries_def)

lemma carries_SizeInBytes:
  assumes "carries p c" and "wf_cmd c"
  shows "SizeInBytes p = Inr (of_nat (length (encode c)))"
  using assms by (cases p; cases c)
    (simp_all add: carries_def packet_methods wf_cmd_def bytes16_def buf_rd16_def ucast_len16)

lemma carries_ReturnBytesExpected:
  assumes "carries p c" and "wf_cmd c"
  shows "ReturnBytesExpected p = Inr (of_nat (reply_len c))"
  using assms by (cases p; cases c)
    (simp_all add: carries_def packet_methods wf_cmd_def bytes16_def buf_rd16_def ucast_len16)

lemma length_encode: "wf_cmd c \<Longrightarrow> length (encode c) < 65541"
  by (cases c) (simp_all add: wf_cmd_def)

lemma reply_len_bound: "wf_cmd c \<Longrightarrow> reply_len c < 65536"
  by (cases c) (simp_all add: wf_cmd_def)


section \<open>Decoding\<close>

text \<open>The inverse of \<open>encode\<close>, as a receiver that sees a whole packet would compute it.\<close>

definition sized :: "(byte list \<Rightarrow> cmd) \<Rightarrow> byte list \<Rightarrow> cmd option" where
  "sized c bs = (case bs of lo # hi # ds \<Rightarrow> if length ds = unat (le16 lo hi) then Some (c ds) else None | _ \<Rightarrow> None)"

definition addressed :: "(ushort \<Rightarrow> byte list \<Rightarrow> cmd option) \<Rightarrow> byte list \<Rightarrow> cmd option" where
  "addressed f bs = (case bs of lo # hi # ds \<Rightarrow> f (le16 lo hi) ds | _ \<Rightarrow> None)"

definition decode :: "byte list \<Rightarrow> cmd option" where
  "decode bs0 = (case bs0 of [] \<Rightarrow> None | op # bs \<Rightarrow>
     if op = opcode OpEcho then sized Echo bs
     else if op = opcode OpCpuMemRd then
       addressed (\<lambda>a. addressed (\<lambda>n ds. if ds = [] then Some (CpuMemRd a n) else None)) bs
     else if op = opcode OpCpuMemWr then addressed (\<lambda>a. sized (CpuMemWr a)) bs
     else if op = opcode OpDbgHlt then (if bs = [] then Some DbgHlt else None)
     else if op = opcode OpDbgRun then (if bs = [] then Some DbgRun else None)
     else if op = opcode OpCpuRegRd then (case bs of [r] \<Rightarrow> Some (CpuRegRd r) | _ \<Rightarrow> None)
     else if op = opcode OpCpuRegWr then (case bs of [r, v] \<Rightarrow> Some (CpuRegWr r v) | _ \<Rightarrow> None)
     else if op = opcode OpQueryHlt then (if bs = [] then Some QueryHlt else None)
     else if op = opcode OpQueryErrCode then (if bs = [] then Some QueryErrCode else None)
     else if op = opcode OpPpuMemRd then
       addressed (\<lambda>a. addressed (\<lambda>n ds. if ds = [] then Some (PpuMemRd a n) else None)) bs
     else if op = opcode OpPpuMemWr then addressed (\<lambda>a. sized (PpuMemWr a)) bs
     else if op = opcode OpPpuDisable then (if bs = [] then Some PpuDisable else None)
     else if op = opcode OpCartSetCfg then
       (case bs of [b4, b5, b6, b7, b8] \<Rightarrow> Some (CartSetCfg b4 b5 b6 b7 b8) | _ \<Rightarrow> None)
     else None)"

lemma decode_encode: "wf_cmd c \<Longrightarrow> decode (encode c) = Some c"
  by (cases c) (simp_all add: decode_def sized_def addressed_def bytes16_def wf_cmd_def)

lemma len16_unat: "length ds = unat n \<Longrightarrow> len16 ds = n"
  by (simp add: len16_def)

lemma bytes16_le16 [simp]: "bytes16 (le16 lo hi) = [lo, hi]"
  by (simp add: bytes16_def)

lemma sized_Some: "sized f bs = Some c \<longleftrightarrow> (\<exists>ds. c = f ds \<and> bs = bytes16 (len16 ds) @ ds \<and> length ds < 65536)"
proof
  assume "sized f bs = Some c"
  then obtain lo hi ds where "bs = lo # hi # ds" "length ds = unat (le16 lo hi)" "c = f ds"
    by (auto simp: sized_def split: list.splits if_splits)
  then show "\<exists>ds. c = f ds \<and> bs = bytes16 (len16 ds) @ ds \<and> length ds < 65536"
    by (auto simp: len16_unat intro!: exI[of _ ds])
qed (auto simp: sized_def bytes16_def)

lemma addressed_Some: "addressed f bs = Some c \<longleftrightarrow> (\<exists>a ds. f a ds = Some c \<and> bs = bytes16 a @ ds)"
proof
  assume "addressed f bs = Some c"
  then show "\<exists>a ds. f a ds = Some c \<and> bs = bytes16 a @ ds"
    by (auto simp: addressed_def split: list.splits intro!: exI[of _ "le16 _ _"])
qed (auto simp: addressed_def bytes16_def)

lemma decode_Some: "decode bs = Some c \<Longrightarrow> bs = encode c \<and> wf_cmd c"
  by (auto simp: decode_def sized_Some addressed_Some wf_cmd_def split: list.splits if_splits)

end
