(* ===== verification/Hci.thy ===== *)
theory Hci
  imports Prelude
begin

text \<open>
  The host communication interface \<^verbatim>\<open>hw/src/hci/hci.v\<close>, the FPGA end of the debug protocol:
  its flip-flops (\<open>hci_regs\<close>), its inputs and combinational outputs in one clock cycle, and the
  \<^verbatim>\<open>always @*\<close> block (\<open>hci_comb\<close>), one definition per group of states. The \<open>d\<close> argument is the
  default next state the block sets up first, \<open>q\<close> the current one.
\<close>

section \<open>Registers, inputs, outputs\<close>

datatype hci_state =
    S_DISABLED | S_DECODE | S_ECHO_STG_0 | S_ECHO_STG_1
  | S_CPU_MEM_RD_STG_0 | S_CPU_MEM_RD_STG_1 | S_CPU_MEM_WR_STG_0 | S_CPU_MEM_WR_STG_1
  | S_CPU_REG_RD | S_CPU_REG_WR_STG_0 | S_CPU_REG_WR_STG_1 | S_QUERY_ERR_CODE
  | S_PPU_MEM_RD_STG_0 | S_PPU_MEM_RD_STG_1 | S_PPU_MEM_WR_STG_0 | S_PPU_MEM_WR_STG_1
  | S_PPU_DISABLE | S_CART_SET_CFG_STG_0 | S_CART_SET_CFG_STG_1

record hci_regs =
  q_state :: hci_state
  q_decode_cnt :: "3 word"
  q_execute_cnt :: "17 word"
  q_addr :: "16 word"
  q_err_code :: "2 word"
  q_cart_cfg :: "40 word"
  q_cart_cfg_upd :: bool
  q_tx_data :: byte
  q_wr_en :: bool

definition hci_reset :: hci_regs where
  "hci_reset = \<lparr>q_state = S_DECODE, q_decode_cnt = 0, q_execute_cnt = 0, q_addr = 0,
     q_err_code = 0, q_cart_cfg = 0, q_cart_cfg_upd = False, q_tx_data = 0, q_wr_en = False\<rparr>"

text \<open>
  \<open>cpu_dbgreg_in\<close> follows the output \<open>cpu_dbgreg_sel\<close> within the cycle, so it is a function
  of the selection.
\<close>

record hci_in =
  brk :: bool
  rx_empty :: bool
  rd_data :: byte
  tx_full :: bool
  parity_err :: bool
  cpu_din :: byte
  cpu_dbgreg_in :: "4 word \<Rightarrow> byte"
  ppu_vram_din :: byte

record hci_out =
  rd_en :: bool
  cpu_r_nw :: bool
  cpu_dout :: byte
  cpu_dbgreg_sel :: "4 word"
  cpu_dbgreg_out :: byte
  cpu_dbgreg_wr :: bool
  ppu_vram_wr :: bool

text \<open>The outputs before the case statement; \<open>cpu_a\<close> and \<open>ppu_vram_a\<close> are always \<open>q_addr\<close>.\<close>

definition out0 :: "hci_in \<Rightarrow> hci_out" where
  "out0 i = \<lparr>rd_en = False, cpu_r_nw = True, cpu_dout = rd_data i, cpu_dbgreg_sel = 0,
     cpu_dbgreg_out = 0, cpu_dbgreg_wr = False, ppu_vram_wr = False\<rparr>"

definition default_next :: "hci_in \<Rightarrow> hci_regs \<Rightarrow> hci_regs" where
  "default_next i q = q\<lparr>q_cart_cfg_upd := False, q_tx_data := 0, q_wr_en := False,
     q_err_code := (if parity_err i then q_err_code q OR 1 else q_err_code q)\<rparr>"

text \<open>The Verilog concatenations \<^verbatim>\<open>{ rd_data, x[7:0] }\<close> and \<^verbatim>\<open>{ rd_data, cnt[7:0], 1'b0 }\<close>.\<close>

definition cat_addr :: "byte \<Rightarrow> 16 word \<Rightarrow> 16 word" where
  "cat_addr hi a = le16 (ucast a) hi"

definition cat_cnt :: "byte \<Rightarrow> 17 word \<Rightarrow> 17 word" where
  "cat_cnt hi c = ucast (le16 (ucast c) hi)"

definition cat_cnt2 :: "byte \<Rightarrow> 17 word \<Rightarrow> 17 word" where
  "cat_cnt2 hi c = push_bit 1 (ucast (le16 (ucast c) hi))"

section \<open>The states\<close>

definition hci_disabled :: "hci_in \<Rightarrow> hci_regs \<Rightarrow> hci_regs \<Rightarrow> hci_regs \<times> hci_out" where
  "hci_disabled i q d =
     (if brk i then (d\<lparr>q_state := S_DECODE\<rparr>, out0 i)
      else if \<not> rx_empty i then
        (if rd_data i = 0x03 then d\<lparr>q_state := S_DECODE\<rparr>
         else if rd_data i = 0x07 then d\<lparr>q_tx_data := 0x00, q_wr_en := True\<rparr>
         else d,
         (out0 i)\<lparr>rd_en := True\<rparr>)
      else (d, out0 i))"

definition hci_decode :: "hci_in \<Rightarrow> hci_regs \<Rightarrow> hci_regs \<Rightarrow> hci_regs \<times> hci_out" where
  "hci_decode i q d0 =
     (if \<not> rx_empty i then
        (let d = d0\<lparr>q_decode_cnt := 0\<rparr>; op = rd_data i in
         (if op = 0x00 then d\<lparr>q_state := S_ECHO_STG_0\<rparr>
          else if op = 0x01 then d\<lparr>q_state := S_CPU_MEM_RD_STG_0\<rparr>
          else if op = 0x02 then d\<lparr>q_state := S_CPU_MEM_WR_STG_0\<rparr>
          else if op = 0x03 then d\<lparr>q_state := S_DECODE\<rparr>
          else if op = 0x05 then d\<lparr>q_state := S_CPU_REG_RD\<rparr>
          else if op = 0x06 then d\<lparr>q_state := S_CPU_REG_WR_STG_0\<rparr>
          else if op = 0x08 then d\<lparr>q_state := S_QUERY_ERR_CODE\<rparr>
          else if op = 0x09 then d\<lparr>q_state := S_PPU_MEM_RD_STG_0\<rparr>
          else if op = 0x0A then d\<lparr>q_state := S_PPU_MEM_WR_STG_0\<rparr>
          else if op = 0x0B then d\<lparr>q_state := S_PPU_DISABLE\<rparr>
          else if op = 0x0C then d\<lparr>q_state := S_CART_SET_CFG_STG_0\<rparr>
          else if op = 0x04 then d\<lparr>q_state := S_DISABLED\<rparr>
          else if op = 0x07 then d\<lparr>q_tx_data := 0x01, q_wr_en := True\<rparr>
          else d\<lparr>q_err_code := q_err_code d OR 2, q_state := S_DECODE\<rparr>,
          (out0 i)\<lparr>rd_en := True\<rparr>))
      else (d0, out0 i))"

definition hci_echo_0 :: "hci_in \<Rightarrow> hci_regs \<Rightarrow> hci_regs \<Rightarrow> hci_regs \<times> hci_out" where
  "hci_echo_0 i q d0 =
     (if \<not> rx_empty i then
        (let d = d0\<lparr>q_decode_cnt := q_decode_cnt q + 1\<rparr> in
         (if q_decode_cnt q = 0 then d\<lparr>q_execute_cnt := ucast (rd_data i)\<rparr>
          else let cnt = cat_cnt (rd_data i) (q_execute_cnt q) in
            d\<lparr>q_execute_cnt := cnt, q_state := (if cnt \<noteq> 0 then S_ECHO_STG_1 else S_DECODE)\<rparr>,
          (out0 i)\<lparr>rd_en := True\<rparr>))
      else (d0, out0 i))"

definition hci_echo_1 :: "hci_in \<Rightarrow> hci_regs \<Rightarrow> hci_regs \<Rightarrow> hci_regs \<times> hci_out" where
  "hci_echo_1 i q d0 =
     (if \<not> rx_empty i then
        (let cnt = q_execute_cnt q - 1;
             d = d0\<lparr>q_execute_cnt := cnt, q_tx_data := rd_data i, q_wr_en := True\<rparr> in
         (if cnt = 0 then d\<lparr>q_state := S_DECODE\<rparr> else d, (out0 i)\<lparr>rd_en := True\<rparr>))
      else (d0, out0 i))"

text \<open>
  The header stage of the four memory packets: address, then count. For the reads the count is
  doubled (two cycles per byte). \<open>next\<close> is the data stage.
\<close>

definition hci_mem_0 ::
  "bool \<Rightarrow> hci_state \<Rightarrow> hci_in \<Rightarrow> hci_regs \<Rightarrow> hci_regs \<Rightarrow> hci_regs \<times> hci_out" where
  "hci_mem_0 double next i q d0 =
     (if \<not> rx_empty i then
        (let d = d0\<lparr>q_decode_cnt := q_decode_cnt q + 1\<rparr> in
         (if q_decode_cnt q = 0 then d\<lparr>q_addr := ucast (rd_data i)\<rparr>
          else if q_decode_cnt q = 1 then d\<lparr>q_addr := cat_addr (rd_data i) (q_addr q)\<rparr>
          else if q_decode_cnt q = 2 then d\<lparr>q_execute_cnt := ucast (rd_data i)\<rparr>
          else let cnt = (if double then cat_cnt2 else cat_cnt) (rd_data i) (q_execute_cnt q) in
            d\<lparr>q_execute_cnt := cnt, q_state := (if cnt \<noteq> 0 then next else S_DECODE)\<rparr>,
          (out0 i)\<lparr>rd_en := True\<rparr>))
      else (d0, out0 i))"

text \<open>The data stage of the reads, with the bus \<open>din\<close> of the memory that is read.\<close>

definition hci_mem_rd_1 :: "byte \<Rightarrow> hci_in \<Rightarrow> hci_regs \<Rightarrow> hci_regs \<Rightarrow> hci_regs \<times> hci_out" where
  "hci_mem_rd_1 din i q d0 =
     (if even (q_execute_cnt q) then (d0\<lparr>q_execute_cnt := q_execute_cnt q - 1\<rparr>, out0 i)
      else if \<not> tx_full i then
        (let cnt = q_execute_cnt q - 1;
             d = d0\<lparr>q_execute_cnt := cnt, q_tx_data := din, q_wr_en := True, q_addr := q_addr q + 1\<rparr> in
         (if cnt = 0 then d\<lparr>q_state := S_DECODE\<rparr> else d, out0 i))
      else (d0, out0 i))"

text \<open>The data stage of the writes; \<open>cpu\<close> tells which of the two write strobes is driven.\<close>

definition hci_mem_wr_1 :: "bool \<Rightarrow> hci_in \<Rightarrow> hci_regs \<Rightarrow> hci_regs \<Rightarrow> hci_regs \<times> hci_out" where
  "hci_mem_wr_1 cpu i q d0 =
     (if \<not> rx_empty i then
        (let cnt = q_execute_cnt q - 1;
             d = d0\<lparr>q_execute_cnt := cnt, q_addr := q_addr q + 1\<rparr>;
             o' = (if cpu then (out0 i)\<lparr>rd_en := True, cpu_r_nw := False\<rparr>
                   else (out0 i)\<lparr>rd_en := True, ppu_vram_wr := True\<rparr>) in
         (if cnt = 0 then d\<lparr>q_state := S_DECODE\<rparr> else d, o'))
      else (d0, out0 i))"

definition hci_reg_rd :: "hci_in \<Rightarrow> hci_regs \<Rightarrow> hci_regs \<Rightarrow> hci_regs \<times> hci_out" where
  "hci_reg_rd i q d =
     (if \<not> rx_empty i \<and> \<not> tx_full i then
        (let sel = ucast (rd_data i) in
         (d\<lparr>q_tx_data := cpu_dbgreg_in i sel, q_wr_en := True, q_state := S_DECODE\<rparr>,
          (out0 i)\<lparr>rd_en := True, cpu_dbgreg_sel := sel\<rparr>))
      else (d, out0 i))"

definition hci_reg_wr_0 :: "hci_in \<Rightarrow> hci_regs \<Rightarrow> hci_regs \<Rightarrow> hci_regs \<times> hci_out" where
  "hci_reg_wr_0 i q d =
     (if \<not> rx_empty i then
        (d\<lparr>q_addr := ucast (rd_data i), q_state := S_CPU_REG_WR_STG_1\<rparr>, (out0 i)\<lparr>rd_en := True\<rparr>)
      else (d, out0 i))"

definition hci_reg_wr_1 :: "hci_in \<Rightarrow> hci_regs \<Rightarrow> hci_regs \<Rightarrow> hci_regs \<times> hci_out" where
  "hci_reg_wr_1 i q d =
     (if \<not> rx_empty i then
        (d\<lparr>q_state := S_DECODE\<rparr>,
         (out0 i)\<lparr>rd_en := True, cpu_dbgreg_sel := ucast (q_addr q), cpu_dbgreg_wr := True,
            cpu_dbgreg_out := rd_data i\<rparr>)
      else (d, out0 i))"

definition hci_query_err :: "hci_in \<Rightarrow> hci_regs \<Rightarrow> hci_regs \<Rightarrow> hci_regs \<times> hci_out" where
  "hci_query_err i q d =
     (if \<not> tx_full i then
        (d\<lparr>q_tx_data := ucast (q_err_code q), q_wr_en := True, q_state := S_DECODE\<rparr>, out0 i)
      else (d, out0 i))"

definition hci_ppu_disable :: "hci_in \<Rightarrow> hci_regs \<Rightarrow> hci_regs \<Rightarrow> hci_regs \<times> hci_out" where
  "hci_ppu_disable i q d0 =
     (let d = d0\<lparr>q_decode_cnt := q_decode_cnt q + 1\<rparr>;
          wr0 = (out0 i)\<lparr>cpu_r_nw := False, cpu_dout := 0x00\<rparr> in
      if q_decode_cnt q = 0 then (d\<lparr>q_addr := 0x2000\<rparr>, out0 i)
      else if q_decode_cnt q = 1 then (d\<lparr>q_addr := 0x0000\<rparr>, wr0)
      else if q_decode_cnt q = 2 then (d\<lparr>q_addr := 0x2001\<rparr>, out0 i)
      else if q_decode_cnt q = 3 then (d\<lparr>q_addr := 0x0000\<rparr>, wr0)
      else if q_decode_cnt q = 4 then (d\<lparr>q_addr := 0x2002\<rparr>, out0 i)
      else if q_decode_cnt q = 5 then (d\<lparr>q_addr := 0x0000, q_state := S_DECODE\<rparr>, out0 i)
      else (d, out0 i))"

definition hci_cart_0 :: "hci_in \<Rightarrow> hci_regs \<Rightarrow> hci_regs \<Rightarrow> hci_regs \<times> hci_out" where
  "hci_cart_0 i q d = (d\<lparr>q_execute_cnt := 0x0004, q_state := S_CART_SET_CFG_STG_1\<rparr>, out0 i)"

definition hci_cart_1 :: "hci_in \<Rightarrow> hci_regs \<Rightarrow> hci_regs \<Rightarrow> hci_regs \<times> hci_out" where
  "hci_cart_1 i q d0 =
     (if \<not> rx_empty i then
        (let d = d0\<lparr>q_execute_cnt := q_execute_cnt q - 1,
                    q_cart_cfg := push_bit 8 (q_cart_cfg q) OR ucast (rd_data i)\<rparr> in
         (if q_execute_cnt q = 0 then d\<lparr>q_state := S_DECODE, q_cart_cfg_upd := True\<rparr> else d,
          (out0 i)\<lparr>rd_en := True\<rparr>))
      else (d0, out0 i))"

section \<open>The case statement\<close>

definition hci_comb :: "hci_in \<Rightarrow> hci_regs \<Rightarrow> hci_regs \<times> hci_out" where
  "hci_comb i q =
     (let d = default_next i q in
      case q_state q of
        S_DISABLED \<Rightarrow> hci_disabled i q d
      | S_DECODE \<Rightarrow> hci_decode i q d
      | S_ECHO_STG_0 \<Rightarrow> hci_echo_0 i q d
      | S_ECHO_STG_1 \<Rightarrow> hci_echo_1 i q d
      | S_CPU_MEM_RD_STG_0 \<Rightarrow> hci_mem_0 True S_CPU_MEM_RD_STG_1 i q d
      | S_CPU_MEM_RD_STG_1 \<Rightarrow> hci_mem_rd_1 (cpu_din i) i q d
      | S_CPU_MEM_WR_STG_0 \<Rightarrow> hci_mem_0 False S_CPU_MEM_WR_STG_1 i q d
      | S_CPU_MEM_WR_STG_1 \<Rightarrow> hci_mem_wr_1 True i q d
      | S_CPU_REG_RD \<Rightarrow> hci_reg_rd i q d
      | S_CPU_REG_WR_STG_0 \<Rightarrow> hci_reg_wr_0 i q d
      | S_CPU_REG_WR_STG_1 \<Rightarrow> hci_reg_wr_1 i q d
      | S_QUERY_ERR_CODE \<Rightarrow> hci_query_err i q d
      | S_PPU_MEM_RD_STG_0 \<Rightarrow> hci_mem_0 True S_PPU_MEM_RD_STG_1 i q d
      | S_PPU_MEM_RD_STG_1 \<Rightarrow> hci_mem_rd_1 (ppu_vram_din i) i q d
      | S_PPU_MEM_WR_STG_0 \<Rightarrow> hci_mem_0 False S_PPU_MEM_WR_STG_1 i q d
      | S_PPU_MEM_WR_STG_1 \<Rightarrow> hci_mem_wr_1 False i q d
      | S_PPU_DISABLE \<Rightarrow> hci_ppu_disable i q d
      | S_CART_SET_CFG_STG_0 \<Rightarrow> hci_cart_0 i q d
      | S_CART_SET_CFG_STG_1 \<Rightarrow> hci_cart_1 i q d)"

lemmas hci_states =
  hci_disabled_def hci_decode_def hci_echo_0_def hci_echo_1_def hci_mem_0_def hci_mem_rd_1_def
  hci_mem_wr_1_def hci_reg_rd_def hci_reg_wr_0_def hci_reg_wr_1_def hci_query_err_def
  hci_ppu_disable_def hci_cart_0_def hci_cart_1_def

lemma cat_addr_ucast [simp]: "cat_addr hi (ucast (lo :: byte)) = le16 lo hi"
  by (simp add: cat_addr_def)

lemma cat_cnt_ucast [simp]: "cat_cnt hi (ucast (lo :: byte)) = ucast (le16 lo hi)"
  by (simp add: cat_cnt_def)

lemma cat_cnt2_ucast [simp]: "cat_cnt2 hi (ucast (lo :: byte)) = push_bit 1 (ucast (le16 lo hi))"
  by (simp add: cat_cnt2_def)

end
