(* ===== verification/Console.thy ===== *)
theory Console
  imports Hci
begin

text \<open>
  The part of the console that the debugger reaches through the HCI: work RAM (\<^verbatim>\<open>wram.v\<close>), the
  cartridge (\<^verbatim>\<open>cart/cart.v\<close>), video RAM (\<^verbatim>\<open>vram.v\<close>), the address decoding and bus multiplexing of
  \<^verbatim>\<open>nes_top.v\<close>, the CPU's debug register port (\<^verbatim>\<open>cpu/cpu.v\<close>) and the chip select edge detector
  of the PPU register interface (\<^verbatim>\<open>ppu/ppu_ri.v\<close>). The memories are block RAMs with a synchronous
  read (\<^verbatim>\<open>cmn/block_ram/block_ram.v\<close>): each keeps the address of the previous cycle.

  Not modelled here: what the PPU does with its register interface (its read data is the
  parameter \<open>ri_model\<close>, a function of the accesses so far) and the running CPU.
\<close>

section \<open>Synchronous block RAM\<close>

record 'a ram =
  ram :: "'a \<Rightarrow> byte"
  q_addr_a :: 'a

definition ram_dout :: "'a ram \<Rightarrow> byte" where
  "ram_dout m = ram m (q_addr_a m)"

definition ram_clk :: "bool \<Rightarrow> 'a \<Rightarrow> byte \<Rightarrow> 'a ram \<Rightarrow> 'a ram" where
  "ram_clk we addr_a din_a m =
     m\<lparr>ram := (if we then (ram m)(addr_a := din_a) else ram m), q_addr_a := addr_a\<rparr>"

section \<open>CPU registers behind the debug port\<close>

text \<open>
  These are the flip-flops of a CPU that is held. One of them may still move without a write: in the first clock of a cycle
  (\<open>clk_phase = 0\<close>) the interrupt logic is clocked whether the CPU is ready or not, so \<^verbatim>\<open>q_irq_sel\<close> takes the interrupt
  the CPU would select next in the first clock of the hold, and again if a request comes later. \<open>irq_brk\<close> stands for
  the value it has from the second clock of the hold on, with the reset and NMI lines quiet while the CPU is held in that
  clock: no request of the reset button or of the PPU's vertical blank arrives there. (A write of the program counter sets the
  phase to 1, where the value is fixed.) Theorem \<open>cpu_debug_port\<close> of theory Cpu_Props shows that this record is then
  what the core's flip-flops and its P register are, clock by clock.
\<close>

record cpu_regs =
  q_pcl :: byte
  q_pch :: byte
  q_ac :: byte
  q_x :: byte
  q_y :: byte
  q_s :: byte
  q_n :: bool
  q_v :: bool
  q_d :: bool
  q_i :: bool
  q_z :: bool
  q_c :: bool
  irq_brk :: bool        \<comment> \<open>\<^verbatim>\<open>q_irq_sel == INTERRUPT_BRK\<close>, from the second clock of a hold on\<close>
  q_pchs :: byte
  q_pcls :: byte
  q_abh :: byte
  q_abl :: byte
  q_t_is_T0 :: bool      \<comment> \<open>\<^verbatim>\<open>q_t == T0\<close>\<close>
  clk_phase :: "6 word"
  dbg_xx :: byte         \<comment> \<open>the don't-care value of an unassigned register\<close>

definition bit_of :: "bool \<Rightarrow> nat \<Rightarrow> byte" where
  "bit_of b k = (if b then push_bit k 1 else 0)"

definition cpu_p :: "cpu_regs \<Rightarrow> byte" where
  "cpu_p c = bit_of (q_n c) 7 OR bit_of (q_v c) 6 OR bit_of True 5 OR bit_of (irq_brk c) 4 OR
     bit_of (q_d c) 3 OR bit_of (q_i c) 2 OR bit_of (q_z c) 1 OR bit_of (q_c c) 0"

definition dbgreg_out :: "cpu_regs \<Rightarrow> 4 word \<Rightarrow> byte" where
  "dbgreg_out c sel =
     (if sel = 2 then q_ac c
      else if sel = 3 then q_x c
      else if sel = 4 then q_y c
      else if sel = 5 then cpu_p c
      else if sel = 1 then q_pch c
      else if sel = 0 then q_pcl c
      else if sel = 6 then q_s c
      else dbg_xx c)"

text \<open>A debug register write, as the CPU's flip-flops see it while \<^verbatim>\<open>rdy\<close> is low.\<close>

definition dbgreg_write :: "4 word \<Rightarrow> byte \<Rightarrow> cpu_regs \<Rightarrow> cpu_regs" where
  "dbgreg_write sel v c =
     (let pc = (sel = 1 \<or> sel = 0) in
      c\<lparr>q_ac := (if sel = 2 then v else q_ac c),
        q_x := (if sel = 3 then v else q_x c),
        q_y := (if sel = 4 then v else q_y c),
        q_c := (if sel = 5 then bit v 0 else q_c c),
        q_d := (if sel = 5 then bit v 3 else q_d c),
        q_i := (if sel = 5 then bit v 2 else q_i c),
        q_n := (if sel = 5 then bit v 7 else q_n c),
        q_v := (if sel = 5 then bit v 6 else q_v c),
        q_z := (if sel = 5 then bit v 1 else q_z c),
        q_pchs := (if sel = 1 then v else q_pchs c),
        q_pcls := (if sel = 0 then v else q_pcls c),
        q_abh := (if sel = 1 then v else q_abh c),
        q_abl := (if sel = 0 then v else q_abl c),
        q_t_is_T0 := (if pc then True else q_t_is_T0 c),
        clk_phase := (if pc then 1 else clk_phase c),
        q_pcl := (if sel = 0 then v else q_pcl c),
        q_pch := (if sel = 1 then v else q_pch c)\<rparr>)"

section \<open>The console\<close>

text \<open>One access of the PPU register interface: read or write, register, data on the bus.\<close>

datatype ri_access = RiRead "3 word" | RiWrite "3 word" byte

record console =
  wram :: "11 word ram"
  prgrom :: "15 word ram"
  chrrom :: "13 word ram"
  vram :: "11 word ram"
  cpu :: cpu_regs
  q_ncs :: bool                 \<comment> \<open>last PPU chip select level\<close>
  ri_trace :: "ri_access list"  \<comment> \<open>register accesses the PPU has recognised, newest first\<close>
  ri_model :: "ri_access list \<Rightarrow> byte"

text \<open>Address decoding of the CPU bus.\<close>

definition wram_en :: "16 word \<Rightarrow> bool" where
  "wram_en a \<longleftrightarrow> drop_bit 13 a = 0"

definition ri_ncs :: "16 word \<Rightarrow> bool" where
  "ri_ncs a \<longleftrightarrow> \<not> (drop_bit 13 a = 1)"

definition prg_nce :: "16 word \<Rightarrow> bool" where
  "prg_nce a \<longleftrightarrow> \<not> bit a 15"

text \<open>The cartridge's PRG address: 32 KB, or 16 KB mirrored when there is one bank.\<close>

definition prgrom_a :: "40 word \<Rightarrow> 16 word \<Rightarrow> 15 word" where
  "prgrom_a cfg a = (if bit cfg 33 then ucast a else ucast (take_bit 14 a))"

text \<open>Address decoding of the PPU bus (14 bits).\<close>

definition ciram_nce :: "16 word \<Rightarrow> bool" where
  "ciram_nce pa \<longleftrightarrow> \<not> bit pa 13"

definition vram_a :: "40 word \<Rightarrow> 16 word \<Rightarrow> 11 word" where
  "vram_a cfg pa =
     (let a10 = (if bit cfg 16 then bit pa 10 else bit pa 11) in
      (if a10 then push_bit 10 1 else 0) OR ucast (take_bit 10 pa))"

text \<open>
  The data buses in a cycle in which the HCI drives address \<open>a\<close> and read/write \<open>r_nw\<close>. What a register of the PPU
  reads depends on the PPU, which is not modelled: \<open>ri_model\<close> makes it some function of the accesses so far. No theorem
  states the value of such a read: those about replies take packets without one (\<open>plain_cmd\<close> of theory Target).
\<close>

definition cpu_bus_din :: "16 word \<Rightarrow> bool \<Rightarrow> console \<Rightarrow> byte" where
  "cpu_bus_din a r_nw c =
     (if \<not> prg_nce a then ram_dout (prgrom c) else 0) OR
     (if wram_en a then ram_dout (wram c) else 0) OR
     (if \<not> ri_ncs a \<and> r_nw then ri_model c (ri_trace c) else 0)"

definition ppu_bus_din :: "16 word \<Rightarrow> console \<Rightarrow> byte" where
  "ppu_bus_din pa c =
     (if ciram_nce pa then ram_dout (chrrom c) else 0) OR
     (if \<not> ciram_nce pa then ram_dout (vram c) else 0)"

text \<open>
  The clock edge of everything on the two buses while the HCI is active: \<open>a\<close> is the address on
  both buses, \<open>cfg\<close> the cartridge configuration, \<open>o1\<close> the HCI's outputs and \<open>pdin\<close> the data it
  drives on the PPU bus.
\<close>

definition bus_clk :: "16 word \<Rightarrow> 40 word \<Rightarrow> hci_out \<Rightarrow> byte \<Rightarrow> console \<Rightarrow> console" where
  "bus_clk a cfg o1 pdin c =
     c\<lparr>wram := ram_clk (wram_en a \<and> \<not> cpu_r_nw o1) (ucast a) (cpu_dout o1) (wram c),
       prgrom := ram_clk (\<not> prg_nce a \<and> \<not> cpu_r_nw o1) (prgrom_a cfg a) (cpu_dout o1) (prgrom c),
       chrrom := ram_clk (ciram_nce a \<and> ppu_vram_wr o1) (ucast a) pdin (chrrom c),
       vram := ram_clk (\<not> ciram_nce a \<and> ppu_vram_wr o1) (vram_a cfg a) pdin (vram c),
       cpu := (if cpu_dbgreg_wr o1 then dbgreg_write (cpu_dbgreg_sel o1) (cpu_dbgreg_out o1) (cpu c)
               else cpu c),
       ri_trace := (if q_ncs c \<and> \<not> ri_ncs a
                    then (if cpu_r_nw o1 then RiRead (ucast a) else RiWrite (ucast a) (cpu_dout o1))
                         # ri_trace c
                    else ri_trace c),
       q_ncs := ri_ncs a\<rparr>"

end
