(* ===== verification/Target.thy ===== *)
theory Target
  imports Protocol Console
begin

text \<open>
  The abstract debug target: what a debugger may assume about the machine at the other end of
  the line. Memories are functions, a command is executed in one step (\<open>exec\<close>) and gives its
  reply. Theory \<open>Board\<close> shows that the HCI implements it cycle by cycle; the C++ side is
  verified against it.
\<close>

record target =
  t_halted :: bool
  t_err :: "2 word"
  t_cfg :: "40 word"
  t_wram :: "11 word \<Rightarrow> byte"
  t_prg :: "15 word \<Rightarrow> byte"
  t_chr :: "13 word \<Rightarrow> byte"
  t_vram :: "11 word \<Rightarrow> byte"
  t_cpu :: cpu_regs

section \<open>The two address spaces\<close>

definition t_cpu_rd :: "target \<Rightarrow> 16 word \<Rightarrow> byte" where
  "t_cpu_rd t a =
     (if bit a 15 then t_prg t (prgrom_a (t_cfg t) a)
      else if wram_en a then t_wram t (ucast a)
      else 0)"

definition t_cpu_wr :: "16 word \<Rightarrow> byte \<Rightarrow> target \<Rightarrow> target" where
  "t_cpu_wr a v t =
     (if bit a 15 then t\<lparr>t_prg := (t_prg t)(prgrom_a (t_cfg t) a := v)\<rparr>
      else if wram_en a then t\<lparr>t_wram := (t_wram t)(ucast a := v)\<rparr>
      else t)"

definition t_ppu_rd :: "target \<Rightarrow> 16 word \<Rightarrow> byte" where
  "t_ppu_rd t a = (if bit a 13 then t_vram t (vram_a (t_cfg t) a) else t_chr t (ucast a))"

definition t_ppu_wr :: "16 word \<Rightarrow> byte \<Rightarrow> target \<Rightarrow> target" where
  "t_ppu_wr a v t =
     (if bit a 13 then t\<lparr>t_vram := (t_vram t)(vram_a (t_cfg t) a := v)\<rparr>
      else t\<lparr>t_chr := (t_chr t)(ucast a := v)\<rparr>)"

text \<open>Block accesses: consecutive addresses, wrapping at the end of the address space.\<close>

fun rd_block :: "('t \<Rightarrow> 16 word \<Rightarrow> byte) \<Rightarrow> 't \<Rightarrow> 16 word \<Rightarrow> nat \<Rightarrow> byte list" where
  "rd_block rd t a 0 = []"
| "rd_block rd t a (Suc n) = rd t a # rd_block rd t (a + 1) n"

fun wr_block :: "(16 word \<Rightarrow> byte \<Rightarrow> 't \<Rightarrow> 't) \<Rightarrow> 16 word \<Rightarrow> byte list \<Rightarrow> 't \<Rightarrow> 't" where
  "wr_block wr a [] t = t"
| "wr_block wr a (v # vs) t = wr_block wr (a + 1) vs (wr a v t)"

section \<open>Commands\<close>

definition cfg_word :: "byte list \<Rightarrow> 40 word" where
  "cfg_word bs = fold (\<lambda>b c. push_bit 8 c OR ucast b) bs 0"

text \<open>The effect of a command on a halted target and the reply it gives.\<close>

fun exec :: "cmd \<Rightarrow> target \<Rightarrow> byte list \<times> target" where
  "exec (Echo ds) t = (ds, t)"
| "exec (CpuMemRd a n) t = (rd_block t_cpu_rd t a (unat n), t)"
| "exec (CpuMemWr a ds) t = ([], wr_block t_cpu_wr a ds t)"
| "exec DbgHlt t = ([], t)"
| "exec DbgRun t = ([], t\<lparr>t_halted := False\<rparr>)"
| "exec (CpuRegRd r) t = ([dbgreg_out (t_cpu t) (ucast r)], t)"
| "exec (CpuRegWr r v) t = ([], t\<lparr>t_cpu := dbgreg_write (ucast r) v (t_cpu t)\<rparr>)"
| "exec QueryHlt t = ([1], t)"
| "exec QueryErrCode t = ([ucast (t_err t)], t)"
| "exec (PpuMemRd a n) t = (rd_block t_ppu_rd t a (unat n), t)"
| "exec (PpuMemWr a ds) t = ([], wr_block t_ppu_wr a ds t)"
| "exec PpuDisable t = ([], t)"
| "exec (CartSetCfg b4 b5 b6 b7 b8) t = ([], t\<lparr>t_cfg := cfg_word [b4, b5, b6, b7, b8]\<rparr>)"

text \<open>
  Reads of the PPU's memory-mapped registers (0x2000 to 0x3FFF) have no memory behind them, so
  their value is no function of the target: a command is plain when it does not read there.
\<close>

fun plain_cmd :: "cmd \<Rightarrow> bool" where
  "plain_cmd (CpuMemRd a n) \<longleftrightarrow> (\<forall>i < unat n. ri_ncs (a + of_nat i))"
| "plain_cmd _ \<longleftrightarrow> True"

text \<open>A sequence of commands: replies are concatenated; after \<open>DbgRun\<close> the target no longer obeys.\<close>

fun exec_all :: "cmd list \<Rightarrow> target \<Rightarrow> byte list \<times> target" where
  "exec_all [] t = ([], t)"
| "exec_all (c # cs) t =
     (let (r, t') = exec c t; (rs, t'') = exec_all cs t' in (r @ rs, t''))"

lemma length_rd_block [simp]: "length (rd_block rd t a n) = n"
  by (induction n arbitrary: a) simp_all

lemma length_exec_reply: "wf_cmd c \<Longrightarrow> length (fst (exec c t)) = reply_len c"
  by (cases c) simp_all

lemma exec_halted: "c \<noteq> DbgRun \<Longrightarrow> t_halted t \<Longrightarrow> t_halted (snd (exec c t))"
proof (cases c)
  case (CpuMemWr a ds)
  moreover have "t_halted (wr_block t_cpu_wr a ds t) = t_halted t" for a t
    by (induction ds arbitrary: a t) (simp_all add: t_cpu_wr_def)
  ultimately show "t_halted t \<Longrightarrow> ?thesis" by simp
next
  case (PpuMemWr a ds)
  moreover have "t_halted (wr_block t_ppu_wr a ds t) = t_halted t" for a t
    by (induction ds arbitrary: a t) (simp_all add: t_ppu_wr_def)
  ultimately show "t_halted t \<Longrightarrow> ?thesis" by simp
qed simp_all

lemma rd_block_append:
  "rd_block rd t a (m + n) = rd_block rd t a m @ rd_block rd t (a + of_nat m) n"
  by (induction m arbitrary: a) (simp_all add: add.assoc)

lemma nth_rd_block: "i < n \<Longrightarrow> rd_block rd t a n ! i = rd t (a + of_nat i)"
  by (induction n arbitrary: a i) (simp_all add: nth_Cons add.assoc split: nat.split)

lemma wr_block_append: "wr_block wr a (xs @ ys) t = wr_block wr (a + of_nat (length xs)) ys (wr_block wr a xs t)"
  by (induction xs arbitrary: a t) (simp_all add: add.assoc)


section \<open>Reading back what was written\<close>

text \<open>
  An address space: \<open>cell\<close> names the memory cell an address decodes to, if any. Two addresses may
  share one (the mirrors of the work RAM, of a single PRG bank and of the name tables).
\<close>

locale addr_space =
  fixes rd :: "'t \<Rightarrow> 16 word \<Rightarrow> byte"
    and wr :: "16 word \<Rightarrow> byte \<Rightarrow> 't \<Rightarrow> 't"
    and cell :: "'t \<Rightarrow> 16 word \<Rightarrow> 'c option"
  assumes cell_wr: "cell (wr a v t) = cell t"
    and rd_wr: "cell t a \<noteq> None \<Longrightarrow> rd (wr a v t) a' = (if cell t a' = cell t a then v else rd t a')"
begin

lemma cell_wr_block: "cell (wr_block wr a ds t) = cell t"
  by (induction ds arbitrary: a t) (simp_all add: cell_wr)

lemma rd_wr_block_other:
  assumes "\<And>i. i < length ds \<Longrightarrow> cell t (a + of_nat i) \<noteq> None \<and> cell t (a + of_nat i) \<noteq> cell t a'"
  shows "rd (wr_block wr a ds t) a' = rd t a'"
  using assms
proof (induction ds arbitrary: a t)
  case (Cons v vs)
  have "cell t a \<noteq> None" "cell t a' \<noteq> cell t a" using Cons.prems[of 0] by auto
  moreover have "rd (wr_block wr (a + 1) vs (wr a v t)) a' = rd (wr a v t) a'"
    using Cons.prems[of "Suc i" for i] by (intro Cons.IH) (auto simp: cell_wr add.assoc)
  ultimately show ?case by (simp add: rd_wr)
qed simp

lemma rd_block_wr_block:
  assumes "\<And>i. i < length ds \<Longrightarrow> cell t (a + of_nat i) \<noteq> None"
    and "inj_on (\<lambda>i. cell t (a + of_nat i)) {..<length ds}"
  shows "rd_block rd (wr_block wr a ds t) a (length ds) = ds"
  using assms
proof (induction ds arbitrary: a t)
  case (Cons v vs)
  have c: "cell t a \<noteq> None" using Cons.prems(1)[of 0] by simp
  have "cell t (a + of_nat (Suc i)) \<noteq> cell t (a + of_nat 0)" if "i < length vs" for i
    using inj_onD[OF Cons.prems(2), of "Suc i" 0] that by force
  then have "rd (wr_block wr (a + 1) vs (wr a v t)) a = v"
    using Cons.prems(1)[of "Suc i" for i] c
    by (subst rd_wr_block_other) (auto simp: cell_wr add.assoc rd_wr)
  moreover have "inj_on (\<lambda>i. cell t (a + 1 + of_nat i)) {..<length vs}"
  proof (rule inj_onI)
    fix x y assume "x \<in> {..<length vs}" "y \<in> {..<length vs}"
      "cell t (a + 1 + of_nat x) = cell t (a + 1 + of_nat y)"
    then show "x = y" using inj_onD[OF Cons.prems(2), of "Suc x" "Suc y"] by (simp add: add.assoc)
  qed
  then have "rd_block rd (wr_block wr (a + 1) vs (wr a v t)) (a + 1) (length vs) = vs"
    using Cons.prems(1)[of "Suc i" for i] by (intro Cons.IH) (auto simp: cell_wr add.assoc)
  ultimately show ?case by simp
qed simp

end

text \<open>The cells of the two buses: which memory, and the address within it.\<close>

definition cpu_cell :: "target \<Rightarrow> 16 word \<Rightarrow> (bool \<times> nat) option" where
  "cpu_cell t a =
     (if bit a 15 then Some (True, unat (prgrom_a (t_cfg t) a))
      else if wram_en a then Some (False, unat (ucast a :: 11 word))
      else None)"

definition ppu_cell :: "target \<Rightarrow> 16 word \<Rightarrow> (bool \<times> nat) option" where
  "ppu_cell t a =
     (if bit a 13 then Some (True, unat (vram_a (t_cfg t) a))
      else Some (False, unat (ucast a :: 13 word)))"

interpretation cpu_bus: addr_space t_cpu_rd t_cpu_wr cpu_cell
  by unfold_locales
    (auto simp: cpu_cell_def t_cpu_rd_def t_cpu_wr_def fun_eq_iff word_unat_eq_iff split: if_splits)

interpretation ppu_bus: addr_space t_ppu_rd t_ppu_wr ppu_cell
  by unfold_locales
    (auto simp: ppu_cell_def t_ppu_rd_def t_ppu_wr_def fun_eq_iff word_unat_eq_iff split: if_splits)

end
