(* ===== verification/Rom_Image.thy ===== *)
theory Rom_Image
  imports Target
begin

text \<open>
  The iNES images the loader accepts, the commands it sends for one, and what they leave in the
  target: the abstract side of \<open>NesDbg::LoadRom\<close>.
\<close>

section \<open>Images\<close>

definition prg_size :: "byte list \<Rightarrow> nat" where
  "prg_size data = unat (data ! 4) * 0x4000"

definition chr_size :: "byte list \<Rightarrow> nat" where
  "chr_size data = unat (data ! 5) * 0x2000"

text \<open>What the loader's header checks accept.\<close>

definition ines_ok :: "byte list \<Rightarrow> bool" where
  "ines_ok data \<longleftrightarrow> take 4 data = [0x4E, 0x45, 0x53, 0x1A] \<and> data ! 4 \<le> 2 \<and> data ! 5 \<le> 1 \<and>
     data ! 6 AND 0x08 = 0 \<and> data ! 6 AND 0xF0 = 0 \<and> data ! 7 AND 0xF0 = 0"

text \<open>The file holds everything its header announces.\<close>

definition ines_complete :: "byte list \<Rightarrow> bool" where
  "ines_complete data \<longleftrightarrow> 16 + prg_size data + chr_size data \<le> length data"

definition rom_block :: "byte list \<Rightarrow> nat \<Rightarrow> nat \<Rightarrow> byte list" where
  "rom_block data off i = take 0x400 (drop (off + 0x400 * i) data)"

definition prg_cmd :: "byte list \<Rightarrow> nat \<Rightarrow> cmd" where
  "prg_cmd data i = CpuMemWr (of_nat (0x8000 + 0x400 * i)) (rom_block data 16 i)"

definition chr_cmd :: "byte list \<Rightarrow> nat \<Rightarrow> cmd" where
  "chr_cmd data i = PpuMemWr (of_nat (0x400 * i)) (rom_block data (16 + prg_size data) i)"

definition cfg_cmd :: "byte list \<Rightarrow> cmd" where
  "cfg_cmd data = CartSetCfg (data ! 4) (data ! 5) (data ! 6) (data ! 7) (data ! 8)"

definition pcl_of :: "byte list \<Rightarrow> byte" where "pcl_of data = data ! (16 + prg_size data - 4)"
definition pch_of :: "byte list \<Rightarrow> byte" where "pch_of data = data ! (16 + prg_size data - 3)"

text \<open>The target after the commands that follow the initial halt.\<close>

definition rom_target :: "byte list \<Rightarrow> target \<Rightarrow> target" where
  "rom_target data t =
     snd (exec_all ([PpuDisable, cfg_cmd data] @ map (prg_cmd data) [0..<prg_size data div 0x400] @
       map (chr_cmd data) [0..<chr_size data div 0x400] @
       [CpuRegWr 0 (pcl_of data), CpuRegWr 1 (pch_of data), DbgRun]) t)"

text \<open>
  What it means that the ROM is loaded: the CPU reads the PRG ROM at 0x8000 and up, the PPU the
  CHR ROM at 0 and up, the program counter is at the reset vector and the console runs.
\<close>

definition rom_loaded :: "byte list \<Rightarrow> target \<Rightarrow> bool" where
  "rom_loaded data t \<longleftrightarrow>
     (\<forall>i < prg_size data. t_cpu_rd t (of_nat (0x8000 + i)) = data ! (16 + i)) \<and>
     (\<forall>i < chr_size data. t_ppu_rd t (of_nat i) = data ! (16 + prg_size data + i)) \<and>
     q_pcl (t_cpu t) = pcl_of data \<and> q_pch (t_cpu t) = pch_of data \<and>
     t_cfg t = cfg_word [data ! 4, data ! 5, data ! 6, data ! 7, data ! 8] \<and> \<not> t_halted t"

section \<open>The blocks are one long write\<close>

lemma exec_all_append: "snd (exec_all (cs @ ds) t) = snd (exec_all ds (snd (exec_all cs t)))"
  by (induction cs arbitrary: t) (simp_all add: Let_def split_beta)

lemma rom_block_append:
  "take (0x400 * n) (drop off data) @ rom_block data off n = take (0x400 * Suc n) (drop off data)"
  using take_add[of "0x400 * n" "0x400" "drop off data"] by (simp add: rom_block_def add.commute)

lemma length_rom_block: "off + 0x400 * Suc n \<le> length data \<Longrightarrow> length (rom_block data off n) = 0x400"
  by (simp add: rom_block_def)

lemma blocks_wr:
  assumes "off + 0x400 * n \<le> length data"
    and "\<And>i t. snd (exec (c i) t) = wr_block w (of_nat (a + 0x400 * i)) (rom_block data off i) t"
  shows "snd (exec_all (map c [0..<n]) t) = wr_block w (of_nat a) (take (0x400 * n) (drop off data)) t"
  using assms(1)
proof (induction n)
  case (Suc n)
  have "length (take (0x400 * n) (drop off data)) = 0x400 * n" using Suc.prems by simp
  then have "wr_block w (of_nat a) (take (0x400 * n) (drop off data) @ rom_block data off n) t =
      wr_block w (of_nat (a + 0x400 * n)) (rom_block data off n)
        (wr_block w (of_nat a) (take (0x400 * n) (drop off data)) t)"
    by (simp only: wr_block_append of_nat_add)
  then show ?case using Suc assms(2) by (simp add: exec_all_append split_beta Let_def rom_block_append del: upt_Suc add: upt_Suc_append)
qed simp

lemma prg_blocks:
  "16 + 0x400 * n \<le> length data \<Longrightarrow> snd (exec_all (map (prg_cmd data) [0..<n]) t) =
     wr_block t_cpu_wr 0x8000 (take (0x400 * n) (drop 16 data)) t"
  using blocks_wr[of 16 n data "prg_cmd data" t_cpu_wr "0x8000" t] by (simp add: prg_cmd_def)

lemma chr_blocks:
  "16 + prg_size data + 0x400 * n \<le> length data \<Longrightarrow> snd (exec_all (map (chr_cmd data) [0..<n]) t) =
     wr_block t_ppu_wr 0 (take (0x400 * n) (drop (16 + prg_size data) data)) t"
  using blocks_wr[of "16 + prg_size data" n data "chr_cmd data" t_ppu_wr 0 t] by (simp add: chr_cmd_def)

section \<open>What the two kinds of writes leave alone\<close>

lemma cpu_wr_frame:
  "t_halted (wr_block t_cpu_wr a ds t) = t_halted t" "t_cfg (wr_block t_cpu_wr a ds t) = t_cfg t"
  "t_cpu (wr_block t_cpu_wr a ds t) = t_cpu t" "t_err (wr_block t_cpu_wr a ds t) = t_err t"
  "t_chr (wr_block t_cpu_wr a ds t) = t_chr t" "t_vram (wr_block t_cpu_wr a ds t) = t_vram t"
  by (induction ds arbitrary: a t) (simp_all add: t_cpu_wr_def)

lemma ppu_wr_frame:
  "t_halted (wr_block t_ppu_wr a ds t) = t_halted t" "t_cfg (wr_block t_ppu_wr a ds t) = t_cfg t"
  "t_cpu (wr_block t_ppu_wr a ds t) = t_cpu t" "t_err (wr_block t_ppu_wr a ds t) = t_err t"
  "t_prg (wr_block t_ppu_wr a ds t) = t_prg t" "t_wram (wr_block t_ppu_wr a ds t) = t_wram t"
  by (induction ds arbitrary: a t) (simp_all add: t_ppu_wr_def)

lemma rd_cong:
  "t_cfg t = t_cfg t' \<Longrightarrow> t_prg t = t_prg t' \<Longrightarrow> t_wram t = t_wram t' \<Longrightarrow> t_cpu_rd t a = t_cpu_rd t' a"
  "t_cfg t = t_cfg t' \<Longrightarrow> t_chr t = t_chr t' \<Longrightarrow> t_vram t = t_vram t' \<Longrightarrow> t_ppu_rd t a = t_ppu_rd t' a"
  by (simp_all add: t_cpu_rd_def t_ppu_rd_def)


section \<open>The commands leave the ROM loaded\<close>

lemma cfg_bit_33: "bit (cfg_word [b4, b5, b6, b7, b8]) 33 \<longleftrightarrow> bit b4 1"
  by (auto simp: cfg_word_def bit_simps dest: bit_imp_le_length)

lemma banks: "b \<le> (2 :: byte) \<Longrightarrow> b = 0 \<or> b = 1 \<or> b = 2"
  by (simp add: word_le_nat_alt word_unat_eq_iff) presburger

lemma bank: "b \<le> (1 :: byte) \<Longrightarrow> b = 0 \<or> b = 1"
  by (simp add: word_le_nat_alt word_unat_eq_iff) presburger

lemma sizes:
  assumes "ines_ok data"
  shows "prg_size data \<le> 0x8000" and "chr_size data \<le> 0x2000"
    and "0x400 * (prg_size data div 0x400) = prg_size data"
    and "0x400 * (chr_size data div 0x400) = chr_size data"
  using banks[of "data ! 4"] bank[of "data ! 5"] assms
  by (auto simp: prg_size_def chr_size_def ines_ok_def)

lemma bit_of_nat: "n < 2 ^ LENGTH('a) \<Longrightarrow> bit (of_nat n :: 'a::len word) k = bit n k"
  by (auto simp: bit_simps dest: bit_imp_possible_bit) (metis bit_take_bit_iff take_bit_nat_eq_self)

lemma rom_addr_bits:
  "i < 0x8000 \<Longrightarrow> bit (of_nat (0x8000 + i) :: 16 word) 15"
  "i < 0x2000 \<Longrightarrow> \<not> bit (of_nat i :: 16 word) 13"
proof -
  assume i: "i < 0x8000"
  then have "(0x8000 + i) div 0x8000 = 1" by simp
  then have "bit (0x8000 + i) 15" by (simp add: bit_iff_odd)
  with i show "bit (of_nat (0x8000 + i) :: 16 word) 15" by (subst bit_of_nat) simp_all
next
  assume i: "i < 0x2000"
  then have "\<not> bit i 13" by (simp add: bit_iff_odd)
  with i show "\<not> bit (of_nat i :: 16 word) 13" by (subst bit_of_nat) simp_all
qed

lemma prgrom_a_eq:
  assumes "i < 0x8000" and "bit cfg 33 \<or> i < 0x4000"
  shows "unat (prgrom_a cfg (of_nat (0x8000 + i))) = i"
proof (cases "bit cfg 33")
  case True
  then have "unat (prgrom_a cfg (of_nat (0x8000 + i))) = take_bit 15 (take_bit 16 (0x8000 + i))"
    by (simp add: prgrom_a_def unsigned_ucast_eq unsigned_of_nat del: of_nat_add)
  then show ?thesis using assms(1) by (simp add: take_bit_eq_mod)
next
  case False
  then have "unat (prgrom_a cfg (of_nat (0x8000 + i))) = take_bit 14 (take_bit 15 (take_bit 16 (0x8000 + i)))"
    by (simp add: prgrom_a_def unsigned_ucast_eq unsigned_of_nat unsigned_take_bit_eq del: of_nat_add take_bit_take_bit)
  then show ?thesis using assms False by (simp add: take_bit_eq_mod del: take_bit_take_bit)
qed

lemma prg_cell:
  assumes "ines_ok data" and "i < prg_size data"
    and "t_cfg t = cfg_word [data ! 4, data ! 5, data ! 6, data ! 7, data ! 8]"
  shows "cpu_cell t (of_nat (0x8000 + i)) = Some (True, i)"
proof -
  have i: "i < 0x8000" using sizes(1)[OF assms(1)] assms(2) by simp
  have "bit (t_cfg t) 33 \<or> i < 0x4000"
    using banks[of "data ! 4"] assms by (auto simp: cfg_bit_33 ines_ok_def prg_size_def bit_simps)
  then have "unat (prgrom_a (t_cfg t) (of_nat (0x8000 + i))) = i"
    using prgrom_a_eq i by blast
  moreover note rom_addr_bits(1)[OF i]
  ultimately show ?thesis by (simp add: cpu_cell_def del: of_nat_add)
qed

lemma chr_cell:
  assumes "i < 0x2000"
  shows "ppu_cell t (of_nat i) = Some (False, i)"
proof -
  from rom_addr_bits(2)[OF assms] show ?thesis using assms by (simp add: ppu_cell_def unsigned_ucast_eq unsigned_of_nat take_bit_eq_mod)
qed

lemma rom_target_eq:
  fixes t :: target
  assumes "ines_ok data" and "ines_complete data"
  defines "t1 \<equiv> t\<lparr>t_cfg := cfg_word [data ! 4, data ! 5, data ! 6, data ! 7, data ! 8]\<rparr>"
  defines "t2 \<equiv> wr_block t_cpu_wr 0x8000 (take (prg_size data) (drop 16 data)) t1"
  defines "t3 \<equiv> wr_block t_ppu_wr 0 (take (chr_size data) (drop (16 + prg_size data) data)) t2"
  shows "rom_target data t =
    t3\<lparr>t_cpu := dbgreg_write 1 (pch_of data) (dbgreg_write 0 (pcl_of data) (t_cpu t)), t_halted := False\<rparr>"
proof -
  have p: "16 + 0x400 * (prg_size data div 0x400) \<le> length data"
    and c: "16 + prg_size data + 0x400 * (chr_size data div 0x400) \<le> length data"
    using assms(2) sizes[OF assms(1)] by (simp_all add: ines_complete_def)
  have "snd (exec_all [PpuDisable, cfg_cmd data] t) = t1"
    by (simp add: t1_def cfg_cmd_def)
  moreover have "t_cpu t3 = t_cpu t"
    by (simp add: t3_def t2_def t1_def ppu_wr_frame cpu_wr_frame)
  ultimately show ?thesis
    unfolding rom_target_def exec_all_append prg_blocks[OF p] chr_blocks[OF c] sizes(3,4)[OF assms(1)]
    by (simp add: t3_def t2_def Let_def)
qed

lemma rom_target_loaded:
  assumes "ines_ok data" and "ines_complete data"
  shows "rom_loaded data (rom_target data t)"
proof -
  let ?cfg = "cfg_word [data ! 4, data ! 5, data ! 6, data ! 7, data ! 8]"
  let ?P = "take (prg_size data) (drop 16 data)" and ?C = "take (chr_size data) (drop (16 + prg_size data) data)"
  define t1 where "t1 = t\<lparr>t_cfg := ?cfg\<rparr>"
  define t2 where "t2 = wr_block t_cpu_wr 0x8000 ?P t1"
  define t3 where "t3 = wr_block t_ppu_wr 0 ?C t2"
  have len: "length ?P = prg_size data" "length ?C = chr_size data"
    using assms(2) by (simp_all add: ines_complete_def)
  have eq: "rom_target data t =
    t3\<lparr>t_cpu := dbgreg_write 1 (pch_of data) (dbgreg_write 0 (pcl_of data) (t_cpu t)), t_halted := False\<rparr>"
    using rom_target_eq[OF assms, of t] by (simp add: t1_def t2_def t3_def)
  have c1: "cpu_cell t1 (0x8000 + of_nat i) = Some (True, i)" if "i < length ?P" for i
    using prg_cell[OF assms(1), of i t1] that len by (simp add: t1_def)
  have "rd_block t_cpu_rd t2 0x8000 (length ?P) = ?P"
    unfolding t2_def by (rule cpu_bus.rd_block_wr_block) (auto simp: c1 inj_on_def)
  then have prg: "t_cpu_rd t2 (0x8000 + of_nat i) = ?P ! i" if "i < prg_size data" for i
    using nth_rd_block[of i "length ?P" t_cpu_rd t2 "0x8000"] that len by simp
  have c2: "ppu_cell t2 (0 + of_nat i) = Some (False, i)" if "i < length ?C" for i
    using chr_cell[of i t2] that len sizes(2)[OF assms(1)] by simp
  have "rd_block t_ppu_rd t3 0 (length ?C) = ?C"
    unfolding t3_def by (rule ppu_bus.rd_block_wr_block) (auto simp: c2[simplified] inj_on_def)
  then have chr: "t_ppu_rd t3 (of_nat i) = ?C ! i" if "i < chr_size data" for i
    using nth_rd_block[of i "length ?C" t_ppu_rd t3 0] that len by simp
  have cpu3: "t_cpu_rd (rom_target data t) a = t_cpu_rd t2 a" and ppu3: "t_ppu_rd (rom_target data t) a = t_ppu_rd t3 a" for a
    by (rule rd_cong; simp add: eq t3_def ppu_wr_frame)+
  have "t_cfg t3 = ?cfg" by (simp add: t3_def t2_def t1_def ppu_wr_frame cpu_wr_frame)
  then show ?thesis
    unfolding rom_loaded_def cpu3 ppu3
    using prg chr assms(2) by (simp add: eq dbgreg_write_def Let_def ines_complete_def)
qed


end
