(* ===== verification/Win32.thy ===== *)
theory Win32
  imports Complex_Main Prelude
begin

text \<open>
  What the debugger calls and does not define: the Win32 functions, the C runtime's string
  conversions and the Lua 5.1 C interface. They are one record of functions \<open>'w env\<close> over an
  arbitrary type \<open>'w\<close> of worlds (files, serial port, windows, Lua virtual machine), a parameter of
  every definition that calls out. A call takes the arguments that matter and gives the results and
  the world after it; no field has a definition here. Also the parts of \<^verbatim>\<open>sw/src/util.h\<close>: the
  debug build's \<^verbatim>\<open>assert\<close> and the string conversions.
\<close>

section \<open>Data passed to and from the system\<close>

type_synonym tstring = "tchar list"   \<comment> \<open>without the terminating zero\<close>

definition T :: "string \<Rightarrow> tstring" where
  "T s = map (\<lambda>c. of_nat (of_char c)) s"

definition INVALID_HANDLE_VALUE :: uint where
  "INVALID_HANDLE_VALUE = 0xFFFFFFFF"

definition ERROR_FILE_NOT_FOUND :: uint where
  "ERROR_FILE_NOT_FOUND = 2"

definition GENERIC_READ :: uint where
  "GENERIC_READ = 0x80000000"

definition GENERIC_WRITE :: uint where
  "GENERIC_WRITE = 0x40000000"

text \<open>\<open>dcb_rest\<close> stands for the fields of the structure that the program passes through unchanged.\<close>

record DCB =
  DCBlength :: uint
  BaudRate :: uint
  ByteSize :: byte
  Parity :: byte
  StopBits :: byte
  dcb_rest :: nat

record COMMTIMEOUTS =
  ReadIntervalTimeout :: uint
  ReadTotalTimeoutMultiplier :: uint
  ReadTotalTimeoutConstant :: uint
  WriteTotalTimeoutMultiplier :: uint
  WriteTotalTimeoutConstant :: uint

text \<open>
  The messages sent to dialog controls, with their parameters, and what comes back: the LRESULT
  and whatever the control wrote through the pointer it was given.
\<close>

datatype dlg_msg =
    WM_SETFONT uint
  | WM_SETTEXT tstring
  | WM_GETTEXTLENGTH
  | WM_GETTEXT uint
  | PBM_GETRANGE
  | PBM_SETPOS uint
  | LB_DIR tstring
  | LB_GETSELCOUNT
  | LB_GETSELITEMS uint
  | LB_GETTEXTLEN uint
  | LB_GETTEXT uint
  | EM_SETSEL uint uint
  | EM_REPLACESEL tstring

record dlg_reply =
  lresult :: uint
  r_text :: tstring
  r_items :: "uint list"
  iLow :: int
  iHigh :: int

text \<open>A Lua number is a double; what the program distinguishes is its value, if it has one.\<close>

datatype lua_number = LFinite rat | LNonFinite

text \<open>Window messages, and the messages a dialog procedure is called with; \<open>WM_COMMAND\<close> has its WPARAM.\<close>

datatype win_msg = WM_COMMAND uint | WM_CLOSE | WM_DESTROY | WM_INITDIALOG | WM_OTHER uint

record MSG =
  hwnd :: uint
  message :: win_msg
  wParam :: uint

definition LOWORD :: "uint \<Rightarrow> uint" where
  "LOWORD w = w AND 0xFFFF"

section \<open>The environment\<close>

record 'w env =
  debug_build :: bool
  flt :: "rat \<Rightarrow> rat"   \<comment> \<open>rounding to single precision\<close>
  CreateFile :: "tstring \<Rightarrow> uint \<Rightarrow> 'w \<Rightarrow> uint \<times> 'w"
  ReadFile :: "uint \<Rightarrow> uint \<Rightarrow> 'w \<Rightarrow> (bool \<times> byte list) \<times> 'w"
  WriteFile :: "uint \<Rightarrow> byte list \<Rightarrow> 'w \<Rightarrow> (bool \<times> uint) \<times> 'w"
  CloseHandle :: "uint \<Rightarrow> 'w \<Rightarrow> 'w"
  GetLastError :: "'w \<Rightarrow> uint \<times> 'w"
  GetCommState :: "uint \<Rightarrow> DCB \<Rightarrow> 'w \<Rightarrow> (bool \<times> DCB) \<times> 'w"
  SetCommState :: "uint \<Rightarrow> DCB \<Rightarrow> 'w \<Rightarrow> bool \<times> 'w"
  SetCommTimeouts :: "uint \<Rightarrow> COMMTIMEOUTS \<Rightarrow> 'w \<Rightarrow> bool \<times> 'w"
  Sleep :: "uint \<Rightarrow> 'w \<Rightarrow> 'w"
  MessageBox :: "tstring \<Rightarrow> tstring \<Rightarrow> 'w \<Rightarrow> 'w"
  GetOpenFileName :: "uint \<Rightarrow> 'w \<Rightarrow> (bool \<times> tstring) \<times> 'w"
  CreateFont :: "'w \<Rightarrow> uint \<times> 'w"
  DeleteObject :: "uint \<Rightarrow> 'w \<Rightarrow> 'w"
  CreateDialog :: "tstring \<Rightarrow> uint \<Rightarrow> 'w \<Rightarrow> uint \<times> 'w"
  DestroyWindow :: "uint \<Rightarrow> 'w \<Rightarrow> 'w"
  DialogBox :: "tstring \<Rightarrow> uint \<Rightarrow> 'w \<Rightarrow> 'w"
  EndDialog :: "uint \<Rightarrow> uint \<Rightarrow> 'w \<Rightarrow> 'w"
  SendDlgItemMessage :: "uint \<Rightarrow> uint \<Rightarrow> dlg_msg \<Rightarrow> 'w \<Rightarrow> dlg_reply \<times> 'w"
  RegisterClassEx :: "tstring \<Rightarrow> 'w \<Rightarrow> bool \<times> 'w"
  CreateWindow :: "tstring \<Rightarrow> tstring \<Rightarrow> 'w \<Rightarrow> uint \<times> 'w"
  ShowWindow :: "uint \<Rightarrow> int \<Rightarrow> 'w \<Rightarrow> 'w"
  UpdateWindow :: "uint \<Rightarrow> 'w \<Rightarrow> 'w"
  GetMessage :: "'w \<Rightarrow> (bool \<times> MSG) \<times> 'w"
  TranslateMessage :: "MSG \<Rightarrow> 'w \<Rightarrow> 'w"
  DispatchMessage :: "MSG \<Rightarrow> ('w, unit) prog"
  PostMessage :: "uint \<Rightarrow> win_msg \<Rightarrow> 'w \<Rightarrow> 'w"
  PostQuitMessage :: "int \<Rightarrow> 'w \<Rightarrow> 'w"
  DefWindowProc :: "uint \<Rightarrow> win_msg \<Rightarrow> 'w \<Rightarrow> int \<times> 'w"
  wcstombs :: "tstring \<Rightarrow> byte list"
  mbstowcs :: "byte list \<Rightarrow> tstring"
  lua_isnumber :: "int \<Rightarrow> 'w \<Rightarrow> bool"
  lua_isstring :: "int \<Rightarrow> 'w \<Rightarrow> bool"
  lua_istable :: "int \<Rightarrow> 'w \<Rightarrow> bool"
  lua_tonumber :: "int \<Rightarrow> 'w \<Rightarrow> lua_number"
  lua_tostring :: "int \<Rightarrow> 'w \<Rightarrow> byte list"
  lua_rawgeti :: "int \<Rightarrow> int \<Rightarrow> 'w \<Rightarrow> 'w"
  lua_pop :: "nat \<Rightarrow> 'w \<Rightarrow> 'w"
  lua_newtable :: "'w \<Rightarrow> 'w"
  lua_settable :: "int \<Rightarrow> 'w \<Rightarrow> 'w"
  lua_pushnumber :: "rat \<Rightarrow> 'w \<Rightarrow> 'w"
  lua_pushinteger :: "int \<Rightarrow> 'w \<Rightarrow> 'w"
  lua_open :: "'w \<Rightarrow> uint \<times> 'w"
  lua_close :: "'w \<Rightarrow> 'w"
  luaopen_base :: "'w \<Rightarrow> 'w"
  luaopen_math :: "'w \<Rightarrow> 'w"
  lua_setglobal_c :: "string \<Rightarrow> string \<Rightarrow> 'w \<Rightarrow> 'w"
  luaL_register :: "string \<Rightarrow> (string \<times> string) list \<Rightarrow> 'w \<Rightarrow> 'w"
  luaL_dofile :: "byte list \<Rightarrow> ('w, bool) prog"

text \<open>A call of a function with no result.\<close>

definition act :: "('w \<Rightarrow> 'w) \<Rightarrow> ('w, unit) prog" where
  "act g w = Inr ((), g w)"

text \<open>A predicate or value read from the world.\<close>

definition ask :: "('w \<Rightarrow> 'a) \<Rightarrow> ('w, 'a) prog" where
  "ask g w = Inr (g w, w)"

lemma act_simps [prog_simps, simp]:
  "seq (act g) k w = k (g w)"
  "bnd (act g) f w = f () (g w)"
  by (simp_all add: act_def seq_def bnd_def)

lemma seq_ifp_act [prog_simps, simp]: "seq (ifp b (act g)) k w = k (if b then g w else w)"
  by (simp add: ifp_def)

lemma act_apply [prog_simps]: "act g w = Inr ((), g w)"
  by (simp add: act_def)

lemma ask_simps [prog_simps, simp]: "bnd (ask g) f w = f (g w) w"
  by (simp add: ask_def bnd_def)

section \<open>Assertions, string conversions and float-to-integer conversions\<close>

text \<open>
  \<^verbatim>\<open>assert\<close>: in a debug build a failed one shows a message box and breaks into the debugger,
  which ends the model's run; in a release build only the expression is evaluated.
\<close>

definition assert_exp :: "'w env \<Rightarrow> bool \<Rightarrow> ('w, unit) prog" where
  "assert_exp E e = (if e \<or> \<not> debug_build E then ret () else throw AssertFailed)"

lemma assert_True [simp]: "assert_exp E True = ret ()"
  by (simp add: assert_exp_def)

definition CreateAsciiString :: "'w env \<Rightarrow> tstring \<Rightarrow> byte list" where
  "CreateAsciiString E pIn = wcstombs E pIn"

definition CreateTcharString :: "'w env \<Rightarrow> byte list \<Rightarrow> tstring" where
  "CreateTcharString E pIn = mbstowcs E pIn"

text \<open>
  Conversions from floating point truncate towards zero; a value that does not fit the integer
  type is undefined behaviour.
\<close>

definition trunc :: "rat \<Rightarrow> int" where
  "trunc q = (if q < 0 then - \<lfloor>- q\<rfloor> else \<lfloor>q\<rfloor>)"

definition cast_unsigned :: "nat \<Rightarrow> lua_number \<Rightarrow> fault + int" where
  "cast_unsigned w x =
     (case x of LNonFinite \<Rightarrow> Inl BadCast
      | LFinite q \<Rightarrow> if 0 \<le> trunc q \<and> trunc q < 2 ^ w then Inr (trunc q) else Inl BadCast)"

definition cast_ushort :: "lua_number \<Rightarrow> fault + ushort" where
  "cast_ushort x = ebind (cast_unsigned 16 x) (\<lambda>n. Inr (of_int n))"

definition cast_uint :: "lua_number \<Rightarrow> fault + uint" where
  "cast_uint x = ebind (cast_unsigned 32 x) (\<lambda>n. Inr (of_int n))"

definition cast_byte :: "lua_number \<Rightarrow> fault + byte" where
  "cast_byte x = ebind (cast_unsigned 8 x) (\<lambda>n. Inr (of_int n))"

definition cast_INT :: "rat \<Rightarrow> fault + int" where
  "cast_INT q = (if - (2 ^ 31) \<le> trunc q \<and> trunc q < 2 ^ 31 then Inr (trunc q) else Inl BadCast)"

lemma trunc_of_nat [simp]: "trunc (of_nat n) = int n"
  by (simp add: trunc_def)

lemma trunc_unsigned [simp]: "trunc (unsigned (v :: 'a::len word)) = int (unat v)"
  using trunc_of_nat[of "unat v"] by (simp del: trunc_of_nat)

lemma cast_of_word [simp]:
  "cast_ushort (LFinite (unsigned (u :: ushort))) = Inr u"
  "cast_byte (LFinite (unsigned (b :: byte))) = Inr b"
  "cast_uint (LFinite (unsigned (b :: byte))) = Inr (ucast b)"
  using unsigned_less[where 'a=int and w=u] unsigned_less[where 'a=int and w=b]
  by (simp_all add: cast_ushort_def cast_byte_def cast_uint_def cast_unsigned_def)

end
