(* ===== verification/Serial.thy ===== *)
theory Serial
  imports Win32 Protocol
begin

text \<open>
  \<^verbatim>\<open>sw/src/serialcomm.cpp\<close>: the serial port object. \<open>Init\<close> opens and configures the port and
  verifies the connection with an echo packet; \<open>SendData\<close> and \<open>ReceiveData\<close> move bytes. Each
  block of \<open>Init\<close> is a definition of its own, run only while the result so far is TRUE.
\<close>

record SerialComm =
  m_hSerialComm :: uint

section \<open>Transfers\<close>

text \<open>What a callee does that fills the first bytes of a buffer with \<open>bs\<close>.\<close>

definition buf_fill :: "buf \<Rightarrow> byte list \<Rightarrow> fault + buf" where
  "buf_fill b bs =
     (if length bs \<le> length b then Inr (map Some bs @ drop (length bs) b) else Inl OobWrite)"

definition SendData :: "'w env \<Rightarrow> SerialComm \<Rightarrow> buf \<Rightarrow> uint \<Rightarrow> ('w, bool) prog" where
  "SendData E s pData numBytes =
     bnd (lift (buf_slice pData 0 (unat numBytes))) (\<lambda>bytes.
     bnd (call (WriteFile E (m_hSerialComm s) bytes)) (\<lambda>(r, bytesWritten).
     seq (assert_exp E (bytesWritten = numBytes))
     (ret (if bytesWritten \<noteq> numBytes then False else r))))"

text \<open>The result is the flag and the buffer \<open>pData\<close> with what was received in front.\<close>

definition ReceiveData :: "'w env \<Rightarrow> SerialComm \<Rightarrow> buf \<Rightarrow> uint \<Rightarrow> ('w, bool \<times> buf) prog" where
  "ReceiveData E s pData numBytes =
     bnd (call (ReadFile E (m_hSerialComm s) numBytes)) (\<lambda>(r, bytes).
     bnd (lift (buf_fill pData bytes)) (\<lambda>pData.
     seq (assert_exp E (length bytes = unat numBytes))
     (ret (if length bytes \<noteq> unat numBytes then False else r, pData))))"

text \<open>A packet's bytes go out through its virtual methods: \<^verbatim>\<open>SendData(p.PacketData(), p.SizeInBytes())\<close>.\<close>

definition SendPacket :: "'w env \<Rightarrow> SerialComm \<Rightarrow> dbg_packet \<Rightarrow> ('w, bool) prog" where
  "SendPacket E s p = bnd (lift (SizeInBytes p)) (\<lambda>n. SendData E s (PacketData p) n)"

section \<open>Initialization\<close>

definition NesDbg_title :: tstring where
  "NesDbg_title = T ''NesDbg''"

definition Init_open :: "'w env \<Rightarrow> ('w, bool \<times> SerialComm) prog" where
  "Init_open E =
     bnd (call (CreateFile E (T ''COM5'') (GENERIC_READ OR GENERIC_WRITE))) (\<lambda>h.
     if h = INVALID_HANDLE_VALUE then
       bnd (call (GetLastError E)) (\<lambda>err.
       seq (if err = ERROR_FILE_NOT_FOUND
            then act (MessageBox E (T ''\"COM5\" file not found.'') NesDbg_title)
            else act (MessageBox E (T ''Unknown error initializing COM5'') NesDbg_title))
       (ret (False, \<lparr>m_hSerialComm = h\<rparr>)))
     else ret (True, \<lparr>m_hSerialComm = h\<rparr>))"

text \<open>\<open>serialConfig\<close> starts zeroed with its size set.\<close>

definition serialConfig0 :: DCB where
  "serialConfig0 = \<lparr>DCBlength = 28, BaudRate = 0, ByteSize = 0, Parity = 0, StopBits = 0, dcb_rest = 0\<rparr>"

definition Init_getstate :: "'w env \<Rightarrow> SerialComm \<Rightarrow> ('w, bool \<times> DCB) prog" where
  "Init_getstate E s =
     bnd (call (GetCommState E (m_hSerialComm s) serialConfig0)) (\<lambda>(ok, serialConfig).
     if \<not> ok then
       seq (act (MessageBox E (T ''Error getting comm state for COM5.'') NesDbg_title))
       (ret (False, serialConfig))
     else ret (True, serialConfig))"

definition Init_setstate :: "'w env \<Rightarrow> SerialComm \<Rightarrow> DCB \<Rightarrow> ('w, bool) prog" where
  "Init_setstate E s serialConfig =
     bnd (call (SetCommState E (m_hSerialComm s)
       (serialConfig\<lparr>BaudRate := 38400, ByteSize := 8, StopBits := 0, Parity := 1\<rparr>))) (\<lambda>ok.
     if \<not> ok then
       seq (act (MessageBox E (T ''Error setting comm state for COM5.'') NesDbg_title)) (ret False)
     else ret True)"

definition Init_timeouts :: "'w env \<Rightarrow> SerialComm \<Rightarrow> ('w, bool) prog" where
  "Init_timeouts E s =
     bnd (call (SetCommTimeouts E (m_hSerialComm s)
       \<lparr>ReadIntervalTimeout = 50, ReadTotalTimeoutMultiplier = 10, ReadTotalTimeoutConstant = 5000,
        WriteTotalTimeoutMultiplier = 10, WriteTotalTimeoutConstant = 50\<rparr>)) (\<lambda>ok.
     if \<not> ok then
       seq (act (MessageBox E (T ''Error setting timeout state for COM5.'') NesDbg_title)) (ret False)
     else ret True)"

text \<open>\<^verbatim>\<open>strcmp(s, b) != 0\<close> for a zero-terminated constant \<open>s\<close> and a buffer \<open>b\<close> from index \<open>i\<close> on.\<close>

fun strcmp_differs :: "byte list \<Rightarrow> buf \<Rightarrow> nat \<Rightarrow> fault + bool" where
  "strcmp_differs [] b i = Inl OobRead"
| "strcmp_differs (c # cs) b i =
     ebind (buf_rd b i) (\<lambda>v.
     if v \<noteq> c then Inr True else if c = 0 then Inr False else strcmp_differs cs b (i + 1))"

definition initString :: "byte list" where
  "initString = [0x4E, 0x45, 0x53, 0x00]"   \<comment> \<open>\<^verbatim>\<open>"NES"\<close> with its terminator\<close>

definition Init_handshake :: "'w env \<Rightarrow> SerialComm \<Rightarrow> ('w, bool) prog" where
  "Init_handshake E s =
     seq (act (Sleep E 200))
     (bnd (lift (new_EchoPacket (map Some initString) 0 (of_nat (length initString)))) (\<lambda>initEchoPkt.
      seq (SendPacket E s initEchoPkt)
      (bnd (lift (ReturnBytesExpected initEchoPkt)) (\<lambda>bytesToReceive.
       bnd (ReceiveData E s (new_buf (unat bytesToReceive)) bytesToReceive) (\<lambda>(_, pOutString).
       bnd (lift (strcmp_differs initString pOutString 0)) (\<lambda>differs.
       if differs then
         seq (act (MessageBox E (T ''NES FPGA not connected.'') NesDbg_title)) (ret False)
       else ret True))))))"

definition SerialComm_Init :: "'w env \<Rightarrow> ('w, bool \<times> SerialComm) prog" where
  "SerialComm_Init E =
     bnd (Init_open E) (\<lambda>(ok, s).
     bnd (if ok then Init_getstate E s else ret (False, serialConfig0)) (\<lambda>(ok, serialConfig).
     bnd (if ok then Init_setstate E s serialConfig else ret False) (\<lambda>ok.
     bnd (if ok then Init_timeouts E s else ret False) (\<lambda>ok.
     bnd (if ok then Init_handshake E s else ret False) (\<lambda>ok.
     ret (ok, s))))))"

definition delete_SerialComm :: "'w env \<Rightarrow> SerialComm \<Rightarrow> ('w, unit) prog" where
  "delete_SerialComm E s = (if m_hSerialComm s \<noteq> 0 then act (CloseHandle E (m_hSerialComm s)) else ret ())"

end
