(* ===== verification/Link.thy ===== *)
theory Link
  imports Serial Target
begin

text \<open>
  The contracts between the host program and what it drives. \<open>nes_link\<close>: the serial port \<open>h\<close> is
  connected to a debug target that executes a packet when its bytes are written and whose replies
  are read in order (what theory \<open>Hci_Packets\<close> proves of the FPGA). \<open>lua_vm\<close>: the documented
  stack behaviour of the Lua functions the program uses. \<open>script_host\<close>: both, and that neither
  side disturbs the other. The host's functions are verified under these contracts;
  theories \<open>Bench\<close> and \<open>Rig\<close> interpret them.
\<close>

section \<open>The serial line\<close>

locale nes_link =
  fixes E :: "'w env" and h :: uint and tgt :: "'w \<Rightarrow> target" and inq :: "'w \<Rightarrow> byte list"
  assumes write_packet: "t_halted (tgt w) \<Longrightarrow> wf_cmd c \<Longrightarrow> plain_cmd c \<Longrightarrow>
      fst (WriteFile E h (encode c) w) = (True, of_nat (length (encode c))) \<and>
      tgt (snd (WriteFile E h (encode c) w)) = snd (exec c (tgt w)) \<and>
      inq (snd (WriteFile E h (encode c) w)) = inq w @ fst (exec c (tgt w))"
    and write_halt: "fst (WriteFile E h (encode DbgHlt) w) = (True, 1) \<and>
      t_halted (tgt (snd (WriteFile E h (encode DbgHlt) w))) \<and>
      inq (snd (WriteFile E h (encode DbgHlt) w)) = inq w"
    and write_query: "fst (WriteFile E h (encode QueryHlt) w) = (True, 1) \<and>
      (\<exists>v. (v = 0 \<or> v = 1) \<and> inq (snd (WriteFile E h (encode QueryHlt) w)) = inq w @ [v] \<and>
         (v = 1 \<longrightarrow> t_halted (tgt (snd (WriteFile E h (encode QueryHlt) w)))))"
    and read_reply: "unat n \<le> length (inq w) \<Longrightarrow>
      fst (ReadFile E h n w) = (True, take (unat n) (inq w)) \<and>
      tgt (snd (ReadFile E h n w)) = tgt w \<and>
      inq (snd (ReadFile E h n w)) = drop (unat n) (inq w)"
begin

lemma wf_length: "wf_cmd c \<Longrightarrow> unat (of_nat (length (encode c)) :: uint) = length (encode c)"
  using length_encode[of c] by (simp add: unat_of_nat take_bit_nat_eq_self)

lemma wf_reply: "wf_cmd c \<Longrightarrow> unat (of_nat (reply_len c) :: uint) = reply_len c"
  using reply_len_bound[of c] by (simp add: unat_of_nat take_bit_nat_eq_self)

lemma SendPacket_write:
  assumes "carries p c" and "wf_cmd c"
    and "fst (WriteFile E h (encode c) w) = (True, of_nat (length (encode c)))"
  shows "SendPacket E \<lparr>m_hSerialComm = h\<rparr> p w = Inr (True, snd (WriteFile E h (encode c) w))"
  using assms(2,3) carries_SizeInBytes[OF assms(1,2)] carries_PacketData[OF assms(1)] wf_length[OF assms(2)]
  by (simp add: SendPacket_def SendData_def bnd_call prog_simps split_beta)

text \<open>Sending a packet to a halted target executes it.\<close>

lemma SendPacket_ok:
  assumes "carries p c" and "wf_cmd c" and "plain_cmd c" and "t_halted (tgt w)"
  obtains w' where "SendPacket E \<lparr>m_hSerialComm = h\<rparr> p w = Inr (True, w')"
    and "w' = snd (WriteFile E h (encode c) w)"
    and "tgt w' = snd (exec c (tgt w))" and "inq w' = inq w @ fst (exec c (tgt w))"
  using SendPacket_write[OF assms(1,2)] write_packet[OF assms(4,2,3)] by blast

lemma SendPacket_halt:
  assumes "carries p DbgHlt"
  obtains w' where "SendPacket E \<lparr>m_hSerialComm = h\<rparr> p w = Inr (True, w')"
    and "w' = snd (WriteFile E h (encode DbgHlt) w)"
    and "t_halted (tgt w')" and "inq w' = inq w"
  using SendPacket_write[OF assms] write_halt[of w] by (simp add: wf_cmd_def)

text \<open>Receiving as many bytes as have been sent back.\<close>

lemma ReceiveData_fill:
  assumes "unat n \<le> length (inq w)" and "length buf = unat n"
  obtains w' where "ReceiveData E \<lparr>m_hSerialComm = h\<rparr> buf n w =
      Inr ((True, map Some (take (unat n) (inq w))), w')"
    and "w' = snd (ReadFile E h n w)" and "tgt w' = tgt w" and "inq w' = drop (unat n) (inq w)"
proof -
  have "ReceiveData E \<lparr>m_hSerialComm = h\<rparr> buf n w =
      Inr ((True, map Some (take (unat n) (inq w))), snd (ReadFile E h n w))"
    using assms read_reply[OF assms(1)]
    by (simp add: ReceiveData_def bnd_call buf_fill_def prog_simps split_beta)
  then show ?thesis using that read_reply[OF assms(1)] by blast
qed

lemmas ReceiveData_ok = ReceiveData_fill[where buf = "new_buf (unat n)" and n = n for n, OF _ length_new_buf]

end

section \<open>The Lua stack\<close>

text \<open>
  Values as the program sees them; a table is the map of its integer keys. Positive stack indices
  count from the bottom, negative ones from the top; an index that is not on the stack reads as nil.
\<close>

datatype lua_value = LNil | LNum lua_number | LStr "byte list" | LTab "int \<Rightarrow> lua_value"

definition lget :: "lua_value list \<Rightarrow> int \<Rightarrow> lua_value" where
  "lget s i =
     (if 0 < i \<and> i \<le> int (length s) then s ! nat (i - 1)
      else if i < 0 \<and> - i \<le> int (length s) then s ! nat (int (length s) + i)
      else LNil)"

lemma lget_last [simp]: "lget (s @ [x]) (-1) = x"
  by (simp add: lget_def nth_append)

lemma lget_append: "0 < i \<Longrightarrow> i \<le> int (length s) \<Longrightarrow> lget (s @ t) i = lget s i"
  by (simp add: lget_def nth_append nat_less_iff)

lemma lget_Cons [simp]:
  "lget (x # s) 1 = x"
  "lget (x # y # s) 2 = y"
  "lget (x # y # z # s) 3 = z"
  by (simp_all add: lget_def)

lemma lget_tab_bound: "lget s i = LTab t \<Longrightarrow> 0 < i \<Longrightarrow> i \<le> int (length s)"
  by (auto simp: lget_def split: if_splits)

locale lua_vm =
  fixes E :: "'w env" and stk :: "'w \<Rightarrow> lua_value list"
  assumes number: "lget (stk w) i = LNum x \<Longrightarrow> lua_isnumber E i w \<and> lua_tonumber E i w = x"
    and not_number: "lget (stk w) i = LNil \<or> lget (stk w) i = LTab t \<Longrightarrow> \<not> lua_isnumber E i w"
    and table: "lua_istable E i w \<longleftrightarrow> (\<exists>t. lget (stk w) i = LTab t)"
    and str: "lget (stk w) i = LStr s \<Longrightarrow> lua_isstring E i w \<and> lua_tostring E i w = s"
    and rawgeti: "lget (stk w) i = LTab t \<Longrightarrow> stk (lua_rawgeti E i n w) = stk w @ [t n]"
    and pop: "k \<le> length (stk w) \<Longrightarrow> stk (lua_pop E k w) = take (length (stk w) - k) (stk w)"
    and newtable: "stk (lua_newtable E w) = stk w @ [LTab (\<lambda>_. LNil)]"
    and pushnumber: "stk (lua_pushnumber E q w) = stk w @ [LNum (LFinite q)]"
    and pushinteger: "stk (lua_pushinteger E k w) = stk w @ [LNum (LFinite (of_int k))]"
    and settable: "stk w = s0 @ [LTab t, LNum (LFinite (of_int k)), v] \<Longrightarrow>
      stk (lua_settable E (-3) w) = s0 @ [LTab (t(k := v))]"

text \<open>
  Both together. \<open>obs\<close> is what can be seen of the console and its line: the Lua functions do not
  touch it, the serial port does not touch the Lua stack, and time (\<open>Sleep\<close>) passes for a halted
  console without effect.
\<close>

locale script_host = nes_link E h tgt inq + lua_vm E stk
  for E :: "'w env" and h tgt inq stk +
  assumes port_stk: "stk (snd (WriteFile E h bs w)) = stk w" "stk (snd (ReadFile E h n w)) = stk w"
    and lua_tgt: "tgt (lua_rawgeti E i n' w) = tgt w" "tgt (lua_pop E k w) = tgt w"
      "tgt (lua_newtable E w) = tgt w" "tgt (lua_pushnumber E q w) = tgt w"
      "tgt (lua_pushinteger E i w) = tgt w" "tgt (lua_settable E i w) = tgt w"
    and lua_inq: "inq (lua_rawgeti E i n' w) = inq w" "inq (lua_pop E k w) = inq w"
      "inq (lua_newtable E w) = inq w" "inq (lua_pushnumber E q w) = inq w"
      "inq (lua_pushinteger E i w) = inq w" "inq (lua_settable E i w) = inq w"
    and sleep_stk: "stk (Sleep E ms w) = stk w"
    and sleep_inq: "inq (Sleep E ms w) = inq w"
    and sleep_tgt: "t_halted (tgt w) \<Longrightarrow> tgt (Sleep E ms w) = tgt w"

section \<open>The user interface and files\<close>

text \<open>
  A call is quiet when it leaves the line and the Lua stack alone, and the console too while that
  is halted.
\<close>

definition quiet :: "('w \<Rightarrow> target) \<Rightarrow> ('w \<Rightarrow> byte list) \<Rightarrow> ('w \<Rightarrow> lua_value list) \<Rightarrow> ('w \<Rightarrow> 'w) \<Rightarrow> bool" where
  "quiet tgt inq stk f \<longleftrightarrow>
     (\<forall>w. inq (f w) = inq w \<and> stk (f w) = stk w \<and> (t_halted (tgt w) \<longrightarrow> tgt (f w) = tgt w))"

lemma quietD:
  "quiet tgt inq stk f \<Longrightarrow> inq (f w) = inq w"
  "quiet tgt inq stk f \<Longrightarrow> stk (f w) = stk w"
  "quiet tgt inq stk f \<Longrightarrow> t_halted (tgt w) \<Longrightarrow> tgt (f w) = tgt w"
  by (simp_all add: quiet_def)

text \<open>
  Single precision rounding is monotone and exact on integers up to 24 bits. A progress bar's
  range is within 16 bits.
\<close>

definition float_rounding :: "(rat \<Rightarrow> rat) \<Rightarrow> bool" where
  "float_rounding f \<longleftrightarrow> mono f \<and> (\<forall>n. \<bar>n\<bar> \<le> 2 ^ 24 \<longrightarrow> f (of_int n) = of_int n)"

definition bar_range :: "dlg_reply \<Rightarrow> bool" where
  "bar_range r \<longleftrightarrow> 0 \<le> iLow r \<and> iLow r \<le> iHigh r \<and> iHigh r \<le> 65535"

locale ui_host = script_host E h tgt inq stk for E :: "'w env" and h tgt inq stk +
  assumes quiet_ui: "quiet tgt inq stk (MessageBox E txt title)"
      "quiet tgt inq stk (\<lambda>w. snd (GetOpenFileName E len w))"
      "quiet tgt inq stk (\<lambda>w. snd (CreateDialog E name parent w))"
      "quiet tgt inq stk (\<lambda>w. snd (SendDlgItemMessage E dlg ctl msg w))"
    and quiet_file: "quiet tgt inq stk (\<lambda>w. snd (CreateFile E path mode w))"
      "k \<noteq> h \<Longrightarrow> quiet tgt inq stk (\<lambda>w. snd (ReadFile E k n w))"
      "k \<noteq> h \<Longrightarrow> quiet tgt inq stk (CloseHandle E k)"
    and rounding: "float_rounding (flt E)"
    and range: "bar_range (fst (SendDlgItemMessage E dlg ctl PBM_GETRANGE w))"

end
