(* ===== verification/App.thy ===== *)
theory App
  imports Serial
begin

text \<open>
  The program's objects (\<^verbatim>\<open>sw/src/nesdbg.h\<close>, \<^verbatim>\<open>scriptmgr.h\<close>), access to them through the global
  \<^verbatim>\<open>g_pNesDbg\<close>, and the formatted output of the script dialog: the \<^verbatim>\<open>printf\<close> conversions the
  program's format strings use, and \<open>TestScriptDlgAppendOutput\<close>.
\<close>

section \<open>Objects\<close>

record ScriptMgr =
  m_pLuaVm :: uint
  m_hWndDlg :: uint

record NesDbg =
  m_hInstance :: uint
  m_hWnd :: uint
  m_hFontCourierNew :: uint
  m_pSerialComm :: "SerialComm option"
  m_pScriptMgr :: "ScriptMgr option"

text \<open>A pointer that is used; NULL is \<open>None\<close>.\<close>

definition deref :: "'a option \<Rightarrow> fault + 'a" where
  "deref p = (case p of None \<Rightarrow> Inl NullDeref | Some x \<Rightarrow> Inr x)"

text \<open>\<^verbatim>\<open>g_pNesDbg->GetSerialComm()->\<close> and \<^verbatim>\<open>g_pNesDbg->GetScriptMgr()->\<close>; NULL is \<open>None\<close>.\<close>

definition GetSerialComm :: "NesDbg option \<Rightarrow> fault + SerialComm" where
  "GetSerialComm g =
     (case g of None \<Rightarrow> Inl NullDeref
      | Some d \<Rightarrow> (case m_pSerialComm d of None \<Rightarrow> Inl NullDeref | Some s \<Rightarrow> Inr s))"

definition GetScriptMgr :: "NesDbg option \<Rightarrow> fault + ScriptMgr" where
  "GetScriptMgr g =
     (case g of None \<Rightarrow> Inl NullDeref
      | Some d \<Rightarrow> (case m_pScriptMgr d of None \<Rightarrow> Inl NullDeref | Some s \<Rightarrow> Inr s))"

text \<open>Control identifiers (\<^verbatim>\<open>sw/rsrc/resource.h\<close>).\<close>

definition IDCANCEL :: uint where "IDCANCEL = 2"
definition IDC_ROMLOAD_PROGRESS :: uint where "IDC_ROMLOAD_PROGRESS = 1002"
definition IDM_FILE_EXIT :: uint where "IDM_FILE_EXIT = 40000"
definition IDM_TOOLS_RAWDEBUG :: uint where "IDM_TOOLS_RAWDEBUG = 40001"
definition IDM_TOOLS_TESTSCRIPTS :: uint where "IDM_TOOLS_TESTSCRIPTS = 40002"
definition IDM_FILE_LOADROM :: uint where "IDM_FILE_LOADROM = 40003"
definition IDC_TESTSCRIPTS_PROGRESS :: uint where "IDC_TESTSCRIPTS_PROGRESS = 40011"
definition IDC_TESTSCRIPTS_RUN :: uint where "IDC_TESTSCRIPTS_RUN = 40013"
definition IDC_TESTSCRIPTS_DONE :: uint where "IDC_TESTSCRIPTS_DONE = 40014"
definition IDC_TESTSCRIPTS_LIST :: uint where "IDC_TESTSCRIPTS_LIST = 40016"
definition IDC_TESTSCRIPTS_OUTPUT :: uint where "IDC_TESTSCRIPTS_OUTPUT = 40018"
definition IDC_TESTSCRIPTS_PROGRESSTXT :: uint where "IDC_TESTSCRIPTS_PROGRESSTXT = 40019"
definition IDC_RAWDBG_SEND :: uint where "IDC_RAWDBG_SEND = 40020"
definition IDC_RAWDBG_IN :: uint where "IDC_RAWDBG_IN = 40021"
definition IDC_RAWDBG_OUT :: uint where "IDC_RAWDBG_OUT = 40022"
definition IDC_RAWDBG_CLEAR :: uint where "IDC_RAWDBG_CLEAR = 40024"
definition IDC_RAWDBG_DONE :: uint where "IDC_RAWDBG_DONE = 40025"
definition IDC_TESTSCRIPTS_RESULTSTXT :: uint where "IDC_TESTSCRIPTS_RESULTSTXT = 40025"
definition IDC_TESTSCRIPTS_CLEAR :: uint where "IDC_TESTSCRIPTS_CLEAR = 40027"

section \<open>Formatted output\<close>

text \<open>Decimal digits of a natural number, and \<^verbatim>\<open>%d\<close> of a 32-bit argument (which it reads as signed).\<close>

fun dec :: "nat \<Rightarrow> tstring" where
  "dec n = (if n < 10 then [of_nat (0x30 + n)] else dec (n div 10) @ [of_nat (0x30 + n mod 10)])"

declare dec.simps [simp del]

definition fmt_d :: "uint \<Rightarrow> tstring" where
  "fmt_d v = (if sint v < 0 then 0x2D # dec (nat (- sint v)) else dec (nat (sint v)))"

datatype fmt_arg = ArgD uint | ArgS tstring

text \<open>
  The conversions \<^verbatim>\<open>%d\<close>, \<^verbatim>\<open>%s\<close> and \<^verbatim>\<open>%%\<close>. Any other conversion, or one without a matching
  argument, has no defined result.
\<close>

fun vprintf :: "tstring \<Rightarrow> fmt_arg list \<Rightarrow> fault + tstring" where
  "vprintf [] args = Inr []"
| "vprintf [c] args = (if c = 0x25 then Inl BadFormat else Inr [c])"
| "vprintf (c # d # fmt) args =
     (if c \<noteq> 0x25 then ebind (vprintf (d # fmt) args) (\<lambda>r. Inr (c # r))
      else if d = 0x25 then ebind (vprintf fmt args) (\<lambda>r. Inr (0x25 # r))
      else if d = 0x64 then
        (case args of ArgD v # as \<Rightarrow> ebind (vprintf fmt as) (\<lambda>r. Inr (fmt_d v @ r))
         | _ \<Rightarrow> Inl BadFormat)
      else if d = 0x73 then
        (case args of ArgS s # as \<Rightarrow> ebind (vprintf fmt as) (\<lambda>r. Inr (s @ r))
         | _ \<Rightarrow> Inl BadFormat)
      else Inl BadFormat)"

text \<open>\<^verbatim>\<open>_stprintf_s\<close>, \<^verbatim>\<open>_vstprintf_s\<close>: an output that does not fit with its terminator is refused.\<close>

definition stprintf_s :: "nat \<Rightarrow> tstring \<Rightarrow> fmt_arg list \<Rightarrow> fault + tstring" where
  "stprintf_s bufSize fmt args =
     ebind (vprintf fmt args) (\<lambda>r. if length r < bufSize then Inr r else Inl BadFormat)"

definition MAXINT :: uint where "MAXINT = 0x7FFFFFFF"

definition TestScriptDlgAppendOutput ::
  "'w env \<Rightarrow> ScriptMgr \<Rightarrow> tstring \<Rightarrow> fmt_arg list \<Rightarrow> ('w, unit) prog" where
  "TestScriptDlgAppendOutput E sm pFmtText args =
     seq (assert_exp E (m_hWndDlg sm \<noteq> 0))
     (bnd (lift (stprintf_s 1024 pFmtText args)) (\<lambda>tmpBuf.
      seq (call (SendDlgItemMessage E (m_hWndDlg sm) IDC_TESTSCRIPTS_OUTPUT (EM_SETSEL MAXINT MAXINT)))
      (seq (call (SendDlgItemMessage E (m_hWndDlg sm) IDC_TESTSCRIPTS_OUTPUT (EM_REPLACESEL tmpBuf)))
      (ret ()))))"

text \<open>A text without a percent sign is its own output.\<close>

lemma vprintf_plain: "0x25 \<notin> set s \<Longrightarrow> vprintf s args = Inr s"
proof (induction s)
  case (Cons c s)
  then show ?case by (cases s) auto
qed simp

lemma vprintf_percent:
  assumes "0x25 \<notin> set s" and "d \<noteq> 0x25"
  shows "vprintf (s @ 0x25 # d # t) [] = Inl BadFormat"
  using assms
proof (induction s)
  case (Cons c s)
  then show ?case by (cases s) auto
qed simp

lemma vprintf_append_plain:
  assumes "0x25 \<notin> set s"
  shows "vprintf (s @ t) args = ebind (vprintf t args) (\<lambda>r. Inr (s @ r))"
  using assms
proof (induction s)
  case Nil
  then show ?case by (cases "vprintf t args") simp_all
next
  case (Cons c s)
  then have "vprintf (s @ t) args = ebind (vprintf t args) (\<lambda>r. Inr (s @ r))" by simp
  then show ?case using Cons.prems by (cases "s @ t"; cases "vprintf t args") auto
qed

end
