(* ===== verification/Script.thy ===== *)
theory Script
  imports App
begin

text \<open>
  \<^verbatim>\<open>sw/src/scriptmgr.cpp\<close>: the functions registered with Lua, through which test scripts drive the
  console, and the execution of a script. Every Lua function takes its arguments from the Lua
  stack, sends one packet, receives the reply and pushes its result.
\<close>

section \<open>Shared loops\<close>

text \<open>\<^verbatim>\<open>for (i = 1; i <= numBytes; i++)\<close>: table entries, as bytes, into a heap array, from index \<open>i\<close> on.\<close>

fun read_table :: "'w env \<Rightarrow> int \<Rightarrow> nat \<Rightarrow> nat \<Rightarrow> buf \<Rightarrow> ('w, buf) prog" where
  "read_table E t i 0 pData = ret pData"
| "read_table E t i (Suc n) pData =
     seq (act (lua_rawgeti E t (int i)))
     (bnd (ask (lua_tonumber E (-1))) (\<lambda>x.
      bnd (lift (cast_uint x)) (\<lambda>v.
      bnd (lift (buf_wr pData (i - 1) (ucast v))) (\<lambda>pData.
      seq (act (lua_pop E 1))
      (read_table E t (i + 1) n pData)))))"

text \<open>The loop that stores received bytes in the table on top of the stack, from byte \<open>i\<close> on.\<close>

fun push_bytes :: "'w env \<Rightarrow> buf \<Rightarrow> nat \<Rightarrow> nat \<Rightarrow> ('w, unit) prog" where
  "push_bytes E pReceivedData i 0 = ret ()"
| "push_bytes E pReceivedData i (Suc n) =
     seq (act (lua_pushnumber E (of_nat (i + 1))))
     (bnd (lift (buf_rd pReceivedData i)) (\<lambda>v.
      seq (act (lua_pushnumber E (of_nat (unat v))))
      (seq (act (lua_settable E (-3)))
      (push_bytes E pReceivedData (i + 1) n))))"

text \<open>
  What every function with a table result does after sending: receive as many bytes as the packet
  announces and push them as a new table.
\<close>

definition receive_table :: "'w env \<Rightarrow> SerialComm \<Rightarrow> dbg_packet \<Rightarrow> ('w, int) prog" where
  "receive_table E s p =
     bnd (lift (ReturnBytesExpected p)) (\<lambda>bytesToReceive.
     bnd (ReceiveData E s (new_buf (unat bytesToReceive)) bytesToReceive) (\<lambda>(_, pReceivedData).
     seq (act (lua_newtable E))
     (seq (push_bytes E pReceivedData 0 (unat bytesToReceive))
     (ret 1))))"

section \<open>The functions of the nesdbg library\<close>

text \<open>Wrong arguments: \<^verbatim>\<open>assert(0); return 0;\<close>\<close>

definition usage_error :: "'w env \<Rightarrow> ('w, int) prog" where
  "usage_error E = seq (assert_exp E False) (ret 0)"

definition LuaPrint :: "'w env \<Rightarrow> NesDbg option \<Rightarrow> ('w, int) prog" where
  "LuaPrint E g =
     bnd (lift (deref g)) (\<lambda>pNesDbg.
     let pScriptMgr = m_pScriptMgr pNesDbg in
     bnd (ask (lua_isstring E 1)) (\<lambda>ok.
     if \<not> ok then usage_error E else
     bnd (ask (lua_tostring E 1)) (\<lambda>str.
     bnd (lift (deref pScriptMgr)) (\<lambda>sm.
     seq (TestScriptDlgAppendOutput E sm (CreateTcharString E str) [])
     (ret 0)))))"

definition LuaEcho :: "'w env \<Rightarrow> NesDbg option \<Rightarrow> ('w, int) prog" where
  "LuaEcho E g =
     bnd (ask (\<lambda>w. lua_isnumber E 1 w \<and> lua_istable E 2 w)) (\<lambda>ok.
     if \<not> ok then usage_error E else
     bnd (ask (lua_tonumber E 1)) (\<lambda>x1.
     bnd (lift (cast_ushort x1)) (\<lambda>numBytes.
     bnd (read_table E 2 1 (unat numBytes) (new_buf (unat numBytes))) (\<lambda>pEchoData.
     bnd (lift (new_EchoPacket pEchoData 0 numBytes)) (\<lambda>echoPacket.
     bnd (lift (GetSerialComm g)) (\<lambda>s.
     seq (SendPacket E s echoPacket)
     (receive_table E s echoPacket)))))))"

definition LuaCpuMemRd :: "'w env \<Rightarrow> NesDbg option \<Rightarrow> ('w, int) prog" where
  "LuaCpuMemRd E g =
     bnd (ask (\<lambda>w. lua_isnumber E 1 w \<and> lua_isnumber E 2 w)) (\<lambda>ok.
     if \<not> ok then usage_error E else
     bnd (ask (lua_tonumber E 1)) (\<lambda>x1.
     bnd (lift (cast_ushort x1)) (\<lambda>addr.
     bnd (ask (lua_tonumber E 2)) (\<lambda>x2.
     bnd (lift (cast_ushort x2)) (\<lambda>numBytes.
     bnd (lift (new_CpuMemRdPacket addr numBytes)) (\<lambda>cpuMemRdPacket.
     bnd (lift (GetSerialComm g)) (\<lambda>s.
     seq (SendPacket E s cpuMemRdPacket)
     (receive_table E s cpuMemRdPacket))))))))"

text \<open>The \<^verbatim>\<open>assert\<close> that a write packet has no reply.\<close>

definition assert_no_reply :: "'w env \<Rightarrow> dbg_packet \<Rightarrow> ('w, unit) prog" where
  "assert_no_reply E p = bnd (lift (ReturnBytesExpected p)) (\<lambda>n. assert_exp E (n = 0))"

definition LuaCpuMemWr :: "'w env \<Rightarrow> NesDbg option \<Rightarrow> ('w, int) prog" where
  "LuaCpuMemWr E g =
     bnd (ask (\<lambda>w. lua_isnumber E 1 w \<and> lua_isnumber E 2 w \<and> lua_istable E 3 w)) (\<lambda>ok.
     if \<not> ok then usage_error E else
     bnd (ask (lua_tonumber E 1)) (\<lambda>x1.
     bnd (lift (cast_ushort x1)) (\<lambda>addr.
     bnd (ask (lua_tonumber E 2)) (\<lambda>x2.
     bnd (lift (cast_ushort x2)) (\<lambda>numBytes.
     bnd (read_table E 3 1 (unat numBytes) (new_buf (unat numBytes))) (\<lambda>pData.
     bnd (lift (new_CpuMemWrPacket addr numBytes pData 0)) (\<lambda>cpuMemWrPacket.
     bnd (lift (GetSerialComm g)) (\<lambda>s.
     seq (SendPacket E s cpuMemWrPacket)
     (seq (assert_no_reply E cpuMemWrPacket)
     (ret 0))))))))))"

definition LuaDbgHlt :: "'w env \<Rightarrow> NesDbg option \<Rightarrow> ('w, int) prog" where
  "LuaDbgHlt E g =
     bnd (lift new_DbgHltPacket) (\<lambda>dbgHltPacket.
     bnd (lift (GetSerialComm g)) (\<lambda>s.
     seq (SendPacket E s dbgHltPacket)
     (ret 0)))"

definition LuaDbgRun :: "'w env \<Rightarrow> NesDbg option \<Rightarrow> ('w, int) prog" where
  "LuaDbgRun E g =
     bnd (lift new_DbgRunPacket) (\<lambda>dbgRunPacket.
     bnd (lift (GetSerialComm g)) (\<lambda>s.
     seq (SendPacket E s dbgRunPacket)
     (ret 0)))"

definition LuaCpuRegRd :: "'w env \<Rightarrow> NesDbg option \<Rightarrow> ('w, int) prog" where
  "LuaCpuRegRd E g =
     bnd (ask (lua_isnumber E 1)) (\<lambda>ok.
     if \<not> ok then usage_error E else
     bnd (ask (lua_tonumber E 1)) (\<lambda>x1.
     bnd (lift (cast_uint x1)) (\<lambda>regSel.
     bnd (lift (new_CpuRegRdPacket regSel)) (\<lambda>cpuRegRdPacket.
     bnd (lift (GetSerialComm g)) (\<lambda>s.
     seq (SendPacket E s cpuRegRdPacket)
     (bnd (lift (ReturnBytesExpected cpuRegRdPacket)) (\<lambda>bytesToReceive.
      bnd (ReceiveData E s (new_buf (unat bytesToReceive)) bytesToReceive) (\<lambda>(_, pReceivedData).
      bnd (lift (buf_rd pReceivedData 0)) (\<lambda>v.
      seq (act (lua_pushinteger E (int (unat v))))
      (ret 1))))))))))"

definition LuaCpuRegWr :: "'w env \<Rightarrow> NesDbg option \<Rightarrow> ('w, int) prog" where
  "LuaCpuRegWr E g =
     bnd (ask (\<lambda>w. lua_isnumber E 1 w \<and> lua_isnumber E 2 w)) (\<lambda>ok.
     if \<not> ok then usage_error E else
     bnd (ask (lua_tonumber E 1)) (\<lambda>x1.
     bnd (lift (cast_uint x1)) (\<lambda>regSel.
     bnd (ask (lua_tonumber E 2)) (\<lambda>x2.
     bnd (lift (cast_byte x2)) (\<lambda>val.
     bnd (lift (new_CpuRegWrPacket regSel val)) (\<lambda>cpuRegWrPacket.
     bnd (lift (GetSerialComm g)) (\<lambda>s.
     seq (SendPacket E s cpuRegWrPacket)
     (seq (assert_no_reply E cpuRegWrPacket)
     (ret 0)))))))))"

text \<open>
  The polling loop of \<open>LuaWaitForHlt\<close>, over one array for the reply, may run for ever: \<open>None\<close> is a loop that is not left within
  \<open>fuel\<close> rounds.
\<close>

fun wait_loop ::
  "'w env \<Rightarrow> NesDbg option \<Rightarrow> dbg_packet \<Rightarrow> buf \<Rightarrow> uint \<Rightarrow> nat \<Rightarrow> 'w \<Rightarrow> (fault + unit \<times> 'w) option" where
  "wait_loop E g p pReceivedData bytesToReceive 0 w = None"
| "wait_loop E g p pReceivedData bytesToReceive (Suc fuel) w =
     (case bnd (lift (GetSerialComm g)) (\<lambda>s.
        seq (SendPacket E s p)
        (bnd (ReceiveData E s pReceivedData bytesToReceive) (\<lambda>(_, pReceivedData).
         seq (act (Sleep E 10))
         (bnd (lift (buf_rd pReceivedData 0)) (\<lambda>v. ret (v, pReceivedData)))))) w
      of Inl e \<Rightarrow> Some (Inl e)
      | Inr ((v, pReceivedData), w') \<Rightarrow>
          if v = 0 then wait_loop E g p pReceivedData bytesToReceive fuel w' else Some (Inr ((), w')))"

definition LuaWaitForHlt :: "'w env \<Rightarrow> NesDbg option \<Rightarrow> nat \<Rightarrow> 'w \<Rightarrow> (fault + int \<times> 'w) option" where
  "LuaWaitForHlt E g fuel w =
     (case bnd (lift new_QueryHltPacket) (\<lambda>p.
        bnd (lift (ReturnBytesExpected p)) (\<lambda>bytesToReceive.
        seq (assert_exp E (bytesToReceive = 1))
        (ret (p, bytesToReceive)))) w
      of Inl e \<Rightarrow> Some (Inl e)
      | Inr ((p, bytesToReceive), w) \<Rightarrow>
          map_option (\<lambda>r. case r of Inl e \<Rightarrow> Inl e | Inr (_, w') \<Rightarrow> Inr (0, w'))
            (wait_loop E g p (new_buf (unat bytesToReceive)) bytesToReceive fuel w))"

definition AsmPrgDir :: tstring where
  "AsmPrgDir = T ''../asm/prg/''"

definition AsmBufferSize :: nat where
  "AsmBufferSize = 0x10000"

definition LuaLoadAsm_send :: "'w env \<Rightarrow> NesDbg option \<Rightarrow> uint \<Rightarrow> ('w, ushort) prog" where
  "LuaLoadAsm_send E g hPrgFile =
     bnd (call (ReadFile E hPrgFile (of_nat AsmBufferSize))) (\<lambda>(ok, bytes).
     bnd (lift (buf_fill (new_buf AsmBufferSize) bytes)) (\<lambda>pFileData.
     if ok then
       bnd (lift (buf_rd pFileData 0)) (\<lambda>b0.
       bnd (lift (buf_rd pFileData 1)) (\<lambda>b1.
       let startPc = ucast b0 OR push_bit 8 (ucast b1);
           fileDataActualSize = (of_nat (length bytes) :: uint) in
       bnd (lift (new_CpuMemWrPacket startPc (ucast (fileDataActualSize - 2)) pFileData 2)) (\<lambda>cpuMemWrPacket.
       bnd (lift (GetSerialComm g)) (\<lambda>s.
       seq (SendPacket E s cpuMemWrPacket)
       (seq (assert_no_reply E cpuMemWrPacket)
       (ret startPc))))))
     else
       seq (act (MessageBox E (T ''Failed to read data from .prg file.'') NesDbg_title)) (ret 0)))"

definition LuaLoadAsm :: "'w env \<Rightarrow> NesDbg option \<Rightarrow> ('w, int) prog" where
  "LuaLoadAsm E g =
     bnd (ask (lua_isstring E 1)) (\<lambda>ok.
     if \<not> ok then usage_error E else
     bnd (ask (lua_tostring E 1)) (\<lambda>str.
     bnd (call (CreateFile E (AsmPrgDir @ CreateTcharString E str) GENERIC_READ)) (\<lambda>hPrgFile.
     bnd (if hPrgFile \<noteq> INVALID_HANDLE_VALUE
          then bnd (LuaLoadAsm_send E g hPrgFile) (\<lambda>pc. seq (act (CloseHandle E hPrgFile)) (ret pc))
          else seq (act (MessageBox E (T ''Failed to open .prg file.'') NesDbg_title)) (ret 0))
       (\<lambda>startPc.
     seq (act (lua_pushinteger E (int (unat startPc))))
     (ret 1)))))"

definition LuaPpuMemRd :: "'w env \<Rightarrow> NesDbg option \<Rightarrow> ('w, int) prog" where
  "LuaPpuMemRd E g =
     bnd (ask (\<lambda>w. lua_isnumber E 1 w \<and> lua_isnumber E 2 w)) (\<lambda>ok.
     if \<not> ok then usage_error E else
     bnd (ask (lua_tonumber E 1)) (\<lambda>x1.
     bnd (lift (cast_ushort x1)) (\<lambda>addr.
     bnd (ask (lua_tonumber E 2)) (\<lambda>x2.
     bnd (lift (cast_ushort x2)) (\<lambda>numBytes.
     bnd (lift (new_PpuMemRdPacket addr numBytes)) (\<lambda>ppuMemRdPacket.
     bnd (lift (GetSerialComm g)) (\<lambda>s.
     seq (SendPacket E s ppuMemRdPacket)
     (receive_table E s ppuMemRdPacket))))))))"

definition LuaPpuMemWr :: "'w env \<Rightarrow> NesDbg option \<Rightarrow> ('w, int) prog" where
  "LuaPpuMemWr E g =
     bnd (ask (\<lambda>w. lua_isnumber E 1 w \<and> lua_isnumber E 2 w \<and> lua_istable E 3 w)) (\<lambda>ok.
     if \<not> ok then usage_error E else
     bnd (ask (lua_tonumber E 1)) (\<lambda>x1.
     bnd (lift (cast_ushort x1)) (\<lambda>addr.
     bnd (ask (lua_tonumber E 2)) (\<lambda>x2.
     bnd (lift (cast_ushort x2)) (\<lambda>numBytes.
     bnd (read_table E 3 1 (unat numBytes) (new_buf (unat numBytes))) (\<lambda>pData.
     bnd (lift (new_PpuMemWrPacket addr numBytes pData 0)) (\<lambda>ppuMemWrPacket.
     bnd (lift (GetSerialComm g)) (\<lambda>s.
     seq (SendPacket E s ppuMemWrPacket)
     (seq (assert_no_reply E ppuMemWrPacket)
     (ret 0))))))))))"

section \<open>The script manager\<close>

definition nesDbgLib :: "(string \<times> string) list" where
  "nesDbgLib =
     [(''Echo'', ''LuaEcho''), (''CpuMemRd'', ''LuaCpuMemRd''), (''CpuMemWr'', ''LuaCpuMemWr''),
      (''DbgHlt'', ''LuaDbgHlt''), (''DbgRun'', ''LuaDbgRun''), (''CpuRegRd'', ''LuaCpuRegRd''),
      (''CpuRegWr'', ''LuaCpuRegWr''), (''WaitForHlt'', ''LuaWaitForHlt''), (''LoadAsm'', ''LuaLoadAsm''),
      (''PpuMemRd'', ''LuaPpuMemRd''), (''PpuMemWr'', ''LuaPpuMemWr'')]"

text \<open>The constructor leaves \<^verbatim>\<open>m_pLuaVm\<close> and \<^verbatim>\<open>m_hWndDlg\<close> unset; \<open>Init\<close> sets the first.\<close>

definition ScriptMgr_Init :: "'w env \<Rightarrow> ScriptMgr \<Rightarrow> ('w, bool \<times> ScriptMgr) prog" where
  "ScriptMgr_Init E sm =
     bnd (call (lua_open E)) (\<lambda>vm.
     let sm = sm\<lparr>m_pLuaVm := vm\<rparr> in
     if vm \<noteq> 0 then
       seq (act (luaopen_base E))
       (seq (act (luaopen_math E))
       (seq (act (lua_setglobal_c E ''print'' ''LuaPrint''))
       (seq (act (luaL_register E ''nesdbg'' nesDbgLib))
       (ret (True, sm)))))
     else ret (False, sm))"

definition delete_ScriptMgr :: "'w env \<Rightarrow> ScriptMgr \<Rightarrow> ('w, unit) prog" where
  "delete_ScriptMgr E sm = (if m_pLuaVm sm \<noteq> 0 then act (lua_close E) else ret ())"

datatype ScriptResult = SCRIPT_RESULT_PASS | SCRIPT_RESULT_FAIL | SCRIPT_RESULT_ERROR

text \<open>\<^verbatim>\<open>static_cast<ScriptResult>\<close> accepts any number, so the value stays an integer.\<close>

fun script_result :: "ScriptResult \<Rightarrow> uint" where
  "script_result SCRIPT_RESULT_PASS = 0"
| "script_result SCRIPT_RESULT_FAIL = 1"
| "script_result SCRIPT_RESULT_ERROR = 2"

text \<open>The script is run in the Lua state of the application's script manager, which is the only one.\<close>

definition ExecuteScript :: "'w env \<Rightarrow> NesDbg option \<Rightarrow> ScriptMgr \<Rightarrow> tstring \<Rightarrow> ('w, uint) prog" where
  "ExecuteScript E g sm pFilePath =
     bnd (lift (GetScriptMgr g)) (\<lambda>_.
     bnd (luaL_dofile E (CreateAsciiString E pFilePath)) (\<lambda>failed.
     if \<not> failed then
       bnd (ask (lua_tonumber E (-1))) (\<lambda>x. bnd (lift (cast_uint x)) ret)
     else
       bnd (ask (lua_tostring E (-1))) (\<lambda>err.
       seq (TestScriptDlgAppendOutput E sm (T ''%s'' @ [0x0D, 0x0A]) [ArgS (CreateTcharString E err)])
       (ret (script_result SCRIPT_RESULT_ERROR)))))"

end
