(* ===== verification/Script_Host.thy ===== *)
theory Script_Host
  imports Link Script
begin

text \<open>
  The Lua functions under the contracts of theory \<open>Link\<close>: each executes its command on the
  target, and its result on the Lua stack is the target's reply.
\<close>

section \<open>Tables of bytes\<close>

text \<open>
  \<open>tab_bytes tb n ds\<close>: entries 1 to \<open>n\<close> of the table are numbers that fit an unsigned integer, and
  \<open>ds\<close> are their low bytes. \<open>table_of ds\<close> is the table with the bytes \<open>ds\<close> from index 1 on.
\<close>

definition tab_bytes :: "(int \<Rightarrow> lua_value) \<Rightarrow> nat \<Rightarrow> byte list \<Rightarrow> bool" where
  "tab_bytes tb n ds \<longleftrightarrow> length ds = n \<and>
     (\<forall>j < n. \<exists>x u. tb (int j + 1) = LNum x \<and> cast_uint x = Inr u \<and> ds ! j = ucast u)"

definition num_of :: "byte \<Rightarrow> lua_value" where
  "num_of v = LNum (LFinite (of_nat (unat v)))"

definition table_of :: "byte list \<Rightarrow> int \<Rightarrow> lua_value" where
  "table_of ds k = (if 1 \<le> k \<and> k \<le> int (length ds) then num_of (ds ! nat (k - 1)) else LNil)"

lemma tab_bytes_table_of: "tab_bytes (table_of ds) (length ds) ds"
  by (auto simp: tab_bytes_def table_of_def num_of_def)

text \<open>What one round of the polling loop does to the world: ask, take the answer, sleep.\<close>

definition poll :: "'w env \<Rightarrow> uint \<Rightarrow> 'w \<Rightarrow> 'w" where
  "poll E h w = Sleep E 10 (snd (ReadFile E h 1 (snd (WriteFile E h (encode QueryHlt) w))))"

context lua_vm begin

text \<open>The observations of a world that the Lua functions leave alone.\<close>

lemma push_step:
  assumes "stk w = s @ [LTab t]"
  shows "stk (lua_settable E (-3) (lua_pushnumber E b (lua_pushnumber E (of_nat a) w))) =
    s @ [LTab (t(int a := LNum (LFinite b)))]"
proof -
  have "stk (lua_pushnumber E b (lua_pushnumber E (of_nat a) w)) =
      s @ [LTab t, LNum (LFinite (of_int (int a))), LNum (LFinite b)]"
    using assms by (simp add: pushnumber)
  from settable[OF this] show ?thesis .
qed

end

context script_host begin

lemma read_table_ok:
  assumes "lget (stk w) k = LTab tb" and "0 < k"
    and "\<And>j. j < n \<Longrightarrow> \<exists>x u. tb (int (i + j)) = LNum x \<and> cast_uint x = Inr u \<and> ds ! j = ucast u"
    and "length ds = n" and "0 < i" and "i - 1 + n \<le> length b"
  shows "\<exists>w'. read_table E k i n b w = Inr (take (i - 1) b @ map Some ds @ drop (i - 1 + n) b, w') \<and>
    stk w' = stk w \<and> tgt w' = tgt w \<and> inq w' = inq w"
  using assms
proof (induction n arbitrary: i b w ds)
  case 0
  then show ?case by (simp add: ret_apply)
next
  case (Suc n)
  obtain d ds' where ds: "ds = d # ds'" using Suc.prems(4) by (cases ds) auto
  from Suc.prems(3)[of 0] obtain x u
    where x: "tb (int i) = LNum x" "cast_uint x = Inr u" and d: "d = ucast u" by (auto simp: ds)
  let ?w1 = "lua_rawgeti E k (int i) w" and ?b = "b[i - 1 := Some d]"
  let ?w2 = "lua_pop E 1 ?w1"
  have s1: "stk ?w1 = stk w @ [LNum x]" using rawgeti[OF Suc.prems(1)] x(1) by simp
  then have n1: "lua_tonumber E (-1) ?w1 = x" using number[of ?w1 "-1" x] by simp
  have s2: "stk ?w2 = stk w" using pop[of 1 ?w1] by (simp add: s1)
  have wr: "buf_wr b (i - Suc 0) (ucast u) = Inr ?b" using Suc.prems(6) d by (simp add: buf_wr_def)
  have "\<exists>w'. read_table E k (i + 1) n ?b ?w2 =
      Inr (take (i + 1 - 1) ?b @ map Some ds' @ drop (i + 1 - 1 + n) ?b, w') \<and>
      stk w' = stk ?w2 \<and> tgt w' = tgt ?w2 \<and> inq w' = inq ?w2"
  proof (rule Suc.IH)
    show "lget (stk ?w2) k = LTab tb" using s2 Suc.prems(1) by simp
    show "\<exists>x u. tb (int (i + 1 + j)) = LNum x \<and> cast_uint x = Inr u \<and> ds' ! j = ucast u" if "j < n" for j
      using Suc.prems(3)[of "Suc j"] that by (simp add: ds add.assoc)
  qed (use Suc.prems ds in auto)
  moreover have "take i ?b = take (i - 1) b @ [Some d]"
    using Suc.prems(5,6) by (cases i) (simp_all add: take_Suc_conv_app_nth)
  moreover have "drop (i + n) ?b = drop (i + n) b" using Suc.prems(5) by simp
  ultimately show ?case
    using s2 Suc.prems(5) by (auto simp: n1 x(2) wr ds lua_tgt lua_inq bnd_lift)
qed

lemma read_table_all:
  assumes "lget (stk w) k = LTab tb" and "0 < k" and "tab_bytes tb n ds"
  shows "\<exists>w'. read_table E k 1 n (new_buf n) w = Inr (map Some ds, w') \<and>
    stk w' = stk w \<and> tgt w' = tgt w \<and> inq w' = inq w"
  using read_table_ok[OF assms(1,2), of n 1 ds "new_buf n"] assms(3)
  by (auto simp: tab_bytes_def add.commute)

lemma push_bytes_ok:
  assumes "stk w = s @ [LTab t]" and "i + n = length ds" and "\<And>j. 1 \<le> j \<Longrightarrow> j \<le> int i \<Longrightarrow> t j = num_of (ds ! nat (j - 1))"
    and "\<And>j. j < 1 \<or> int i < j \<Longrightarrow> t j = LNil"
  shows "\<exists>w'. push_bytes E (map Some ds) i n w = Inr ((), w') \<and>
    stk w' = s @ [LTab (table_of ds)] \<and> tgt w' = tgt w \<and> inq w' = inq w"
  using assms
proof (induction n arbitrary: i t w)
  case 0
  then have "t = table_of ds" by (auto simp: table_of_def fun_eq_iff)
  then show ?case using 0 by (simp add: ret_apply)
next
  case (Suc n)
  let ?v = "of_nat (unat (ds ! i)) :: rat"
  let ?w' = "lua_settable E (-3) (lua_pushnumber E ?v (lua_pushnumber E (of_nat (i + 1)) w))"
  let ?t' = "t(int (i + 1) := LNum (LFinite ?v))"
  have "\<exists>w'. push_bytes E (map Some ds) (i + 1) n ?w' = Inr ((), w') \<and>
    stk w' = s @ [LTab (table_of ds)] \<and> tgt w' = tgt ?w' \<and> inq w' = inq ?w'"
  proof (rule Suc.IH)
    show "stk ?w' = s @ [LTab ?t']" by (rule push_step[OF Suc.prems(1)])
    show "?t' j = num_of (ds ! nat (j - 1))" if "1 \<le> j" "j \<le> int (i + 1)" for j
      using Suc.prems(3)[of j] that by (auto simp: num_of_def)
  qed (use Suc.prems in auto)
  then show ?case using Suc.prems(2) by (auto simp: lua_tgt lua_inq)
qed

text \<open>Receiving a reply of the announced length and pushing it as a table.\<close>

lemma receive_table_ok:
  assumes "carries p c" and "wf_cmd c" and "inq w = r" and "length r = reply_len c"
  shows "\<exists>w'. receive_table E \<lparr>m_hSerialComm = h\<rparr> p w = Inr (1, w') \<and>
    stk w' = stk w @ [LTab (table_of r)] \<and> tgt w' = tgt w \<and> inq w' = []"
proof -
  let ?n = "of_nat (reply_len c) :: uint"
  have n: "unat ?n = length r" using wf_reply[OF assms(2)] assms(4) by simp
  obtain w1 where rd: "ReceiveData E \<lparr>m_hSerialComm = h\<rparr> (new_buf (unat ?n)) ?n w =
      Inr ((True, map Some r), w1)"
    and w1: "w1 = snd (ReadFile E h ?n w)" "tgt w1 = tgt w" "inq w1 = []"
    using ReceiveData_ok[of ?n w] n assms(3) by auto
  have s1: "stk (lua_newtable E w1) = stk w @ [LTab (\<lambda>_. LNil)]"
    by (simp add: newtable w1(1) port_stk)
  obtain w2 where "push_bytes E (map Some r) 0 (length r) (lua_newtable E w1) = Inr ((), w2)"
    "stk w2 = stk w @ [LTab (table_of r)]" "tgt w2 = tgt w" "inq w2 = []"
    using push_bytes_ok[OF s1, of 0 "length r" r] w1 by (auto simp: lua_tgt lua_inq)
  then show ?thesis
    using rd n carries_ReturnBytesExpected[OF assms(1,2)]
    by (simp add: receive_table_def bnd_lift bnd_Inr seq_Inr ret_apply)
qed

end

context script_host begin

definition connected :: "NesDbg option \<Rightarrow> bool" where
  "connected g \<longleftrightarrow> GetSerialComm g = Inr \<lparr>m_hSerialComm = h\<rparr>"

text \<open>Sending a packet and receiving its reply as a table.\<close>

lemma transact_ok:
  assumes "carries p c" and "wf_cmd c" and "plain_cmd c" and "t_halted (tgt w)" and "inq w = []"
  shows "\<exists>w'. seq (SendPacket E \<lparr>m_hSerialComm = h\<rparr> p) (receive_table E \<lparr>m_hSerialComm = h\<rparr> p) w = Inr (1, w') \<and>
    stk w' = stk w @ [LTab (table_of (fst (exec c (tgt w))))] \<and>
    tgt w' = snd (exec c (tgt w)) \<and> inq w' = []"
proof -
  obtain w1 where w1: "SendPacket E \<lparr>m_hSerialComm = h\<rparr> p w = Inr (True, w1)"
    "w1 = snd (WriteFile E h (encode c) w)"
    "tgt w1 = snd (exec c (tgt w))" "inq w1 = fst (exec c (tgt w))"
    using SendPacket_ok[OF assms(1-4)] assms(5) by auto
  obtain w2 where "receive_table E \<lparr>m_hSerialComm = h\<rparr> p w1 = Inr (1, w2)"
    "stk w2 = stk w1 @ [LTab (table_of (fst (exec c (tgt w))))]" "tgt w2 = tgt w1" "inq w2 = []"
    using receive_table_ok[OF assms(1,2) w1(4)] length_exec_reply[OF assms(2)] by blast
  then show ?thesis using w1 by (simp add: seq_Inr port_stk)
qed

text \<open>Sending a packet without a reply.\<close>

lemma send_ok:
  assumes "carries p c" and "wf_cmd c" and "plain_cmd c" and "t_halted (tgt w)"
  shows "\<exists>w'. SendPacket E \<lparr>m_hSerialComm = h\<rparr> p w = Inr (True, w') \<and>
    stk w' = stk w \<and> tgt w' = snd (exec c (tgt w)) \<and> inq w' = inq w @ fst (exec c (tgt w))"
  using SendPacket_ok[OF assms] port_stk(1) by blast

lemma no_reply: "carries p c \<Longrightarrow> wf_cmd c \<Longrightarrow> reply_len c = 0 \<Longrightarrow> assert_no_reply E p = ret ()"
  using carries_ReturnBytesExpected[of p c] by (auto simp: assert_no_reply_def fun_eq_iff)

lemma carries_ctors:
  "carries (CpuMemRdPacket (map Some (encode (CpuMemRd a n)))) (CpuMemRd a n)"
  "carries (PpuMemRdPacket (map Some (encode (PpuMemRd a n)))) (PpuMemRd a n)"
  "carries (EchoPacket (map Some (encode (Echo ds)))) (Echo ds)"
  "carries (CpuMemWrPacket (map Some (encode (CpuMemWr a ds)))) (CpuMemWr a ds)"
  "carries (PpuMemWrPacket (map Some (encode (PpuMemWr a ds)))) (PpuMemWr a ds)"
  "carries (CpuRegRdPacket (map Some (encode (CpuRegRd r)))) (CpuRegRd r)"
  "carries (CpuRegWrPacket (map Some (encode (CpuRegWr r v)))) (CpuRegWr r v)"
  "carries (QueryHltPacket (map Some (encode QueryHlt))) QueryHlt"
  "carries (DbgHltPacket (map Some (encode DbgHlt))) DbgHlt"
  "carries (DbgRunPacket (map Some (encode DbgRun))) DbgRun"
  "carries (PpuDisablePacket (map Some (encode PpuDisable))) PpuDisable"
  "carries (CartSetCfgPacket (map Some (encode (CartSetCfg b4 b5 b6 b7 b8)))) (CartSetCfg b4 b5 b6 b7 b8)"
  by (simp_all add: carries_def del: encode.simps)

lemma tab_bytes_len16: "tab_bytes tb (unat n) ds \<Longrightarrow> n = len16 ds \<and> length ds < 65536"
  by (auto simp: tab_bytes_def len16_def)

lemma LuaEcho_spec:
  assumes "stk w = [LNum x1, LTab tb]" and "cast_ushort x1 = Inr n" and "tab_bytes tb (unat n) ds"
    and "connected g" and "t_halted (tgt w)" and "inq w = []"
  shows "\<exists>w'. LuaEcho E g w = Inr (1, w') \<and> stk w' = stk w @ [LTab (table_of ds)] \<and>
    tgt w' = tgt w \<and> inq w' = []"
proof -
  have n: "n = len16 ds" "length ds < 65536" using tab_bytes_len16[OF assms(3)] by auto
  have args: "lua_isnumber E 1 w" "lua_tonumber E 1 w = x1" "lua_istable E 2 w"
    using number[of w 1 x1] table[of 2 w] assms(1) by simp_all
  obtain w1 where w1: "read_table E 2 1 (unat n) (new_buf (unat n)) w = Inr (map Some ds, w1)"
    "stk w1 = stk w" "tgt w1 = tgt w" "inq w1 = inq w"
    using read_table_all[of w 2 tb, OF _ _ assms(3)] assms(1) by auto
  have "wf_cmd (Echo ds)" using n by (simp add: wf_cmd_def)
  from transact_ok[OF carries_ctors(3) this _ , of w1] obtain w2 where
    "seq (SendPacket E \<lparr>m_hSerialComm = h\<rparr> (EchoPacket (map Some (encode (Echo ds)))))
       (receive_table E \<lparr>m_hSerialComm = h\<rparr> (EchoPacket (map Some (encode (Echo ds))))) w1 = Inr (1, w2)"
    "stk w2 = stk w1 @ [LTab (table_of ds)]" "tgt w2 = tgt w1" "inq w2 = []"
    using assms(5,6) w1 by auto
  then show ?thesis
    using args assms(2,4) w1 n new_EchoPacket_at[of "map Some ds" 0 ds]
    by (simp add: LuaEcho_def bnd_Inr connected_def del: encode.simps)
qed

lemma LuaCpuMemRd_spec:
  assumes "stk w = [LNum x1, LNum x2]" and "cast_ushort x1 = Inr a" and "cast_ushort x2 = Inr n"
    and "plain_cmd (CpuMemRd a n)" and "connected g" and "t_halted (tgt w)" and "inq w = []"
  shows "\<exists>w'. LuaCpuMemRd E g w = Inr (1, w') \<and>
    stk w' = stk w @ [LTab (table_of (rd_block t_cpu_rd (tgt w) a (unat n)))] \<and>
    tgt w' = tgt w \<and> inq w' = []"
proof -
  have args: "lua_isnumber E 1 w" "lua_tonumber E 1 w = x1" "lua_isnumber E 2 w" "lua_tonumber E 2 w = x2"
    using number[of w 1 x1] number[of w 2 x2] assms(1) by simp_all
  show ?thesis
    using transact_ok[OF carries_ctors(1) _ assms(4,6,7)] args assms(2,3,5)
    by (simp add: LuaCpuMemRd_def new_CpuMemRdPacket_eq connected_def wf_cmd_def del: encode.simps plain_cmd.simps)
qed

lemma LuaPpuMemRd_spec:
  assumes "stk w = [LNum x1, LNum x2]" and "cast_ushort x1 = Inr a" and "cast_ushort x2 = Inr n"
    and "connected g" and "t_halted (tgt w)" and "inq w = []"
  shows "\<exists>w'. LuaPpuMemRd E g w = Inr (1, w') \<and>
    stk w' = stk w @ [LTab (table_of (rd_block t_ppu_rd (tgt w) a (unat n)))] \<and>
    tgt w' = tgt w \<and> inq w' = []"
proof -
  have args: "lua_isnumber E 1 w" "lua_tonumber E 1 w = x1" "lua_isnumber E 2 w" "lua_tonumber E 2 w = x2"
    using number[of w 1 x1] number[of w 2 x2] assms(1) by simp_all
  show ?thesis
    using transact_ok[OF carries_ctors(2) _ _ assms(5,6)] args assms(2,3,4)
    by (simp add: LuaPpuMemRd_def new_PpuMemRdPacket_eq connected_def wf_cmd_def del: encode.simps)
qed

lemma LuaCpuMemWr_spec:
  assumes "stk w = [LNum x1, LNum x2, LTab tb]" and "cast_ushort x1 = Inr a" and "cast_ushort x2 = Inr n"
    and "tab_bytes tb (unat n) ds" and "connected g" and "t_halted (tgt w)"
  shows "\<exists>w'. LuaCpuMemWr E g w = Inr (0, w') \<and> stk w' = stk w \<and>
    tgt w' = wr_block t_cpu_wr a ds (tgt w) \<and> inq w' = inq w"
proof -
  have n: "n = len16 ds" "length ds < 65536" using tab_bytes_len16[OF assms(4)] by auto
  have args: "lua_isnumber E 1 w" "lua_tonumber E 1 w = x1" "lua_isnumber E 2 w" "lua_tonumber E 2 w = x2"
    "lua_istable E 3 w"
    using number[of w 1 x1] number[of w 2 x2] table[of 3 w] assms(1) by simp_all
  obtain w1 where w1: "read_table E 3 1 (unat n) (new_buf (unat n)) w = Inr (map Some ds, w1)"
    "stk w1 = stk w" "tgt w1 = tgt w" "inq w1 = inq w"
    using read_table_all[of w 3 tb, OF _ _ assms(4)] assms(1) by auto
  have wf: "wf_cmd (CpuMemWr a ds)" using n by (simp add: wf_cmd_def)
  obtain w2 where "SendPacket E \<lparr>m_hSerialComm = h\<rparr> (CpuMemWrPacket (map Some (encode (CpuMemWr a ds)))) w1 =
      Inr (True, w2)" "stk w2 = stk w1" "tgt w2 = wr_block t_cpu_wr a ds (tgt w)" "inq w2 = inq w1"
    using send_ok[OF carries_ctors(4) wf, of w1] assms(6) w1 by auto
  then show ?thesis
    using args assms(2,3,5) w1 n new_CpuMemWrPacket_at[of "map Some ds" 0 ds a]
      no_reply[OF carries_ctors(4) wf]
    by (simp add: LuaCpuMemWr_def bnd_Inr seq_Inr connected_def ret_apply del: encode.simps)
qed

lemma LuaPpuMemWr_spec:
  assumes "stk w = [LNum x1, LNum x2, LTab tb]" and "cast_ushort x1 = Inr a" and "cast_ushort x2 = Inr n"
    and "tab_bytes tb (unat n) ds" and "connected g" and "t_halted (tgt w)"
  shows "\<exists>w'. LuaPpuMemWr E g w = Inr (0, w') \<and> stk w' = stk w \<and>
    tgt w' = wr_block t_ppu_wr a ds (tgt w) \<and> inq w' = inq w"
proof -
  have n: "n = len16 ds" "length ds < 65536" using tab_bytes_len16[OF assms(4)] by auto
  have args: "lua_isnumber E 1 w" "lua_tonumber E 1 w = x1" "lua_isnumber E 2 w" "lua_tonumber E 2 w = x2"
    "lua_istable E 3 w"
    using number[of w 1 x1] number[of w 2 x2] table[of 3 w] assms(1) by simp_all
  obtain w1 where w1: "read_table E 3 1 (unat n) (new_buf (unat n)) w = Inr (map Some ds, w1)"
    "stk w1 = stk w" "tgt w1 = tgt w" "inq w1 = inq w"
    using read_table_all[of w 3 tb, OF _ _ assms(4)] assms(1) by auto
  have wf: "wf_cmd (PpuMemWr a ds)" using n by (simp add: wf_cmd_def)
  obtain w2 where "SendPacket E \<lparr>m_hSerialComm = h\<rparr> (PpuMemWrPacket (map Some (encode (PpuMemWr a ds)))) w1 =
      Inr (True, w2)" "stk w2 = stk w1" "tgt w2 = wr_block t_ppu_wr a ds (tgt w)" "inq w2 = inq w1"
    using send_ok[OF carries_ctors(5) wf, of w1] assms(6) w1 by auto
  then show ?thesis
    using args assms(2,3,5) w1 n new_PpuMemWrPacket_at[of "map Some ds" 0 ds a]
      no_reply[OF carries_ctors(5) wf]
    by (simp add: LuaPpuMemWr_def bnd_Inr seq_Inr connected_def ret_apply del: encode.simps)
qed

lemma LuaCpuRegWr_spec:
  assumes "stk w = [LNum x1, LNum x2]" and "cast_uint x1 = Inr r" and "cast_byte x2 = Inr v"
    and "connected g" and "t_halted (tgt w)"
  shows "\<exists>w'. LuaCpuRegWr E g w = Inr (0, w') \<and> stk w' = stk w \<and>
    tgt w' = (tgt w)\<lparr>t_cpu := dbgreg_write (ucast (ucast r :: byte)) v (t_cpu (tgt w))\<rparr> \<and> inq w' = inq w"
proof -
  have args: "lua_isnumber E 1 w" "lua_tonumber E 1 w = x1" "lua_isnumber E 2 w" "lua_tonumber E 2 w = x2"
    using number[of w 1 x1] number[of w 2 x2] assms(1) by simp_all
  have wf: "wf_cmd (CpuRegWr (ucast r) v)" by (simp add: wf_cmd_def)
  show ?thesis
    using send_ok[OF carries_ctors(7) wf, of w] args assms(2-) no_reply[OF carries_ctors(7) wf]
    by (auto simp: LuaCpuRegWr_def new_CpuRegWrPacket_eq connected_def ret_apply seq_Inr simp del: encode.simps)
qed

lemma push_byte: "stk (lua_pushinteger E (int (unat (v :: byte))) w) = stk w @ [num_of v]"
  by (simp only: pushinteger num_of_def of_int_of_nat_eq)

lemmas push_byte' = push_byte[unfolded of_nat_unat]

lemma LuaCpuRegRd_spec:
  assumes "stk w = [LNum x1]" and "cast_uint x1 = Inr r"
    and "connected g" and "t_halted (tgt w)" and "inq w = []"
  shows "\<exists>w'. LuaCpuRegRd E g w = Inr (1, w') \<and>
    stk w' = stk w @ [num_of (dbgreg_out (t_cpu (tgt w)) (ucast (ucast r :: byte)))] \<and>
    tgt w' = tgt w \<and> inq w' = []"
proof -
  let ?c = "CpuRegRd (ucast r)" and ?v = "dbgreg_out (t_cpu (tgt w)) (ucast (ucast r :: byte))"
  have args: "lua_isnumber E 1 w" "lua_tonumber E 1 w = x1"
    using number[of w 1 x1] assms(1) by simp_all
  have wf: "wf_cmd ?c" by (simp add: wf_cmd_def)
  obtain w1 where w1: "SendPacket E \<lparr>m_hSerialComm = h\<rparr> (CpuRegRdPacket (map Some (encode ?c))) w = Inr (True, w1)"
    "stk w1 = stk w" "tgt w1 = tgt w" "inq w1 = [?v]"
    using send_ok[OF carries_ctors(6) wf _ assms(4)] assms(5) by auto
  obtain w2 where w2: "ReceiveData E \<lparr>m_hSerialComm = h\<rparr> (new_buf 1) 1 w1 = Inr ((True, [Some ?v]), w2)"
    "w2 = snd (ReadFile E h 1 w1)" "tgt w2 = tgt w1" "inq w2 = []"
    using ReceiveData_ok[of 1 w1] w1 by auto
  show ?thesis
    using args assms(2,3) w1 w2 carries_ReturnBytesExpected[OF carries_ctors(6) wf]
    by (simp add: LuaCpuRegRd_def new_CpuRegRdPacket_eq connected_def ret_apply seq_Inr bnd_Inr
        push_byte push_byte' port_stk lua_tgt lua_inq del: encode.simps)
qed

lemma LuaDbgHlt_spec:
  assumes "connected g"
  shows "\<exists>w'. LuaDbgHlt E g w = Inr (0, w') \<and> stk w' = stk w \<and> t_halted (tgt w') \<and> inq w' = inq w"
proof -
  obtain w' where "SendPacket E \<lparr>m_hSerialComm = h\<rparr> (DbgHltPacket (map Some (encode DbgHlt))) w = Inr (True, w')"
    and w': "w' = snd (WriteFile E h (encode DbgHlt) w)" "t_halted (tgt w')" "inq w' = inq w"
    by (rule SendPacket_halt[OF carries_ctors(9)])
  moreover have "stk w' = stk w" by (simp only: w'(1) port_stk)
  ultimately show ?thesis
    using assms by (simp add: LuaDbgHlt_def new_simple_packets connected_def seq_Inr ret_apply del: encode.simps)
qed

lemma LuaDbgRun_spec:
  assumes "connected g" and "t_halted (tgt w)"
  shows "\<exists>w'. LuaDbgRun E g w = Inr (0, w') \<and> stk w' = stk w \<and>
    tgt w' = (tgt w)\<lparr>t_halted := False\<rparr> \<and> inq w' = inq w"
proof -
  have "wf_cmd DbgRun" by (simp add: wf_cmd_def)
  then obtain w' where "SendPacket E \<lparr>m_hSerialComm = h\<rparr> (DbgRunPacket (map Some (encode DbgRun))) w = Inr (True, w')"
    "stk w' = stk w" "tgt w' = (tgt w)\<lparr>t_halted := False\<rparr>" "inq w' = inq w"
    using send_ok[OF carries_ctors(10) _ _ assms(2)] by auto
  then show ?thesis
    using assms by (simp add: LuaDbgRun_def new_simple_packets connected_def seq_Inr ret_apply del: encode.simps)
qed

text \<open>One round of polling, and the loop.\<close>

lemma poll_round:
  assumes "connected g" and q: "inq w = []" and buf: "length buf = 1"
  obtains v :: byte where "\<And>fuel. wait_loop E g (QueryHltPacket (map Some (encode QueryHlt))) buf 1 (Suc fuel) w =
      (if v = 0 then wait_loop E g (QueryHltPacket (map Some (encode QueryHlt))) [Some v] 1 fuel (poll E h w)
       else Some (Inr ((), poll E h w)))"
    and "v = 0 \<or> v = 1" and "stk (poll E h w) = stk w" and "inq (poll E h w) = []"
    and "v = 1 \<Longrightarrow> t_halted (tgt (poll E h w))"
    and "t_halted (tgt w) \<Longrightarrow> v = 1 \<and> tgt (poll E h w) = tgt w"
proof -
  let ?p = "QueryHltPacket (map Some (encode QueryHlt))"
  let ?w1 = "snd (WriteFile E h (encode QueryHlt) w)"
  let ?w2 = "snd (ReadFile E h 1 ?w1)"
  have wf: "wf_cmd QueryHlt" and pl: "plain_cmd QueryHlt" by (simp_all add: wf_cmd_def)
  obtain v where v: "v = 0 \<or> v = 1" "inq ?w1 = [v]" "v = 1 \<longrightarrow> t_halted (tgt ?w1)"
    using write_query[of w] q by auto
  have s1: "SendPacket E \<lparr>m_hSerialComm = h\<rparr> ?p w = Inr (True, ?w1)"
    using write_query[of w] by (intro SendPacket_write[OF carries_ctors(8) wf]) simp
  have s2: "ReceiveData E \<lparr>m_hSerialComm = h\<rparr> buf 1 ?w1 = Inr ((True, [Some v]), ?w2)"
    and r2: "tgt ?w2 = tgt ?w1" "inq ?w2 = []"
    using ReceiveData_fill[of 1 ?w1 buf] v(2) buf by auto
  have halt: "v = 1 \<and> tgt ?w1 = tgt w" if "t_halted (tgt w)"
    using write_packet[OF that wf pl] v(2) q by simp
  show ?thesis
  proof
    show "wait_loop E g ?p buf 1 (Suc fuel) w = (if v = 0 then wait_loop E g ?p [Some v] 1 fuel (poll E h w)
       else Some (Inr ((), poll E h w)))" for fuel
      using assms(1) s1 s2 by (simp add: connected_def seq_Inr bnd_Inr ret_apply poll_def del: encode.simps)
    show "stk (poll E h w) = stk w" by (simp add: poll_def sleep_stk port_stk)
    show "inq (poll E h w) = []" by (simp add: poll_def sleep_inq r2 del: encode.simps)
    show "t_halted (tgt (poll E h w))" if "v = 1"
      using v(3) that r2(1) sleep_tgt[of ?w2] by (simp add: poll_def del: encode.simps)
    show "v = 1 \<and> tgt (poll E h w) = tgt w" if "t_halted (tgt w)"
      using halt[OF that] that r2(1) sleep_tgt[of ?w2] by (simp add: poll_def del: encode.simps)
  qed (rule v(1))
qed

lemma wait_loop_ok:
  assumes "connected g" and "inq w = []" and "length buf = 1" and "t_halted (tgt ((poll E h ^^ k) w))"
  shows "\<exists>w'. (\<forall>fuel > k. wait_loop E g (QueryHltPacket (map Some (encode QueryHlt))) buf 1 fuel w = Some (Inr ((), w'))) \<and>
    t_halted (tgt w') \<and> stk w' = stk w \<and> inq w' = []"
  using assms(2-4)
proof (induction k arbitrary: w buf)
  case 0
  obtain v :: byte where v: "\<And>fuel. wait_loop E g (QueryHltPacket (map Some (encode QueryHlt))) buf 1 (Suc fuel) w =
      (if v = 0 then wait_loop E g (QueryHltPacket (map Some (encode QueryHlt))) [Some v] 1 fuel (poll E h w)
       else Some (Inr ((), poll E h w)))" "v = 1" "stk (poll E h w) = stk w" "inq (poll E h w) = []"
    "t_halted (tgt (poll E h w))"
    by (rule poll_round[OF assms(1) 0(1,2)]) (use 0 in auto)
  have "wait_loop E g (QueryHltPacket (map Some (encode QueryHlt))) buf 1 fuel w = Some (Inr ((), poll E h w))"
    if "0 < fuel" for fuel
    using v(1)[of "fuel - 1"] v(2) that by (simp del: encode.simps)
  with v show ?case by blast
next
  case (Suc k)
  obtain v :: byte where v: "\<And>fuel. wait_loop E g (QueryHltPacket (map Some (encode QueryHlt))) buf 1 (Suc fuel) w =
      (if v = 0 then wait_loop E g (QueryHltPacket (map Some (encode QueryHlt))) [Some v] 1 fuel (poll E h w)
       else Some (Inr ((), poll E h w)))" "v = 0 \<or> v = 1" "stk (poll E h w) = stk w" "inq (poll E h w) = []"
    "v = 1 \<Longrightarrow> t_halted (tgt (poll E h w))"
    by (rule poll_round[OF assms(1) Suc.prems(1,2)]) auto
  show ?case
  proof (cases "v = 0")
    case True
    have "t_halted (tgt ((poll E h ^^ k) (poll E h w)))" using Suc.prems(3) by (simp add: funpow_swap1)
    from Suc.IH[OF v(4) _ this, of "[Some v]"] obtain w' where
      w': "\<And>fuel. k < fuel \<Longrightarrow> wait_loop E g (QueryHltPacket (map Some (encode QueryHlt))) [Some v] 1 fuel (poll E h w) = Some (Inr ((), w'))"
      "t_halted (tgt w')" "stk w' = stk w" "inq w' = []" using v(3) by auto
    have "wait_loop E g (QueryHltPacket (map Some (encode QueryHlt))) buf 1 fuel w = Some (Inr ((), w'))" if "Suc k < fuel" for fuel
      using v(1)[of "fuel - 1"] w'(1)[of "fuel - 1"] that True by (simp del: encode.simps)
    with w' show ?thesis by blast
  next
    case False
    have "wait_loop E g (QueryHltPacket (map Some (encode QueryHlt))) buf 1 fuel w = Some (Inr ((), poll E h w))"
      if "Suc k < fuel" for fuel
      using v(1)[of "fuel - 1"] False that by (simp del: encode.simps)
    with v False show ?thesis by blast
  qed
qed

lemma wait_loop_blocks:
  assumes "connected g" and "inq w = []" and "length buf = 1" and "\<And>k. \<not> t_halted (tgt ((poll E h ^^ k) w))"
  shows "wait_loop E g (QueryHltPacket (map Some (encode QueryHlt))) buf 1 fuel w = None"
  using assms(2-4)
proof (induction fuel arbitrary: w buf)
  case 0
  show ?case by simp
next
  case (Suc fuel)
  obtain v :: byte where v: "\<And>fuel. wait_loop E g (QueryHltPacket (map Some (encode QueryHlt))) buf 1 (Suc fuel) w =
      (if v = 0 then wait_loop E g (QueryHltPacket (map Some (encode QueryHlt))) [Some v] 1 fuel (poll E h w)
       else Some (Inr ((), poll E h w)))" "v = 0 \<or> v = 1" "inq (poll E h w) = []"
    "v = 1 \<Longrightarrow> t_halted (tgt (poll E h w))"
    by (rule poll_round[OF assms(1) Suc.prems(1,2)]) auto
  have "v = 0" using v(2,4) Suc.prems(3)[of 1] by auto
  moreover have "\<not> t_halted (tgt ((poll E h ^^ k) (poll E h w)))" for k
    using Suc.prems(3)[of "Suc k"] by (simp add: funpow_swap1)
  ultimately show ?case using v(1)[of fuel] Suc.IH[OF v(3), of "[Some v]"] by (simp del: encode.simps)
qed

lemma LuaWaitForHlt_blocks:
  assumes "connected g" and "inq w = []" and "\<And>k. \<not> t_halted (tgt ((poll E h ^^ k) w))"
  shows "LuaWaitForHlt E g fuel w = None"
proof -
  have "ReturnBytesExpected (QueryHltPacket (map Some (encode QueryHlt))) = Inr 1"
    using carries_ReturnBytesExpected[OF carries_ctors(8)] by (simp add: wf_cmd_def)
  then show ?thesis
    using wait_loop_blocks[OF assms(1,2) _ assms(3)]
    by (simp add: LuaWaitForHlt_def new_simple_packets ret_apply bnd_Inr seq_Inr del: encode.simps)
qed

lemma LuaWaitForHlt_spec:
  assumes "connected g" and "inq w = []" and "t_halted (tgt ((poll E h ^^ k) w))" and "k < fuel"
  shows "\<exists>w'. LuaWaitForHlt E g fuel w = Some (Inr (0, w')) \<and>
    t_halted (tgt w') \<and> stk w' = stk w \<and> inq w' = []"
proof -
  have "ReturnBytesExpected (QueryHltPacket (map Some (encode QueryHlt))) = Inr 1"
    using carries_ReturnBytesExpected[OF carries_ctors(8)] by (simp add: wf_cmd_def)
  then show ?thesis
    using wait_loop_ok[OF assms(1,2) _ assms(3), of "[None]"] assms(4)
    by (auto simp: LuaWaitForHlt_def new_simple_packets ret_apply bnd_Inr seq_Inr simp del: encode.simps)
qed

end

end
