(* ===== verification/Script_Dlg.thy ===== *)
theory Script_Dlg
  imports Script
begin

text \<open>
  \<^verbatim>\<open>sw/src/scriptmgrdlg.cpp\<close>: the dialog from which test scripts are run. It lists the scripts,
  runs the selected ones in order, and shows progress, output and the tally of results.
\<close>

definition ScriptDir :: tstring where
  "ScriptDir = T ''../scripts/''"

definition TestScriptDlgInit :: "'w env \<Rightarrow> ScriptMgr \<Rightarrow> ('w, unit) prog" where
  "TestScriptDlgInit E sm =
     seq (assert_exp E (m_hWndDlg sm \<noteq> 0))
     (seq (call (SendDlgItemMessage E (m_hWndDlg sm) IDC_TESTSCRIPTS_LIST (LB_DIR (ScriptDir @ T ''*.lua''))))
     (ret ()))"

text \<open>
  A progress bar's position for a fraction of its range, in single precision:
  \<^verbatim>\<open>(INT)(((iHigh - iLow) * pctDone) + iLow)\<close>.
\<close>

definition bar_pos :: "'w env \<Rightarrow> int \<Rightarrow> int \<Rightarrow> rat \<Rightarrow> fault + uint" where
  "bar_pos E low high pctDone =
     ebind (cast_INT (flt E (flt E (flt E (of_int (high - low)) * pctDone) + flt E (of_int low))))
       (\<lambda>pos. Inr (of_int pos))"

text \<open>\<^verbatim>\<open>(FLOAT)a / (FLOAT)b\<close>; a division by zero leaves a value that no integer can hold.\<close>

definition ratio :: "'w env \<Rightarrow> uint \<Rightarrow> uint \<Rightarrow> fault + rat" where
  "ratio E a b =
     (if b = 0 then Inl BadCast
      else Inr (flt E (flt E (of_nat (unat a)) / flt E (of_nat (unat b)))))"

definition TestScriptDlgSetProgress :: "'w env \<Rightarrow> ScriptMgr \<Rightarrow> uint \<Rightarrow> uint \<Rightarrow> ('w, unit) prog" where
  "TestScriptDlgSetProgress E sm testsDone testCnt =
     seq (assert_exp E (m_hWndDlg sm \<noteq> 0))
     (seq (assert_exp E (testsDone \<le> testCnt))
     (bnd (lift (stprintf_s 128 (T ''Progress: %d / %d'') [ArgD testsDone, ArgD testCnt])) (\<lambda>progressString.
      seq (call (SendDlgItemMessage E (m_hWndDlg sm) IDC_TESTSCRIPTS_PROGRESSTXT (WM_SETTEXT progressString)))
      (bnd (call (SendDlgItemMessage E (m_hWndDlg sm) IDC_TESTSCRIPTS_PROGRESS PBM_GETRANGE)) (\<lambda>pbRange.
       bnd (lift (ratio E testsDone testCnt)) (\<lambda>pctDone.
       bnd (lift (bar_pos E (iLow pbRange) (iHigh pbRange) pctDone)) (\<lambda>pos.
       seq (call (SendDlgItemMessage E (m_hWndDlg sm) IDC_TESTSCRIPTS_PROGRESS (PBM_SETPOS pos)))
       (ret ()))))))))"

definition TestScriptDlgSetResults :: "'w env \<Rightarrow> ScriptMgr \<Rightarrow> uint \<Rightarrow> uint \<Rightarrow> uint \<Rightarrow> ('w, unit) prog" where
  "TestScriptDlgSetResults E sm passCnt failCnt errorCnt =
     bnd (lift (stprintf_s 128 (T ''Results: %d Pass / %d Fail / %d Error'')
       [ArgD passCnt, ArgD failCnt, ArgD errorCnt])) (\<lambda>resultsString.
     seq (call (SendDlgItemMessage E (m_hWndDlg sm) IDC_TESTSCRIPTS_RESULTSTXT (WM_SETTEXT resultsString)))
     (ret ()))"

section \<open>Running the selected scripts\<close>

text \<open>\<^verbatim>\<open>pScriptIndices[i]\<close>: the array holds what the list box stored in it.\<close>

definition script_index :: "uint list \<Rightarrow> nat \<Rightarrow> fault + uint" where
  "script_index items i = (if i < length items then Inr (items ! i) else Inl UninitRead)"

text \<open>The name is written behind the directory in an array sized by the length asked for before.\<close>

definition script_path :: "uint \<Rightarrow> tstring \<Rightarrow> fault + tstring" where
  "script_path fileNameLen name =
     (if length name \<le> unat fileNameLen then Inr (ScriptDir @ name) else Inl OobWrite)"

definition scriptResultStrTbl :: "uint \<Rightarrow> fault + tstring" where
  "scriptResultStrTbl result =
     (if result = 0 then Inr (T ''PASS'') else if result = 1 then Inr (T ''FAIL'')
      else if result = 2 then Inr (T ''ERROR'') else Inl OobRead)"

type_synonym tally = "uint \<times> uint \<times> uint"

definition count_result :: "'w env \<Rightarrow> uint \<Rightarrow> tally \<Rightarrow> ('w, tally) prog" where
  "count_result E result = (\<lambda>(passCnt, failCnt, errorCnt).
     if result = script_result SCRIPT_RESULT_PASS then ret (passCnt + 1, failCnt, errorCnt)
     else if result = script_result SCRIPT_RESULT_FAIL then ret (passCnt, failCnt + 1, errorCnt)
     else seq (assert_exp E (result = script_result SCRIPT_RESULT_ERROR))
       (ret (passCnt, failCnt, errorCnt + 1)))"

text \<open>The name and the path of the script with list index \<open>idx\<close>.\<close>

definition script_file :: "'w env \<Rightarrow> ScriptMgr \<Rightarrow> uint \<Rightarrow> ('w, tstring \<times> tstring) prog" where
  "script_file E sm idx =
     bnd (call (SendDlgItemMessage E (m_hWndDlg sm) IDC_TESTSCRIPTS_LIST (LB_GETTEXTLEN idx))) (\<lambda>len.
     bnd (call (SendDlgItemMessage E (m_hWndDlg sm) IDC_TESTSCRIPTS_LIST (LB_GETTEXT idx))) (\<lambda>name.
     bnd (lift (script_path (lresult len) (r_text name))) (\<lambda>pFilePath.
     ret (r_text name, pFilePath))))"

text \<open>The body of the loop: the \<open>i\<close>th of \<open>scriptCnt\<close> scripts.\<close>

definition run_script :: "'w env \<Rightarrow> NesDbg option \<Rightarrow> ScriptMgr \<Rightarrow> uint list \<Rightarrow> uint \<Rightarrow> nat \<Rightarrow> tally \<Rightarrow> ('w, tally) prog" where
  "run_script E g sm items scriptCnt i cnts =
     seq (TestScriptDlgSetProgress E sm (of_nat i) scriptCnt)
     (bnd (lift (script_index items i)) (\<lambda>idx.
      bnd (script_file E sm idx) (\<lambda>(pFileName, pFilePath).
      seq (TestScriptDlgAppendOutput E sm
        (T ''====== %s ========================'' @ [0x0D, 0x0A]) [ArgS pFileName])
      (bnd (ExecuteScript E g sm pFilePath) (\<lambda>result.
       bnd (lift (scriptResultStrTbl result)) (\<lambda>str.
       seq (TestScriptDlgAppendOutput E sm
         (T ''====== Result: %s'' @ [0x0D, 0x0A, 0x0D, 0x0A]) [ArgS str])
       (bnd (count_result E result cnts) (\<lambda>(passCnt, failCnt, errorCnt).
        seq (TestScriptDlgSetResults E sm passCnt failCnt errorCnt)
        (ret (passCnt, failCnt, errorCnt))))))))))"

fun run_scripts :: "'w env \<Rightarrow> NesDbg option \<Rightarrow> ScriptMgr \<Rightarrow> uint list \<Rightarrow> uint \<Rightarrow> nat \<Rightarrow> nat \<Rightarrow> tally \<Rightarrow> ('w, tally) prog" where
  "run_scripts E g sm items scriptCnt i 0 cnts = ret cnts"
| "run_scripts E g sm items scriptCnt i (Suc n) cnts =
     bnd (run_script E g sm items scriptCnt i cnts) (\<lambda>cnts. run_scripts E g sm items scriptCnt (i + 1) n cnts)"

text \<open>
  The result is the final tally (\<open>None\<close> when nothing was selected), which the code keeps in
  local variables and shows in the dialog.
\<close>

definition TestScriptDlgRun :: "'w env \<Rightarrow> NesDbg option \<Rightarrow> ScriptMgr \<Rightarrow> ('w, tally option) prog" where
  "TestScriptDlgRun E g sm =
     seq (assert_exp E (m_hWndDlg sm \<noteq> 0))
     (bnd (call (SendDlgItemMessage E (m_hWndDlg sm) IDC_TESTSCRIPTS_LIST LB_GETSELCOUNT)) (\<lambda>r.
      let scriptCnt = lresult r in
      if scriptCnt = 0 then
        seq (act (MessageBox E (T ''No tests selected.'') NesDbg_title)) (ret None)
      else
        bnd (call (SendDlgItemMessage E (m_hWndDlg sm) IDC_TESTSCRIPTS_LIST (LB_GETSELITEMS scriptCnt))) (\<lambda>sel.
        seq (TestScriptDlgSetResults E sm 0 0 0)
        (bnd (run_scripts E g sm (r_items sel) scriptCnt 0 (unat scriptCnt) (0, 0, 0)) (\<lambda>cnts.
         seq (TestScriptDlgSetProgress E sm scriptCnt scriptCnt)
         (ret (Some cnts)))))))"

text \<open>The dialog procedure: the flag it returns and the script manager with its dialog handle.\<close>

definition TestScriptDlgProc ::
  "'w env \<Rightarrow> NesDbg option \<Rightarrow> uint \<Rightarrow> win_msg \<Rightarrow> ('w, bool \<times> ScriptMgr) prog" where
  "TestScriptDlgProc E g hWndDlg msg =
     bnd (lift (GetScriptMgr g)) (\<lambda>sm.
     case msg of
       WM_INITDIALOG \<Rightarrow>
         (let sm = sm\<lparr>m_hWndDlg := hWndDlg\<rparr> in seq (TestScriptDlgInit E sm) (ret (True, sm)))
     | WM_COMMAND wp \<Rightarrow>
         (if LOWORD wp = IDC_TESTSCRIPTS_RUN then
            seq (TestScriptDlgRun E g sm) (ret (True, sm))
          else if LOWORD wp = IDC_TESTSCRIPTS_CLEAR then
            seq (call (SendDlgItemMessage E hWndDlg IDC_TESTSCRIPTS_OUTPUT (WM_SETTEXT [])))
            (ret (True, sm))
          else if LOWORD wp = IDC_TESTSCRIPTS_DONE \<or> LOWORD wp = IDCANCEL then
            (let sm = sm\<lparr>m_hWndDlg := 0\<rparr> in seq (act (EndDialog E hWndDlg wp)) (ret (True, sm)))
          else ret (True, sm))
     | _ \<Rightarrow> ret (False, sm))"

end
