(* ===== verification/Progress.thy ===== *)
theory Progress
  imports Script_Dlg Link
begin

text \<open>
  The position of the progress bars (shared by the script dialog and the ROM loader) stays within
  the bar's range, whatever single precision does to the quotient and the product, and is the end
  of the range when everything is done.
\<close>

lemma round_int: "float_rounding f \<Longrightarrow> \<bar>n\<bar> \<le> 2 ^ 24 \<Longrightarrow> f (of_int n) = of_int n"
  by (simp add: float_rounding_def)

lemma round_mono: "float_rounding f \<Longrightarrow> x \<le> y \<Longrightarrow> f x \<le> f y"
  by (auto simp: float_rounding_def dest: monoD)

lemma round_between:
  assumes "float_rounding f" and "of_int a \<le> x" and "x \<le> of_int b" and "\<bar>a\<bar> \<le> 2 ^ 24" and "\<bar>b\<bar> \<le> 2 ^ 24"
  shows "of_int a \<le> f x \<and> f x \<le> of_int b"
  using round_mono[OF assms(1,2)] round_mono[OF assms(1,3)] round_int[OF assms(1)] assms(4,5) by simp

lemma ratio_bounds:
  assumes "float_rounding (flt E)" and "b \<noteq> 0" and "a \<le> b"
  obtains q where "ratio E a b = Inr q" and "0 \<le> q" and "q \<le> 1" and "a = b \<Longrightarrow> q = 1"
proof -
  let ?a = "flt E (of_nat (unat a))" and ?b = "flt E (of_nat (unat b))"
  note r1 = round_int[OF assms(1), of 1, simplified] and r0 = round_int[OF assms(1), of 0, simplified]
  have b1: "1 \<le> unat b" using assms(2) by (simp add: unat_gt_0 Suc_le_eq)
  have "of_nat 1 \<le> (of_nat (unat b) :: rat)" using b1 by (simp only: of_nat_le_iff)
  then have B: "1 \<le> ?b" using round_mono[OF assms(1), of 1 "of_nat (unat b)"] r1 by simp
  have A: "0 \<le> ?a" using round_mono[OF assms(1), of 0 "of_nat (unat a)"] r0 of_nat_0_le_iff by metis
  have "unat a \<le> unat b" using assms(3) by (simp add: word_le_nat_alt)
  then have AB: "?a \<le> ?b" using round_mono[OF assms(1)] by (simp only: of_nat_le_iff)
  have "0 \<le> ?a / ?b" "?a / ?b \<le> 1" using A AB B by simp_all
  then have "of_int 0 \<le> flt E (?a / ?b) \<and> flt E (?a / ?b) \<le> of_int 1"
    by (intro round_between[OF assms(1)]) simp_all
  moreover have "flt E (?a / ?b) = 1" if "a = b" using that B r1 by simp
  ultimately show ?thesis using that[of "flt E (?a / ?b)"] assms(2) by (simp add: ratio_def)
qed

lemma trunc_between: "of_int a \<le> q \<Longrightarrow> q \<le> of_int b \<Longrightarrow> 0 \<le> a \<Longrightarrow> a \<le> trunc q \<and> trunc q \<le> b"
  by (auto simp: trunc_def le_floor_iff floor_le_iff)

lemma bar_pos_bounds:
  assumes r: "float_rounding (flt E)" and b: "bar_range pb" and q: "0 \<le> q" "q \<le> 1"
  obtains pos where "bar_pos E (iLow pb) (iHigh pb) q = Inr (of_int pos)"
    and "iLow pb \<le> pos" and "pos \<le> iHigh pb" and "q = 1 \<Longrightarrow> pos = iHigh pb"
proof -
  let ?d = "iHigh pb - iLow pb" and ?l = "iLow pb" and ?h = "iHigh pb"
  have lh: "0 \<le> ?l" "?l \<le> ?h" "?h \<le> 65535" using b by (simp_all add: bar_range_def)
  have D: "flt E (of_int ?d) = of_int ?d" and L: "flt E (of_int ?l) = of_int ?l"
    and H: "flt E (of_int ?h) = of_int ?h" using round_int[OF r, of ?d] round_int[OF r, of ?l] round_int[OF r, of ?h] lh by simp_all
  have "0 \<le> of_int ?d * q" "of_int ?d * q \<le> of_int ?d"
    using q lh by (simp_all add: mult_left_le)
  then have p: "of_int 0 \<le> flt E (of_int ?d * q) \<and> flt E (of_int ?d * q) \<le> of_int ?d"
    using lh by (intro round_between[OF r]) simp_all
  let ?x = "flt E (of_int ?d * q) + of_int ?l"
  have "of_int ?l \<le> ?x" "?x \<le> of_int ?h" using p by simp_all
  then have x: "of_int ?l \<le> flt E ?x \<and> flt E ?x \<le> of_int ?h"
    using lh by (intro round_between[OF r]) simp_all
  then have t: "?l \<le> trunc (flt E ?x) \<and> trunc (flt E ?x) \<le> ?h"
    using lh by (intro trunc_between) simp_all
  have "bar_pos E ?l ?h q = Inr (of_int (trunc (flt E ?x)))"
    using t lh D L by (simp add: bar_pos_def cast_INT_def)
  moreover have "trunc (flt E ?x) = ?h" if "q = 1"
    using that D H lh by (simp add: trunc_def)
  ultimately show ?thesis using that t by blast
qed

end
