(* ===== verification/RawText.thy ===== *)
theory RawText
  imports Protocol
begin

text \<open>
  The text format of the raw debug dialog: \<open>hex_dump\<close> is the output loop of
  \<^verbatim>\<open>NesDbg::RawDbgDlgProc\<close>, \<open>CreateObjFromString\<close> (theory \<open>Packet\<close>) the parser of its
  input. The lemmas determine the parser's result on every string, and that it reads back
  what the output loop prints.
\<close>

section \<open>The output loop\<close>

definition hex_digit :: "byte \<Rightarrow> tchar" where
  "hex_digit nibble = (if nibble > 9 then 0x41 + (ucast nibble - 0xA) else 0x30 + ucast nibble)"

fun hex_dump :: "byte list \<Rightarrow> tchar list" where
  "hex_dump [] = []"
| "hex_dump (b # bs) =
     (let hiNibble = drop_bit 4 b; loNibble = b AND 0xF in
      hex_digit hiNibble # hex_digit loNibble # 0x20 # hex_dump bs)"

lemma small_nibble_cases:
  fixes n :: byte
  assumes "n < 16"
  shows "n \<in> {0, 1, 2, 3, 4, 5, 6, 7, 8, 9, 10, 11, 12, 13, 14, 15}"
proof -
  have "unat n < 16" using assms by (simp add: word_less_nat_alt)
  then have "unat n \<in> {0, 1, 2, 3, 4, 5, 6, 7, 8, 9, 10, 11, 12, 13, 14, 15}"
    by (simp add: eval_nat_numeral less_Suc_eq)
  then have "word_of_nat (unat n) \<in>
      (word_of_nat ` {0, 1, 2, 3, 4, 5, 6, 7, 8, 9, 10, 11, 12, 13, 14, 15} :: byte set)"
    by (rule imageI)
  then show ?thesis by simp
qed

lemma classify_hex_digit: "n < 16 \<Longrightarrow> classify (hex_digit n) = Nibble n"
  by (drule small_nibble_cases) (elim insertE emptyE; simp add: classify_def hex_digit_def)

lemma classify_space [simp]: "classify 0x20 = Blank"
  by (simp add: classify_def)

lemma hi_nibble: "drop_bit 4 b < (16 :: byte)"
  using unat_byte[of b] by (simp add: word_less_nat_alt drop_bit_eq_div unat_div del: unat_byte)

lemma lo_nibble: "b AND 0xF < (16 :: byte)"
proof -
  have "b AND 0xF = take_bit 4 b" by (simp add: take_bit_eq_mask mask_eq_exp_minus_1)
  then show ?thesis by (simp add: word_less_nat_alt take_bit_eq_mod unat_mod)
qed

lemma nibbles_join: "push_bit 4 (drop_bit 4 b) OR (b AND 0xF) = (b :: byte)"
proof -
  have m: "b AND 0xF = take_bit 4 b" by (simp add: take_bit_eq_mask mask_eq_exp_minus_1)
  show ?thesis unfolding m by (rule bit_word_eqI) (auto simp: bit_simps)
qed

section \<open>What the scanner computes\<close>

text \<open>The hexadecimal digits of a string, and the bytes that pairs of digits denote.\<close>

fun nibbles :: "tchar list \<Rightarrow> byte list" where
  "nibbles [] = []"
| "nibbles (c # cs) = (case classify c of Nibble v \<Rightarrow> v # nibbles cs | _ \<Rightarrow> nibbles cs)"

fun pack :: "byte list \<Rightarrow> byte list" where
  "pack (h # l # vs) = (push_bit 4 h OR l) # pack vs"
| "pack _ = []"

definition clean :: "tchar list \<Rightarrow> bool" where
  "clean s \<longleftrightarrow> (\<forall>c \<in> set s. classify c \<noteq> Invalid)"

fun put :: "byte list \<Rightarrow> buf \<Rightarrow> nat \<Rightarrow> buf" where
  "put [] raw k = raw"
| "put (v # vs) raw k =
     put vs (raw[k div 2 := Some (if odd k then the (raw ! (k div 2)) OR v else push_bit 4 v)]) (Suc k)"

lemma length_put [simp]: "length (put vs raw k) = length raw"
  by (induction vs raw k rule: put.induct) simp_all

lemma length_nibbles: "length (nibbles s) \<le> length s"
  by (induction s) (auto split: scan_class.split)

lemma length_pack [simp]: "length (pack vs) = length vs div 2"
  by (induction vs rule: pack.induct) simp_all

lemma nibbles_append [simp]: "nibbles (s @ t) = nibbles s @ nibbles t"
  by (induction s) (auto split: scan_class.split)

lemma clean_simps [simp]:
  "clean []"
  "clean (c # s) \<longleftrightarrow> classify c \<noteq> Invalid \<and> clean s"
  by (simp_all add: clean_def)

text \<open>As long as its writes stay inside the array, the scanner stores the digits in turn.\<close>

lemma scan_hex_append:
  assumes "clean s" and "(k + length (nibbles s) + 1) div 2 \<le> length raw"
    and "odd k \<longrightarrow> raw ! (k div 2) \<noteq> None"
  shows "scan_hex (s @ t) raw k =
    scan_hex t (put (nibbles s) raw k) (k + length (nibbles s))"
  using assms
proof (induction s arbitrary: raw k)
  case Nil
  then show ?case by simp
next
  case (Cons c s)
  show ?case
  proof (cases "classify c")
    case (Nibble v)
    let ?x = "if odd k then the (raw ! (k div 2)) OR v else push_bit 4 v"
    have len: "k div 2 < length raw" using Cons.prems(2) Nibble by simp
    have rd: "odd k \<Longrightarrow> buf_rd raw (k div 2) = Inr (the (raw ! (k div 2)))"
      using len Cons.prems(3) by (auto simp: buf_rd_def)
    have wr: "\<And>x. buf_wr raw (k div 2) x = Inr (raw[k div 2 := Some x])"
      using len by (simp add: buf_wr_def)
    have "odd (Suc k) \<longrightarrow> raw[k div 2 := Some ?x] ! (Suc k div 2) \<noteq> None"
      using len by auto
    then have IH: "scan_hex (s @ t) (raw[k div 2 := Some ?x]) (Suc k) =
      scan_hex t (put (nibbles s) (raw[k div 2 := Some ?x]) (Suc k)) (Suc k + length (nibbles s))"
      using Cons.prems Nibble by (intro Cons.IH) simp_all
    have "scan_hex ((c # s) @ t) raw k = scan_hex (s @ t) (raw[k div 2 := Some ?x]) (Suc k)"
      using Nibble rd wr by auto
    with IH Nibble show ?thesis by simp
  next
    case Blank
    with Cons show ?thesis by simp
  next
    case Invalid
    with Cons.prems(1) show ?thesis by simp
  qed
qed

lemma put_pack:
  assumes "even k" and "even (length vs)" and "k div 2 + length vs div 2 \<le> length raw"
  shows "put vs raw k =
    take (k div 2) raw @ map Some (pack vs) @ drop (k div 2 + length vs div 2) raw"
  using assms
proof (induction vs arbitrary: raw k rule: pack.induct)
  case (1 h l vs)
  then obtain j where k: "k = 2 * j" by (auto elim: evenE)
  have j: "j < length raw" using "1.prems"(3) k by simp
  let ?raw = "raw[j := Some (push_bit 4 h OR l)]"
  have "put vs ?raw (Suc (Suc k)) =
    take (Suc j) ?raw @ map Some (pack vs) @ drop (Suc j + length vs div 2) ?raw"
    using "1.IH"[of "Suc (Suc k)" ?raw] "1.prems" k by simp
  moreover have "put (h # l # vs) raw k = put vs ?raw (Suc (Suc k))"
    using j by (simp add: k)
  ultimately show ?case using j by (simp add: k take_Suc_conv_app_nth)
qed simp_all

lemma scan_hex_overflow:
  assumes "clean s" and "length (nibbles s) = length s" and "odd (k + length s)"
    and "length raw = (k + length s) div 2" and "odd k \<longrightarrow> k div 2 < length raw \<and> raw ! (k div 2) \<noteq> None"
  shows "scan_hex s raw k = Inl OobWrite \<or> s = []"
  using assms
proof (induction s arbitrary: raw k)
  case Nil
  then show ?case by simp
next
  case (Cons c s)
  have "length (nibbles s) \<le> length s" by (rule length_nibbles)
  with Cons.prems(2) obtain v where v: "classify c = Nibble v" and ns: "length (nibbles s) = length s"
    by (auto split: scan_class.splits)
  show ?case
  proof (cases "k div 2 < length raw")
    case True
    let ?x = "if odd k then the (raw ! (k div 2)) OR v else push_bit 4 v"
    have step: "scan_hex (c # s) raw k = scan_hex s (raw[k div 2 := Some ?x]) (Suc k)"
      using True v Cons.prems(5) by (auto simp: buf_wr_def buf_rd_def)
    have "s \<noteq> []" using True Cons.prems(3,4) by auto
    moreover have "scan_hex s (raw[k div 2 := Some ?x]) (Suc k) = Inl OobWrite \<or> s = []"
      using Cons.prems True ns by (intro Cons.IH) auto
    ultimately show ?thesis using step by simp
  next
    case False
    then have "even k" using Cons.prems(5) by blast
    with False v show ?thesis by (simp add: buf_wr_def)
  qed
qed

section \<open>The parser's result on every string\<close>

text \<open>The array the parser has filled when it reaches the switch.\<close>

definition raw_of :: "tchar list \<Rightarrow> buf" where
  "raw_of s = map Some (pack (nibbles s)) @
     replicate (length s div 2 - length (nibbles s) div 2) None"

lemma scan_bound:
  "even (length (nibbles s)) \<Longrightarrow> length (nibbles s) div 2 \<le> length s div 2"
  using length_nibbles[of s] by (auto simp: div_le_mono)

lemma CreateObj_even:
  assumes "clean s" and "even (length (nibbles s))"
  shows "CreateObjFromString s = packet_of_raw (raw_of s)"
proof -
  let ?b = "new_buf (length s div 2)" and ?n = "length (nibbles s)"
  have b: "?n div 2 \<le> length s div 2" using assms(2) by (rule scan_bound)
  have "scan_hex (s @ []) ?b 0 = scan_hex [] (put (nibbles s) ?b 0) (0 + ?n)"
    using assms b by (intro scan_hex_append) simp_all
  moreover have "put (nibbles s) ?b 0 = raw_of s"
    using put_pack[of 0 "nibbles s" ?b] assms(2) b by (simp add: raw_of_def new_buf_def)
  ultimately show ?thesis using assms(2) by (simp add: CreateObjFromString_def)
qed

lemma CreateObj_odd_blank:
  assumes "clean s" and "odd (length (nibbles s))" and "length (nibbles s) < length s"
  shows "CreateObjFromString s = Inr None"
proof -
  let ?b = "new_buf (length s div 2)" and ?n = "length (nibbles s)"
  have "(?n + 1) div 2 \<le> length s div 2" using assms(3) by (intro div_le_mono) simp
  then have "scan_hex (s @ []) ?b 0 = scan_hex [] (put (nibbles s) ?b 0) (0 + ?n)"
    using assms(1) by (intro scan_hex_append) simp_all
  then show ?thesis using assms(2) by (simp add: CreateObjFromString_def)
qed

lemma CreateObj_odd_digits:
  assumes "clean s" and "odd (length s)" and "length (nibbles s) = length s"
  shows "CreateObjFromString s = Inl OobWrite"
proof -
  have "scan_hex s (new_buf (length s div 2)) 0 = Inl OobWrite \<or> s = []"
    using assms by (intro scan_hex_overflow) simp_all
  with assms(2) show ?thesis by (auto simp: CreateObjFromString_def)
qed

lemma CreateObj_invalid:
  assumes "\<not> clean s"
  shows "CreateObjFromString s = Inr None"
proof -
  from assms obtain pre c post where s: "s = pre @ c # post"
    and c: "classify c = Invalid" and pre: "\<forall>d \<in> set pre. classify d \<noteq> Invalid"
    using split_list_first_prop[of s "\<lambda>c. classify c = Invalid"] by (auto simp: clean_def)
  let ?b = "new_buf (length s div 2)" and ?n = "length (nibbles pre)"
  have "?n + 1 \<le> length s" using length_nibbles[of pre] s by simp
  then have "(?n + 1) div 2 \<le> length s div 2" by (rule div_le_mono)
  then have "scan_hex (pre @ c # post) ?b 0 = scan_hex (c # post) (put (nibbles pre) ?b 0) (0 + ?n)"
    using pre by (intro scan_hex_append) (simp_all add: clean_def)
  then show ?thesis using c s by (simp add: CreateObjFromString_def)
qed

section \<open>Reading back what the dialog prints\<close>

lemma nibbles_hex_dump: "nibbles (hex_dump bs) = concat (map (\<lambda>b. [drop_bit 4 b, b AND 0xF]) bs)"
  by (induction bs) (simp_all add: Let_def classify_hex_digit hi_nibble lo_nibble)

lemma clean_hex_dump [simp]: "clean (hex_dump bs)"
  by (induction bs) (simp_all add: Let_def classify_hex_digit hi_nibble lo_nibble)

lemma length_hex_dump [simp]: "length (hex_dump bs) = 3 * length bs"
  by (induction bs) (simp_all add: Let_def)

lemma length_nibbles_hex_dump [simp]: "length (nibbles (hex_dump bs)) = 2 * length bs"
  unfolding nibbles_hex_dump by (induction bs) simp_all

lemma pack_hex_dump [simp]: "pack (nibbles (hex_dump bs)) = bs"
  unfolding nibbles_hex_dump by (induction bs) (simp_all add: nibbles_join)

lemma CreateObj_hex_dump:
  "CreateObjFromString (hex_dump bs) =
     packet_of_raw (map Some bs @ replicate (3 * length bs div 2 - length bs) None)"
  by (simp add: CreateObj_even raw_of_def)

lemma raw_of_unknown:
  assumes "pack (nibbles s) = op # bs" and "2 < op"
  shows "packet_of_raw (raw_of s) = Inr None"
  using assms(2) by (auto simp: raw_of_def assms(1) packet_of_raw_def)

text \<open>The commands whose opcode the factory's switch has a case for.\<close>

definition typed_in :: "cmd \<Rightarrow> bool" where
  "typed_in c \<longleftrightarrow> cmd_op c \<in> {OpEcho, OpCpuMemRd, OpCpuMemWr}"

lemma packet_of_raw_encode:
  assumes "wf_cmd c" and "typed_in c"
  shows "\<exists>p. packet_of_raw (map Some (encode c) @ rest) = Inr (Some p) \<and> carries p c"
proof (cases c)
  case (Echo ds)
  have "at_off (map Some ([opcode OpEcho, lo8 (len16 ds), hi8 (len16 ds)] @ ds @ []) @ rest)
    (length [opcode OpEcho, lo8 (len16 ds), hi8 (len16 ds)]) ds"
    by (rule at_off_map_Some_append)
  then have "at_off (map Some (encode c) @ rest) 3 ds" by (simp add: Echo bytes16_def eval_nat_numeral)
  then have "new_EchoPacket (map Some (encode c) @ rest) 3 (len16 ds) =
      Inr (EchoPacket (map Some (encode c)))"
    using assms(1) Echo by (simp add: new_EchoPacket_at wf_cmd_def)
  then show ?thesis by (simp add: Echo packet_of_raw_def bytes16_def buf_rd16_def carries_def)
next
  case (CpuMemRd a n)
  then show ?thesis
    by (simp add: packet_of_raw_def bytes16_def buf_rd16_def new_CpuMemRdPacket_eq carries_def)
next
  case (CpuMemWr a ds)
  have "at_off (map Some ((opcode OpCpuMemWr # bytes16 a @ bytes16 (len16 ds)) @ ds @ []) @ rest)
    (length (opcode OpCpuMemWr # bytes16 a @ bytes16 (len16 ds))) ds"
    by (rule at_off_map_Some_append)
  then have "at_off (map Some (encode c) @ rest) 5 ds" by (simp add: CpuMemWr bytes16_def eval_nat_numeral)
  then have "new_CpuMemWrPacket a (len16 ds) (map Some (encode c) @ rest) 5 =
      Inr (CpuMemWrPacket (map Some (encode c)))"
    using assms(1) CpuMemWr by (simp add: new_CpuMemWrPacket_at wf_cmd_def)
  then show ?thesis by (simp add: CpuMemWr packet_of_raw_def bytes16_def buf_rd16_def carries_def)
qed (use assms(2) in \<open>simp_all add: typed_in_def\<close>)

lemma opcode_inj: "opcode x = opcode y \<Longrightarrow> x = y"
  by (cases x; cases y) simp_all

lemma encode_hd: "\<exists>bs. encode c = opcode (cmd_op c) # bs"
  by (cases c) simp_all

lemma packet_of_raw_other:
  assumes "\<not> typed_in c"
  shows "packet_of_raw (map Some (encode c) @ rest) = Inr None"
proof -
  obtain bs where "encode c = opcode (cmd_op c) # bs" using encode_hd by blast
  then show ?thesis using assms
    by (auto simp: packet_of_raw_def typed_in_def simp del: opcode.simps dest: opcode_inj)
qed

section \<open>Truncated packets\<close>

text \<open>
  The parser never compares the number of bytes it has read with what the packet needs: any
  proper prefix of a packet makes it read past the bytes that were typed in.
\<close>

definition cut_at :: "buf \<Rightarrow> nat \<Rightarrow> byte list \<Rightarrow> bool" where
  "cut_at raw n bs \<longleftrightarrow>
     (\<forall>i < n. buf_rd raw i = Inr (bs ! i)) \<and> (\<forall>i \<ge> n. \<not> cell_ok raw i)"

lemma cut_at_take: "n < length bs \<Longrightarrow> cut_at (map Some (take n bs) @ replicate r None) n bs"
  by (auto simp: cut_at_def buf_rd_def cell_ok_def nth_append)

lemma cut_rd: "cut_at raw n bs \<Longrightarrow> i < n \<Longrightarrow> buf_rd raw i = Inr (bs ! i)"
  and cut_rd16: "cut_at raw n bs \<Longrightarrow> i + 1 < n \<Longrightarrow>
    buf_rd16 raw i = Inr (le16 (bs ! i) (bs ! (i + 1)))"
  and cut_bad: "cut_at raw n bs \<Longrightarrow> n \<le> i \<Longrightarrow> \<not> cell_ok raw i"
  by (simp_all add: cut_at_def buf_rd16_def)

lemma cut_bad16: "cut_at raw n bs \<Longrightarrow> n \<le> i + 1 \<Longrightarrow> \<exists>e. buf_rd16 raw i = Inl e \<and> bad_read e"
  by (rule buf_rd16_short) (simp add: cut_bad)

lemma cut_empty: "cut_at raw 0 bs \<Longrightarrow> \<exists>e. packet_of_raw raw = Inl e \<and> bad_read e"
  using buf_rd_cases[of raw 0] cut_bad[of raw 0 bs 0] by (auto simp: packet_of_raw_def)

lemma cut_Echo:
  assumes "cut_at raw n (encode (Echo ds))" and "0 < n" and "n < length (encode (Echo ds))"
    and "length ds < 65536"
  shows "\<exists>e. packet_of_raw raw = Inl e \<and> bad_read e"
proof (cases "n \<le> 2")
  case True
  with cut_rd[OF assms(1), of 0] cut_bad16[OF assms(1), of 1] assms(2) show ?thesis
    by (auto simp: packet_of_raw_def)
next
  case False
  then have "\<exists>e. new_EchoPacket raw 3 (len16 ds) = Inl e \<and> bad_read e"
    using assms cut_bad[OF assms(1), of n] by (intro new_EchoPacket_short[of "n - 3"]) auto
  with False cut_rd[OF assms(1), of 0] cut_rd16[OF assms(1), of 1] show ?thesis
    by (auto simp: packet_of_raw_def bytes16_def)
qed

lemma cut_CpuMemRd:
  assumes "cut_at raw n (encode (CpuMemRd a m))" and "0 < n" and "n < 5"
  shows "\<exists>e. packet_of_raw raw = Inl e \<and> bad_read e"
proof (cases "n \<le> 2")
  case True
  with cut_rd[OF assms(1), of 0] cut_bad16[OF assms(1), of 1] assms(2) show ?thesis
    by (auto simp: packet_of_raw_def)
next
  case False
  with assms(3) cut_rd[OF assms(1), of 0] cut_rd16[OF assms(1), of 1] cut_bad16[OF assms(1), of 3]
  show ?thesis by (auto simp: packet_of_raw_def)
qed

lemma cut_CpuMemWr:
  assumes "cut_at raw n (encode (CpuMemWr a ds))" and "0 < n" and "n < length (encode (CpuMemWr a ds))"
    and "length ds < 65536"
  shows "\<exists>e. packet_of_raw raw = Inl e \<and> bad_read e"
proof -
  note rd = cut_rd[OF assms(1), of 0] cut_rd16[OF assms(1), of 1] cut_rd16[OF assms(1), of 3]
  consider "n \<le> 2" | "2 < n" "n \<le> 4" | "4 < n" by linarith
  then show ?thesis
  proof cases
    case 1
    with rd cut_bad16[OF assms(1), of 1] assms(2) show ?thesis by (auto simp: packet_of_raw_def)
  next
    case 2
    with rd cut_bad16[OF assms(1), of 3] show ?thesis by (auto simp: packet_of_raw_def)
  next
    case 3
    then have "\<exists>e. new_CpuMemWrPacket a (len16 ds) raw 5 = Inl e \<and> bad_read e"
      using assms cut_bad[OF assms(1), of n] by (intro new_CpuMemWrPacket_short[of "n - 5"]) auto
    with 3 rd show ?thesis by (auto simp: packet_of_raw_def bytes16_def)
  qed
qed

lemma packet_of_raw_truncated:
  assumes "wf_cmd c" and "typed_in c" and "n < length (encode c)"
  shows "\<exists>e. packet_of_raw (map Some (take n (encode c)) @ replicate r None) = Inl e \<and> bad_read e"
proof -
  note cut = cut_at_take[OF assms(3), of r]
  show ?thesis
  proof (cases "n = 0")
    case True
    with cut show ?thesis by (intro cut_empty) simp
  next
    case False
    with assms cut show ?thesis
      by (cases c) (auto simp: wf_cmd_def typed_in_def intro: cut_Echo cut_CpuMemRd cut_CpuMemWr)
  qed
qed

end
