(* ===== verification/Nes_Dbg.thy ===== *)
theory Nes_Dbg
  imports Script_Dlg RawText
begin

text \<open>
  \<^verbatim>\<open>sw/src/nesdbg.cpp\<close>: the application object (construction, initialization, destruction), the
  ROM loader and the raw debug dialog.
\<close>

section \<open>Life cycle\<close>

definition new_NesDbg :: "uint \<Rightarrow> uint \<Rightarrow> NesDbg" where
  "new_NesDbg hInstance hWnd =
     \<lparr>m_hInstance = hInstance, m_hWnd = hWnd, m_hFontCourierNew = 0, m_pSerialComm = None,
      m_pScriptMgr = None\<rparr>"

definition Init_font :: "'w env \<Rightarrow> NesDbg \<Rightarrow> ('w, bool \<times> NesDbg) prog" where
  "Init_font E d =
     bnd (call (CreateFont E)) (\<lambda>font. ret (font \<noteq> 0, d\<lparr>m_hFontCourierNew := font\<rparr>))"

definition Init_serial :: "'w env \<Rightarrow> NesDbg \<Rightarrow> ('w, bool \<times> NesDbg) prog" where
  "Init_serial E d =
     bnd (SerialComm_Init E) (\<lambda>(ok, s).
     if \<not> ok then seq (delete_SerialComm E s) (ret (False, d\<lparr>m_pSerialComm := None\<rparr>))
     else ret (True, d\<lparr>m_pSerialComm := Some s\<rparr>))"

text \<open>\<open>sm\<close> is what the script manager's constructor leaves in its members.\<close>

definition Init_script :: "'w env \<Rightarrow> ScriptMgr \<Rightarrow> NesDbg \<Rightarrow> ('w, bool \<times> NesDbg) prog" where
  "Init_script E sm d =
     bnd (ScriptMgr_Init E sm) (\<lambda>(ok, sm).
     if \<not> ok then seq (delete_ScriptMgr E sm) (ret (False, d\<lparr>m_pScriptMgr := None\<rparr>))
     else ret (True, d\<lparr>m_pScriptMgr := Some sm\<rparr>))"

definition NesDbg_Init :: "'w env \<Rightarrow> ScriptMgr \<Rightarrow> NesDbg \<Rightarrow> ('w, bool \<times> NesDbg) prog" where
  "NesDbg_Init E sm d =
     bnd (Init_font E d) (\<lambda>(ok, d).
     bnd (if ok then Init_serial E d else ret (False, d)) (\<lambda>(ok, d).
     if ok then Init_script E sm d else ret (False, d)))"

definition delete_NesDbg :: "'w env \<Rightarrow> NesDbg \<Rightarrow> ('w, unit) prog" where
  "delete_NesDbg E d =
     seq (ifp (m_hFontCourierNew d \<noteq> 0) (act (DeleteObject E (m_hFontCourierNew d))))
     (seq (case m_pSerialComm d of None \<Rightarrow> ret () | Some s \<Rightarrow> delete_SerialComm E s)
     (case m_pScriptMgr d of None \<Rightarrow> ret () | Some sm \<Rightarrow> delete_ScriptMgr E sm))"

definition LaunchRawDbgDlg :: "'w env \<Rightarrow> NesDbg \<Rightarrow> ('w, unit) prog" where
  "LaunchRawDbgDlg E d = act (DialogBox E (T ''RawDebugDlg'') (m_hWnd d))"

definition LaunchTestScriptDlg :: "'w env \<Rightarrow> NesDbg \<Rightarrow> ('w, unit) prog" where
  "LaunchTestScriptDlg E d = act (DialogBox E (T ''TestScriptDlg'') (m_hWnd d))"

section \<open>Loading a ROM\<close>

text \<open>The path is returned in an array of 1024 TCHARs, whose size is passed in bytes.\<close>

definition LoadRom_pick :: "'w env \<Rightarrow> ('w, bool \<times> tstring) prog" where
  "LoadRom_pick E =
     bnd (call (GetOpenFileName E 2048)) (\<lambda>(success, filePath).
     if length filePath < 1024 then ret (success, filePath) else throw OobWrite)"

definition LoadRom_open :: "'w env \<Rightarrow> tstring \<Rightarrow> ('w, bool \<times> uint) prog" where
  "LoadRom_open E filePath =
     bnd (call (CreateFile E filePath GENERIC_READ)) (\<lambda>hPrgFile.
     seq (ifp (hPrgFile = INVALID_HANDLE_VALUE)
       (act (MessageBox E (T ''Failed to open ROM file.'') NesDbg_title)))
     (ret (hPrgFile \<noteq> INVALID_HANDLE_VALUE, hPrgFile)))"

definition FileDataBufferSize :: nat where
  "FileDataBufferSize = 0x100000"

definition LoadRom_read :: "'w env \<Rightarrow> uint \<Rightarrow> ('w, bool \<times> buf) prog" where
  "LoadRom_read E hPrgFile =
     bnd (call (ReadFile E hPrgFile (of_nat FileDataBufferSize))) (\<lambda>(success, bytes).
     bnd (lift (buf_fill (new_buf FileDataBufferSize) bytes)) (\<lambda>pFileData.
     seq (ifp (\<not> success) (act (MessageBox E (T ''Failed to read data from ROM file.'') NesDbg_title)))
     (ret (success, pFileData))))"

text \<open>\<^verbatim>\<open>(b[i] != c0) || (b[i+1] != c1) || ...\<close>, read from left to right.\<close>

fun any_differs :: "buf \<Rightarrow> nat \<Rightarrow> byte list \<Rightarrow> fault + bool" where
  "any_differs b i [] = Inr False"
| "any_differs b i (c # cs) =
     ebind (buf_rd b i) (\<lambda>v. if v \<noteq> c then Inr True else any_differs b (i + 1) cs)"

definition LoadRom_check :: "'w env \<Rightarrow> buf \<Rightarrow> ('w, bool \<times> uint \<times> uint) prog" where
  "LoadRom_check E pFileData =
     bnd (lift (any_differs pFileData 0 [0x4E, 0x45, 0x53, 0x1A])) (\<lambda>bad.
     seq (ifp bad (act (MessageBox E (T ''Invalid ROM header.'') NesDbg_title)))
     (bnd (lift (buf_rd pFileData 4)) (\<lambda>prgRomBanks.
      bnd (lift (buf_rd pFileData 5)) (\<lambda>chrRomBanks.
      let many = prgRomBanks > 2 \<or> chrRomBanks > 1 in
      seq (ifp many (act (MessageBox E (T ''Too many ROM banks.'') NesDbg_title)))
      (bnd (lift (buf_rd pFileData 6)) (\<lambda>flags6.
       let mirror = flags6 AND 0x08 \<noteq> 0 in
       seq (ifp mirror
         (act (MessageBox E (T ''Only horizontal and vertical mirroring are supported.'') NesDbg_title)))
       (bnd (lift (buf_rd pFileData 7)) (\<lambda>flags7.
        let mapper = (drop_bit 4 (flags6 AND 0xF0) OR (flags7 AND 0xF0)) \<noteq> 0 in
        seq (ifp mapper (act (MessageBox E (T ''Only mapper 0 is supported.'') NesDbg_title)))
        (ret (\<not> bad \<and> \<not> many \<and> \<not> mirror \<and> \<not> mapper, ucast prgRomBanks, ucast chrRomBanks))))))))))"

definition transferBlockSize :: nat where
  "transferBlockSize = 0x400"

text \<open>What follows every block: count it and move the progress bar.\<close>

definition block_done :: "'w env \<Rightarrow> uint \<Rightarrow> dlg_reply \<Rightarrow> uint \<Rightarrow> uint \<Rightarrow> ('w, uint) prog" where
  "block_done E hDlg pbRange totalBytes transferredBytes =
     (let transferredBytes = transferredBytes + of_nat transferBlockSize in
      bnd (lift (ratio E transferredBytes totalBytes)) (\<lambda>pctDone.
      bnd (lift (bar_pos E (iLow pbRange) (iHigh pbRange) pctDone)) (\<lambda>pos.
      seq (call (SendDlgItemMessage E hDlg IDC_ROMLOAD_PROGRESS (PBM_SETPOS pos)))
      (ret transferredBytes))))"

text \<open>The two transfer loops, from block \<open>i\<close> on, with \<open>n\<close> blocks to go.\<close>

fun load_prg :: "'w env \<Rightarrow> SerialComm \<Rightarrow> uint \<Rightarrow> dlg_reply \<Rightarrow> buf \<Rightarrow> uint \<Rightarrow> nat \<Rightarrow> nat \<Rightarrow> uint \<Rightarrow> ('w, uint) prog" where
  "load_prg E s hDlg pbRange pFileData totalBytes i 0 transferredBytes = ret transferredBytes"
| "load_prg E s hDlg pbRange pFileData totalBytes i (Suc n) transferredBytes =
     (let prgRomOffset = transferBlockSize * i in
      bnd (lift (new_CpuMemWrPacket (of_nat (0x8000 + prgRomOffset)) (of_nat transferBlockSize)
        pFileData (16 + prgRomOffset))) (\<lambda>prgRomMemWrPacket.
      seq (SendPacket E s prgRomMemWrPacket)
      (bnd (block_done E hDlg pbRange totalBytes transferredBytes) (\<lambda>transferredBytes.
       load_prg E s hDlg pbRange pFileData totalBytes (i + 1) n transferredBytes))))"

fun load_chr :: "'w env \<Rightarrow> SerialComm \<Rightarrow> uint \<Rightarrow> dlg_reply \<Rightarrow> buf \<Rightarrow> nat \<Rightarrow> uint \<Rightarrow> nat \<Rightarrow> nat \<Rightarrow> uint \<Rightarrow> ('w, uint) prog" where
  "load_chr E s hDlg pbRange pFileData prgRomDataSize totalBytes i 0 transferredBytes = ret transferredBytes"
| "load_chr E s hDlg pbRange pFileData prgRomDataSize totalBytes i (Suc n) transferredBytes =
     (let chrRomOffset = transferBlockSize * i in
      bnd (lift (new_PpuMemWrPacket (of_nat chrRomOffset) (of_nat transferBlockSize)
        pFileData (16 + prgRomDataSize + chrRomOffset))) (\<lambda>ppuMemWrPacket.
      seq (SendPacket E s ppuMemWrPacket)
      (bnd (block_done E hDlg pbRange totalBytes transferredBytes) (\<lambda>transferredBytes.
       load_chr E s hDlg pbRange pFileData prgRomDataSize totalBytes (i + 1) n transferredBytes))))"

definition LoadRom_setup :: "'w env \<Rightarrow> SerialComm \<Rightarrow> buf \<Rightarrow> ('w, unit) prog" where
  "LoadRom_setup E s pFileData =
     bnd (lift new_DbgHltPacket) (\<lambda>dbgHltPacket.
     seq (SendPacket E s dbgHltPacket)
     (bnd (lift new_PpuDisablePacket) (\<lambda>ppuDisablePacket.
      seq (SendPacket E s ppuDisablePacket)
      (bnd (lift (new_CartSetCfgPacket pFileData)) (\<lambda>cartSetCfgPacket.
       seq (SendPacket E s cartSetCfgPacket)
       (ret ()))))))"

definition LoadRom_start :: "'w env \<Rightarrow> SerialComm \<Rightarrow> buf \<Rightarrow> nat \<Rightarrow> ('w, unit) prog" where
  "LoadRom_start E s pFileData prgRomDataSize =
     bnd (lift (buf_rd pFileData (16 + prgRomDataSize - 4))) (\<lambda>pclVal.
     bnd (lift (buf_rd pFileData (16 + prgRomDataSize - 3))) (\<lambda>pchVal.
     bnd (lift (new_CpuRegWrPacket (CpuReg RegPcl) pclVal)) (\<lambda>pclRegWrPacket.
     seq (SendPacket E s pclRegWrPacket)
     (bnd (lift (new_CpuRegWrPacket (CpuReg RegPch) pchVal)) (\<lambda>pchRegWrPacket.
      seq (SendPacket E s pchRegWrPacket)
      (bnd (lift new_DbgRunPacket) (\<lambda>dbgRunPacket.
       seq (SendPacket E s dbgRunPacket)
       (ret ()))))))))"

definition LoadRom_transfer :: "'w env \<Rightarrow> NesDbg option \<Rightarrow> NesDbg \<Rightarrow> buf \<Rightarrow> uint \<Rightarrow> uint \<Rightarrow> ('w, unit) prog" where
  "LoadRom_transfer E g d pFileData prgRomBanks chrRomBanks =
     bnd (call (CreateDialog E (T ''RomLoadProgressDlg'') (m_hWnd d))) (\<lambda>hDlg.
     bnd (call (SendDlgItemMessage E hDlg IDC_ROMLOAD_PROGRESS PBM_GETRANGE)) (\<lambda>pbRange.
     bnd (lift (GetSerialComm g)) (\<lambda>s.
     seq (LoadRom_setup E s pFileData)
     (let prgRomDataSize = unat prgRomBanks * 0x4000;
          chrRomDataSize = unat chrRomBanks * 0x2000;
          totalBytes = of_nat (prgRomDataSize + chrRomDataSize) in
      bnd (load_prg E s hDlg pbRange pFileData totalBytes 0 (prgRomDataSize div transferBlockSize) 0)
        (\<lambda>transferredBytes.
      bnd (load_chr E s hDlg pbRange pFileData prgRomDataSize totalBytes 0
             (chrRomDataSize div transferBlockSize) transferredBytes) (\<lambda>_.
      seq (LoadRom_start E s pFileData prgRomDataSize)
      (act (DestroyWindow E hDlg))))))))"

definition LoadRom :: "'w env \<Rightarrow> NesDbg option \<Rightarrow> NesDbg \<Rightarrow> ('w, unit) prog" where
  "LoadRom E g d =
     bnd (LoadRom_pick E) (\<lambda>(success, filePath).
     bnd (if success then LoadRom_open E filePath else ret (False, INVALID_HANDLE_VALUE)) (\<lambda>(success, hPrgFile).
     bnd (if success then LoadRom_read E hPrgFile else ret (False, [])) (\<lambda>(success, pFileData).
     bnd (if success then LoadRom_check E pFileData else ret (False, 0, 0)) (\<lambda>(success, prgRomBanks, chrRomBanks).
     seq (ifp success (LoadRom_transfer E g d pFileData prgRomBanks chrRomBanks))
     (ifp (hPrgFile \<noteq> INVALID_HANDLE_VALUE) (act (CloseHandle E hPrgFile)))))))"

definition RomLoadProgressDlgProc :: "win_msg \<Rightarrow> bool" where
  "RomLoadProgressDlgProc msg = (msg = WM_INITDIALOG)"

section \<open>The raw debug dialog\<close>

text \<open>The text of the input control, in an array of \<open>cmdLength + 1\<close> TCHARs.\<close>

definition RawDbg_input :: "'w env \<Rightarrow> uint \<Rightarrow> ('w, tstring) prog" where
  "RawDbg_input E hWndDlg =
     bnd (call (SendDlgItemMessage E hWndDlg IDC_RAWDBG_IN WM_GETTEXTLENGTH)) (\<lambda>r.
     let cmdLength = lresult r in
     bnd (call (SendDlgItemMessage E hWndDlg IDC_RAWDBG_IN (WM_GETTEXT (cmdLength + 1)))) (\<lambda>txt.
     if length (r_text txt) \<le> unat cmdLength then ret (r_text txt) else throw OobWrite))"

definition RawDbg_send :: "'w env \<Rightarrow> NesDbg option \<Rightarrow> uint \<Rightarrow> ('w, unit) prog" where
  "RawDbg_send E g hWndDlg =
     bnd (RawDbg_input E hWndDlg) (\<lambda>pInput.
     bnd (lift (CreateObjFromString pInput)) (\<lambda>pDbgPacket.
     case pDbgPacket of
       Some p \<Rightarrow>
         bnd (lift (GetSerialComm g)) (\<lambda>s.
         seq (SendPacket E s p)
         (bnd (lift (ReturnBytesExpected p)) (\<lambda>bytesToReceive.
          bnd (ReceiveData E s (new_buf (unat bytesToReceive)) bytesToReceive) (\<lambda>(_, pReceivedData).
          bnd (lift (buf_slice pReceivedData 0 (unat bytesToReceive))) (\<lambda>bytes.
          seq (call (SendDlgItemMessage E hWndDlg IDC_RAWDBG_OUT (WM_SETTEXT (hex_dump bytes))))
          (seq (call (SendDlgItemMessage E hWndDlg IDC_RAWDBG_IN (WM_SETTEXT [])))
          (ret ())))))))
     | None \<Rightarrow> act (MessageBox E (T ''Invalid data.'') NesDbg_title)))"

definition RawDbgDlgProc :: "'w env \<Rightarrow> NesDbg option \<Rightarrow> uint \<Rightarrow> win_msg \<Rightarrow> ('w, bool) prog" where
  "RawDbgDlgProc E g hWndDlg msg =
     (case msg of
        WM_INITDIALOG \<Rightarrow>
          bnd (lift (case g of None \<Rightarrow> Inl NullDeref | Some d \<Rightarrow> Inr (m_hFontCourierNew d))) (\<lambda>font.
          seq (call (SendDlgItemMessage E hWndDlg IDC_RAWDBG_OUT (WM_SETFONT font))) (ret True))
      | WM_COMMAND wp \<Rightarrow>
          (if LOWORD wp = IDC_RAWDBG_SEND then seq (RawDbg_send E g hWndDlg) (ret True)
           else if LOWORD wp = IDC_RAWDBG_CLEAR then
             seq (call (SendDlgItemMessage E hWndDlg IDC_RAWDBG_OUT (WM_SETTEXT []))) (ret True)
           else if LOWORD wp = IDC_RAWDBG_DONE \<or> LOWORD wp = IDCANCEL then
             seq (act (EndDialog E hWndDlg wp)) (ret True)
           else ret False)
      | _ \<Rightarrow> ret False)"

end
