(* ===== verification/Rom_Host.thy ===== *)
theory Rom_Host
  imports Rom_Image Script_Host Progress Nes_Dbg
begin

text \<open>
  \<open>NesDbg::LoadRom\<close> under the contracts of theory \<open>Link\<close>: for an accepted and complete image it
  halts the console, sends exactly the commands of theory \<open>Rom_Image\<close> and leaves the ROM loaded
  and running.
\<close>

lemma at_off_block:
  "off + n \<le> length data \<Longrightarrow> at_off (map Some data @ rest) off (take n (drop off data))"
  by (simp add: at_off_def take_map drop_map)

lemma hi_zero: "drop_bit 4 (f AND 0xF0) = 0 \<longleftrightarrow> f AND 0xF0 = (0 :: byte)"
proof
  define x where "x = f AND 0xF0"
  assume a: "drop_bit 4 (f AND 0xF0) = 0"
  have "bit x n = False" for n
  proof (cases "n < 4")
    case True
    then have "n = 0 \<or> n = 1 \<or> n = 2 \<or> n = 3" by auto
    then show ?thesis by (auto simp: x_def bit_and_iff bit_numeral_rec)
  next
    case False
    then have "bit x n = bit (drop_bit 4 x) (n - 4)" by (simp add: bit_drop_bit_eq)
    then show ?thesis using a by (simp add: x_def)
  qed
  then show "f AND 0xF0 = 0" unfolding x_def by (intro bit_word_eqI) simp
qed simp

text \<open>The user picks the file \<open>path\<close>, which opens as \<open>hf\<close> and holds \<open>data\<close>.\<close>

definition file_picked :: "'w env \<Rightarrow> tstring \<Rightarrow> uint \<Rightarrow> byte list \<Rightarrow> bool" where
  "file_picked E path hf data \<longleftrightarrow>
     (\<forall>w. fst (GetOpenFileName E 2048 w) = (True, path)) \<and> length path < 1024 \<and>
     (\<forall>w. fst (CreateFile E path GENERIC_READ w) = hf) \<and> hf \<noteq> INVALID_HANDLE_VALUE \<and>
     (\<forall>w. fst (ReadFile E hf (of_nat FileDataBufferSize) w) = (True, data)) \<and>
     length data \<le> FileDataBufferSize"

text \<open>The header checks accept exactly the images of \<open>ines_ok\<close>, silently.\<close>

lemma any_differs_eq:
  "off + length cs \<le> length data \<Longrightarrow>
   any_differs (map Some data @ rest) off cs = Inr (take (length cs) (drop off data) \<noteq> cs)"
proof (induction cs arbitrary: off)
  case (Cons c cs)
  then have "off < length data" by simp
  then have "take (length (c # cs)) (drop off data) = data ! off # take (length cs) (drop (off + 1) data)"
    and "buf_rd (map Some data @ rest) off = Inr (data ! off)"
    by (simp_all add: Cons_nth_drop_Suc[symmetric] buf_rd_def nth_append)
  then show ?case using Cons by simp
qed simp

lemma LoadRom_check_eq:
  assumes "8 \<le> length data"
  shows "\<exists>w'. LoadRom_check E (map Some data @ rest) w =
      Inr ((ines_ok data, ucast (data ! 4), ucast (data ! 5)), w') \<and> (ines_ok data \<longrightarrow> w' = w) \<and>
    (\<forall>P. P w \<longrightarrow> (\<forall>txt w. P w \<longrightarrow> P (MessageBox E txt NesDbg_title w)) \<longrightarrow> P w')"
proof -
  have rd: "buf_rd (map Some data @ rest) i = Inr (data ! i)" if "i < 8" for i
    using assms that by (simp add: buf_rd_def nth_append)
  have magic: "any_differs (map Some data @ rest) 0 [0x4E, 0x45, 0x53, 0x1A] =
      Inr (take 4 data \<noteq> [0x4E, 0x45, 0x53, 0x1A])"
    using any_differs_eq[of 0 "[0x4E, 0x45, 0x53, 0x1A]" data rest] assms
    by (simp del: any_differs.simps add: numeral_eq_Suc)
  have map0: "drop_bit 4 (f AND 0xF0) OR (g AND 0xF0) = 0 \<longleftrightarrow> f AND 0xF0 = 0 \<and> g AND 0xF0 = 0" for f g :: byte
    by (simp only: or_eq_0_iff hi_zero)
  let ?w1 = "\<lambda>w. if take 4 data \<noteq> [0x4E, 0x45, 0x53, 0x1A] then MessageBox E (T ''Invalid ROM header.'') NesDbg_title w else w"
  let ?w2 = "\<lambda>w. if data ! 4 > 2 \<or> data ! 5 > 1 then MessageBox E (T ''Too many ROM banks.'') NesDbg_title w else w"
  let ?w3 = "\<lambda>w. if data ! 6 AND 0x08 \<noteq> 0
    then MessageBox E (T ''Only horizontal and vertical mirroring are supported.'') NesDbg_title w else w"
  let ?w4 = "\<lambda>w. if \<not> (data ! 6 AND 0xF0 = 0 \<and> data ! 7 AND 0xF0 = 0)
    then MessageBox E (T ''Only mapper 0 is supported.'') NesDbg_title w else w"
  have "LoadRom_check E (map Some data @ rest) w =
      Inr ((ines_ok data, ucast (data ! 4), ucast (data ! 5)), ?w4 (?w3 (?w2 (?w1 w))))"
    unfolding LoadRom_check_def Let_def magic map0
    by (simp only: bnd_lift seq_ifp_act rd ret_apply) (simp add: rd ret_apply ines_ok_def not_less)
  then show ?thesis by (auto simp: ines_ok_def not_less)
qed

context ui_host begin

abbreviation "port \<equiv> \<lparr>m_hSerialComm = h\<rparr>"

text \<open>Sending one packet of a ROM load.\<close>

lemma send_cmd:
  assumes "carries p c" and "wf_cmd c" and "plain_cmd c" and "t_halted (tgt w)" and "reply_len c = 0"
  obtains w' where "SendPacket E port p w = Inr (True, w')" and "stk w' = stk w"
    and "tgt w' = snd (exec c (tgt w))" and "inq w' = inq w"
proof -
  have "fst (exec c (tgt w)) = []" using length_exec_reply[OF assms(2)] assms(5) by (metis length_0_conv)
  with send_ok[OF assms(1-4)] that show thesis by auto
qed

lemma block_done_ok:
  assumes "k + 0x400 \<le> tot" and "tot < 2 ^ 32" and "bar_range pb"
  obtains w' where "block_done E hDlg pb (of_nat tot) (of_nat k) w = Inr (of_nat (k + 0x400), w')"
    and "stk w' = stk w" and "inq w' = inq w" and "t_halted (tgt w) \<Longrightarrow> tgt w' = tgt w"
proof -
  let ?a = "of_nat (k + 0x400) :: uint" and ?b = "of_nat tot :: uint"
  have b: "unat ?b = tot" and a: "unat ?a = k + 0x400"
    using assms(1,2) by (simp_all add: unsigned_of_nat take_bit_nat_eq_self del: of_nat_add)
  have "?b \<noteq> 0" using b assms(1) by (metis add_is_0 le_zero_eq unat_0 zero_neq_numeral)
  moreover have "?a \<le> ?b" using a b assms(1) by (simp add: word_le_nat_alt del: of_nat_add)
  ultimately obtain q where q: "ratio E ?a ?b = Inr q" "0 \<le> q" "q \<le> 1"
    using ratio_bounds[OF rounding] by blast
  obtain pos where pos: "bar_pos E (iLow pb) (iHigh pb) q = Inr (of_int pos)"
    using bar_pos_bounds[OF rounding assms(3) q(2,3)] by blast
  let ?w' = "snd (SendDlgItemMessage E hDlg IDC_ROMLOAD_PROGRESS (PBM_SETPOS (of_int pos)) w)"
  have "of_nat k + of_nat transferBlockSize = ?a" by (simp add: transferBlockSize_def)
  then have "block_done E hDlg pb ?b (of_nat k) w = Inr (?a, ?w')"
    using q(1) pos by (simp add: block_done_def Let_def seq_call ret_apply del: of_nat_add)
  then show thesis using that quietD[OF quiet_ui(4)] by blast
qed

lemma carries_ctor_ex:
  "prg_cmd data i = CpuMemWr a ds \<Longrightarrow> carries (CpuMemWrPacket (map Some (encode (prg_cmd data i)))) (prg_cmd data i)"
  "chr_cmd data i = PpuMemWr a ds \<Longrightarrow> carries (PpuMemWrPacket (map Some (encode (chr_cmd data i)))) (chr_cmd data i)"
  using carries_ctors(4,5) by simp_all

lemma len16_block: "length ds = 0x400 \<Longrightarrow> len16 ds = of_nat transferBlockSize"
  by (simp add: len16_def transferBlockSize_def)

text \<open>One round of each of the two transfer loops, then the loops.\<close>

lemma prg_step:
  assumes "16 + 0x400 * Suc i \<le> length data" and "0x400 * Suc i \<le> tot" and "tot < 2 ^ 32"
    and "bar_range pb" and "t_halted (tgt w)"
  obtains w' where "\<And>n. load_prg E port hDlg pb (map Some data @ rest) (of_nat tot) i (Suc n) (of_nat (0x400 * i)) w =
      load_prg E port hDlg pb (map Some data @ rest) (of_nat tot) (i + 1) n (of_nat (0x400 * (i + 1))) w'"
    and "stk w' = stk w" and "tgt w' = snd (exec (prg_cmd data i) (tgt w))" and "inq w' = inq w" and "t_halted (tgt w')"
proof -
  let ?c = "prg_cmd data i" and ?ds = "rom_block data 16 i"
  have len: "length ?ds = 0x400" using assms(1) by (intro length_rom_block) simp
  have "at_off (map Some data @ rest) (16 + 0x400 * i) ?ds"
    using assms(1) unfolding rom_block_def by (intro at_off_block) simp
  then have ctor: "new_CpuMemWrPacket (of_nat (0x8000 + 0x400 * i)) (of_nat transferBlockSize)
      (map Some data @ rest) (16 + 0x400 * i) = Inr (CpuMemWrPacket (map Some (encode ?c)))"
    using new_CpuMemWrPacket_at[of "map Some data @ rest" "16 + 0x400 * i" ?ds] len len16_block[OF len]
    by (simp add: prg_cmd_def del: of_nat_add encode.simps)
  have wf: "wf_cmd ?c" "plain_cmd ?c" "reply_len ?c = 0" "\<And>t. t_halted (snd (exec ?c t)) = t_halted t"
    using len by (simp_all add: prg_cmd_def wf_cmd_def cpu_wr_frame)
  obtain w1 where w1: "SendPacket E port (CpuMemWrPacket (map Some (encode ?c))) w = Inr (True, w1)"
    "stk w1 = stk w" "tgt w1 = snd (exec ?c (tgt w))" "inq w1 = inq w"
    using send_cmd[OF carries_ctor_ex(1)[OF prg_cmd_def] wf(1,2) assms(5) wf(3)] by blast
  have h1: "t_halted (tgt w1)" using w1(3) wf(4) assms(5) by simp
  obtain w2 where w2: "block_done E hDlg pb (of_nat tot) (of_nat (0x400 * i)) w1 = Inr (of_nat (0x400 * (i + 1)), w2)"
    "stk w2 = stk w1" "inq w2 = inq w1" "tgt w2 = tgt w1"
    using block_done_ok[of "0x400 * i" tot pb hDlg w1] assms(2-4) h1 by (auto simp: algebra_simps)
  show thesis
    by (rule that[of w2])
      (use ctor w1 w2 h1 in \<open>simp_all add: transferBlockSize_def[symmetric] seq_Inr bnd_Inr Let_def
        del: of_nat_add of_nat_mult encode.simps\<close>)
qed

lemma chr_step:
  assumes "16 + prg_size data + 0x400 * Suc i \<le> length data" and "k + 0x400 \<le> tot" and "tot < 2 ^ 32"
    and "bar_range pb" and "t_halted (tgt w)"
  obtains w' where "\<And>n. load_chr E port hDlg pb (map Some data @ rest) (prg_size data) (of_nat tot) i (Suc n) (of_nat k) w =
      load_chr E port hDlg pb (map Some data @ rest) (prg_size data) (of_nat tot) (i + 1) n (of_nat (k + 0x400)) w'"
    and "stk w' = stk w" and "tgt w' = snd (exec (chr_cmd data i) (tgt w))" and "inq w' = inq w" and "t_halted (tgt w')"
proof -
  let ?c = "chr_cmd data i" and ?ds = "rom_block data (16 + prg_size data) i"
  have len: "length ?ds = 0x400" using assms(1) by (intro length_rom_block) simp
  have "at_off (map Some data @ rest) (16 + prg_size data + 0x400 * i) ?ds"
    using assms(1) unfolding rom_block_def by (intro at_off_block) simp
  then have ctor: "new_PpuMemWrPacket (of_nat (0x400 * i)) (of_nat transferBlockSize)
      (map Some data @ rest) (16 + prg_size data + 0x400 * i) = Inr (PpuMemWrPacket (map Some (encode ?c)))"
    using new_PpuMemWrPacket_at[of "map Some data @ rest" "16 + prg_size data + 0x400 * i" ?ds] len len16_block[OF len]
    by (simp add: chr_cmd_def del: of_nat_add of_nat_mult encode.simps)
  have wf: "wf_cmd ?c" "plain_cmd ?c" "reply_len ?c = 0" "\<And>t. t_halted (snd (exec ?c t)) = t_halted t"
    using len by (simp_all add: chr_cmd_def wf_cmd_def ppu_wr_frame)
  obtain w1 where w1: "SendPacket E port (PpuMemWrPacket (map Some (encode ?c))) w = Inr (True, w1)"
    "stk w1 = stk w" "tgt w1 = snd (exec ?c (tgt w))" "inq w1 = inq w"
    using send_cmd[OF carries_ctor_ex(2)[OF chr_cmd_def] wf(1,2) assms(5) wf(3)] by blast
  have h1: "t_halted (tgt w1)" using w1(3) wf(4) assms(5) by simp
  obtain w2 where w2: "block_done E hDlg pb (of_nat tot) (of_nat k) w1 = Inr (of_nat (k + 0x400), w2)"
    "stk w2 = stk w1" "inq w2 = inq w1" "tgt w2 = tgt w1"
    using block_done_ok[of k tot pb hDlg w1] assms(2-4) h1 by auto
  show thesis
    by (rule that[of w2])
      (use ctor w1 w2 h1 in \<open>simp_all add: transferBlockSize_def[symmetric] seq_Inr bnd_Inr Let_def
        del: of_nat_add of_nat_mult encode.simps\<close>)
qed

lemma load_prg_ok:
  assumes "16 + 0x400 * (i + n) \<le> length data" and "0x400 * (i + n) \<le> tot" and "tot < 2 ^ 32"
    and "bar_range pb" and "t_halted (tgt w)"
  shows "\<exists>w'. load_prg E port hDlg pb (map Some data @ rest) (of_nat tot) i n (of_nat (0x400 * i)) w =
      Inr (of_nat (0x400 * (i + n)), w') \<and>
    stk w' = stk w \<and> tgt w' = snd (exec_all (map (prg_cmd data) [i..<i + n]) (tgt w)) \<and> inq w' = inq w \<and>
    t_halted (tgt w')"
  using assms(1,2,5)
proof (induction n arbitrary: i w)
  case 0
  then show ?case by (simp add: ret_apply)
next
  case (Suc n)
  have le: "16 + 0x400 * Suc i \<le> length data" "0x400 * Suc i \<le> tot" using Suc.prems(1,2) by auto
  obtain w1 where w1: "\<And>n. load_prg E port hDlg pb (map Some data @ rest) (of_nat tot) i (Suc n) (of_nat (0x400 * i)) w =
      load_prg E port hDlg pb (map Some data @ rest) (of_nat tot) (i + 1) n (of_nat (0x400 * (i + 1))) w1"
    "stk w1 = stk w" "tgt w1 = snd (exec (prg_cmd data i) (tgt w))" "inq w1 = inq w" "t_halted (tgt w1)"
    by (rule prg_step[where hDlg=hDlg and rest=rest, OF le assms(3,4) Suc.prems(3)]) (rule that; assumption)
  have "[i..<i + Suc n] = i # [i + 1..<i + 1 + n]" by (simp add: upt_conv_Cons)
  then show ?case using Suc.IH[of "i + 1" w1] Suc.prems(1,2) w1
    by (auto simp: split_beta Let_def simp del: upt_Suc load_prg.simps)
qed

lemma load_chr_ok:
  assumes "16 + prg_size data + 0x400 * (i + n) \<le> length data" and "k + 0x400 * n \<le> tot" and "tot < 2 ^ 32"
    and "bar_range pb" and "t_halted (tgt w)"
  shows "\<exists>w'. load_chr E port hDlg pb (map Some data @ rest) (prg_size data) (of_nat tot) i n (of_nat k) w =
      Inr (of_nat (k + 0x400 * n), w') \<and>
    stk w' = stk w \<and> tgt w' = snd (exec_all (map (chr_cmd data) [i..<i + n]) (tgt w)) \<and> inq w' = inq w \<and>
    t_halted (tgt w')"
  using assms(1,2,5)
proof (induction n arbitrary: i k w)
  case 0
  then show ?case by (simp add: ret_apply)
next
  case (Suc n)
  have le: "16 + prg_size data + 0x400 * Suc i \<le> length data" "k + 0x400 \<le> tot" using Suc.prems(1,2) by auto
  obtain w1 where w1: "\<And>n. load_chr E port hDlg pb (map Some data @ rest) (prg_size data) (of_nat tot) i (Suc n) (of_nat k) w =
      load_chr E port hDlg pb (map Some data @ rest) (prg_size data) (of_nat tot) (i + 1) n (of_nat (k + 0x400)) w1"
    "stk w1 = stk w" "tgt w1 = snd (exec (chr_cmd data i) (tgt w))" "inq w1 = inq w" "t_halted (tgt w1)"
    by (rule chr_step[where hDlg=hDlg and rest=rest, OF le assms(3,4) Suc.prems(3)]) (rule that; assumption)
  have "[i..<i + Suc n] = i # [i + 1..<i + 1 + n]" by (simp add: upt_conv_Cons)
  moreover have step: "k + 0x400 + 0x400 * n = k + 0x400 * Suc n" by simp
  ultimately show ?case using Suc.IH[of "i + 1" "k + 0x400" w1, unfolded step] Suc.prems(1,2) w1
    by (auto simp: split_beta Let_def simp del: upt_Suc load_chr.simps of_nat_add of_nat_mult mult_Suc_right)
qed

text \<open>When the file is too short, the loop that reaches its end reads cells that were never written.\<close>

lemma short_cell: "length data \<le> off \<Longrightarrow> \<not> cell_ok (map Some data @ replicate r None) off"
  by (auto simp: cell_ok_def nth_append)

lemma new_PpuMemWrPacket_short:
  assumes "j < unat n" and "\<not> cell_ok src (off + j)"
  shows "\<exists>e. new_PpuMemWrPacket a n src off = Inl e \<and> bad_read e"
proof -
  let ?dst = "map Some (opcode OpPpuMemWr # bytes16 a @ bytes16 n) @ new_buf (unat n)"
  have "\<exists>e. copy_bytes ?dst 5 src off 0 (unat n) = Inl e \<and> bad_read e"
    using assms by (intro copy_bytes_short[of j]) (simp_all add: bytes16_def)
  then show ?thesis by (auto simp: new_PpuMemWrPacket_def buf_wr16_def bytes16_def)
qed

lemma load_prg_short:
  assumes "length data < 16 + 0x400 * (i + n)" and "0 < n" and "0x400 * (i + n) \<le> tot" and "tot < 2 ^ 32"
    and "bar_range pb" and "t_halted (tgt w)"
  shows "\<exists>e. load_prg E port hDlg pb (map Some data @ replicate r None) (of_nat tot) i n (of_nat (0x400 * i)) w = Inl e \<and>
    bad_read e"
  using assms(1-3,6)
proof (induction n arbitrary: i w)
  case (Suc n)
  show ?case
  proof (cases "16 + 0x400 * Suc i \<le> length data")
    case True
    have le: "0x400 * Suc i \<le> tot" and n: "0 < n" using Suc.prems True by (auto intro: Suc_leI)
    obtain w1 where w1: "\<And>n. load_prg E port hDlg pb (map Some data @ replicate r None) (of_nat tot) i (Suc n) (of_nat (0x400 * i)) w =
        load_prg E port hDlg pb (map Some data @ replicate r None) (of_nat tot) (i + 1) n (of_nat (0x400 * (i + 1))) w1"
      "t_halted (tgt w1)"
      by (rule prg_step[where hDlg=hDlg and rest="replicate r None", OF True le assms(4,5) Suc.prems(4)]) (rule that; assumption)
    show ?thesis using Suc.IH[of "i + 1" w1] Suc.prems n w1 by (simp del: load_prg.simps of_nat_add of_nat_mult)
  next
    case False
    then have "\<exists>e. new_CpuMemWrPacket (of_nat (0x8000 + 0x400 * i)) (of_nat transferBlockSize)
        (map Some data @ replicate r None) (16 + 0x400 * i) = Inl e \<and> bad_read e"
      by (intro new_CpuMemWrPacket_short[of "0x3FF"] short_cell) (simp_all add: transferBlockSize_def)
    then show ?thesis by (auto simp: transferBlockSize_def Let_def simp del: of_nat_add of_nat_mult)
  qed
qed simp

lemma load_chr_short:
  assumes "length data < 16 + prg_size data + 0x400 * (i + n)" and "0 < n" and "k + 0x400 * n \<le> tot" and "tot < 2 ^ 32"
    and "bar_range pb" and "t_halted (tgt w)"
  shows "\<exists>e. load_chr E port hDlg pb (map Some data @ replicate r None) (prg_size data) (of_nat tot) i n (of_nat k) w = Inl e \<and>
    bad_read e"
  using assms(1-3,6)
proof (induction n arbitrary: i k w)
  case (Suc n)
  show ?case
  proof (cases "16 + prg_size data + 0x400 * Suc i \<le> length data")
    case True
    have le: "k + 0x400 \<le> tot" and n: "0 < n" using Suc.prems True by (auto intro: Suc_leI)
    obtain w1 where w1: "\<And>n. load_chr E port hDlg pb (map Some data @ replicate r None) (prg_size data) (of_nat tot) i (Suc n) (of_nat k) w =
        load_chr E port hDlg pb (map Some data @ replicate r None) (prg_size data) (of_nat tot) (i + 1) n (of_nat (k + 0x400)) w1"
      "t_halted (tgt w1)"
      by (rule chr_step[where hDlg=hDlg and rest="replicate r None", OF True le assms(4,5) Suc.prems(4)]) (rule that; assumption)
    show ?thesis using Suc.IH[of "i + 1" "k + 0x400" w1] Suc.prems n w1 by (simp del: load_chr.simps of_nat_add of_nat_mult)
  next
    case False
    then have "\<exists>e. new_PpuMemWrPacket (of_nat (0x400 * i)) (of_nat transferBlockSize)
        (map Some data @ replicate r None) (16 + prg_size data + 0x400 * i) = Inl e \<and> bad_read e"
      by (intro new_PpuMemWrPacket_short[of "0x3FF"] short_cell) (simp_all add: transferBlockSize_def)
    then show ?thesis by (auto simp: transferBlockSize_def Let_def simp del: of_nat_add of_nat_mult)
  qed
qed simp

text \<open>Halt, disable the PPU, configure the cartridge.\<close>

lemma setup_ok:
  assumes "9 \<le> length data"
  obtains w0 w' where "LoadRom_setup E port (map Some data @ rest) w = Inr ((), w')"
    and "t_halted (tgt w0)"
    and "stk w' = stk w" and "tgt w' = snd (exec_all [PpuDisable, cfg_cmd data] (tgt w0))"
    and "inq w' = inq w" and "t_halted (tgt w')"
proof -
  obtain w0 where w0: "SendPacket E port (DbgHltPacket (map Some (encode DbgHlt))) w = Inr (True, w0)"
    "w0 = snd (WriteFile E h (encode DbgHlt) w)" "t_halted (tgt w0)" "inq w0 = inq w"
    by (rule SendPacket_halt[OF carries_ctors(9)])
  have s0: "stk w0 = stk w" by (simp only: w0(2) port_stk)
  obtain w1 where w1: "SendPacket E port (PpuDisablePacket (map Some (encode PpuDisable))) w0 = Inr (True, w1)"
    "stk w1 = stk w0" "tgt w1 = tgt w0" "inq w1 = inq w0"
    by (rule send_cmd[OF carries_ctors(11) _ _ w0(3)]) (auto simp: wf_cmd_def)
  have "take 5 (drop 4 data) = [data ! 4, data ! 5, data ! 6, data ! 7, data ! 8]"
    using assms by (auto simp: list_eq_iff_nth_eq nth_Cons numeral_eq_Suc less_Suc_eq split: nat.split)
  then have "at_off (map Some data @ rest) 4 [data ! 4, data ! 5, data ! 6, data ! 7, data ! 8]"
    using at_off_block[of 4 5 data rest] assms by simp
  note ctor = new_CartSetCfgPacket_at[OF this]
  obtain w2 where w2: "SendPacket E port (CartSetCfgPacket (map Some (encode (cfg_cmd data)))) w1 = Inr (True, w2)"
    "stk w2 = stk w1" "tgt w2 = snd (exec (cfg_cmd data) (tgt w1))" "inq w2 = inq w1"
    using carries_ctors(12) w0(3) w1(3) unfolding cfg_cmd_def
    by (elim send_cmd[rotated 5]) (auto simp: wf_cmd_def)
  have "LoadRom_setup E port (map Some data @ rest) w = Inr ((), w2)"
    using w0(1) w1(1) w2(1) ctor
    by (simp add: LoadRom_setup_def new_simple_packets seq_Inr bnd_Inr ret_apply cfg_cmd_def del: encode.simps)
  moreover have "t_halted (tgt w2)" using w0(3) w1(3) w2(3) by (simp add: cfg_cmd_def)
  ultimately show thesis using that[of w2 w0] w0 s0 w1 w2 by (simp add: Let_def split_beta)
qed

text \<open>Set the program counter and run. The world \<open>w'\<close> is the one right after DBG_RUN.\<close>

lemma start_ok:
  assumes "16 + prg_size data \<le> length data" and "t_halted (tgt w)"
  obtains w' where "LoadRom_start E port (map Some data @ rest) (prg_size data) w = Inr ((), w')"
    and "stk w' = stk w" and "inq w' = inq w"
    and "tgt w' = snd (exec_all [CpuRegWr 0 (pcl_of data), CpuRegWr 1 (pch_of data), DbgRun] (tgt w))"
proof -
  have rd: "buf_rd (map Some data @ rest) (16 + prg_size data - 4) = Inr (pcl_of data)"
    "buf_rd (map Some data @ rest) (16 + prg_size data - 3) = Inr (pch_of data)"
    using assms(1) by (simp_all add: buf_rd_def nth_append pcl_of_def pch_of_def)
  have c: "carries (CpuRegWrPacket (map Some (encode (CpuRegWr r v)))) (CpuRegWr r v)" for r v
    by (rule carries_ctors(7))
  obtain w1 where w1: "SendPacket E port (CpuRegWrPacket (map Some (encode (CpuRegWr 0 (pcl_of data))))) w = Inr (True, w1)"
    "stk w1 = stk w" "tgt w1 = snd (exec (CpuRegWr 0 (pcl_of data)) (tgt w))" "inq w1 = inq w"
    by (rule send_cmd[OF c[of 0] _ _ assms(2)]) (auto simp: wf_cmd_def simp del: encode.simps)
  have h1: "t_halted (tgt w1)" using w1(3) assms(2) by simp
  obtain w2 where w2: "SendPacket E port (CpuRegWrPacket (map Some (encode (CpuRegWr 1 (pch_of data))))) w1 = Inr (True, w2)"
    "stk w2 = stk w1" "tgt w2 = snd (exec (CpuRegWr 1 (pch_of data)) (tgt w1))" "inq w2 = inq w1"
    by (rule send_cmd[OF c[of 1] _ _ h1]) (auto simp: wf_cmd_def simp del: encode.simps)
  have h2: "t_halted (tgt w2)" using w2(3) h1 by simp
  obtain w3 where w3: "SendPacket E port (DbgRunPacket (map Some (encode DbgRun))) w2 = Inr (True, w3)"
    "stk w3 = stk w2" "tgt w3 = snd (exec DbgRun (tgt w2))" "inq w3 = inq w2"
    by (rule send_cmd[OF carries_ctors(10) _ _ h2]) (auto simp: wf_cmd_def)
  have "LoadRom_start E port (map Some data @ rest) (prg_size data) w = Inr ((), w3)"
    using rd w1(1) w2(1) w3(1)
    by (simp add: LoadRom_start_def packet_ctors seq_Inr bnd_Inr ret_apply del: encode.simps)
  then show thesis using that w1 w2 w3 by (simp add: Let_def split_beta)
qed

text \<open>The sizes as the code computes them from the header bytes.\<close>

lemma code_sizes:
  "unat (ucast (data ! 4) :: uint) * 0x4000 = prg_size data"
  "unat (ucast (data ! 5) :: uint) * 0x2000 = chr_size data"
  by (simp_all add: prg_size_def chr_size_def unsigned_ucast_eq take_bit_nat_eq_self order.strict_trans[OF unat_byte])

lemma transfer_ok:
  assumes ok: "ines_ok data" and full: "ines_complete data" and len: "9 \<le> length data" and g: "connected g"
  obtains w0 hDlg w1 where
    "LoadRom_transfer E g d (map Some data @ rest) (ucast (data ! 4)) (ucast (data ! 5)) w =
       Inr ((), DestroyWindow E hDlg w1)"
    and "t_halted (tgt w0)" and "tgt w1 = rom_target data (tgt w0)" and "stk w1 = stk w" and "inq w1 = inq w"
proof -
  let ?buf = "map Some data @ rest" and ?tot = "prg_size data + chr_size data"
  let ?hDlg = "fst (CreateDialog E (T ''RomLoadProgressDlg'') (m_hWnd d) w)"
  let ?wa = "snd (CreateDialog E (T ''RomLoadProgressDlg'') (m_hWnd d) w)"
  let ?pb = "fst (SendDlgItemMessage E ?hDlg IDC_ROMLOAD_PROGRESS PBM_GETRANGE ?wa)"
  let ?wb = "snd (SendDlgItemMessage E ?hDlg IDC_ROMLOAD_PROGRESS PBM_GETRANGE ?wa)"
  have b: "stk ?wb = stk w" "inq ?wb = inq w"
    using quietD(1,2)[OF quiet_ui(4)] quietD(1,2)[OF quiet_ui(3)] by metis+
  note bounds = sizes[OF ok]
  have tot: "?tot < 2 ^ 32" using bounds(1,2) by simp
  obtain w0 wc where c: "LoadRom_setup E port ?buf ?wb = Inr ((), wc)" "t_halted (tgt w0)" "stk wc = stk ?wb"
    "tgt wc = snd (exec_all [PpuDisable, cfg_cmd data] (tgt w0))" "inq wc = inq ?wb" "t_halted (tgt wc)"
    by (rule setup_ok[OF len])
  obtain wd where dd: "load_prg E port ?hDlg ?pb ?buf (of_nat ?tot) 0 (prg_size data div 0x400) 0 wc =
      Inr (of_nat (prg_size data), wd)" "stk wd = stk wc"
    "tgt wd = snd (exec_all (map (prg_cmd data) [0..<prg_size data div 0x400]) (tgt wc))" "inq wd = inq wc"
    "t_halted (tgt wd)"
    using load_prg_ok[of 0 "prg_size data div 0x400" data ?tot ?pb wc ?hDlg rest] full tot bounds(3) range c(6)
    by (auto simp: ines_complete_def)
  obtain we where e: "load_chr E port ?hDlg ?pb ?buf (prg_size data) (of_nat ?tot) 0 (chr_size data div 0x400)
      (of_nat (prg_size data)) wd = Inr (of_nat ?tot, we)" "stk we = stk wd"
    "tgt we = snd (exec_all (map (chr_cmd data) [0..<chr_size data div 0x400]) (tgt wd))" "inq we = inq wd"
    "t_halted (tgt we)"
    using load_chr_ok[of data 0 "chr_size data div 0x400" "prg_size data" ?tot ?pb wd ?hDlg rest] full tot bounds(4) range dd(5)
    by (auto simp: ines_complete_def)
  obtain wf where f: "LoadRom_start E port ?buf (prg_size data) we = Inr ((), wf)" "stk wf = stk we" "inq wf = inq we"
    "tgt wf = snd (exec_all [CpuRegWr 0 (pcl_of data), CpuRegWr 1 (pch_of data), DbgRun] (tgt we))"
    using start_ok[of data we rest] full e(5) by (auto simp: ines_complete_def)
  have "LoadRom_transfer E g d ?buf (ucast (data ! 4)) (ucast (data ! 5)) w = Inr ((), DestroyWindow E ?hDlg wf)"
    using g c(1) dd(1) e(1) f(1)
    by (simp add: LoadRom_transfer_def bnd_call connected_def code_sizes seq_Inr bnd_Inr Let_def transferBlockSize_def act_apply
        del: of_nat_add)
  moreover have "tgt wf = rom_target data (tgt w0)"
    by (simp only: f(4) e(3) dd(3) c(4) rom_target_def exec_all_append)
  ultimately show thesis using that c(2) b f(2,3) e(2,4) dd(2,4) c(3,5) by simp
qed

lemma transfer_short:
  assumes ok: "ines_ok data" and short: "length data < 16 + prg_size data + chr_size data"
    and len: "16 \<le> length data" and g: "connected g"
  shows "\<exists>e. LoadRom_transfer E g d (map Some data @ replicate r None) (ucast (data ! 4)) (ucast (data ! 5)) w = Inl e \<and>
    bad_read e"
proof -
  let ?buf = "map Some data @ replicate r None" and ?tot = "prg_size data + chr_size data"
  let ?hDlg = "fst (CreateDialog E (T ''RomLoadProgressDlg'') (m_hWnd d) w)"
  let ?wa = "snd (CreateDialog E (T ''RomLoadProgressDlg'') (m_hWnd d) w)"
  let ?pb = "fst (SendDlgItemMessage E ?hDlg IDC_ROMLOAD_PROGRESS PBM_GETRANGE ?wa)"
  let ?wb = "snd (SendDlgItemMessage E ?hDlg IDC_ROMLOAD_PROGRESS PBM_GETRANGE ?wa)"
  note bounds = sizes[OF ok]
  have tot: "?tot < 2 ^ 32" using bounds(1,2) by simp
  have "9 \<le> length data" using len by simp
  then obtain wc where c: "LoadRom_setup E port ?buf ?wb = Inr ((), wc)" "t_halted (tgt wc)"
    by (rule setup_ok)
  have eq: "LoadRom_transfer E g d ?buf (ucast (data ! 4)) (ucast (data ! 5)) w =
      bnd (load_prg E port ?hDlg ?pb ?buf (of_nat ?tot) 0 (prg_size data div 0x400) 0) (\<lambda>k.
      bnd (load_chr E port ?hDlg ?pb ?buf (prg_size data) (of_nat ?tot) 0 (chr_size data div 0x400) k) (\<lambda>_.
      seq (LoadRom_start E port ?buf (prg_size data)) (act (DestroyWindow E ?hDlg)))) wc"
    using g c(1) by (simp add: LoadRom_transfer_def bnd_call connected_def code_sizes seq_Inr Let_def
        transferBlockSize_def del: of_nat_add)
  show ?thesis
  proof (cases "16 + prg_size data \<le> length data")
    case False
    then have "length data < 16 + 0x400 * (0 + prg_size data div 0x400)" and "0 < prg_size data div 0x400"
      using bounds(3) len short by (auto simp: prg_size_def)
    then have "\<exists>e. load_prg E port ?hDlg ?pb ?buf (of_nat ?tot) 0 (prg_size data div 0x400) (of_nat (0x400 * 0)) wc =
        Inl e \<and> bad_read e"
      using tot bounds(3) range c(2) by (intro load_prg_short) auto
    then show ?thesis by (auto simp: eq bnd_def)
  next
    case True
    obtain wd where dd: "load_prg E port ?hDlg ?pb ?buf (of_nat ?tot) 0 (prg_size data div 0x400) 0 wc =
        Inr (of_nat (prg_size data), wd)" "t_halted (tgt wd)"
      using load_prg_ok[of 0 "prg_size data div 0x400" data ?tot ?pb wc ?hDlg "replicate r None"] True tot bounds(3) range c(2)
      by auto
    have "\<exists>e. load_chr E port ?hDlg ?pb ?buf (prg_size data) (of_nat ?tot) 0 (chr_size data div 0x400)
        (of_nat (prg_size data)) wd = Inl e \<and> bad_read e"
      using True short tot bounds(4) range dd(2) by (intro load_chr_short) auto
    then show ?thesis using dd(1) by (auto simp: eq bnd_def)
  qed
qed

lemma LoadRom_until_check:
  assumes "file_picked E path hf data" and "hf \<noteq> h"
  obtains w1 where
    "LoadRom E g d w =
       bnd (LoadRom_check E (map Some data @ drop (length data) (new_buf FileDataBufferSize)))
         (\<lambda>(success, prgRomBanks, chrRomBanks).
          seq (ifp success (LoadRom_transfer E g d (map Some data @ drop (length data) (new_buf FileDataBufferSize))
              prgRomBanks chrRomBanks))
          (ifp (hf \<noteq> INVALID_HANDLE_VALUE) (act (CloseHandle E hf)))) w1"
    and "stk w1 = stk w" and "inq w1 = inq w" and "t_halted (tgt w) \<longrightarrow> tgt w1 = tgt w"
proof -
  note f = assms(1)[unfolded file_picked_def]
  let ?wa = "snd (GetOpenFileName E 2048 w)"
  let ?wb = "snd (CreateFile E path GENERIC_READ ?wa)"
  let ?wc = "snd (ReadFile E hf (of_nat FileDataBufferSize) ?wb)"
  note qa = quiet_ui(2)[of 2048, THEN quietD(1)] quiet_ui(2)[of 2048, THEN quietD(2)] quiet_ui(2)[of 2048, THEN quietD(3)]
  note qb = quiet_file(1)[of path GENERIC_READ, THEN quietD(1)] quiet_file(1)[of path GENERIC_READ, THEN quietD(2)]
    quiet_file(1)[of path GENERIC_READ, THEN quietD(3)]
  note qc = quiet_file(2)[OF assms(2), of "of_nat FileDataBufferSize", THEN quietD(1)]
    quiet_file(2)[OF assms(2), of "of_nat FileDataBufferSize", THEN quietD(2)]
    quiet_file(2)[OF assms(2), of "of_nat FileDataBufferSize", THEN quietD(3)]
  have "LoadRom E g d w =
       bnd (LoadRom_check E (map Some data @ drop (length data) (new_buf FileDataBufferSize)))
         (\<lambda>(success, prgRomBanks, chrRomBanks).
          seq (ifp success (LoadRom_transfer E g d (map Some data @ drop (length data) (new_buf FileDataBufferSize))
              prgRomBanks chrRomBanks))
          (ifp (hf \<noteq> INVALID_HANDLE_VALUE) (act (CloseHandle E hf)))) ?wc"
    using f by (simp add: LoadRom_def LoadRom_pick_def LoadRom_open_def LoadRom_read_def bnd_call bnd_assoc
        buf_fill_def seq_bnd split_beta)
  with that qa qb qc show thesis by simp
qed

lemma LoadRom_ok:
  assumes f: "file_picked E path hf data" "hf \<noteq> h" and g: "connected g"
    and ok: "ines_ok data" "ines_complete data"
  shows "\<exists>hDlg w1. LoadRom E g d w = Inr ((), CloseHandle E hf (DestroyWindow E hDlg w1)) \<and>
    rom_loaded data (tgt w1) \<and> stk w1 = stk w \<and> inq w1 = inq w"
proof -
  let ?rest = "drop (length data) (new_buf FileDataBufferSize)"
  have len: "9 \<le> length data" "8 \<le> length data" using ok(2) by (simp_all add: ines_complete_def)
  obtain wa where a: "LoadRom E g d w = bnd (LoadRom_check E (map Some data @ ?rest))
      (\<lambda>(success, prgRomBanks, chrRomBanks).
        seq (ifp success (LoadRom_transfer E g d (map Some data @ ?rest) prgRomBanks chrRomBanks))
        (ifp (hf \<noteq> INVALID_HANDLE_VALUE) (act (CloseHandle E hf)))) wa"
    and q: "stk wa = stk w" "inq wa = inq w"
    by (rule LoadRom_until_check[OF f, of g d w])
  have c: "LoadRom_check E (map Some data @ ?rest) wa = Inr ((True, ucast (data ! 4), ucast (data ! 5)), wa)"
    using LoadRom_check_eq[OF len(2), of E ?rest wa] ok(1) by auto
  obtain w0 hDlg w1 where t: "LoadRom_transfer E g d (map Some data @ ?rest) (ucast (data ! 4)) (ucast (data ! 5)) wa =
       Inr ((), DestroyWindow E hDlg w1)" "tgt w1 = rom_target data (tgt w0)" "stk w1 = stk wa" "inq w1 = inq wa"
    by (rule transfer_ok[OF ok len(1) g])
  have "LoadRom E g d w = Inr ((), CloseHandle E hf (DestroyWindow E hDlg w1))"
    using f(1) t(1) by (simp add: a bnd_def c seq_Inr act_apply file_picked_def)
  then show ?thesis using t q rom_target_loaded[OF ok]
    by (intro exI[of _ hDlg] exI[of _ w1]) simp
qed

lemma LoadRom_rejected:
  assumes f: "file_picked E path hf data" "hf \<noteq> h" and len: "8 \<le> length data" and bad: "\<not> ines_ok data"
  shows "\<exists>w'. LoadRom E g d w = Inr ((), w') \<and> stk w' = stk w \<and> inq w' = inq w \<and>
    (t_halted (tgt w) \<longrightarrow> tgt w' = tgt w)"
proof -
  let ?rest = "drop (length data) (new_buf FileDataBufferSize)"
  obtain wa where a: "LoadRom E g d w = bnd (LoadRom_check E (map Some data @ ?rest))
      (\<lambda>(success, prgRomBanks, chrRomBanks).
        seq (ifp success (LoadRom_transfer E g d (map Some data @ ?rest) prgRomBanks chrRomBanks))
        (ifp (hf \<noteq> INVALID_HANDLE_VALUE) (act (CloseHandle E hf)))) wa"
    and q: "stk wa = stk w" "inq wa = inq w" "t_halted (tgt w) \<longrightarrow> tgt wa = tgt w"
    by (rule LoadRom_until_check[OF f, of g d w])
  let ?obs = "\<lambda>w'. (stk w' = stk w \<and> inq w' = inq w \<and> (t_halted (tgt w) \<longrightarrow> tgt w' = tgt w))"
  obtain wb where c: "LoadRom_check E (map Some data @ ?rest) wa = Inr ((False, ucast (data ! 4), ucast (data ! 5)), wb)"
    and m: "\<And>P. P wa \<Longrightarrow> (\<And>txt w. P w \<Longrightarrow> P (MessageBox E txt NesDbg_title w)) \<Longrightarrow> P wb"
    using LoadRom_check_eq[OF len, of E ?rest wa] bad by auto
  have "?obs wb"
  proof (rule m)
    show "?obs wa" using q by simp
    show "?obs (MessageBox E s NesDbg_title v)" if "?obs v" for s v
      using that quietD[OF quiet_ui(1)[of s NesDbg_title], of v] by auto
  qed
  have "LoadRom E g d w = Inr ((), CloseHandle E hf wb)"
    using f(1) by (simp add: a bnd_def c act_apply file_picked_def)
  moreover have "?obs (CloseHandle E hf wb)"
    using \<open>?obs wb\<close> quietD[OF quiet_file(3)[OF f(2)], of wb] by auto
  ultimately show ?thesis by blast
qed

lemma LoadRom_short:
  assumes f: "file_picked E path hf data" "hf \<noteq> h" and g: "connected g"
    and ok: "ines_ok data" and short: "length data < 16 + prg_size data + chr_size data"
    and len: "16 \<le> length data"
  shows "\<exists>e. LoadRom E g d w = Inl e \<and> bad_read e"
proof -
  let ?rest = "drop (length data) (new_buf FileDataBufferSize)"
  obtain wa where a: "LoadRom E g d w = bnd (LoadRom_check E (map Some data @ ?rest))
      (\<lambda>(success, prgRomBanks, chrRomBanks).
        seq (ifp success (LoadRom_transfer E g d (map Some data @ ?rest) prgRomBanks chrRomBanks))
        (ifp (hf \<noteq> INVALID_HANDLE_VALUE) (act (CloseHandle E hf)))) wa"
    by (rule LoadRom_until_check[OF f, of g d w])
  have c: "LoadRom_check E (map Some data @ ?rest) wa = Inr ((True, ucast (data ! 4), ucast (data ! 5)), wa)"
    using LoadRom_check_eq[of data E ?rest wa] len ok by auto
  have "?rest = replicate (FileDataBufferSize - length data) None" by (simp only: new_buf_def drop_replicate)
  then obtain e where "LoadRom_transfer E g d (map Some data @ ?rest) (ucast (data ! 4)) (ucast (data ! 5)) wa = Inl e"
    "bad_read e"
    using transfer_short[OF ok short len g] by metis
  then show ?thesis by (simp add: a bnd_def c seq_Inl)
qed

end

end
