(* ===== verification/App_Main.thy ===== *)
theory App_Main
  imports Nes_Dbg
begin

text \<open>
  \<^verbatim>\<open>sw/src/main.cpp\<close>: the window procedure and the program's entry point. \<^verbatim>\<open>g_pNesDbg\<close> is an
  argument of the window procedure and a local of \<open>WinMain\<close>, which owns it. The message loop may
  run for ever; \<open>None\<close> is a loop that is not left within \<open>fuel\<close> messages.
\<close>

definition WndProc :: "'w env \<Rightarrow> NesDbg option \<Rightarrow> uint \<Rightarrow> win_msg \<Rightarrow> ('w, int) prog" where
  "WndProc E g hWnd msg =
     (case msg of
        WM_COMMAND wp \<Rightarrow>
          bnd (if LOWORD wp = IDM_FILE_EXIT then act (PostMessage E hWnd WM_CLOSE)
               else if LOWORD wp = IDM_FILE_LOADROM then
                 (case g of None \<Rightarrow> throw NullDeref | Some d \<Rightarrow> LoadRom E g d)
               else if LOWORD wp = IDM_TOOLS_RAWDEBUG then
                 (case g of None \<Rightarrow> throw NullDeref | Some d \<Rightarrow> LaunchRawDbgDlg E d)
               else if LOWORD wp = IDM_TOOLS_TESTSCRIPTS then
                 (case g of None \<Rightarrow> throw NullDeref | Some d \<Rightarrow> LaunchTestScriptDlg E d)
               else ret ()) (\<lambda>_. ret 0)
      | WM_DESTROY \<Rightarrow> seq (act (PostQuitMessage E 0)) (ret 0)
      | _ \<Rightarrow> call (DefWindowProc E hWnd msg))"

definition WndClassName :: tstring where "WndClassName = T ''nesdbg''"
definition WndTitle :: tstring where "WndTitle = T ''FPGA NES Debugger''"

fun message_loop :: "'w env \<Rightarrow> nat \<Rightarrow> 'w \<Rightarrow> (fault + MSG \<times> 'w) option" where
  "message_loop E 0 w = None"
| "message_loop E (Suc fuel) w =
     (case GetMessage E w of ((got, msg), w) \<Rightarrow>
        if \<not> got then Some (Inr (msg, w))
        else (case seq (act (TranslateMessage E msg)) (DispatchMessage E msg) w of
                Inl e \<Rightarrow> Some (Inl e)
              | Inr (_, w) \<Rightarrow> message_loop E fuel w))"

text \<open>Registration of the class, creation of the window and of the application object.\<close>

definition WinMain_window :: "'w env \<Rightarrow> ('w, bool \<times> uint) prog" where
  "WinMain_window E =
     bnd (call (RegisterClassEx E WndClassName)) (\<lambda>ok.
     if \<not> ok then seq (act (MessageBox E (T ''RegisterClassEx failed.'') WndTitle)) (ret (False, 0))
     else
       bnd (call (CreateWindow E WndClassName WndTitle)) (\<lambda>hWnd.
       if hWnd = 0 then seq (act (MessageBox E (T ''CreateWindow failed.'') WndTitle)) (ret (False, hWnd))
       else ret (True, hWnd)))"

definition WinMain_app :: "'w env \<Rightarrow> ScriptMgr \<Rightarrow> uint \<Rightarrow> ('w, bool \<times> uint \<times> NesDbg option) prog" where
  "WinMain_app E sm hInstance =
     bnd (WinMain_window E) (\<lambda>(success, hWnd).
     if success then
       bnd (NesDbg_Init E sm (new_NesDbg hInstance hWnd)) (\<lambda>(ok, d). ret (ok, hWnd, Some d))
     else ret (False, hWnd, None))"

definition WinMain_exit :: "'w env \<Rightarrow> NesDbg option \<Rightarrow> int \<Rightarrow> ('w, int) prog" where
  "WinMain_exit E g r = seq (case g of None \<Rightarrow> ret () | Some d \<Rightarrow> delete_NesDbg E d) (ret r)"

definition WinMain :: "'w env \<Rightarrow> ScriptMgr \<Rightarrow> uint \<Rightarrow> int \<Rightarrow> nat \<Rightarrow> 'w \<Rightarrow> (fault + int \<times> 'w) option" where
  "WinMain E sm hInstance cmdShow fuel w =
     (case WinMain_app E sm hInstance w of
        Inl e \<Rightarrow> Some (Inl e)
      | Inr ((success, hWnd, g), w) \<Rightarrow>
          if success then
            (case message_loop E fuel (UpdateWindow E hWnd (ShowWindow E hWnd cmdShow w)) of
               None \<Rightarrow> None
             | Some (Inl e) \<Rightarrow> Some (Inl e)
             | Some (Inr (msg, w)) \<Rightarrow> Some (WinMain_exit E g (sint (wParam msg)) w))
          else Some (WinMain_exit E g 0 w))"

end
