(* ===== verification/Host_Specs.thy ===== *)
theory Host_Specs
  imports Rom_Host App_Main
begin

text \<open>
  The remaining operations of the host program under the contracts of theory \<open>Link\<close>: the
  connection test of \<open>SerialComm::Init\<close>, the raw debug dialog, printing and loading assembled
  programs from scripts, the script dialog's tally, and the objects' life cycle.
\<close>

section \<open>The connection test\<close>

text \<open>The outcome of the comparison, by the bytes that arrived in the four-byte array.\<close>

lemma strcmp_init:
  assumes "length bs \<le> 4"
  shows "strcmp_differs initString (map Some bs @ drop (length bs) (new_buf 4)) 0 =
    (if bs = initString then Inr False
     else if bs = take (length bs) initString then Inl UninitRead else Inr True)"
proof -
  consider "bs = []" | a where "bs = [a]" | a b where "bs = [a, b]" | a b c where "bs = [a, b, c]"
    | a b c d where "bs = [a, b, c, d]"
    using assms by (cases bs; cases "tl bs"; cases "tl (tl bs)"; cases "tl (tl (tl bs))") auto
  then show ?thesis by cases (auto simp: initString_def)
qed

text \<open>What the test does to the world, up to the comparison.\<close>

definition ask_echo :: "'w env \<Rightarrow> uint \<Rightarrow> 'w \<Rightarrow> (bool \<times> byte list) \<times> 'w" where
  "ask_echo E h w = ReadFile E h 4 (snd (WriteFile E h (encode (Echo initString)) (Sleep E 200 w)))"

lemma handshake_eq:
  assumes "\<not> debug_build E" and "length (snd (fst (ask_echo E h w))) \<le> 4"
  shows "Init_handshake E \<lparr>m_hSerialComm = h\<rparr> w =
    (let bs = snd (fst (ask_echo E h w)); w' = snd (ask_echo E h w) in
     if bs = initString then Inr (True, w')
     else if bs = take (length bs) initString then Inl UninitRead
     else Inr (False, MessageBox E (T ''NES FPGA not connected.'') NesDbg_title w'))"
proof -
  let ?c = "Echo initString" and ?p = "EchoPacket (map Some (encode (Echo initString)))"
  let ?bs = "snd (fst (ask_echo E h w))"
  have wf: "wf_cmd ?c" by (simp add: wf_cmd_def initString_def)
  have car: "carries ?p ?c" by (simp add: carries_def)
  have new: "new_EchoPacket (map Some initString) 0 (of_nat (length initString)) = Inr ?p"
    using new_EchoPacket_at[of "map Some initString" 0 initString, OF at_off_map_Some] by (simp add: initString_def len16_def)
  have rep: "ReturnBytesExpected ?p = Inr 4"
    using carries_ReturnBytesExpected[OF car wf] by (simp add: initString_def)
  have size: "SizeInBytes ?p = Inr 7" and data: "PacketData ?p = map Some (encode ?c)"
    using carries_SizeInBytes[OF car wf] by (simp_all add: initString_def bytes16_def)
  have nodbg: "assert_exp E b = ret ()" for b using assms(1) by (simp add: assert_exp_def)
  have len7: "length (encode ?c) = 7" by (simp add: initString_def)
  have slice: "buf_slice (map Some (encode ?c)) 0 7 = Inr (encode ?c)"
    using buf_slice_all[of 7 "encode ?c"] len7 by simp
  have sent: "\<exists>r. SendPacket E \<lparr>m_hSerialComm = h\<rparr> ?p v = Inr (r, snd (WriteFile E h (encode ?c) v))" for v
    by (simp add: SendPacket_def SendData_def size data slice bnd_lift bnd_call nodbg ret_apply split_beta
        del: encode.simps PacketData.simps SizeInBytes.simps)
  obtain r where s: "SendPacket E \<lparr>m_hSerialComm = h\<rparr> ?p (Sleep E 200 w) =
      Inr (r, snd (WriteFile E h (encode ?c) (Sleep E 200 w)))" using sent by blast
  obtain r' where rcv: "ReceiveData E \<lparr>m_hSerialComm = h\<rparr> (new_buf 4) 4
      (snd (WriteFile E h (encode ?c) (Sleep E 200 w))) =
      Inr ((r', map Some ?bs @ drop (length ?bs) (new_buf 4)), snd (ask_echo E h w))"
    using assms(2)
    by (auto simp: ReceiveData_def bnd_call buf_fill_def nodbg ret_apply ask_echo_def split_beta
        simp del: encode.simps new_buf_eval)
  show ?thesis
    using s rcv strcmp_init[OF assms(2)]
    by (simp add: Init_handshake_def new rep seq_Inr bnd_Inr ret_apply Let_def
        del: encode.simps new_buf_eval ReturnBytesExpected.simps)
qed


section \<open>The raw debug dialog\<close>

context ui_host begin

text \<open>What is typed in is read, quietly.\<close>

lemma RawDbg_input_ok:
  assumes typed: "\<And>w. lresult (fst (SendDlgItemMessage E hDlg IDC_RAWDBG_IN WM_GETTEXTLENGTH w)) = of_nat (length s)"
      "\<And>n w. r_text (fst (SendDlgItemMessage E hDlg IDC_RAWDBG_IN (WM_GETTEXT n) w)) = s"
    and len: "length s < 2 ^ 32"
  obtains w' where "RawDbg_input E hDlg w = Inr (s, w')" and "stk w' = stk w" and "inq w' = inq w"
    and "t_halted (tgt w) \<Longrightarrow> tgt w' = tgt w"
proof -
  let ?w1 = "snd (SendDlgItemMessage E hDlg IDC_RAWDBG_IN WM_GETTEXTLENGTH w)"
  let ?w2 = "snd (SendDlgItemMessage E hDlg IDC_RAWDBG_IN (WM_GETTEXT (of_nat (length s) + 1)) ?w1)"
  have "unat (of_nat (length s) :: uint) = length s"
    using len by (simp add: unsigned_of_nat take_bit_nat_eq_self)
  then have input: "RawDbg_input E hDlg w = Inr (s, ?w2)"
    by (simp add: RawDbg_input_def bnd_call typed Let_def ret_apply)
  show thesis using quietD[OF quiet_ui(4)] by (intro that[OF input]) metis+
qed

text \<open>A text the parser rejects is answered with a message box, one it faults on ends the program.\<close>

lemma RawDbg_send_bad:
  assumes typed: "\<And>w. lresult (fst (SendDlgItemMessage E hDlg IDC_RAWDBG_IN WM_GETTEXTLENGTH w)) = of_nat (length s)"
      "\<And>n w. r_text (fst (SendDlgItemMessage E hDlg IDC_RAWDBG_IN (WM_GETTEXT n) w)) = s"
    and len: "length s < 2 ^ 32"
  shows "CreateObjFromString s = Inr None \<Longrightarrow>
      \<exists>w'. RawDbg_send E g hDlg w = Inr ((), MessageBox E (T ''Invalid data.'') NesDbg_title w') \<and>
        stk w' = stk w \<and> inq w' = inq w \<and> (t_halted (tgt w) \<longrightarrow> tgt w' = tgt w)"
    and "CreateObjFromString s = Inl e \<Longrightarrow> RawDbg_send E g hDlg w = Inl e"
proof -
  obtain w' where w': "RawDbg_input E hDlg w = Inr (s, w')" "stk w' = stk w" "inq w' = inq w"
    "t_halted (tgt w) \<Longrightarrow> tgt w' = tgt w"
    by (rule RawDbg_input_ok[OF assms]) (rule that; assumption)
  note eval = RawDbg_send_def bnd_Inr[where m = "RawDbg_input E hDlg", OF w'(1)] bnd_lift
  show "\<exists>w'. RawDbg_send E g hDlg w = Inr ((), MessageBox E (T ''Invalid data.'') NesDbg_title w') \<and>
        stk w' = stk w \<and> inq w' = inq w \<and> (t_halted (tgt w) \<longrightarrow> tgt w' = tgt w)"
    if "CreateObjFromString s = Inr None" using w' that by (auto simp: eval prog_simps)
  show "RawDbg_send E g hDlg w = Inl e" if "CreateObjFromString s = Inl e"
    using that by (simp add: eval)
qed

lemma RawDbg_send_ok:
  assumes typed: "\<And>w. lresult (fst (SendDlgItemMessage E hDlg IDC_RAWDBG_IN WM_GETTEXTLENGTH w)) = of_nat (length s)"
      "\<And>n w. r_text (fst (SendDlgItemMessage E hDlg IDC_RAWDBG_IN (WM_GETTEXT n) w)) = s"
    and len: "length s < 2 ^ 32"
    and packet: "CreateObjFromString s = Inr (Some p)" "carries p c" "wf_cmd c" "plain_cmd c"
    and st: "t_halted (tgt w)" "inq w = []" and g: "connected g"
  shows "\<exists>w'. RawDbg_send E g hDlg w =
      Inr ((), snd (SendDlgItemMessage E hDlg IDC_RAWDBG_IN (WM_SETTEXT [])
                 (snd (SendDlgItemMessage E hDlg IDC_RAWDBG_OUT (WM_SETTEXT (hex_dump (fst (exec c (tgt w))))) w')))) \<and>
    tgt w' = snd (exec c (tgt w)) \<and> inq w' = [] \<and> stk w' = stk w"
proof -
  let ?r = "fst (exec c (tgt w))"
  obtain w2 where input: "RawDbg_input E hDlg w = Inr (s, w2)"
    and q: "stk w2 = stk w" "inq w2 = inq w" "t_halted (tgt w) \<Longrightarrow> tgt w2 = tgt w"
    by (rule RawDbg_input_ok[OF typed len]) (rule that; assumption)
  obtain w3 where w3: "SendPacket E port p w2 = Inr (True, w3)" "w3 = snd (WriteFile E h (encode c) w2)"
    "tgt w3 = snd (exec c (tgt w2))" "inq w3 = inq w2 @ fst (exec c (tgt w2))"
    by (rule SendPacket_ok[OF packet(2,3,4), of w2]) (use q(3)[OF st(1)] st(1) in simp)
  have i3: "inq w3 = ?r" using w3(4) q(2) q(3)[OF st(1)] st(2) by simp
  have n: "unat (of_nat (reply_len c) :: uint) = length ?r"
    using wf_reply[OF packet(3)] length_exec_reply[OF packet(3)] by simp
  obtain w4 where w4: "ReceiveData E port (new_buf (unat (of_nat (reply_len c) :: uint))) (of_nat (reply_len c)) w3 =
      Inr ((True, map Some ?r), w4)" "w4 = snd (ReadFile E h (of_nat (reply_len c)) w3)" "tgt w4 = tgt w3" "inq w4 = []"
    using ReceiveData_ok[of "of_nat (reply_len c)" w3] i3 n by auto
  have "RawDbg_send E g hDlg w =
      Inr ((), snd (SendDlgItemMessage E hDlg IDC_RAWDBG_IN (WM_SETTEXT [])
                 (snd (SendDlgItemMessage E hDlg IDC_RAWDBG_OUT (WM_SETTEXT (hex_dump ?r)) w4))))"
    using g w3(1) w4(1) buf_slice_all[OF n]
    by (simp add: RawDbg_send_def bnd_Inr[where m="RawDbg_input E hDlg", OF input] packet(1)
        carries_ReturnBytesExpected[OF packet(2,3)] connected_def seq_Inr bnd_Inr seq_call ret_apply)
  moreover have "tgt w4 = snd (exec c (tgt w))" using w4(3) w3(3) q(3)[OF st(1)] by simp
  moreover have "stk w4 = stk w" by (simp add: w4(2) w3(2) port_stk q(1))
  ultimately show ?thesis using w4(4) by blast
qed

section \<open>Scripts that load programs\<close>

lemma LuaLoadAsm_ok:
  assumes arg: "stk w = [LStr name]" and g: "connected g"
    and opened: "\<And>w. fst (CreateFile E (AsmPrgDir @ CreateTcharString E name) GENERIC_READ w) = hf"
      "hf \<noteq> INVALID_HANDLE_VALUE" "hf \<noteq> h"
      "\<And>w. fst (ReadFile E hf (of_nat AsmBufferSize) w) = (True, lo # hi # code)"
      "length code \<le> 65534"
    and st: "t_halted (tgt w)"
  shows "\<exists>w'. LuaLoadAsm E g w = Inr (1, w') \<and>
    stk w' = stk w @ [LNum (LFinite (of_nat (unat (le16 lo hi))))] \<and>
    tgt w' = wr_block t_cpu_wr (le16 lo hi) code (tgt w) \<and> inq w' = inq w"
proof -
  let ?path = "AsmPrgDir @ CreateTcharString E name" and ?a = "le16 lo hi" and ?data = "lo # hi # code"
  let ?w1 = "snd (CreateFile E ?path GENERIC_READ w)"
  let ?w2 = "snd (ReadFile E hf (of_nat AsmBufferSize) ?w1)"
  let ?buf = "map Some ?data @ drop (length ?data) (new_buf AsmBufferSize)" and ?c = "CpuMemWr ?a code"
  have args: "lua_isstring E 1 w" "lua_tostring E 1 w = name" using str[of w 1 name] arg by simp_all
  have q: "stk ?w2 = stk w" "inq ?w2 = inq w" "tgt ?w2 = tgt w"
    using quietD[OF quiet_file(1)] quietD[OF quiet_file(2)[OF opened(3)]] st by metis+
  have wf: "wf_cmd ?c" using opened(5) by (simp add: wf_cmd_def)
  have fill: "buf_fill (new_buf AsmBufferSize) ?data = Inr ?buf"
    using opened(5) by (simp add: buf_fill_def AsmBufferSize_def del: new_buf_eval)
  have rd: "buf_rd ?buf 0 = Inr lo" "buf_rd ?buf 1 = Inr hi" by (simp_all add: buf_rd_def)
  have "at_off ?buf 2 code" by (simp add: at_off_def)
  moreover have "ucast ((of_nat (length ?data) :: uint) - 2) = len16 code"
    using opened(5) by (simp add: len16_def word_unat_eq_iff unsigned_ucast_eq unsigned_of_nat)
  ultimately have ctor: "new_CpuMemWrPacket ?a (ucast ((of_nat (length ?data) :: uint) - 2)) ?buf 2 =
      Inr (CpuMemWrPacket (map Some (encode ?c)))"
    using new_CpuMemWrPacket_at opened(5) by simp
  obtain w3 where w3: "SendPacket E port (CpuMemWrPacket (map Some (encode ?c))) ?w2 = Inr (True, w3)"
    "stk w3 = stk ?w2" "tgt w3 = snd (exec ?c (tgt ?w2))" "inq w3 = inq ?w2"
    by (rule send_cmd[OF carries_ctors(4) wf _ , of ?w2]) (use q(3) st in auto)
  have "LuaLoadAsm_send E g hf ?w1 = Inr (?a, w3)"
    using g w3(1) ctor rd no_reply[OF carries_ctors(4) wf]
    by (simp add: LuaLoadAsm_send_def bnd_call opened(4) fill connected_def le16_def[symmetric] seq_Inr ret_apply
        Let_def del: new_buf_eval encode.simps list.map)
  then have "LuaLoadAsm E g w = Inr (1, lua_pushinteger E (int (unat ?a)) (CloseHandle E hf w3))"
    using args opened(2) by (simp add: LuaLoadAsm_def opened(1) bnd_def seq_def call_def ask_def act_def ret_def split_beta)
  moreover have "stk (lua_pushinteger E (int (unat ?a)) (CloseHandle E hf w3)) = stk w @ [LNum (LFinite (of_nat (unat ?a)))]"
    using q(1) w3(2) quietD(2)[OF quiet_file(3)[OF opened(3)]] by (simp only: pushinteger of_int_of_nat_eq)
  moreover have "tgt (lua_pushinteger E (int (unat ?a)) (CloseHandle E hf w3)) = wr_block t_cpu_wr ?a code (tgt w)"
    using w3(3) q(3) quietD(3)[OF quiet_file(3)[OF opened(3)], of w3] st by (simp add: lua_tgt cpu_wr_frame)
  moreover have "inq (lua_pushinteger E (int (unat ?a)) (CloseHandle E hf w3)) = inq w"
    using w3(4) q(2) quietD(1)[OF quiet_file(3)[OF opened(3)], of w3] by (simp add: lua_inq)
  ultimately show ?thesis by blast
qed

end


section \<open>Printing from scripts\<close>

lemma AppendOutput_plain:
  assumes "m_hWndDlg sm \<noteq> 0" and "stprintf_s 1024 fmt args = Inr out"
  shows "TestScriptDlgAppendOutput E sm fmt args w =
    Inr ((), snd (SendDlgItemMessage E (m_hWndDlg sm) IDC_TESTSCRIPTS_OUTPUT (EM_REPLACESEL out)
      (snd (SendDlgItemMessage E (m_hWndDlg sm) IDC_TESTSCRIPTS_OUTPUT (EM_SETSEL MAXINT MAXINT) w))))"
  using assms by (simp add: TestScriptDlgAppendOutput_def seq_call ret_apply)

lemma stprintf_plain: "0x25 \<notin> set s \<Longrightarrow> length s < n \<Longrightarrow> stprintf_s n s args = Inr s"
  by (simp add: stprintf_s_def vprintf_plain)

lemma stprintf_percent: "0x25 \<notin> set s \<Longrightarrow> d \<noteq> 0x25 \<Longrightarrow> stprintf_s n (s @ 0x25 # d # t) [] = Inl BadFormat"
  by (simp add: stprintf_s_def vprintf_percent)

section \<open>The tally of the script dialog\<close>

text \<open>
  The dialog lists \<open>names\<close>, with the indices \<open>items\<close> selected; every script ends with the result
  that \<open>res\<close> gives for its path.
\<close>

definition script_list :: "'w env \<Rightarrow> uint \<Rightarrow> (uint \<Rightarrow> tstring) \<Rightarrow> uint list \<Rightarrow> bool" where
  "script_list E dlg names items \<longleftrightarrow> dlg \<noteq> 0 \<and> 0 < length items \<and> length items < 2 ^ 31 \<and>
     (\<forall>w. lresult (fst (SendDlgItemMessage E dlg IDC_TESTSCRIPTS_LIST LB_GETSELCOUNT w)) = of_nat (length items)) \<and>
     (\<forall>n w. r_items (fst (SendDlgItemMessage E dlg IDC_TESTSCRIPTS_LIST (LB_GETSELITEMS n) w)) = items) \<and>
     (\<forall>i w. lresult (fst (SendDlgItemMessage E dlg IDC_TESTSCRIPTS_LIST (LB_GETTEXTLEN i) w)) = of_nat (length (names i))) \<and>
     (\<forall>i w. r_text (fst (SendDlgItemMessage E dlg IDC_TESTSCRIPTS_LIST (LB_GETTEXT i) w)) = names i) \<and>
     (\<forall>i. length (names i) < 900) \<and>
     (\<forall>w. bar_range (fst (SendDlgItemMessage E dlg IDC_TESTSCRIPTS_PROGRESS PBM_GETRANGE w)))"

definition script_results :: "'w env \<Rightarrow> (tstring \<Rightarrow> ScriptResult) \<Rightarrow> bool" where
  "script_results E res \<longleftrightarrow> (\<forall>path w. \<exists>w'.
     (luaL_dofile E (CreateAsciiString E path) w = Inr (False, w') \<and>
        cast_uint (lua_tonumber E (-1) w') = Inr (script_result (res path))) \<or>
     (luaL_dofile E (CreateAsciiString E path) w = Inr (True, w') \<and> res path = SCRIPT_RESULT_ERROR \<and>
        length (CreateTcharString E (lua_tostring E (-1) w')) < 1000))"

fun tally_add :: "ScriptResult \<Rightarrow> tally \<Rightarrow> tally" where
  "tally_add SCRIPT_RESULT_PASS (p, f, e) = (p + 1, f, e)"
| "tally_add SCRIPT_RESULT_FAIL (p, f, e) = (p, f + 1, e)"
| "tally_add SCRIPT_RESULT_ERROR (p, f, e) = (p, f, e + 1)"

definition count_of :: "ScriptResult \<Rightarrow> ScriptResult list \<Rightarrow> uint" where
  "count_of r rs = of_nat (length (filter (\<lambda>x. x = r) rs))"

lemma tally_fold:
  "fold tally_add rs (p, f, e) =
     (p + count_of SCRIPT_RESULT_PASS rs, f + count_of SCRIPT_RESULT_FAIL rs, e + count_of SCRIPT_RESULT_ERROR rs)"
proof (induction rs arbitrary: p f e)
  case (Cons r rs)
  then show ?case by (cases r) (simp_all add: count_of_def)
qed (simp add: count_of_def)

lemma length_dec: "n < 10 ^ k \<Longrightarrow> 0 < k \<Longrightarrow> length (dec n) \<le> k"
proof (induction n arbitrary: k rule: dec.induct)
  case (1 n)
  show ?case
  proof (cases "n < 10")
    case True
    then show ?thesis using 1(3) by (subst dec.simps) simp
  next
    case False
    then obtain k' where k: "k = Suc k'" "0 < k'" using 1(2,3) by (cases k; cases "k - 1") auto
    have "n div 10 < 10 ^ k'" using 1(2) k(1) by (simp add: less_mult_imp_div_less mult.commute)
    then have "length (dec (n div 10)) \<le> k'" using 1(1)[OF False] k(2) by simp
    then show ?thesis using False k(1) by (subst dec.simps) simp
  qed
qed

lemma length_fmt_d: "length (fmt_d v) \<le> 11"
proof -
  have "nat (sint v) < 10 ^ 10" "nat (- sint v) < 10 ^ 10"
    using sint_less[of v] sint_ge[of v] by simp_all
  then have "length (dec (nat (sint v))) \<le> 10" "length (dec (nat (- sint v))) \<le> 10"
    by (auto intro!: length_dec simp del: power_numeral)
  then show ?thesis by (simp add: fmt_d_def)
qed


lemma progress_text:
  "stprintf_s 128 (T ''Progress: %d / %d'') [ArgD a, ArgD b] =
     Inr (T ''Progress: '' @ fmt_d a @ T '' / '' @ fmt_d b)"
  using length_fmt_d[of a] length_fmt_d[of b] by (simp add: stprintf_s_def T_def)

lemma results_text:
  "stprintf_s 128 (T ''Results: %d Pass / %d Fail / %d Error'') [ArgD a, ArgD b, ArgD c] =
     Inr (T ''Results: '' @ fmt_d a @ T '' Pass / '' @ fmt_d b @ T '' Fail / '' @ fmt_d c @ T '' Error'')"
  using length_fmt_d[of a] length_fmt_d[of b] length_fmt_d[of c] by (simp add: stprintf_s_def T_def)

lemma script_text:
  "length s < 900 \<Longrightarrow> stprintf_s 1024 (T ''====== %s ========================'' @ [0x0D, 0x0A]) [ArgS s] =
     Inr (T ''====== '' @ s @ T '' ========================'' @ [0x0D, 0x0A])"
  "length s < 900 \<Longrightarrow> stprintf_s 1024 (T ''====== Result: %s'' @ [0x0D, 0x0A, 0x0D, 0x0A]) [ArgS s] =
     Inr (T ''====== Result: '' @ s @ [0x0D, 0x0A, 0x0D, 0x0A])"
  "length s < 1000 \<Longrightarrow> stprintf_s 1024 (T ''%s'' @ [0x0D, 0x0A]) [ArgS s] = Inr (s @ [0x0D, 0x0A])"
  by (simp_all add: stprintf_s_def T_def)

lemma SetProgress_ok:
  assumes "m_hWndDlg sm \<noteq> 0" and "a \<le> b" and "b \<noteq> 0" and "float_rounding (flt E)"
    and "\<And>w. bar_range (fst (SendDlgItemMessage E (m_hWndDlg sm) IDC_TESTSCRIPTS_PROGRESS PBM_GETRANGE w))"
  shows "\<exists>w'. TestScriptDlgSetProgress E sm a b w = Inr ((), w')"
proof -
  obtain q where q: "ratio E a b = Inr q" "0 \<le> q" "q \<le> 1"
    using ratio_bounds[OF assms(4,3,2)] by blast
  have "\<exists>pos. bar_pos E (iLow r) (iHigh r) q = Inr pos" if "bar_range r" for r
    using bar_pos_bounds[OF assms(4) that q(2,3)] by metis
  then obtain pos where pos: "bar_pos E (iLow r) (iHigh r) q = Inr (pos r)" if "bar_range r" for r by metis
  show ?thesis
    using assms(1,2) q(1) pos[OF assms(5)]
    by (simp add: TestScriptDlgSetProgress_def progress_text bnd_call seq_call ret_apply)
qed

lemma SetResults_ok: "\<exists>w'. TestScriptDlgSetResults E sm a b c w = Inr ((), w')"
  by (simp add: TestScriptDlgSetResults_def results_text seq_call ret_apply)

lemma ExecuteScript_ok:
  assumes "m_hWndDlg sm \<noteq> 0" and "script_results E res" and "GetScriptMgr g = Inr m"
  shows "\<exists>w'. ExecuteScript E g sm path w = Inr (script_result (res path), w')"
proof -
  obtain w' where "(luaL_dofile E (CreateAsciiString E path) w = Inr (False, w') \<and>
        cast_uint (lua_tonumber E (-1) w') = Inr (script_result (res path))) \<or>
     (luaL_dofile E (CreateAsciiString E path) w = Inr (True, w') \<and> res path = SCRIPT_RESULT_ERROR \<and>
        length (CreateTcharString E (lua_tostring E (-1) w')) < 1000)"
    using assms(2) unfolding script_results_def by blast
  then show ?thesis
    using assms(3)
    by (auto simp: ExecuteScript_def AppendOutput_plain[OF assms(1) script_text(3)] bnd_def seq_def ask_def lift_def ret_def)
qed

lemma tbl_ok: "\<exists>s. scriptResultStrTbl (script_result r) = Inr s \<and> length s < 900"
  by (cases r) (simp_all add: scriptResultStrTbl_def T_def)

lemma count_ok: "count_result E (script_result r) t = ret (tally_add r t)"
  by (cases r; cases t) (simp_all add: count_result_def fun_eq_iff)

text \<open>Up to the script's execution, and from its result on.\<close>

definition script_done :: "'w env \<Rightarrow> ScriptMgr \<Rightarrow> tally \<Rightarrow> uint \<Rightarrow> ('w, tally) prog" where
  "script_done E sm t result =
     bnd (lift (scriptResultStrTbl result)) (\<lambda>str.
     seq (TestScriptDlgAppendOutput E sm (T ''====== Result: %s'' @ [0x0D, 0x0A, 0x0D, 0x0A]) [ArgS str])
     (bnd (count_result E result t) (\<lambda>(p, f, e). seq (TestScriptDlgSetResults E sm p f e) (ret (p, f, e)))))"

lemma run_script_start:
  assumes l: "script_list E (m_hWndDlg sm) names items" and "float_rounding (flt E)" and i: "i < length items"
  obtains w' where "\<And>t. run_script E g sm items (of_nat (length items)) i t w =
    bnd (ExecuteScript E g sm (ScriptDir @ names (items ! i))) (script_done E sm t) w'"
proof -
  note d = l[unfolded script_list_def]
  let ?cnt = "of_nat (length items) :: uint" and ?idx = "items ! i"
  have hd: "m_hWndDlg sm \<noteq> 0" using d by blast
  have n: "unat ?cnt = length items" "unat (of_nat i :: uint) = i"
    using d i by (auto simp: unsigned_of_nat take_bit_nat_eq_self)
  have "?cnt \<noteq> 0" using n(1) i by auto
  moreover have "of_nat i \<le> ?cnt" using n i by (simp add: word_le_nat_alt)
  ultimately obtain w1 where w1: "TestScriptDlgSetProgress E sm (of_nat i) ?cnt w = Inr ((), w1)"
    using SetProgress_ok[of sm "of_nat i" ?cnt E w] d assms(2) by blast
  have nm1: "length (names ?idx) < 900" using d by blast
  then have "length (names ?idx) < 2 ^ 32" by simp
  then have nm2: "unat (of_nat (length (names ?idx)) :: uint) = length (names ?idx)"
    by (rule unat_uint_of_nat)
  obtain w2 where w2: "script_file E sm ?idx w1 = Inr ((names ?idx, ScriptDir @ names ?idx), w2)"
    using d nm2 by (simp add: script_file_def bnd_call script_path_def ret_apply)
  obtain w3 where w3: "TestScriptDlgAppendOutput E sm (T ''====== %s ========================'' @ [0x0D, 0x0A])
      [ArgS (names ?idx)] w2 = Inr ((), w3)"
    using AppendOutput_plain[OF _ script_text(1)[OF nm1], of sm E w2] d by blast
  have "script_index items i = Inr ?idx" using i by (simp add: script_index_def)
  then show thesis using w1 w2 w3
    by (intro that[of w3]) (simp add: run_script_def seq_Inr bnd_Inr script_done_def[abs_def])
qed

lemma script_done_ok:
  assumes "m_hWndDlg sm \<noteq> 0"
  shows "\<exists>w'. script_done E sm t (script_result r) w = Inr (tally_add r t, w')"
proof -
  obtain s where s: "scriptResultStrTbl (script_result r) = Inr s" "length s < 900" using tbl_ok by blast
  obtain w1 where w1: "TestScriptDlgAppendOutput E sm (T ''====== Result: %s'' @ [0x0D, 0x0A, 0x0D, 0x0A]) [ArgS s] w = Inr ((), w1)"
    using AppendOutput_plain[OF assms script_text(2)[OF s(2)], of E w] by blast
  obtain p f e where t: "tally_add r t = (p, f, e)" by (metis prod_cases3)
  obtain w2 where "TestScriptDlgSetResults E sm p f e w1 = Inr ((), w2)" using SetResults_ok[of E sm p f e w1] by blast
  with s(1) w1 t show ?thesis by (simp add: script_done_def count_ok seq_Inr ret_apply)
qed

lemma run_script_ok:
  assumes l: "script_list E (m_hWndDlg sm) names items" and r: "script_results E res"
    and g: "GetScriptMgr g = Inr m" and f: "float_rounding (flt E)" and i: "i < length items"
  shows "\<exists>w'. run_script E g sm items (of_nat (length items)) i t w =
    Inr (tally_add (res (ScriptDir @ names (items ! i))) t, w')"
proof -
  have hd: "m_hWndDlg sm \<noteq> 0" using l by (simp add: script_list_def)
  obtain w1 where w1: "run_script E g sm items (of_nat (length items)) i t w =
      bnd (ExecuteScript E g sm (ScriptDir @ names (items ! i))) (script_done E sm t) w1"
    by (rule run_script_start[OF l f i]) (rule that, assumption)
  obtain w2 where "ExecuteScript E g sm (ScriptDir @ names (items ! i)) w1 =
      Inr (script_result (res (ScriptDir @ names (items ! i))), w2)"
    using ExecuteScript_ok[OF hd r g] by blast
  with w1 script_done_ok[OF hd] show ?thesis by (simp add: bnd_Inr)
qed

lemma run_scripts_ok:
  assumes "script_list E (m_hWndDlg sm) names items" and "script_results E res" and "GetScriptMgr g = Inr m"
    and "float_rounding (flt E)" and "i + n = length items"
  shows "\<exists>w'. run_scripts E g sm items (of_nat (length items)) i n t w =
    Inr (fold tally_add (map (\<lambda>j. res (ScriptDir @ names j)) (drop i items)) t, w')"
  using assms(5)
proof (induction n arbitrary: i t w)
  case (Suc n)
  obtain w1 where "run_script E g sm items (of_nat (length items)) i t w =
    Inr (tally_add (res (ScriptDir @ names (items ! i))) t, w1)"
    using run_script_ok[OF assms(1-4), of i t w] Suc.prems by auto
  then show ?case using Suc.IH[of "i + 1"] Suc.prems
    by (simp add: bnd_def Cons_nth_drop_Suc[symmetric])
qed (simp add: ret_apply)

lemma TestScriptDlgRun_ok:
  assumes l: "script_list E (m_hWndDlg sm) names items" and r: "script_results E res"
    and g: "GetScriptMgr g = Inr m" and f: "float_rounding (flt E)"
  defines "rs \<equiv> map (\<lambda>j. res (ScriptDir @ names j)) items"
  shows "\<exists>w'. TestScriptDlgRun E g sm w =
    Inr (Some (count_of SCRIPT_RESULT_PASS rs, count_of SCRIPT_RESULT_FAIL rs, count_of SCRIPT_RESULT_ERROR rs), w')"
proof -
  note d = l[unfolded script_list_def]
  let ?cnt = "of_nat (length items) :: uint"
  let ?w1 = "snd (SendDlgItemMessage E (m_hWndDlg sm) IDC_TESTSCRIPTS_LIST LB_GETSELCOUNT w)"
  let ?w2 = "snd (SendDlgItemMessage E (m_hWndDlg sm) IDC_TESTSCRIPTS_LIST (LB_GETSELITEMS ?cnt) ?w1)"
  have n: "unat ?cnt = length items" using d by (auto simp: unsigned_of_nat take_bit_nat_eq_self)
  then have n0: "?cnt \<noteq> 0" using d by auto
  obtain w3 where w3: "TestScriptDlgSetResults E sm 0 0 0 ?w2 = Inr ((), w3)" using SetResults_ok[of E sm 0 0 0 ?w2] by blast
  obtain w4 where w4: "run_scripts E g sm items ?cnt 0 (length items) (0, 0, 0) w3 = Inr (fold tally_add rs (0, 0, 0), w4)"
    using run_scripts_ok[OF l r g f, of 0 "length items" "(0, 0, 0)" w3] by (auto simp: rs_def)
  obtain w5 where w5: "TestScriptDlgSetProgress E sm ?cnt ?cnt w4 = Inr ((), w5)"
  proof -
    have "m_hWndDlg sm \<noteq> 0" and "\<And>w. bar_range (fst (SendDlgItemMessage E (m_hWndDlg sm) IDC_TESTSCRIPTS_PROGRESS PBM_GETRANGE w))"
      using d by blast+
    then show thesis using SetProgress_ok[OF _ order_refl n0 f, of sm w4] that by blast
  qed
  have "TestScriptDlgRun E g sm w = Inr (Some (fold tally_add rs (0, 0, 0)), w5)"
    using d n n0 w3 w4 w5
    by (simp add: TestScriptDlgRun_def seq_def bnd_def call_def Let_def ret_def split_beta)
  then show ?thesis by (simp add: tally_fold)
qed


end
