(* ===== verification/Bench.thy ===== *)
theory Bench
  imports Host_Specs
begin

text \<open>
  A concrete environment that meets the contracts of theory \<open>Link\<close>, and the interpretations of the
  locales on it: a protocol-level console (the abstract target of theory \<open>Target\<close>) on the serial
  port, a Lua stack, one file, and dialogs with fixed content. It shows that the contracts can be
  met, and the concrete instances of the properties are evaluated on it.
\<close>

section \<open>The world\<close>

text \<open>\<open>b_brk\<close> is how many more sleeps the running console takes to reach its breakpoint.\<close>

record bench =
  b_tgt :: target
  b_in :: "byte list"
  b_stk :: "lua_value list"
  b_brk :: nat

record bench_cfg =
  c_path :: tstring
  c_data :: "byte list"
  c_text :: tstring
  c_names :: "uint \<Rightarrow> tstring"
  c_items :: "uint list"
  c_result :: "byte list \<Rightarrow> ScriptResult"

definition bench_port :: uint where "bench_port = 3"
definition bench_file :: uint where "bench_file = 7"

section \<open>The serial port\<close>

definition port_exec :: "cmd \<Rightarrow> bench \<Rightarrow> bench" where
  "port_exec c w =
     (if t_halted (b_tgt w) then
        w\<lparr>b_tgt := snd (exec c (b_tgt w)), b_in := b_in w @ fst (exec c (b_tgt w))\<rparr>
      else if c = DbgHlt then w\<lparr>b_tgt := (b_tgt w)\<lparr>t_halted := True\<rparr>\<rparr>
      else if c = QueryHlt then w\<lparr>b_in := b_in w @ [0]\<rparr>
      else w)"

definition bench_write :: "uint \<Rightarrow> byte list \<Rightarrow> bench \<Rightarrow> (bool \<times> uint) \<times> bench" where
  "bench_write k bs w =
     (if k = bench_port then
        ((True, of_nat (length bs)), case decode bs of None \<Rightarrow> w | Some c \<Rightarrow> port_exec c w)
      else ((False, 0), w))"

definition bench_read :: "bench_cfg \<Rightarrow> uint \<Rightarrow> uint \<Rightarrow> bench \<Rightarrow> (bool \<times> byte list) \<times> bench" where
  "bench_read cfg k n w =
     (if k = bench_port then ((True, take (unat n) (b_in w)), w\<lparr>b_in := drop (unat n) (b_in w)\<rparr>)
      else if k = bench_file then ((True, take (unat n) (c_data cfg)), w)
      else ((False, []), w))"

definition bench_sleep :: "uint \<Rightarrow> bench \<Rightarrow> bench" where
  "bench_sleep ms w =
     (if t_halted (b_tgt w) then w
      else if b_brk w = 0 then w\<lparr>b_tgt := (b_tgt w)\<lparr>t_halted := True\<rparr>\<rparr>
      else w\<lparr>b_brk := b_brk w - 1\<rparr>)"

section \<open>The Lua stack\<close>

fun value_number :: "lua_value \<Rightarrow> lua_number" where
  "value_number (LNum x) = x"
| "value_number _ = LFinite 0"

fun value_entry :: "int \<Rightarrow> lua_value \<Rightarrow> lua_value" where
  "value_entry n (LTab t) = t n"
| "value_entry n _ = LNil"

fun value_text :: "lua_value \<Rightarrow> byte list" where
  "value_text (LStr s) = s"
| "value_text _ = []"

text \<open>The entry of the table below the key and the value on top of the stack.\<close>

definition stk_settable :: "lua_value list \<Rightarrow> lua_value list" where
  "stk_settable s =
     (case rev s of
        v # LNum (LFinite k) # LTab t # s' \<Rightarrow> rev s' @ [LTab (t(\<lfloor>k\<rfloor> := v))]
      | _ \<Rightarrow> s)"

section \<open>Dialogs\<close>

definition bench_reply :: "bench_cfg \<Rightarrow> dlg_msg \<Rightarrow> dlg_reply" where
  "bench_reply cfg msg =
     (let r = \<lparr>lresult = 0, r_text = [], r_items = [], iLow = 0, iHigh = 100\<rparr> in
      case msg of
        WM_GETTEXTLENGTH \<Rightarrow> r\<lparr>lresult := of_nat (length (c_text cfg))\<rparr>
      | WM_GETTEXT n \<Rightarrow> r\<lparr>r_text := c_text cfg\<rparr>
      | LB_GETSELCOUNT \<Rightarrow> r\<lparr>lresult := of_nat (length (c_items cfg))\<rparr>
      | LB_GETSELITEMS n \<Rightarrow> r\<lparr>r_items := c_items cfg\<rparr>
      | LB_GETTEXTLEN i \<Rightarrow> r\<lparr>lresult := of_nat (length (c_names cfg i))\<rparr>
      | LB_GETTEXT i \<Rightarrow> r\<lparr>r_text := c_names cfg i\<rparr>
      | _ \<Rightarrow> r)"

section \<open>The environment\<close>

text \<open>
  Everything but the serial port and time is the same on every bench: the Lua stack, reached by
  \<open>stk\<close> and \<open>upd\<close>, one file, and dialogs with fixed content.
\<close>

definition desk_env :: "('w \<Rightarrow> lua_value list) \<Rightarrow> ((lua_value list \<Rightarrow> lua_value list) \<Rightarrow> 'w \<Rightarrow> 'w) \<Rightarrow>
    (uint \<Rightarrow> byte list \<Rightarrow> 'w \<Rightarrow> (bool \<times> uint) \<times> 'w) \<Rightarrow> (uint \<Rightarrow> uint \<Rightarrow> 'w \<Rightarrow> (bool \<times> byte list) \<times> 'w) \<Rightarrow>
    (uint \<Rightarrow> 'w \<Rightarrow> 'w) \<Rightarrow> bench_cfg \<Rightarrow> 'w env" where
  "desk_env stk upd wr rd slp cfg =
     \<lparr>debug_build = False, flt = (\<lambda>q. q),
      CreateFile = (\<lambda>path mode w. (if path = T ''COM5'' then bench_port else bench_file, w)),
      ReadFile = rd, WriteFile = wr,
      CloseHandle = (\<lambda>k w. w), GetLastError = (\<lambda>w. (0, w)),
      GetCommState = (\<lambda>k d w. ((True, d), w)), SetCommState = (\<lambda>k d w. (True, w)),
      SetCommTimeouts = (\<lambda>k t w. (True, w)), Sleep = slp,
      MessageBox = (\<lambda>a b w. w), GetOpenFileName = (\<lambda>n w. ((True, c_path cfg), w)),
      CreateFont = (\<lambda>w. (1, w)), DeleteObject = (\<lambda>k w. w), CreateDialog = (\<lambda>n p w. (1, w)),
      DestroyWindow = (\<lambda>k w. w), DialogBox = (\<lambda>n p w. w), EndDialog = (\<lambda>k r w. w),
      SendDlgItemMessage = (\<lambda>dlg ctl msg w. (bench_reply cfg msg, w)),
      RegisterClassEx = (\<lambda>n w. (True, w)), CreateWindow = (\<lambda>n t w. (1, w)),
      ShowWindow = (\<lambda>k s w. w), UpdateWindow = (\<lambda>k w. w),
      GetMessage = (\<lambda>w. ((False, \<lparr>hwnd = 0, message = WM_OTHER 18, wParam = 0\<rparr>), w)),
      TranslateMessage = (\<lambda>m w. w), DispatchMessage = (\<lambda>m. ret ()),
      PostMessage = (\<lambda>k m w. w), PostQuitMessage = (\<lambda>r w. w), DefWindowProc = (\<lambda>k m w. (0, w)),
      wcstombs = map ucast, mbstowcs = map ucast,
      lua_isnumber = (\<lambda>i w. case lget (stk w) i of LNum x \<Rightarrow> True | _ \<Rightarrow> False),
      lua_isstring = (\<lambda>i w. case lget (stk w) i of LStr s \<Rightarrow> True | LNum x \<Rightarrow> True | _ \<Rightarrow> False),
      lua_istable = (\<lambda>i w. case lget (stk w) i of LTab t \<Rightarrow> True | _ \<Rightarrow> False),
      lua_tonumber = (\<lambda>i w. value_number (lget (stk w) i)),
      lua_tostring = (\<lambda>i w. value_text (lget (stk w) i)),
      lua_rawgeti = (\<lambda>i n w. upd (\<lambda>s. s @ [value_entry n (lget s i)]) w),
      lua_pop = (\<lambda>k. upd (\<lambda>s. take (length s - k) s)),
      lua_newtable = upd (\<lambda>s. s @ [LTab (\<lambda>_. LNil)]),
      lua_settable = (\<lambda>i. upd stk_settable),
      lua_pushnumber = (\<lambda>q. upd (\<lambda>s. s @ [LNum (LFinite q)])),
      lua_pushinteger = (\<lambda>n. upd (\<lambda>s. s @ [LNum (LFinite (of_int n))])),
      lua_open = (\<lambda>w. (1, w)), lua_close = (\<lambda>w. w), luaopen_base = (\<lambda>w. w), luaopen_math = (\<lambda>w. w),
      lua_setglobal_c = (\<lambda>n f w. w), luaL_register = (\<lambda>n l w. w), luaL_dofile =
        (\<lambda>path w. Inr (False, upd (\<lambda>s. [LNum (LFinite (of_nat (unat (script_result (c_result cfg path)))))]) w))\<rparr>"

definition bench_put :: "(lua_value list \<Rightarrow> lua_value list) \<Rightarrow> bench \<Rightarrow> bench" where
  "bench_put f w = w\<lparr>b_stk := f (b_stk w)\<rparr>"

definition bench_env :: "bench_cfg \<Rightarrow> bench env" where
  "bench_env cfg = desk_env b_stk bench_put bench_write (bench_read cfg) bench_sleep cfg"

lemmas bench_env_defs = bench_env_def desk_env_def bench_put_def

text \<open>What the contracts ask of the part that is the same, for any such \<open>stk\<close> and \<open>upd\<close>.\<close>

lemma desk_lua_vm:
  assumes "\<And>f w. stk (upd f w) = f (stk w)"
  shows "lua_vm (desk_env stk upd wr rd slp cfg) stk"
  by unfold_locales
    (auto simp: assms desk_env_def stk_settable_def split: lua_value.splits)

lemma desk_ui_host:
  assumes "script_host (desk_env stk upd wr rd slp cfg) h tgt inq stk"
    and "\<And>k n. k \<noteq> h \<Longrightarrow> quiet tgt inq stk (\<lambda>w. snd (rd k n w))"
  shows "ui_host (desk_env stk upd wr rd slp cfg) h tgt inq stk"
  using assms(2)
  by (intro ui_host.intro[OF assms(1)] ui_host_axioms.intro)
    (auto simp: desk_env_def quiet_def float_rounding_def mono_def bench_reply_def bar_range_def)

section \<open>The contracts hold\<close>

interpretation desk_link: nes_link "bench_env cfg" bench_port b_tgt b_in for cfg
proof
  fix w :: bench and c :: cmd and n :: uint
  show "t_halted (b_tgt w) \<Longrightarrow> wf_cmd c \<Longrightarrow> plain_cmd c \<Longrightarrow>
      fst (WriteFile (bench_env cfg) bench_port (encode c) w) = (True, of_nat (length (encode c))) \<and>
      b_tgt (snd (WriteFile (bench_env cfg) bench_port (encode c) w)) = snd (exec c (b_tgt w)) \<and>
      b_in (snd (WriteFile (bench_env cfg) bench_port (encode c) w)) = b_in w @ fst (exec c (b_tgt w))"
    by (simp add: bench_env_defs bench_write_def decode_encode port_exec_def)
  have d: "decode (encode DbgHlt) = Some DbgHlt" "decode (encode QueryHlt) = Some QueryHlt"
    by (rule decode_encode, simp add: wf_cmd_def)+
  show "fst (WriteFile (bench_env cfg) bench_port (encode DbgHlt) w) = (True, 1) \<and>
      t_halted (b_tgt (snd (WriteFile (bench_env cfg) bench_port (encode DbgHlt) w))) \<and>
      b_in (snd (WriteFile (bench_env cfg) bench_port (encode DbgHlt) w)) = b_in w"
    unfolding bench_env_defs using d by (simp add: bench_write_def port_exec_def)
  show "fst (WriteFile (bench_env cfg) bench_port (encode QueryHlt) w) = (True, 1) \<and>
      (\<exists>v. (v = 0 \<or> v = 1) \<and> b_in (snd (WriteFile (bench_env cfg) bench_port (encode QueryHlt) w)) = b_in w @ [v] \<and>
         (v = 1 \<longrightarrow> t_halted (b_tgt (snd (WriteFile (bench_env cfg) bench_port (encode QueryHlt) w)))))"
    unfolding bench_env_defs using d by (auto simp add: bench_write_def port_exec_def)
  show "unat n \<le> length (b_in w) \<Longrightarrow>
      fst (ReadFile (bench_env cfg) bench_port n w) = (True, take (unat n) (b_in w)) \<and>
      b_tgt (snd (ReadFile (bench_env cfg) bench_port n w)) = b_tgt w \<and>
      b_in (snd (ReadFile (bench_env cfg) bench_port n w)) = drop (unat n) (b_in w)"
    by (simp add: bench_env_defs bench_read_def)
qed

interpretation desk_lua: lua_vm "bench_env cfg" b_stk for cfg
  unfolding bench_env_def by (rule desk_lua_vm) (simp add: bench_put_def)

lemma port_exec_stk: "b_stk (port_exec c w) = b_stk w"
  by (simp add: port_exec_def)

interpretation desk_script: script_host "bench_env cfg" bench_port b_tgt b_in b_stk for cfg
  by unfold_locales
    (auto simp: bench_env_defs bench_write_def bench_read_def bench_sleep_def port_exec_stk split: option.split)

interpretation desk_ui: ui_host "bench_env cfg" bench_port b_tgt b_in b_stk for cfg
  unfolding bench_env_def
  by (rule desk_ui_host[OF desk_script.script_host_axioms[unfolded bench_env_def]])
    (simp add: quiet_def bench_read_def)

section \<open>The bench set up\<close>

text \<open>The bench's application object, a concrete bench world, and the contracts on the bench.\<close>

definition desk_g :: "NesDbg option" where
  "desk_g = Some \<lparr>m_hInstance = 1, m_hWnd = 1, m_hFontCourierNew = 1,
     m_pSerialComm = Some \<lparr>m_hSerialComm = bench_port\<rparr>,
     m_pScriptMgr = Some \<lparr>m_pLuaVm = 1, m_hWndDlg = 1\<rparr>\<rparr>"

definition desk_cfg :: bench_cfg where
  "desk_cfg = \<lparr>c_path = T ''game.nes'', c_data = [0x00, 0x03, 0xA9, 0x42], c_text = T ''00 01 00 7F'',
     c_names = (\<lambda>i. T ''test.lua''), c_items = [0, 1, 2], c_result = (\<lambda>p. SCRIPT_RESULT_PASS)\<rparr>"

definition desk_target :: target where
  "desk_target = \<lparr>t_halted = True, t_err = 0, t_cfg = 0, t_wram = (\<lambda>_. 0), t_prg = (\<lambda>_. 0),
     t_chr = (\<lambda>_. 0), t_vram = (\<lambda>_. 0),
     t_cpu = \<lparr>q_pcl = 0, q_pch = 0, q_ac = 0, q_x = 0, q_y = 0, q_s = 0xFF, q_n = False,
       q_v = False, q_d = False, q_i = False, q_z = False, q_c = False, irq_brk = True, q_pchs = 0,
       q_pcls = 0, q_abh = 0, q_abl = 0, q_t_is_T0 = False, clk_phase = 1, dbg_xx = 0\<rparr>\<rparr>"

definition desk_w :: "lua_value list \<Rightarrow> bench" where
  "desk_w s = \<lparr>b_tgt = desk_target, b_in = [], b_stk = s, b_brk = 2\<rparr>"

abbreviation nat_val :: "nat \<Rightarrow> lua_value" where
  "nat_val n \<equiv> LNum (LFinite (of_nat n))"

lemma desk_simps [simp]:
  "GetSerialComm desk_g = Inr \<lparr>m_hSerialComm = bench_port\<rparr>"
  "b_stk (desk_w s) = s" "b_tgt (desk_w s) = desk_target" "b_in (desk_w s) = []"
  "t_halted desk_target"
  by (simp_all add: desk_g_def GetSerialComm_def desk_w_def desk_target_def)

lemma desk_g_mgr: "GetScriptMgr desk_g = Inr \<lparr>m_pLuaVm = 1, m_hWndDlg = 1\<rparr>"
  by (simp add: GetScriptMgr_def desk_g_def)

text \<open>The bench with a file that has one PRG bank's header and \<open>n\<close> bytes of data behind it.\<close>

definition rom_file :: "byte list \<Rightarrow> nat \<Rightarrow> byte list" where
  "rom_file h n = h @ replicate n 0"

definition one_bank :: "byte list" where
  "one_bank = [0x4E, 0x45, 0x53, 0x1A, 1, 0, 0, 0, 0, 0, 0, 0, 0, 0, 0, 0]"

definition desk_file_cfg :: "byte list \<Rightarrow> bench_cfg" where
  "desk_file_cfg ds = desk_cfg\<lparr>c_data := ds\<rparr>"

lemma rom_file_ok:
  "ines_ok (rom_file one_bank n)" "prg_size (rom_file one_bank n) = 0x4000" "chr_size (rom_file one_bank n) = 0"
  "length (rom_file one_bank n) = 16 + n"
  by (simp_all add: ines_ok_def rom_file_def one_bank_def prg_size_def chr_size_def)

lemma bench_file_port: "bench_file \<noteq> bench_port"
  by (simp add: bench_file_def bench_port_def)

lemma tab_bytes_pair: "tab_bytes (table_of [x, y]) (unat (2 :: ushort)) [x, y]"
proof -
  have "unat (2 :: ushort) = length [x, y]" by simp
  then show ?thesis by (simp only: tab_bytes_table_of)
qed

lemma cast_nat [simp]:
  "n < 65536 \<Longrightarrow> cast_ushort (LFinite (of_nat n)) = Inr (of_nat n)"
  "n < 256 \<Longrightarrow> cast_byte (LFinite (of_nat n)) = Inr (of_nat n)"
  "n < 4294967296 \<Longrightarrow> cast_uint (LFinite (of_nat n)) = Inr (of_nat n)"
  by (simp_all add: cast_ushort_def cast_byte_def cast_uint_def cast_unsigned_def)

lemma cast_numeral [simp]:
  "(numeral k :: nat) < 65536 \<Longrightarrow> cast_ushort (LFinite (numeral k)) = Inr (numeral k)"
  "(numeral k :: nat) < 256 \<Longrightarrow> cast_byte (LFinite (numeral k)) = Inr (numeral k)"
  "(numeral k :: nat) < 4294967296 \<Longrightarrow> cast_uint (LFinite (numeral k)) = Inr (numeral k)"
  using cast_nat[of "numeral k"] by simp_all

lemmas desk_axioms = desk_script.script_host_axioms desk_ui.ui_host_axioms

end
