(* ===== verification/Board.thy ===== *)
theory Board
  imports Target
begin

text \<open>
  The HCI wired to the console (\<^verbatim>\<open>nes_top.v\<close>) and to the two ends of the UART: one clock cycle of
  both, and what it does in each state of the HCI. The UART is two byte
  queues: \<open>rxq\<close> holds the bytes received and not yet read, \<open>txq\<close> the bytes accepted for
  transmission, in order. Whether the transmit FIFO is full is an input of every cycle, chosen
  by the environment. Theory \<open>Fpga\<close> has the UART itself in the place of the queues and refines this board.
\<close>

section \<open>One clock cycle\<close>

record board =
  hci :: hci_regs
  con :: console
  rxq :: "byte list"
  txq :: "byte list"
  rx_stale :: byte   \<comment> \<open>what the empty receive FIFO shows as its front\<close>

definition hci_active :: "hci_regs \<Rightarrow> bool" where
  "hci_active q \<longleftrightarrow> q_state q \<noteq> S_DISABLED"

definition rx_front :: "board \<Rightarrow> byte" where
  "rx_front b = (case rxq b of [] \<Rightarrow> rx_stale b | x # _ \<Rightarrow> x)"

definition hci_input :: "bool \<Rightarrow> bool \<Rightarrow> board \<Rightarrow> hci_in" where
  "hci_input full cpu_brk b =
     \<lparr>brk = cpu_brk, rx_empty = (rxq b = []), rd_data = rx_front b, tx_full = full,
      parity_err = False,
      cpu_din = cpu_bus_din (q_addr (hci b)) True (con b),
      cpu_dbgreg_in = dbgreg_out (cpu (con b)),
      ppu_vram_din = ppu_bus_din (q_addr (hci b)) (con b)\<rparr>"

text \<open>
  While the HCI is not active the buses belong to the CPU and the PPU: the parameter \<open>run_cpu\<close>
  is one cycle of the running console, with the CPU's break signal.
\<close>

definition cycle :: "(console \<Rightarrow> console \<times> bool) \<Rightarrow> bool \<Rightarrow> board \<Rightarrow> board" where
  "cycle run_cpu full b =
     (let q = hci b;
          (con', cpu_brk) = (if hci_active q then (con b, False) else run_cpu (con b));
          i = hci_input full cpu_brk b;
          (q', o1) = hci_comb i q
      in b\<lparr>hci := q',
           con := (if hci_active q then bus_clk (q_addr q) (q_cart_cfg q) o1 (rd_data i) (con b)
                   else con'),
           rxq := (if rd_en o1 then tl (rxq b) else rxq b),
           txq := (if q_wr_en q then txq b @ [q_tx_data q] else txq b)\<rparr>)"

text \<open>\<open>n\<close> cycles; \<open>full i\<close> is the state of the transmit FIFO in the \<open>i\<close>th of them.\<close>

fun run :: "(console \<Rightarrow> console \<times> bool) \<Rightarrow> (nat \<Rightarrow> bool) \<Rightarrow> nat \<Rightarrow> board \<Rightarrow> board" where
  "run run_cpu full 0 b = b"
| "run run_cpu full (Suc n) b = run run_cpu (\<lambda>i. full (Suc i)) n (cycle run_cpu (full 0) b)"

section \<open>Abstraction\<close>

definition abs_board :: "board \<Rightarrow> target" where
  "abs_board b =
     \<lparr>t_halted = hci_active (hci b), t_err = q_err_code (hci b), t_cfg = q_cart_cfg (hci b),
      t_wram = ram (wram (con b)), t_prg = ram (prgrom (con b)), t_chr = ram (chrrom (con b)),
      t_vram = ram (vram (con b)), t_cpu = cpu (con b)\<rparr>"

text \<open>Everything handed to the transmitter, the byte in the output flip-flop included.\<close>

definition sent :: "board \<Rightarrow> byte list" where
  "sent b = txq b @ (if q_wr_en (hci b) then [q_tx_data (hci b)] else [])"

text \<open>The complete description of an active board between two cycles.\<close>

definition st :: "hci_state \<Rightarrow> 3 word \<Rightarrow> 17 word \<Rightarrow> 16 word \<Rightarrow> byte list \<Rightarrow> byte list \<Rightarrow> target \<Rightarrow> board \<Rightarrow> bool"
where
  "st s dc ec ad rx out t b \<longleftrightarrow>
     q_state (hci b) = s \<and> q_decode_cnt (hci b) = dc \<and> q_execute_cnt (hci b) = ec \<and>
     q_addr (hci b) = ad \<and> rxq b = rx \<and> sent b = out \<and> abs_board b = t"

text \<open>The block RAMs have latched the addresses that \<open>ad\<close> decodes to.\<close>

definition latched :: "16 word \<Rightarrow> board \<Rightarrow> bool" where
  "latched ad b \<longleftrightarrow>
     q_addr_a (wram (con b)) = ucast ad \<and>
     q_addr_a (prgrom (con b)) = prgrom_a (q_cart_cfg (hci b)) ad \<and>
     q_addr_a (chrrom (con b)) = ucast ad \<and>
     q_addr_a (vram (con b)) = vram_a (q_cart_cfg (hci b)) ad"

text \<open>The effect of one cycle's outputs on the target's memories and registers.\<close>

definition bus_effect :: "16 word \<Rightarrow> hci_out \<Rightarrow> byte \<Rightarrow> target \<Rightarrow> target" where
  "bus_effect ad o1 pdin t =
     (let t1 = (if cpu_r_nw o1 then t else t_cpu_wr ad (cpu_dout o1) t);
          t2 = (if ppu_vram_wr o1 then t_ppu_wr ad pdin t1 else t1) in
      if cpu_dbgreg_wr o1
      then t2\<lparr>t_cpu := dbgreg_write (cpu_dbgreg_sel o1) (cpu_dbgreg_out o1) (t_cpu t2)\<rparr> else t2)"

section \<open>What one cycle does in each state\<close>

lemma wram_en_bit: "wram_en a \<Longrightarrow> \<not> bit a 15"
proof -
  assume "wram_en a"
  then have "\<not> bit (drop_bit 13 a) 2" by (simp add: wram_en_def)
  then show "\<not> bit a 15" by (simp add: bit_drop_bit_eq)
qed

lemma abs_board_sels [simp]:
  "t_halted (abs_board b) = hci_active (hci b)"
  "t_err (abs_board b) = q_err_code (hci b)"
  "t_cfg (abs_board b) = q_cart_cfg (hci b)"
  "t_cpu (abs_board b) = cpu (con b)"
  by (simp_all add: abs_board_def)

text \<open>
  The general form of a cycle of the active HCI: everything follows from the pair \<open>r\<close> that the
  combinational block computes.
\<close>

lemma cycle_active:
  assumes "hci_active (hci b)"
  shows "cycle run_cpu f b =
    (let r = hci_comb (hci_input f False b) (hci b) in
     b\<lparr>hci := fst r,
       con := bus_clk (q_addr (hci b)) (q_cart_cfg (hci b)) (snd r) (rx_front b) (con b),
       rxq := (if rd_en (snd r) then tl (rxq b) else rxq b),
       txq := sent b\<rparr>)"
  using assms by (simp add: cycle_def hci_input_def sent_def Let_def split: prod.split)

lemma bus_clk_effect:
  assumes "hci_active (hci b)"
  shows "abs_board (b\<lparr>hci := q', con := bus_clk (q_addr (hci b)) (q_cart_cfg (hci b)) o1 pdin (con b),
      rxq := rx', txq := tx'\<rparr>) =
    (bus_effect (q_addr (hci b)) o1 pdin (abs_board b))
      \<lparr>t_halted := hci_active q', t_err := q_err_code q', t_cfg := q_cart_cfg q'\<rparr>"
  using wram_en_bit[of "q_addr (hci b)"]
  by (simp add: abs_board_def bus_clk_def ram_clk_def bus_effect_def t_cpu_wr_def t_ppu_wr_def
      prg_nce_def ciram_nce_def Let_def)

lemma c_step:
  assumes "st s dc ec ad rx out t b" and "s \<noteq> S_DISABLED"
    and "hci_comb (hci_input f False b) (hci b) = (q', o1)"
  shows "st (q_state q') (q_decode_cnt q') (q_execute_cnt q') (q_addr q')
    (if rd_en o1 then tl rx else rx) (out @ (if q_wr_en q' then [q_tx_data q'] else []))
    ((bus_effect ad o1 (rx_front b) t)
       \<lparr>t_halted := hci_active q', t_err := q_err_code q', t_cfg := q_cart_cfg q'\<rparr>)
    (cycle run_cpu f b)"
proof -
  have act: "hci_active (hci b)" using assms(1,2) by (simp add: st_def hci_active_def)
  then show ?thesis
    using assms(1,3) bus_clk_effect[OF act] by (auto simp: st_def cycle_active sent_def Let_def)
qed

lemma st_fields:
  assumes "st s dc ec ad rx out t b" and "s \<noteq> S_DISABLED"
  shows "q_state (hci b) = s" "q_decode_cnt (hci b) = dc" "q_execute_cnt (hci b) = ec"
    "q_addr (hci b) = ad" "rxq b = rx" "q_err_code (hci b) = t_err t" "q_cart_cfg (hci b) = t_cfg t"
    "cpu (con b) = t_cpu t" "t_halted t"
  using assms by (auto simp: st_def hci_active_def)

lemma target_id: "t_halted t \<Longrightarrow> t\<lparr>t_halted := True\<rparr> = t"
  by (cases t) simp


text \<open>The same lemma with the intended result as the conclusion, the way the states use it.\<close>

lemma c_goal:
  assumes "st s dc ec ad rx out t b" and "s \<noteq> S_DISABLED"
    and "\<lbrakk>q_state (hci b) = s; q_decode_cnt (hci b) = dc; q_execute_cnt (hci b) = ec; q_addr (hci b) = ad;
      rxq b = rx; q_err_code (hci b) = t_err t; q_cart_cfg (hci b) = t_cfg t; cpu (con b) = t_cpu t;
      t_halted t\<rbrakk> \<Longrightarrow>
      (let r = hci_comb (hci_input f False b) (hci b) in
       q_state (fst r) = s' \<and> q_decode_cnt (fst r) = dc' \<and> q_execute_cnt (fst r) = ec' \<and>
       q_addr (fst r) = ad' \<and> (if rd_en (snd r) then tl rx else rx) = rx' \<and>
       out @ (if q_wr_en (fst r) then [q_tx_data (fst r)] else []) = out' \<and>
       (bus_effect ad (snd r) (rx_front b) t)\<lparr>t_halted := hci_active (fst r),
         t_err := q_err_code (fst r), t_cfg := q_cart_cfg (fst r)\<rparr> = t')"
  shows "st s' dc' ec' ad' rx' out' t' (cycle run_cpu f b)"
proof -
  let ?r = "hci_comb (hci_input f False b) (hci b)"
  show ?thesis
    using c_step[OF assms(1,2) prod.collapse[symmetric], of f run_cpu]
      assms(3)[OF st_fields[OF assms(1,2)]] by (simp add: Let_def)
qed

lemma target_upd: "t_halted t \<Longrightarrow> t\<lparr>t_halted := True, t_err := t_err t, t_cfg := t_cfg t\<rparr> = t"
  by (cases t) simp


lemmas c_eval =
  hci_comb_def hci_input_def rx_front_def hci_active_def default_next_def out0_def bus_effect_def
  target_id target_upd Let_def

lemma c_decode:
  assumes "st S_DECODE dc ec ad (opcode op # rx) out t b"
  shows "op = OpEcho \<Longrightarrow> st S_ECHO_STG_0 0 ec ad rx out t (cycle run_cpu f b)"
    and "op = OpCpuMemRd \<Longrightarrow> st S_CPU_MEM_RD_STG_0 0 ec ad rx out t (cycle run_cpu f b)"
    and "op = OpCpuMemWr \<Longrightarrow> st S_CPU_MEM_WR_STG_0 0 ec ad rx out t (cycle run_cpu f b)"
    and "op = OpDbgHlt \<Longrightarrow> st S_DECODE 0 ec ad rx out t (cycle run_cpu f b)"
    and "op = OpDbgRun \<Longrightarrow> st S_DISABLED 0 ec ad rx out (t\<lparr>t_halted := False\<rparr>) (cycle run_cpu f b)"
    and "op = OpCpuRegRd \<Longrightarrow> st S_CPU_REG_RD 0 ec ad rx out t (cycle run_cpu f b)"
    and "op = OpCpuRegWr \<Longrightarrow> st S_CPU_REG_WR_STG_0 0 ec ad rx out t (cycle run_cpu f b)"
    and "op = OpQueryHlt \<Longrightarrow> st S_DECODE 0 ec ad rx (out @ [1]) t (cycle run_cpu f b)"
    and "op = OpQueryErrCode \<Longrightarrow> st S_QUERY_ERR_CODE 0 ec ad rx out t (cycle run_cpu f b)"
    and "op = OpPpuMemRd \<Longrightarrow> st S_PPU_MEM_RD_STG_0 0 ec ad rx out t (cycle run_cpu f b)"
    and "op = OpPpuMemWr \<Longrightarrow> st S_PPU_MEM_WR_STG_0 0 ec ad rx out t (cycle run_cpu f b)"
    and "op = OpPpuDisable \<Longrightarrow> st S_PPU_DISABLE 0 ec ad rx out t (cycle run_cpu f b)"
    and "op = OpCartSetCfg \<Longrightarrow> st S_CART_SET_CFG_STG_0 0 ec ad rx out t (cycle run_cpu f b)"
  by (rule c_goal[OF assms]; simp add: c_eval hci_decode_def)+

lemma c_decode_idle:
  assumes "st S_DECODE dc ec ad [] out t b"
  shows "st S_DECODE dc ec ad [] out t (cycle run_cpu f b)"
  by (rule c_goal[OF assms]; simp add: c_eval hci_decode_def)

lemma c_decode_bad:
  assumes "st S_DECODE dc ec ad (x # rx) out t b" and "x \<notin> range opcode"
  shows "st S_DECODE 0 ec ad rx out (t\<lparr>t_err := t_err t OR 2\<rparr>) (cycle run_cpu f b)"
proof -
  have "x \<noteq> opcode op" for op using assms(2) by blast
  from this[of OpEcho] this[of OpCpuMemRd] this[of OpCpuMemWr] this[of OpDbgHlt] this[of OpDbgRun]
    this[of OpCpuRegRd] this[of OpCpuRegWr] this[of OpQueryHlt] this[of OpQueryErrCode]
    this[of OpPpuMemRd] this[of OpPpuMemWr] this[of OpPpuDisable] this[of OpCartSetCfg]
  show ?thesis
    by (intro c_goal[OF assms(1)]) (simp_all add: c_eval hci_decode_def)
qed

lemma c_echo_0:
  "st S_ECHO_STG_0 0 ec ad (lo # rx) out t b \<Longrightarrow>
   st S_ECHO_STG_0 1 (ucast lo) ad rx out t (cycle run_cpu f b)"
  "st S_ECHO_STG_0 1 (ucast lo) ad (hi # rx) out t b \<Longrightarrow>
   st (if (ucast (le16 lo hi) :: 17 word) \<noteq> 0 then S_ECHO_STG_1 else S_DECODE)
     2 (ucast (le16 lo hi)) ad rx out t (cycle run_cpu f b)"
  by (erule c_goal; simp add: c_eval hci_echo_0_def)+

lemma c_echo_1:
  "st S_ECHO_STG_1 dc ec ad (x # rx) out t b \<Longrightarrow>
   st (if ec = 1 then S_DECODE else S_ECHO_STG_1) dc (ec - 1) ad rx (out @ [x]) t (cycle run_cpu f b)"
  by (erule c_goal; simp add: c_eval hci_echo_1_def)

text \<open>The header the memory packets share, and its last cycle with the plain or doubled count.\<close>

definition data_stage :: "hci_state \<Rightarrow> hci_state" where
  "data_stage s = (if s = S_CPU_MEM_RD_STG_0 then S_CPU_MEM_RD_STG_1
     else if s = S_CPU_MEM_WR_STG_0 then S_CPU_MEM_WR_STG_1
     else if s = S_PPU_MEM_RD_STG_0 then S_PPU_MEM_RD_STG_1
     else S_PPU_MEM_WR_STG_1)"

definition doubled :: "hci_state \<Rightarrow> bool" where
  "doubled s \<longleftrightarrow> s = S_CPU_MEM_RD_STG_0 \<or> s = S_PPU_MEM_RD_STG_0"

definition mem_hdr :: "hci_state \<Rightarrow> bool" where
  "mem_hdr s \<longleftrightarrow> doubled s \<or> s = S_CPU_MEM_WR_STG_0 \<or> s = S_PPU_MEM_WR_STG_0"

lemma hci_comb_mem_0:
  assumes "mem_hdr (q_state q)"
  shows "hci_comb i q = hci_mem_0 (doubled (q_state q)) (data_stage (q_state q)) i q (default_next i q)"
  using assms by (auto simp: hci_comb_def mem_hdr_def data_stage_def doubled_def)

lemma mem_hdr_active: "mem_hdr s \<Longrightarrow> s \<noteq> S_DISABLED"
  by (auto simp: mem_hdr_def doubled_def)

lemmas m_eval =
  hci_comb_mem_0 hci_mem_0_def hci_input_def rx_front_def hci_active_def default_next_def out0_def
  bus_effect_def target_upd target_id mem_hdr_active Let_def

lemma c_mem_0:
  assumes "mem_hdr s"
  shows "st s 0 ec ad (x # rx) out t b \<Longrightarrow> st s 1 ec (ucast x) rx out t (cycle run_cpu f b)"
    and "st s 1 ec (ucast lo) (x # rx) out t b \<Longrightarrow> st s 2 ec (le16 lo x) rx out t (cycle run_cpu f b)"
    and "st s 2 ec ad (x # rx) out t b \<Longrightarrow> st s 3 (ucast x) ad rx out t (cycle run_cpu f b)"
  using assms by - (erule c_goal; simp add: m_eval)+

lemma data_stage_active: "data_stage s \<noteq> S_DISABLED"
  by (simp add: data_stage_def)

lemma c_mem_0_last:
  assumes "mem_hdr s" and "st s 3 (ucast lo) ad (hi # rx) out t b"
    and "cnt = (if doubled s then push_bit 1 (ucast (le16 lo hi)) else ucast (le16 lo hi) :: 17 word)"
  shows "st (if cnt \<noteq> 0 then data_stage s else S_DECODE) 4 cnt ad rx out t (cycle run_cpu f b)"
  using assms(1,3) by (intro c_goal[OF assms(2)]) (simp_all add: m_eval data_stage_active)

lemma c_cpu_wr:
  "st S_CPU_MEM_WR_STG_1 dc ec ad (x # rx) out t b \<Longrightarrow>
   st (if ec = 1 then S_DECODE else S_CPU_MEM_WR_STG_1) dc (ec - 1) (ad + 1) rx out (t_cpu_wr ad x t)
     (cycle run_cpu f b)"
  by (erule c_goal; simp add: c_eval hci_mem_wr_1_def t_cpu_wr_def)

lemma c_ppu_wr:
  "st S_PPU_MEM_WR_STG_1 dc ec ad (x # rx) out t b \<Longrightarrow>
   st (if ec = 1 then S_DECODE else S_PPU_MEM_WR_STG_1) dc (ec - 1) (ad + 1) rx out (t_ppu_wr ad x t)
     (cycle run_cpu f b)"
  by (erule c_goal; simp add: c_eval hci_mem_wr_1_def t_ppu_wr_def)

lemma c_reg_rd:
  "st S_CPU_REG_RD dc ec ad (r # rx) out t b \<Longrightarrow>
   st S_DECODE dc ec ad rx (out @ [dbgreg_out (t_cpu t) (ucast r)]) t (cycle run_cpu False b)"
  "st S_CPU_REG_RD dc ec ad (r # rx) out t b \<Longrightarrow>
   st S_CPU_REG_RD dc ec ad (r # rx) out t (cycle run_cpu True b)"
  by (erule c_goal; simp add: c_eval hci_reg_rd_def)+

lemma c_reg_wr:
  "st S_CPU_REG_WR_STG_0 dc ec ad (r # rx) out t b \<Longrightarrow>
   st S_CPU_REG_WR_STG_1 dc ec (ucast r) rx out t (cycle run_cpu f b)"
  "st S_CPU_REG_WR_STG_1 dc ec (ucast r) (v # rx) out t b \<Longrightarrow>
   st S_DECODE dc ec (ucast r) rx out (t\<lparr>t_cpu := dbgreg_write (ucast r) v (t_cpu t)\<rparr>)
     (cycle run_cpu f b)"
  by (erule c_goal; simp add: c_eval hci_reg_wr_0_def hci_reg_wr_1_def)+

lemma c_query_err:
  "st S_QUERY_ERR_CODE dc ec ad rx out t b \<Longrightarrow>
   st S_DECODE dc ec ad rx (out @ [ucast (t_err t)]) t (cycle run_cpu False b)"
  "st S_QUERY_ERR_CODE dc ec ad rx out t b \<Longrightarrow>
   st S_QUERY_ERR_CODE dc ec ad rx out t (cycle run_cpu True b)"
  by (erule c_goal; simp add: c_eval hci_query_err_def)+

lemma ri_not_ram: "\<not> wram_en 0x2000" "\<not> wram_en 0x2001" "\<not> bit (0x2000 :: 16 word) 15" "\<not> bit (0x2001 :: 16 word) 15"
  by (simp_all add: wram_en_def bit_numeral_rec)

lemma c_ppu_disable:
  "st S_PPU_DISABLE 0 ec ad rx out t b \<Longrightarrow> st S_PPU_DISABLE 1 ec 0x2000 rx out t (cycle run_cpu f b)"
  "st S_PPU_DISABLE 1 ec 0x2000 rx out t b \<Longrightarrow> st S_PPU_DISABLE 2 ec 0 rx out t (cycle run_cpu f b)"
  "st S_PPU_DISABLE 2 ec ad rx out t b \<Longrightarrow> st S_PPU_DISABLE 3 ec 0x2001 rx out t (cycle run_cpu f b)"
  "st S_PPU_DISABLE 3 ec 0x2001 rx out t b \<Longrightarrow> st S_PPU_DISABLE 4 ec 0 rx out t (cycle run_cpu f b)"
  "st S_PPU_DISABLE 4 ec ad rx out t b \<Longrightarrow> st S_PPU_DISABLE 5 ec 0x2002 rx out t (cycle run_cpu f b)"
  "st S_PPU_DISABLE 5 ec ad rx out t b \<Longrightarrow> st S_DECODE 6 ec 0 rx out t (cycle run_cpu f b)"
  by (erule c_goal; simp add: c_eval hci_ppu_disable_def t_cpu_wr_def ri_not_ram)+

lemma c_cart_0:
  "st S_CART_SET_CFG_STG_0 dc ec ad rx out t b \<Longrightarrow>
   st S_CART_SET_CFG_STG_1 dc 4 ad rx out t (cycle run_cpu f b)"
  by (erule c_goal; simp add: c_eval hci_cart_0_def)

lemma c_cart_1:
  "st S_CART_SET_CFG_STG_1 dc ec ad (x # rx) out t b \<Longrightarrow>
   st (if ec = 0 then S_DECODE else S_CART_SET_CFG_STG_1) dc (ec - 1) ad rx out
     (t\<lparr>t_cfg := push_bit 8 (t_cfg t) OR ucast x\<rparr>) (cycle run_cpu f b)"
  by (erule c_goal; simp add: c_eval hci_cart_1_def)



text \<open>The read stages: a cycle to latch the address, then one that takes the data.\<close>

definition rd_stage :: "hci_state \<Rightarrow> bool" where
  "rd_stage s \<longleftrightarrow> s = S_CPU_MEM_RD_STG_1 \<or> s = S_PPU_MEM_RD_STG_1"

lemma hci_comb_rd:
  assumes "rd_stage (q_state q)"
  shows "hci_comb i q =
    hci_mem_rd_1 (if q_state q = S_CPU_MEM_RD_STG_1 then cpu_din i else ppu_vram_din i) i q (default_next i q)"
  using assms by (auto simp: hci_comb_def rd_stage_def)

lemma rd_stage_active: "rd_stage s \<Longrightarrow> s \<noteq> S_DISABLED"
  by (auto simp: rd_stage_def)

lemmas r_eval =
  hci_comb_rd hci_mem_rd_1_def hci_input_def hci_active_def default_next_def out0_def
  bus_effect_def target_upd target_id rd_stage_active Let_def

lemma latched_cycle:
  assumes "hci_active (hci b)" and "q_cart_cfg (hci (cycle run_cpu f b)) = q_cart_cfg (hci b)"
  shows "latched (q_addr (hci b)) (cycle run_cpu f b)"
  using assms by (simp add: latched_def cycle_active bus_clk_def ram_clk_def Let_def)

lemma st_latched:
  assumes "st s dc ec ad rx out t b" and "s \<noteq> S_DISABLED"
    and "st s' dc' ec' ad' rx' out' t' (cycle run_cpu f b)" and "t_cfg t' = t_cfg t"
  shows "latched ad (cycle run_cpu f b)"
proof -
  have "q_cart_cfg (hci (cycle run_cpu f b)) = t_cfg t'" using assms(3) by (auto simp: st_def)
  then show ?thesis using st_fields[OF assms(1,2)] latched_cycle[of b run_cpu f] assms(2,4)
    by (simp add: hci_active_def)
qed

lemma c_rd_dummy:
  assumes "rd_stage s" and "even ec" and "st s dc ec ad rx out t b"
  shows "st s dc (ec - 1) ad rx out t (cycle run_cpu f b)"
  using assms(1,2) by (intro c_goal[OF assms(3)]) (simp_all add: r_eval)

lemma c_rd_full:
  assumes "rd_stage s" and "odd ec" and "st s dc ec ad rx out t b"
  shows "st s dc ec ad rx out t (cycle run_cpu True b)"
  using assms(1,2) by (intro c_goal[OF assms(3)]) (simp_all add: r_eval)

lemma cpu_bus_din_latched:
  assumes "latched ad b" and "ri_ncs ad"
  shows "cpu_bus_din ad True (con b) = t_cpu_rd (abs_board b) ad"
  using assms by (auto simp: cpu_bus_din_def t_cpu_rd_def latched_def abs_board_def ram_dout_def
      prg_nce_def dest: wram_en_bit)

lemma ppu_bus_din_latched:
  assumes "latched ad b"
  shows "ppu_bus_din ad (con b) = t_ppu_rd (abs_board b) ad"
  using assms by (auto simp: ppu_bus_din_def t_ppu_rd_def latched_def abs_board_def ram_dout_def
      ciram_nce_def)

text \<open>What the read stage \<open>s\<close> reads, and the addresses it may read.\<close>

definition rd_of :: "hci_state \<Rightarrow> target \<Rightarrow> 16 word \<Rightarrow> byte" where
  "rd_of s = (if s = S_CPU_MEM_RD_STG_1 then t_cpu_rd else t_ppu_rd)"

definition rd_ok :: "hci_state \<Rightarrow> 16 word \<Rightarrow> bool" where
  "rd_ok s ad \<longleftrightarrow> s = S_CPU_MEM_RD_STG_1 \<longrightarrow> ri_ncs ad"

lemma c_rd_data:
  assumes "rd_stage s" and "odd ec" and "st s dc ec ad rx out t b" and "latched ad b" and "rd_ok s ad"
  shows "st (if ec = 1 then S_DECODE else s) dc (ec - 1) (ad + 1) rx (out @ [rd_of s t ad]) t
    (cycle run_cpu False b)"
proof -
  have t: "abs_board b = t" using assms(3) by (simp add: st_def)
  have c: "cpu_bus_din ad True (con b) = t_cpu_rd t ad" if "s = S_CPU_MEM_RD_STG_1"
    using cpu_bus_din_latched[OF assms(4)] assms(5) that by (simp add: t rd_ok_def)
  have p: "ppu_bus_din ad (con b) = t_ppu_rd t ad"
    using ppu_bus_din_latched[OF assms(4)] by (simp add: t)
  show ?thesis using assms(1,2) c p
    by (intro c_goal[OF assms(3)]) (simp_all add: r_eval rd_of_def)
qed

section \<open>Runs\<close>

definition fair :: "(nat \<Rightarrow> bool) \<Rightarrow> bool" where
  "fair full \<longleftrightarrow> (\<forall>m. \<exists>n\<ge>m. \<not> full n)"

lemma fair_shift: "fair full \<Longrightarrow> fair (\<lambda>i. full (k + i))"
proof (unfold fair_def, intro allI)
  fix m assume "\<forall>m. \<exists>n\<ge>m. \<not> full n"
  then obtain n where "n \<ge> k + m" "\<not> full n" by blast
  then have "m \<le> n - k \<and> \<not> full (k + (n - k))" by simp
  then show "\<exists>n\<ge>m. \<not> full (k + n)" by blast
qed

lemma run_add: "run rc full (m + n) b = run rc (\<lambda>i. full (m + i)) n (run rc full m b)"
  by (induction m arbitrary: full b) simp_all

end
