(* ===== verification/Arrivals.thy ===== *)
theory Arrivals
  imports Board
begin

text \<open>
  Bytes that arrive while the board runs. A run has two schedules: in which cycles the transmit FIFO is
  full, and in which none of the bytes still to come arrives. A state of the HCI that needs a byte waits for it,
  the others go on; so what a packet leads to does not depend on when its bytes come, and the runs in
  which all of them are there from the start are a special case.
\<close>

section \<open>Arrivals\<close>

definition receive :: "byte list \<Rightarrow> board \<Rightarrow> board" where
  "receive bs b = b\<lparr>rxq := rxq b @ bs\<rparr>"

text \<open>A board and the bytes still to come.\<close>

definition arrive :: "bool \<Rightarrow> board \<times> byte list \<Rightarrow> board \<times> byte list" where
  "arrive a s = (if a then (receive (take 1 (snd s)) (fst s), drop 1 (snd s)) else s)"

fun arun :: "(console \<Rightarrow> console \<times> bool) \<Rightarrow> (nat \<Rightarrow> bool) \<Rightarrow> (nat \<Rightarrow> bool) \<Rightarrow> nat \<Rightarrow> board \<times> byte list \<Rightarrow> board \<times> byte list" where
  "arun rc full late 0 s = s"
| "arun rc full late (Suc n) s =
     arun rc (\<lambda>i. full (Suc i)) (\<lambda>i. late (Suc i)) n (apfst (cycle rc (full 0)) (arrive (\<not> late 0) s))"

text \<open>The board as it would be with all of them there.\<close>

definition total :: "board \<times> byte list \<Rightarrow> board" where
  "total s = receive (snd s) (fst s)"

lemma receive_sels [simp]:
  "hci (receive bs b) = hci b" "con (receive bs b) = con b" "rxq (receive bs b) = rxq b @ bs"
  "sent (receive bs b) = sent b" "abs_board (receive bs b) = abs_board b"
  by (simp_all add: receive_def sent_def abs_board_def)

lemma receive_Nil [simp]: "receive [] b = b"
  by (simp add: receive_def)

lemma total_arrive [simp]: "total (arrive a s) = total s"
  by (cases s, cases "snd s") (simp_all add: total_def arrive_def receive_def)

lemma arun_add:
  "arun rc full late (m + n) s = arun rc (\<lambda>i. full (m + i)) (\<lambda>i. late (m + i)) n (arun rc full late m s)"
  by (induction m arbitrary: full late s) simp_all

lemma arun_run: "arun rc full late n (b, []) = (run rc full n b, [])"
  by (induction n arbitrary: full late b) (simp_all add: arrive_def)

lemma arun_Suc:
  "arun rc full late (Suc n) s = apfst (cycle rc (full n)) (arrive (\<not> late n) (arun rc full late n s))"
  using arun_add[of rc full late n 1 s] by simp

section \<open>Runs\<close>

text \<open>
  From every board with \<open>P\<close>, under every environment that is fair on both schedules, a board with \<open>Q\<close> is
  reached. Both speak of the board with all its bytes there.
\<close>

definition leads :: "(console \<Rightarrow> console \<times> bool) \<Rightarrow> (board \<Rightarrow> bool) \<Rightarrow> (board \<Rightarrow> bool) \<Rightarrow> bool" where
  "leads rc P Q \<longleftrightarrow>
     (\<forall>full late s. fair full \<longrightarrow> fair late \<longrightarrow> P (total s) \<longrightarrow> (\<exists>n. Q (total (arun rc full late n s))))"

lemma leads_weaken: "(\<And>b. P b \<Longrightarrow> Q b) \<Longrightarrow> leads rc P Q"
  unfolding leads_def by (metis arun.simps(1))

lemma leads_refl: "leads rc P P"
  by (rule leads_weaken)

lemma leads_trans: "leads rc P Q \<Longrightarrow> leads rc Q R \<Longrightarrow> leads rc P R"
  unfolding leads_def by (metis arun_add fair_shift)

lemma leads_Ex: "(\<And>x. leads rc (P x) Q) \<Longrightarrow> leads rc (\<lambda>b. \<exists>x. P x b) Q"
  unfolding leads_def by blast

lemma leads_disj: "leads rc P Q \<Longrightarrow> leads rc P' Q \<Longrightarrow> leads rc (\<lambda>b. P b \<or> P' b) Q"
  unfolding leads_def by blast

text \<open>All bytes there from the start.\<close>

lemma leads_run: "leads rc P Q \<Longrightarrow> fair full \<Longrightarrow> P b \<Longrightarrow> \<exists>n. Q (run rc full n b)"
  using arun_run[of rc full full _ b] unfolding leads_def total_def by (metis fst_conv receive_Nil snd_conv)

text \<open>
  The rule behind all steps: as long as \<open>P\<close> is not left for \<open>Q\<close> no byte is taken, so a byte that has
  come stays; and with a byte there (or none to come) and the FIFO not full, \<open>P\<close> is left.
\<close>

lemma leads_await:
  assumes rx: "\<And>b. P b \<Longrightarrow> rxq b = rx"
    and stay: "\<And>b bs f. P (receive bs b) \<Longrightarrow> P (receive bs (cycle rc f b)) \<or> Q (receive bs (cycle rc f b))"
    and go: "\<And>b bs. P (receive bs b) \<Longrightarrow> rxq b \<noteq> [] \<or> bs = [] \<Longrightarrow> Q (receive bs (cycle rc False b))"
  shows "leads rc P Q"
  unfolding leads_def
proof (intro allI impI, rule ccontr)
  fix full late s assume f: "fair full" "fair late" and P: "P (total s)"
    and none: "\<not> (\<exists>n. Q (total (arun rc full late n s)))"
  let ?s = "\<lambda>n. arun rc full late n s"
  let ?m = "\<lambda>n. arrive (\<not> late n) (?s n)"
  have suc: "?s (Suc n) = (cycle rc (full n) (fst (?m n)), snd (?m n))" for n
    by (simp only: arun_Suc) (simp add: apfst_def map_prod_def split_beta)
  have all: "P (total (?s n))" for n
  proof (induction n)
    case (Suc n)
    then have "P (receive (snd (?m n)) (fst (?m n)))" using total_arrive[of "\<not> late n" "?s n"] by (simp add: total_def)
    from stay[OF this, of "full n"] none show ?case unfolding suc total_def fst_conv snd_conv by (metis suc total_def fst_conv snd_conv)
  qed (simp add: P)
  have mid: "P (receive (snd (?m n)) (fst (?m n)))" for n
    using all[of n] total_arrive[of "\<not> late n" "?s n"] by (simp add: total_def)
  have keep: "rxq (fst (?s (Suc n))) = rxq (fst (?m n))" for n
    using rx[OF mid[of n]] rx[OF all[of "Suc n"]] unfolding suc by (simp add: total_def) (metis append_same_eq)
  have there: "rxq (fst (?m n)) \<noteq> [] \<or> snd (?m n) = []" if "k \<le> n" "\<not> late k" for k n
    using that(1)
  proof (induction n rule: dec_induct)
    case base
    then show ?case using that(2) by (cases "snd (?s k)") (simp_all add: arrive_def)
  next
    case (step n)
    then have "rxq (fst (?s (Suc n))) \<noteq> [] \<or> snd (?s (Suc n)) = []" unfolding keep using suc by simp
    then show ?case by (auto simp: arrive_def)
  qed
  obtain k where "\<not> late k" using f(2) unfolding fair_def by blast
  moreover obtain n where "k \<le> n" "\<not> full n" using f(1) unfolding fair_def by blast
  ultimately have "Q (receive (snd (?m n)) (cycle rc (full n) (fst (?m n))))" using go[OF mid there] by simp
  with none suc[of n] show False unfolding total_def by (metis fst_conv snd_conv)
qed

section \<open>Steps\<close>

lemma st_receive: "st s dc ec ad (rxq b @ bs) out t (receive bs b) \<longleftrightarrow> st s dc ec ad (rxq b) out t b"
  by (simp add: st_def)

lemma st_total: "st s dc ec ad rx out t (receive bs b) \<longleftrightarrow> rx = rxq b @ bs \<and> st s dc ec ad (rxq b) out t b"
  by (auto simp: st_def)

lemma latched_receive [simp]: "latched ad (receive bs b) \<longleftrightarrow> latched ad b"
  by (simp add: latched_def)

text \<open>With a byte at the front, later ones make no difference to a cycle.\<close>

lemma cycle_receive:
  assumes "rxq b \<noteq> []"
  shows "cycle rc f (receive bs b) = receive bs (cycle rc f b)"
proof -
  have "rx_front (receive bs b) = rx_front b" using assms by (cases "rxq b") (simp_all add: rx_front_def)
  then have "hci_input f k (receive bs b) = hci_input f k b" for k using assms by (simp add: hci_input_def)
  then show ?thesis using assms
    by (simp add: cycle_def Let_def split_beta) (simp add: receive_def)
qed

text \<open>The states of the HCI that take a byte wait for it.\<close>

definition takes :: "hci_state \<Rightarrow> bool" where
  "takes s \<longleftrightarrow> s \<notin> {S_DISABLED, S_CPU_MEM_RD_STG_1, S_PPU_MEM_RD_STG_1, S_QUERY_ERR_CODE, S_PPU_DISABLE,
     S_CART_SET_CFG_STG_0}"

lemma c_stall:
  assumes "takes s" and "st s dc ec ad [] out t b"
  shows "st s dc ec ad [] out t (cycle rc f b)"
  using assms(1)
  by (intro c_goal[OF assms(2)]; cases s) (simp_all add: takes_def c_eval hci_states)

lemma leads_take_wait:
  assumes "takes s" and stay: "\<And>b. st s dc ec ad (x # rx) out t b \<Longrightarrow>
      st s dc ec ad (x # rx) out t (cycle rc True b) \<or> Q (cycle rc True b)"
    and go: "\<And>b. st s dc ec ad (x # rx) out t b \<Longrightarrow> Q (cycle rc False b)"
  shows "leads rc (st s dc ec ad (x # rx) out t) Q"
proof (rule leads_await)
  let ?P = "st s dc ec ad (x # rx) out t"
  fix b bs assume b: "?P (receive bs b)"
  show "Q (receive bs (cycle rc False b))" if "rxq b \<noteq> [] \<or> bs = []"
  proof -
    have "rxq b \<noteq> []" using that b by (auto simp: st_def)
    then show ?thesis using go[OF b] cycle_receive by metis
  qed
  show "?P (receive bs (cycle rc f b)) \<or> Q (receive bs (cycle rc f b))" for f
  proof (cases "rxq b = []")
    case True
    then show ?thesis using b c_stall[OF assms(1), of dc ec ad out t b rc f] by (auto simp: st_def)
  next
    case False
    then show ?thesis using stay[OF b] go[OF b] cycle_receive[OF False, of rc f bs] by (cases f) metis+
  qed
qed (simp add: st_def)

lemma leads_take:
  assumes "takes s" and "\<And>b f. st s dc ec ad (x # rx) out t b \<Longrightarrow> Q (cycle rc f b)"
  shows "leads rc (st s dc ec ad (x # rx) out t) Q"
  using assms by (intro leads_take_wait) auto

text \<open>The other states go on without a look at what has come; they may wait for the transmit FIFO.\<close>

definition rx_free :: "(byte list \<Rightarrow> board \<Rightarrow> bool) \<Rightarrow> bool" where
  "rx_free P \<longleftrightarrow> (\<forall>rx bs b. P rx (receive bs b) \<longleftrightarrow> rx = rxq b @ bs \<and> P (rxq b) b)"

lemma rx_free_st: "rx_free (\<lambda>rx. st s dc ec ad rx out t)"
  by (auto simp: rx_free_def st_total)

lemma rx_free_latched: "rx_free (\<lambda>rx b. st s dc ec ad rx out t b \<and> latched ad' b)"
  by (auto simp: rx_free_def st_total)

lemma leads_wait:
  assumes P: "rx_free P" and Q: "rx_free Q"
    and stay: "\<And>rx b. P rx b \<Longrightarrow> P rx (cycle rc True b)" and go: "\<And>rx b. P rx b \<Longrightarrow> Q rx (cycle rc False b)"
  shows "leads rc (P rx) (Q rx)"
proof (rule leads_await)
  have rxq: "rxq b = rx" if "P rx b" for rx b using P that receive_Nil[of b] unfolding rx_free_def by (metis append_Nil2)
  have rxq': "rxq b = rx" if "Q rx b" for rx b using Q that receive_Nil[of b] unfolding rx_free_def by (metis append_Nil2)
  show "P rx b \<Longrightarrow> rxq b = rx" for b by (rule rxq)
  fix b bs assume b: "P rx (receive bs b)"
  then have b': "rx = rxq b @ bs" "P (rxq b) b" using P unfolding rx_free_def by simp_all
  have q: "Q rx (receive bs (cycle rc False b))"
    using go[OF b'(2)] rxq'[OF go[OF b'(2)]] Q b'(1) unfolding rx_free_def by simp
  then show "Q rx (receive bs (cycle rc False b))" .
  have "P rx (receive bs (cycle rc True b))"
    using stay[OF b'(2)] rxq[OF stay[OF b'(2)]] P b'(1) unfolding rx_free_def by simp
  with q show "P rx (receive bs (cycle rc f b)) \<or> Q rx (receive bs (cycle rc f b))" for f by (cases f) simp_all
qed

lemma leads_free:
  assumes "rx_free P" and "rx_free Q" and "\<And>rx b f. P rx b \<Longrightarrow> Q rx (cycle rc f b)"
  shows "leads rc (P rx) (Q rx)"
proof (rule leads_await)
  have rxq: "rxq b = rx" if "P rx b" for rx b using assms(1) that receive_Nil[of b] unfolding rx_free_def by (metis append_Nil2)
  have rxq': "rxq b = rx" if "Q rx b" for rx b using assms(2) that receive_Nil[of b] unfolding rx_free_def by (metis append_Nil2)
  show "P rx b \<Longrightarrow> rxq b = rx" for b by (rule rxq)
  fix b bs assume b: "P rx (receive bs b)"
  then have b': "rx = rxq b @ bs" "P (rxq b) b" using assms(1) unfolding rx_free_def by simp_all
  have "Q rx (receive bs (cycle rc f b))" for f
    using assms(3)[OF b'(2)] rxq'[OF assms(3)[OF b'(2)]] assms(2) b'(1) unfolding rx_free_def by simp
  then show "P rx (receive bs (cycle rc f b)) \<or> Q rx (receive bs (cycle rc f b))" "Q rx (receive bs (cycle rc False b))" for f
    by simp_all
qed

lemma leads_st:
  assumes "\<And>rx b f. st s dc ec ad rx out t b \<Longrightarrow> st s' dc' ec' ad' rx out' t' (cycle rc f b)"
  shows "leads rc (st s dc ec ad rx out t) (st s' dc' ec' ad' rx out' t')"
  using leads_free[OF rx_free_st rx_free_st, OF assms] .

end
