(* ===== verification/Hci_Packets.thy ===== *)
theory Hci_Packets
  imports Arrivals
begin

text \<open>
  The packets of the protocol on the board: every one is executed, in finitely many cycles, as the
  abstract target of theory \<open>Target\<close> executes its command; what the HCI does with bytes that
  arrive while the console runs; what PPU_DISABLE does on the PPU's register interface.
\<close>

section \<open>Packets\<close>

definition at_decode :: "byte list \<Rightarrow> byte list \<Rightarrow> target \<Rightarrow> board \<Rightarrow> bool" where
  "at_decode rx out t b \<longleftrightarrow> (\<exists>dc ec ad. st S_DECODE dc ec ad rx out t b)"

lemma at_decodeI: "st S_DECODE dc ec ad rx out t b \<Longrightarrow> at_decode rx out t b"
  by (auto simp: at_decode_def)

lemma leads_decode: "leads rc (st S_DECODE dc ec ad rx out t) (at_decode rx out t)"
  by (intro leads_weaken at_decodeI)

lemma cnt_zero: "k < 131072 \<Longrightarrow> (of_nat k :: 17 word) = 0 \<longleftrightarrow> k = 0"
  by (auto simp: word_of_nat_eq_0_iff dest: dvd_imp_le)

lemma cnt_one: "k < 131072 \<Longrightarrow> (of_nat (Suc k) :: 17 word) = 1 \<longleftrightarrow> k = 0"
  using cnt_zero[of k] by simp

text \<open>
  A stage \<open>s\<close> that takes one received byte per cycle: \<open>g\<close> gives the bytes it sends and the new
  target for a byte at an address. Its run over \<open>ds\<close> is the fold of \<open>g\<close>.
\<close>

lemma leads_bytes:
  assumes tk: "takes s" and cyc: "\<And>dc ec ad x rx out t b f. st s dc ec ad (x # rx) out t b \<Longrightarrow>
      st (if ec = 1 then S_DECODE else s) dc (ec - 1) (nxt ad) rx (out @ snd_x x) (upd ad x t) (cycle rc f b)"
    and "ds \<noteq> []" and "length ds < 65536"
    and wr_nil: "\<And>ad t. wr ad [] t = t"
    and wr_cons: "\<And>ad x xs t. wr ad (x # xs) t = wr (nxt ad) xs (upd ad x t)"
  shows "leads rc (st s dc (of_nat (length ds)) ad (ds @ rest) out t)
    (at_decode rest (out @ concat (map snd_x ds)) (wr ad ds t))"
  using assms(3,4)
proof (induction ds arbitrary: ad out t)
  case (Cons x xs)
  have one: "(of_nat (length (x # xs)) :: 17 word) = 1 \<longleftrightarrow> xs = []"
    using cnt_one[of "length xs"] Cons.prems by simp
  have step: "leads rc (st s dc (of_nat (length (x # xs))) ad ((x # xs) @ rest) out t)
      (st (if xs = [] then S_DECODE else s) dc (of_nat (length xs)) (nxt ad) (xs @ rest) (out @ snd_x x) (upd ad x t))"
    unfolding append_Cons
  proof (rule leads_take[OF tk])
    fix b f assume "st s dc (of_nat (length (x # xs))) ad (x # xs @ rest) out t b"
    from cyc[OF this, of f] one
    show "st (if xs = [] then S_DECODE else s) dc (of_nat (length xs)) (nxt ad) (xs @ rest) (out @ snd_x x)
        (upd ad x t) (cycle rc f b)"
      by simp
  qed
  show ?case
  proof (cases "xs = []")
    case True
    then show ?thesis using step
      by (intro leads_trans[OF step] leads_weaken) (auto simp: wr_nil wr_cons intro: at_decodeI)
  next
    case False
    then show ?thesis using leads_trans[OF step, of "at_decode rest (out @ snd_x x @ concat (map snd_x xs)) (wr (nxt ad) xs (upd ad x t))"]
        Cons.IH[of "nxt ad" "out @ snd_x x" "upd ad x t"] Cons.prems by (simp add: wr_cons)
  qed
qed simp

lemma concat_map_Nil [simp]: "concat (map (\<lambda>x. []) xs) = []"
  by (induction xs) simp_all

lemma leads_echo_data:
  assumes "ds \<noteq> []" and "length ds < 65536"
  shows "leads rc (st S_ECHO_STG_1 dc (of_nat (length ds)) ad (ds @ rest) out t) (at_decode rest (out @ ds) t)"
  using leads_bytes[of S_ECHO_STG_1 "\<lambda>a. a" "\<lambda>x. [x]" "\<lambda>a x t. t" rc ds "\<lambda>a xs t. t" dc ad rest out t,
      OF _ _ assms] c_echo_1 by (simp add: takes_def)

lemma leads_cpu_wr:
  assumes "ds \<noteq> []" and "length ds < 65536"
  shows "leads rc (st S_CPU_MEM_WR_STG_1 dc (of_nat (length ds)) ad (ds @ rest) out t)
    (at_decode rest out (wr_block t_cpu_wr ad ds t))"
  using leads_bytes[of S_CPU_MEM_WR_STG_1 "\<lambda>a. a + 1" "\<lambda>x. []" t_cpu_wr rc ds "wr_block t_cpu_wr" dc ad
      rest out t, OF _ _ assms] c_cpu_wr by (simp add: takes_def)

lemma leads_ppu_wr:
  assumes "ds \<noteq> []" and "length ds < 65536"
  shows "leads rc (st S_PPU_MEM_WR_STG_1 dc (of_nat (length ds)) ad (ds @ rest) out t)
    (at_decode rest out (wr_block t_ppu_wr ad ds t))"
  using leads_bytes[of S_PPU_MEM_WR_STG_1 "\<lambda>a. a + 1" "\<lambda>x. []" t_ppu_wr rc ds "wr_block t_ppu_wr" dc ad
      rest out t, OF _ _ assms] c_ppu_wr by (simp add: takes_def)

text \<open>The read loop.\<close>

lemma leads_rd_one:
  assumes s: "rd_stage s" and k: "k < 65536" and ok: "rd_ok s ad"
  shows "leads rc (st s dc (of_nat (2 * Suc k)) ad rx out t)
    (st (if k = 0 then S_DECODE else s) dc (of_nat (2 * k)) (ad + 1) rx (out @ [rd_of s t ad]) t)"
proof -
  let ?ec = "of_nat (Suc (2 * k)) :: 17 word"
  have odd: "odd ?ec" and even: "even (of_nat (2 * Suc k) :: 17 word)"
    and ec: "(of_nat (2 * Suc k) :: 17 word) - 1 = ?ec" and ec': "?ec - 1 = of_nat (2 * k)"
    and one: "?ec = 1 \<longleftrightarrow> k = 0"
    using cnt_one[of "2 * k"] k by (simp_all only: even_of_nat_iff) auto
  let ?M = "\<lambda>rx b. st s dc ?ec ad rx out t b \<and> latched ad b"
  have "leads rc (st s dc (of_nat (2 * Suc k)) ad rx out t) (?M rx)"
  proof (rule leads_free[OF rx_free_st rx_free_latched])
    fix rx b f assume b: "st s dc (of_nat (2 * Suc k)) ad rx out t b"
    from c_rd_dummy[OF s even b, of rc f] have "st s dc ?ec ad rx out t (cycle rc f b)" unfolding ec .
    with st_latched[OF b rd_stage_active[OF s] this] show "?M rx (cycle rc f b)" by simp
  qed
  moreover have "leads rc (?M rx)
      (st (if k = 0 then S_DECODE else s) dc (of_nat (2 * k)) (ad + 1) rx (out @ [rd_of s t ad]) t)"
  proof (rule leads_wait[OF rx_free_latched rx_free_st])
    fix rx b assume b: "?M rx b"
    with c_rd_full[OF s odd, of dc ad rx out t b rc] have "st s dc ?ec ad rx out t (cycle rc True b)" by blast
    with st_latched[OF _ rd_stage_active[OF s] this] b show "?M rx (cycle rc True b)" by blast
  next
    fix rx b assume b: "?M rx b"
    with c_rd_data[OF s odd, of dc ad rx out t b rc] ok
    show "st (if k = 0 then S_DECODE else s) dc (of_nat (2 * k)) (ad + 1) rx (out @ [rd_of s t ad]) t (cycle rc False b)"
      unfolding ec' one by blast
  qed
  ultimately show ?thesis by (rule leads_trans)
qed

lemma leads_rd:
  assumes s: "rd_stage s" and "k < 65536" and "\<And>i. i \<le> k \<Longrightarrow> rd_ok s (ad + of_nat i)"
  shows "leads rc (st s dc (of_nat (2 * Suc k)) ad rx out t)
    (at_decode rx (out @ rd_block (rd_of s) t ad (Suc k)) t)"
  using assms(2,3)
proof (induction k arbitrary: ad out)
  case 0
  have "leads rc (st S_DECODE dc 0 (ad + 1) rx (out @ [rd_of s t ad]) t) (at_decode rx (out @ [rd_of s t ad]) t)"
    by (intro leads_weaken at_decodeI)
  with leads_rd_one[OF s, of 0 ad rc dc rx out t] 0 show ?case by (auto elim!: leads_trans)
next
  case (Suc k)
  have ok: "rd_ok s ad" using Suc.prems(2)[of 0] by simp
  have "rd_ok s (ad + 1 + of_nat i)" if "i \<le> k" for i
    using Suc.prems(2)[of "Suc i"] that by (simp add: add.assoc)
  then have "leads rc (st s dc (of_nat (2 * Suc k)) (ad + 1) rx (out @ [rd_of s t ad]) t)
     (at_decode rx ((out @ [rd_of s t ad]) @ rd_block (rd_of s) t (ad + 1) (Suc k)) t)"
    using Suc.prems(1) by (intro Suc.IH) auto
  with leads_rd_one[OF s _ ok, of "Suc k" rc dc rx out t] Suc.prems(1) show ?case
    by (auto elim!: leads_trans)
qed


text \<open>The header of the memory packets.\<close>

lemma mem_hdr_takes: "mem_hdr s \<Longrightarrow> takes s"
  by (auto simp: mem_hdr_def doubled_def takes_def)

lemma leads_mem_hdr:
  assumes "mem_hdr s"
  shows "leads rc (st s 0 ec ad0 (bytes16 ad @ bytes16 n @ rx) out t)
    (st (if n \<noteq> 0 then data_stage s else S_DECODE) 4 (of_nat ((if doubled s then 2 else 1) * unat n)) ad rx out t)"
proof -
  let ?cnt = "of_nat ((if doubled s then 2 else 1) * unat n) :: 17 word"
  have n: "unat n < 65536" using unsigned_less[of n] by simp
  have cnt: "?cnt = (if doubled s then push_bit 1 (ucast n) else ucast n)"
    by (simp add: push_bit_eq_mult mult.commute)
  have z: "?cnt \<noteq> 0 \<longleftrightarrow> n \<noteq> 0"
    using cnt_zero[of "2 * unat n"] cnt_zero[of "unat n"] n by (cases "doubled s") (simp_all add: unat_eq_zero)
  have "leads rc (st s 0 ec ad0 (bytes16 ad @ bytes16 n @ rx) out t) (st s 1 ec (ucast (lo8 ad)) (hi8 ad # bytes16 n @ rx) out t)"
    unfolding bytes16_def append_Cons append_Nil by (rule leads_take[OF mem_hdr_takes[OF assms]]) (rule c_mem_0(1)[OF assms])
  moreover have "leads rc (st s 1 ec (ucast (lo8 ad)) (hi8 ad # bytes16 n @ rx) out t) (st s 2 ec ad (bytes16 n @ rx) out t)"
    using c_mem_0(2)[OF assms, of ec "lo8 ad" "hi8 ad"] by (intro leads_take mem_hdr_takes assms) simp
  moreover have "leads rc (st s 2 ec ad (bytes16 n @ rx) out t) (st s 3 (ucast (lo8 n)) ad (hi8 n # rx) out t)"
    unfolding bytes16_def append_Cons append_Nil by (rule leads_take[OF mem_hdr_takes[OF assms]]) (rule c_mem_0(3)[OF assms])
  moreover have "leads rc (st s 3 (ucast (lo8 n)) ad (hi8 n # rx) out t)
    (st (if n \<noteq> 0 then data_stage s else S_DECODE) 4 ?cnt ad rx out t)"
    using c_mem_0_last[OF assms _ _, of "lo8 n" ad "hi8 n" rx out t _ ?cnt] cnt z
    by (intro leads_take mem_hdr_takes assms) auto
  ultimately show ?thesis by (blast intro: leads_trans)
qed


definition packet_done :: "cmd \<Rightarrow> byte list \<Rightarrow> byte list \<Rightarrow> target \<Rightarrow> board \<Rightarrow> bool" where
  "packet_done c rx out t b \<longleftrightarrow>
     (\<exists>dc ec ad. st (if c = DbgRun then S_DISABLED else S_DECODE) dc ec ad rx out t b)"

lemma packet_done_decode: "c \<noteq> DbgRun \<Longrightarrow> packet_done c rx out t = at_decode rx out t"
  by (simp add: packet_done_def at_decode_def fun_eq_iff)

lemma len16_zero: "length ds < 65536 \<Longrightarrow> len16 ds = 0 \<longleftrightarrow> ds = []"
  using unat_len16[of ds] by (metis length_0_conv unat_0 unat_eq_zero)

lemma leads_echo:
  assumes "length ds < 65536"
  shows "leads rc (st S_ECHO_STG_0 0 ec ad (bytes16 (len16 ds) @ ds @ rest) out t) (at_decode rest (out @ ds) t)"
proof -
  have c: "(ucast (len16 ds) :: 17 word) = of_nat (length ds)"
    using unat_len16[OF assms] by (metis of_nat_unat)
  have "leads rc (st S_ECHO_STG_0 0 ec ad (bytes16 (len16 ds) @ ds @ rest) out t)
      (st S_ECHO_STG_0 1 (ucast (lo8 (len16 ds))) ad (hi8 (len16 ds) # ds @ rest) out t)"
    unfolding bytes16_def append_Cons append_Nil by (rule leads_take) (simp add: takes_def, rule c_echo_0(1))
  moreover have "leads rc (st S_ECHO_STG_0 1 (ucast (lo8 (len16 ds))) ad (hi8 (len16 ds) # ds @ rest) out t)
      (st (if ds \<noteq> [] then S_ECHO_STG_1 else S_DECODE) 2 (of_nat (length ds)) ad (ds @ rest) out t)"
    using c_echo_0(2)[of "lo8 (len16 ds)" ad "hi8 (len16 ds)" "ds @ rest" out t] cnt_zero[of "length ds"] assms c
    by (intro leads_take) (simp_all add: takes_def)
  moreover have "leads rc (st (if ds \<noteq> [] then S_ECHO_STG_1 else S_DECODE) 2 (of_nat (length ds)) ad (ds @ rest) out t)
      (at_decode rest (out @ ds) t)"
    using leads_echo_data[of ds rc 2 ad rest out t] assms by (auto intro: leads_decode)
  ultimately show ?thesis by (blast intro: leads_trans)
qed

lemma leads_mem_wr:
  assumes "length ds < 65536" and "mem_hdr s" and "\<not> doubled s"
    and data: "\<And>dc. ds \<noteq> [] \<Longrightarrow> leads rc (st (data_stage s) dc (of_nat (length ds)) ad (ds @ rest) out t)
      (at_decode rest out (wr_block w ad ds t))"
  shows "leads rc (st s 0 ec ad0 (bytes16 ad @ bytes16 (len16 ds) @ ds @ rest) out t)
    (at_decode rest out (wr_block w ad ds t))"
proof (cases "ds = []")
  case True
  then show ?thesis using leads_mem_hdr[OF assms(2), of rc ec ad0 ad "len16 ds" "ds @ rest" out t]
    by (auto simp: len16_def elim!: leads_trans intro: leads_decode)
next
  case False
  then show ?thesis
    using leads_mem_hdr[OF assms(2), of rc ec ad0 ad "len16 ds" "ds @ rest" out t] data[of 4] assms(1,3)
    by (auto simp: len16_zero elim!: leads_trans)
qed

lemma leads_mem_rd:
  assumes "mem_hdr s" and "doubled s" and "rd_stage (data_stage s)"
    and ok: "\<And>i. i < unat n \<Longrightarrow> rd_ok (data_stage s) (ad + of_nat i)"
  shows "leads rc (st s 0 ec ad0 (bytes16 ad @ bytes16 n @ rest) out t)
    (at_decode rest (out @ rd_block (rd_of (data_stage s)) t ad (unat n)) t)"
proof (cases "unat n")
  case 0
  then show ?thesis using leads_mem_hdr[OF assms(1), of rc ec ad0 ad n rest out t]
    by (auto simp: unat_eq_zero elim!: leads_trans intro: leads_decode)
next
  case (Suc k)
  then have "n \<noteq> 0" by auto
  moreover have "leads rc (st (data_stage s) 4 (of_nat (2 * Suc k)) ad rest out t)
      (at_decode rest (out @ rd_block (rd_of (data_stage s)) t ad (Suc k)) t)"
    using leads_rd[OF assms(3), of k ad rc 4 rest out t] ok Suc unat_ushort[of n] by simp
  ultimately show ?thesis
    using leads_mem_hdr[OF assms(1), of rc ec ad0 ad n rest out t] assms(2) Suc
    by (auto elim!: leads_trans)
qed



lemma leads_ppu_disable: "leads rc (st S_PPU_DISABLE 0 ec ad rx out t) (at_decode rx out t)"
proof -
  note c = c_ppu_disable
  have "leads rc (st S_PPU_DISABLE 0 ec ad rx out t) (st S_PPU_DISABLE 2 ec 0 rx out t)"
    by (rule leads_trans[OF leads_st leads_st]) (erule c(1), erule c(2))
  moreover have "leads rc (st S_PPU_DISABLE 2 ec 0 rx out t) (st S_PPU_DISABLE 4 ec 0 rx out t)"
    by (rule leads_trans[OF leads_st leads_st]) (erule c(3), erule c(4))
  moreover have "leads rc (st S_PPU_DISABLE 4 ec 0 rx out t) (st S_DECODE 6 ec 0 rx out t)"
    by (rule leads_trans[OF leads_st leads_st]) (erule c(5), erule c(6))
  ultimately show ?thesis by (blast intro: leads_trans leads_decode)
qed

lemma leads_cart:
  "leads rc (st S_CART_SET_CFG_STG_0 dc ec ad (b4 # b5 # b6 # b7 # b8 # rx) out t)
     (at_decode rx out (t\<lparr>t_cfg := cfg_word [b4, b5, b6, b7, b8]\<rparr>))"
proof -
  let ?S = "st S_CART_SET_CFG_STG_1 dc"
  have one: "leads rc (?S ec ad (x # rx) out t) (?S (ec - 1) ad rx out (t\<lparr>t_cfg := push_bit 8 (t_cfg t) OR ucast x\<rparr>))"
    if "ec \<noteq> 0" for ec ad x rx out t
    using c_cart_1[of dc ec ad x rx out t] that by (intro leads_take) (simp_all add: takes_def)
  have last: "leads rc (?S 0 ad (x # rx) out t) (at_decode rx out (t\<lparr>t_cfg := push_bit 8 (t_cfg t) OR ucast x\<rparr>))"
    for ad x rx out t
    using c_cart_1[of dc 0 ad x rx out t] by (intro leads_take) (auto simp: takes_def intro: at_decodeI)
  have "leads rc (st S_CART_SET_CFG_STG_0 dc ec ad (b4 # b5 # b6 # b7 # b8 # rx) out t)
      (?S 4 ad (b4 # b5 # b6 # b7 # b8 # rx) out t)"
    using c_cart_0 by (intro leads_st)
  note leads_trans[OF leads_trans[OF leads_trans[OF leads_trans[OF leads_trans[OF this
    one[of 4 ad b4, simplified]] one[of 3 ad b5, simplified]] one[of 2 ad b6, simplified]]
    one[of 1 ad b7, simplified]] last[of ad b8]]
  then show ?thesis by (simp add: cfg_word_def)
qed

lemma leads_reg_wr: "leads rc (st S_CPU_REG_WR_STG_0 dc ec ad (r # v # rx) out t)
   (at_decode rx out (t\<lparr>t_cpu := dbgreg_write (ucast r) v (t_cpu t)\<rparr>))"
  by (rule leads_trans[OF leads_take leads_take])
    (simp add: takes_def, erule c_reg_wr(1), simp add: takes_def, rule at_decodeI, erule c_reg_wr(2))

lemma leads_reg_rd: "leads rc (st S_CPU_REG_RD dc ec ad (r # rx) out t)
   (at_decode rx (out @ [dbgreg_out (t_cpu t) (ucast r)]) t)"
  by (rule leads_take_wait)
    (simp add: takes_def, rule disjI1, erule c_reg_rd(2), rule at_decodeI, erule c_reg_rd(1))

lemma leads_query_err: "leads rc (st S_QUERY_ERR_CODE dc ec ad rx out t)
   (at_decode rx (out @ [ucast (t_err t)]) t)"
  by (rule leads_trans[OF leads_wait[OF rx_free_st rx_free_st] leads_decode]) (erule c_query_err(2), erule c_query_err(1))

text \<open>What the decode state leads to, per opcode.\<close>

lemma leads_op:
  "leads rc (st S_ECHO_STG_0 0 ec ad rx out t) Q \<Longrightarrow>
   leads rc (st S_DECODE dc ec ad (opcode OpEcho # rx) out t) Q"
  "leads rc (st S_CPU_MEM_RD_STG_0 0 ec ad rx out t) Q \<Longrightarrow>
   leads rc (st S_DECODE dc ec ad (opcode OpCpuMemRd # rx) out t) Q"
  "leads rc (st S_CPU_MEM_WR_STG_0 0 ec ad rx out t) Q \<Longrightarrow>
   leads rc (st S_DECODE dc ec ad (opcode OpCpuMemWr # rx) out t) Q"
  "leads rc (st S_DECODE 0 ec ad rx out t) Q \<Longrightarrow>
   leads rc (st S_DECODE dc ec ad (opcode OpDbgHlt # rx) out t) Q"
  "leads rc (st S_DISABLED 0 ec ad rx out (t\<lparr>t_halted := False\<rparr>)) Q \<Longrightarrow>
   leads rc (st S_DECODE dc ec ad (opcode OpDbgRun # rx) out t) Q"
  "leads rc (st S_CPU_REG_RD 0 ec ad rx out t) Q \<Longrightarrow>
   leads rc (st S_DECODE dc ec ad (opcode OpCpuRegRd # rx) out t) Q"
  "leads rc (st S_CPU_REG_WR_STG_0 0 ec ad rx out t) Q \<Longrightarrow>
   leads rc (st S_DECODE dc ec ad (opcode OpCpuRegWr # rx) out t) Q"
  "leads rc (st S_DECODE 0 ec ad rx (out @ [1]) t) Q \<Longrightarrow>
   leads rc (st S_DECODE dc ec ad (opcode OpQueryHlt # rx) out t) Q"
  "leads rc (st S_QUERY_ERR_CODE 0 ec ad rx out t) Q \<Longrightarrow>
   leads rc (st S_DECODE dc ec ad (opcode OpQueryErrCode # rx) out t) Q"
  "leads rc (st S_PPU_MEM_RD_STG_0 0 ec ad rx out t) Q \<Longrightarrow>
   leads rc (st S_DECODE dc ec ad (opcode OpPpuMemRd # rx) out t) Q"
  "leads rc (st S_PPU_MEM_WR_STG_0 0 ec ad rx out t) Q \<Longrightarrow>
   leads rc (st S_DECODE dc ec ad (opcode OpPpuMemWr # rx) out t) Q"
  "leads rc (st S_PPU_DISABLE 0 ec ad rx out t) Q \<Longrightarrow>
   leads rc (st S_DECODE dc ec ad (opcode OpPpuDisable # rx) out t) Q"
  "leads rc (st S_CART_SET_CFG_STG_0 0 ec ad rx out t) Q \<Longrightarrow>
   leads rc (st S_DECODE dc ec ad (opcode OpCartSetCfg # rx) out t) Q"
  by (rule leads_trans[OF leads_take], simp add: takes_def, erule c_decode, rule refl, assumption)+

lemmas hdr_eval = mem_hdr_def doubled_def data_stage_def rd_stage_def rd_of_def rd_ok_def

text \<open>Every packet of the protocol is executed as the abstract target executes its command.\<close>

lemma leads_packet_from:
  assumes wf: "wf_cmd c" and pl: "plain_cmd c"
  shows "leads rc (st S_DECODE dc ec ad (encode c @ rx) out t)
    (packet_done c rx (out @ fst (exec c t)) (snd (exec c t)))"
proof (cases c)
  case (Echo ds)
  then show ?thesis using wf leads_op(1)[OF leads_echo[of ds rc ec ad rx out t]]
    by (simp del: opcode.simps add: wf_cmd_def packet_done_decode)
next
  case (CpuMemRd a n)
  then show ?thesis using pl leads_op(2)[OF leads_mem_rd[of S_CPU_MEM_RD_STG_0 n a rc ec ad rx out t]]
    by (simp del: opcode.simps add: packet_done_decode hdr_eval)
next
  case (CpuMemWr a ds)
  then show ?thesis
    using wf leads_op(3)[OF leads_mem_wr[of ds S_CPU_MEM_WR_STG_0 rc a rx out t t_cpu_wr ec ad]]
      leads_cpu_wr[of ds rc _ a rx out t]
    by (simp del: opcode.simps add: wf_cmd_def packet_done_decode hdr_eval)
next
  case DbgHlt
  then show ?thesis using leads_op(4)[OF leads_decode]
    by (simp del: opcode.simps add: packet_done_decode)
next
  case DbgRun
  have "leads rc (st S_DISABLED 0 ec ad rx out (t\<lparr>t_halted := False\<rparr>))
      (packet_done DbgRun rx out (t\<lparr>t_halted := False\<rparr>))"
    by (rule leads_weaken) (auto simp: packet_done_def)
  from leads_op(5)[OF this] DbgRun show ?thesis by (simp del: opcode.simps)
next
  case (CpuRegRd r)
  then show ?thesis using leads_op(6)[OF leads_reg_rd]
    by (simp del: opcode.simps add: packet_done_decode)
next
  case (CpuRegWr r v)
  then show ?thesis using leads_op(7)[OF leads_reg_wr]
    by (simp del: opcode.simps add: packet_done_decode)
next
  case QueryHlt
  then show ?thesis using leads_op(8)[OF leads_decode]
    by (simp del: opcode.simps add: packet_done_decode)
next
  case QueryErrCode
  then show ?thesis using leads_op(9)[OF leads_query_err]
    by (simp del: opcode.simps add: packet_done_decode)
next
  case (PpuMemRd a n)
  then show ?thesis using leads_op(10)[OF leads_mem_rd[of S_PPU_MEM_RD_STG_0 n a rc ec ad rx out t]]
    by (simp del: opcode.simps add: packet_done_decode hdr_eval)
next
  case (PpuMemWr a ds)
  then show ?thesis
    using wf leads_op(11)[OF leads_mem_wr[of ds S_PPU_MEM_WR_STG_0 rc a rx out t t_ppu_wr ec ad]]
      leads_ppu_wr[of ds rc _ a rx out t]
    by (simp del: opcode.simps add: wf_cmd_def packet_done_decode hdr_eval)
next
  case PpuDisable
  then show ?thesis using leads_op(12)[OF leads_ppu_disable]
    by (simp del: opcode.simps add: packet_done_decode)
next
  case (CartSetCfg b4 b5 b6 b7 b8)
  then show ?thesis using leads_op(13)[OF leads_cart]
    by (simp del: opcode.simps add: packet_done_decode)
qed

lemma leads_packet:
  assumes "wf_cmd c" and "plain_cmd c"
  shows "leads rc (at_decode (encode c @ rx) out t)
    (packet_done c rx (out @ fst (exec c t)) (snd (exec c t)))"
  using leads_packet_from[OF assms, of rc _ _ _ rx out t] unfolding leads_def at_decode_def by blast



lemma packets_lead:
  assumes "\<And>c. c \<in> set cs \<Longrightarrow> wf_cmd c \<and> plain_cmd c \<and> c \<noteq> DbgRun"
  shows "leads rc (at_decode (concat (map encode cs) @ rx) out t)
    (at_decode rx (out @ fst (exec_all cs t)) (snd (exec_all cs t)))"
  using assms
proof (induction cs arbitrary: out t)
  case Nil
  then show ?case by (simp add: leads_refl)
next
  case (Cons c cs)
  have "leads rc (at_decode (encode c @ concat (map encode cs) @ rx) out t)
      (at_decode (concat (map encode cs) @ rx) (out @ fst (exec c t)) (snd (exec c t)))"
    using leads_packet[of c rc "concat (map encode cs) @ rx" out t] Cons.prems[of c]
    by (simp add: packet_done_decode)
  also note lead = leads_trans[OF this Cons.IH]
  show ?case using lead Cons.prems by (simp add: split_beta Let_def)
qed

text \<open>A halted board with nothing to do stays as it is.\<close>

lemma idle_run: "at_decode [] out t b \<Longrightarrow> at_decode [] out t (run rc full n b)"
  unfolding at_decode_def by (induction n arbitrary: full b) (simp, metis c_decode_idle run.simps(2))

section \<open>The running console\<close>

text \<open>
  While the console runs its memories change under the CPU, so only the protocol side is
  described: the bytes to come and the bytes sent.
\<close>

definition running :: "byte list \<Rightarrow> byte list \<Rightarrow> board \<Rightarrow> bool" where
  "running rx out b \<longleftrightarrow> q_state (hci b) = S_DISABLED \<and> rxq b = rx \<and> sent b = out"

definition halted :: "byte list \<Rightarrow> byte list \<Rightarrow> board \<Rightarrow> bool" where
  "halted rx out b \<longleftrightarrow> (\<exists>t. at_decode rx out t b)"

lemma haltedI:
  "q_state (hci b) = S_DECODE \<Longrightarrow> rxq b = rx \<Longrightarrow> sent b = out \<Longrightarrow> halted rx out b"
  by (auto simp: halted_def at_decode_def st_def)

lemmas d_eval =
  cycle_def hci_comb_def hci_disabled_def hci_input_def rx_front_def hci_active_def default_next_def
  out0_def Let_def sent_def running_def split_beta

lemma c_running:
  assumes "running (x # rx) out b"
  shows "snd (rc (con b)) \<Longrightarrow> halted (x # rx) out (cycle rc f b)"
    and "\<not> snd (rc (con b)) \<Longrightarrow> x = opcode OpDbgHlt \<Longrightarrow> halted rx out (cycle rc f b)"
    and "\<not> snd (rc (con b)) \<Longrightarrow> x = opcode OpQueryHlt \<Longrightarrow> running rx (out @ [0]) (cycle rc f b)"
    and "\<not> snd (rc (con b)) \<Longrightarrow> x \<noteq> opcode OpDbgHlt \<Longrightarrow> x \<noteq> opcode OpQueryHlt \<Longrightarrow>
      running rx out (cycle rc f b)"
  using assms by (auto simp: d_eval intro!: haltedI)

lemma c_running_idle:
  assumes "running [] out b"
  shows "if snd (rc (con b)) then halted [] out (cycle rc f b) else running [] out (cycle rc f b)"
  using assms by (auto simp: d_eval intro!: haltedI)

text \<open>A running console takes a byte, unless its CPU has reached a break before.\<close>

lemma leads_running:
  assumes take: "\<And>b f. running (x # rx) out b \<Longrightarrow> Q (cycle rc f b)"
    and brk: "\<And>b c. snd (rc c) \<Longrightarrow> halted (x # rx) out b \<Longrightarrow> Q b"
  shows "leads rc (running (x # rx) out) Q"
proof (rule leads_await)
  fix b bs assume b: "running (x # rx) out (receive bs b)"
  have there: "Q (receive bs (cycle rc f b))" if "rxq b \<noteq> []" for f using take[OF b] cycle_receive[OF that] by metis
  then show "Q (receive bs (cycle rc False b))" if "rxq b \<noteq> [] \<or> bs = []" using that b by (auto simp: running_def)
  show "running (x # rx) out (receive bs (cycle rc f b)) \<or> Q (receive bs (cycle rc f b))" for f
  proof (cases "rxq b = []")
    case True
    then have r: "running [] out b" and bs: "bs = x # rx" using b by (auto simp: running_def)
    show ?thesis
    proof (cases "snd (rc (con b))")
      case True
      then have "halted bs out (receive bs (cycle rc f b))"
        using c_running_idle[OF r, of rc f] by (auto simp: halted_def at_decode_def st_def)
      then show ?thesis using brk[OF True] bs by blast
    next
      case False
      then show ?thesis using c_running_idle[OF r, of rc f] bs by (simp add: running_def)
    qed
  qed (use there in simp)
qed (simp add: running_def)

lemma halt_lead: "leads rc (running (encode DbgHlt @ rx) out) (halted rx out)"
proof -
  have h: "leads rc (halted (encode DbgHlt @ rx) out) (halted rx out)"
    using leads_packet[of DbgHlt rc rx out] unfolding leads_def halted_def
    by (fastforce simp: packet_done_decode wf_cmd_def)
  have "leads rc (running (opcode OpDbgHlt # rx) out)
      (\<lambda>b. halted (opcode OpDbgHlt # rx) out b \<or> halted rx out b)"
    using c_running(1,2)[of "opcode OpDbgHlt" rx out _ rc]
    by (intro leads_running) (simp_all del: opcode.simps, metis)
  then show ?thesis using leads_trans[OF _ leads_disj[OF h leads_refl]] by (simp del: opcode.simps)
qed

text \<open>
  Every other packet is skipped byte by byte, as long as none of its bytes is one of the two opcodes, and QUERY_HLT is
  answered with 0; or the CPU reaches a break, and the board halts with what is left of the bytes.
\<close>

lemma skip_lead:
  assumes "opcode OpDbgHlt \<notin> set bs" and "opcode OpQueryHlt \<notin> set bs"
  shows "leads rc (running (bs @ encode QueryHlt @ rx) out)
    (\<lambda>b. running rx (out @ [0]) b \<or> (\<exists>k \<le> length bs. halted (drop k bs @ encode QueryHlt @ rx) out b))"
    (is "leads rc _ (?R bs)")
  using assms
proof (induction bs)
  case Nil
  show ?case using leads_running[of "opcode OpQueryHlt" rx out "?R []" rc] c_running(1,3)[of "opcode OpQueryHlt" rx out _ rc]
    by (simp del: opcode.simps) blast
next
  case (Cons x bs)
  let ?rest = "bs @ encode QueryHlt @ rx"
  let ?stopped = "\<lambda>b. halted (x # ?rest) out b"
  have "leads rc (running (x # ?rest) out) (\<lambda>b. running ?rest out b \<or> ?stopped b)"
    using c_running(1,4)[of x ?rest out _ rc] Cons.prems by (intro leads_running) (auto simp del: opcode.simps encode.simps)
  moreover have "leads rc (running ?rest out) (?R (x # bs))"
    using leads_trans[OF Cons.IH leads_weaken[of "?R bs" "?R (x # bs)"]] Cons.prems
    by (auto simp del: encode.simps) (metis Suc_le_mono drop_Suc_Cons)
  moreover have "leads rc ?stopped (?R (x # bs))" by (rule leads_weaken) (auto intro!: exI[of _ 0] simp del: encode.simps)
  ultimately show ?case by (auto elim: leads_trans dest: leads_disj simp del: encode.simps)
qed

text \<open>The CPU asks for the break in the clock to come.\<close>

definition breaks :: "(console \<Rightarrow> console \<times> bool) \<Rightarrow> board \<Rightarrow> bool" where
  "breaks rc b \<longleftrightarrow> q_state (hci b) = S_DISABLED \<and> snd (rc (con b))"

lemma skip_clock:
  assumes "opcode OpDbgHlt \<notin> set bs" and "opcode OpQueryHlt \<notin> set bs" and "k \<le> length bs"
    and r: "running (drop k bs @ encode QueryHlt @ rx) out (receive cs b)"
  shows "if breaks rc b then halted (drop k bs @ encode QueryHlt @ rx) out (receive cs (cycle rc f b))
    else running rx (out @ [0]) (receive cs (cycle rc f b)) \<or>
      (\<exists>k \<le> length bs. running (drop k bs @ encode QueryHlt @ rx) out (receive cs (cycle rc f b)))"
proof -
  have s: "breaks rc b \<longleftrightarrow> snd (rc (con b))" using r by (simp add: breaks_def running_def)
  show ?thesis
  proof (cases "rxq b = []")
    case True
    then have "running [] out b" "drop k bs @ encode QueryHlt @ rx = cs" using r by (auto simp: running_def)
    then show ?thesis using c_running_idle[of out b rc f] s assms(3)
      by (auto simp: running_def halted_def at_decode_def st_def)
  next
    case False
    show ?thesis
    proof (cases "k = length bs")
      case True
      then show ?thesis using r s c_running(1,3)[of "opcode OpQueryHlt" rx out "receive cs b" rc f] cycle_receive[OF False, of rc f cs]
        by (simp del: opcode.simps)
    next
      case less: False
      then obtain x where x: "drop k bs = x # drop (Suc k) bs" "x \<in> set bs" "Suc k \<le> length bs"
        using assms(3) Cons_nth_drop_Suc[of k bs] by (metis le_neq_implies_less nth_mem Suc_leI)
      then show ?thesis using r s assms(1,2) cycle_receive[OF False, of rc f cs]
          c_running(1,4)[of x "drop (Suc k) bs @ encode QueryHlt @ rx" out "receive cs b" rc f]
        by (auto simp del: opcode.simps encode.simps)
    qed
  qed
qed

lemma skip_run:
  assumes "opcode OpDbgHlt \<notin> set bs" and "opcode OpQueryHlt \<notin> set bs" and "fair full" and "fair late"
    and "running (bs @ encode QueryHlt @ rx) out (total s)"
  shows "\<exists>n. running rx (out @ [0]) (total (arun rc full late n s)) \<or>
    (breaks rc (fst (arun rc full late n s)) \<and>
      (\<exists>k \<le> length bs. halted (drop k bs @ encode QueryHlt @ rx) out (total (arun rc full late (Suc n) s))))"
proof (rule ccontr)
  let ?s = "\<lambda>n. arun rc full late n s"
  assume none: "\<not> ?thesis"
  have stay: "\<exists>k \<le> length bs. running (drop k bs @ encode QueryHlt @ rx) out (total (?s n))" for n
  proof (induction n)
    case 0
    then show ?case using assms(5) by (auto intro: exI[of _ 0])
  next
    case (Suc n)
    let ?m = "arrive (\<not> late n) (?s n)"
    have m: "total ?m = receive (snd ?m) (fst ?m)" "breaks rc (fst ?m) = breaks rc (fst (?s n))"
      by (simp_all add: total_def breaks_def arrive_def)
    have t: "total (?s (Suc n)) = receive (snd ?m) (cycle rc (full n) (fst ?m))"
      unfolding arun_Suc by (simp add: total_def apfst_def map_prod_def split_beta)
    from Suc obtain k where k: "k \<le> length bs" "running (drop k bs @ encode QueryHlt @ rx) out (total ?m)" by auto
    show ?case using skip_clock[OF assms(1,2) k(1) k(2)[unfolded m(1)], of rc "full n", folded t, unfolded m(2)] none k(1)
      by (auto split: if_split_asm simp del: arun.simps encode.simps)
  qed
  obtain n where "running rx (out @ [0]) (total (?s n)) \<or> (\<exists>k \<le> length bs. halted (drop k bs @ encode QueryHlt @ rx) out (total (?s n)))"
    using skip_lead[OF assms(1,2), of rc rx out] assms(3-5) unfolding leads_def by blast
  then show False using stay[of n] none by (auto simp: running_def halted_def at_decode_def st_def)
qed

section \<open>PPU_DISABLE on the register interface\<close>

lemma ri_cycle:
  assumes "hci_active (hci b)"
  shows "q_ncs (con (cycle rc f b)) = ri_ncs (q_addr (hci b))"
    and "ri_trace (con (cycle rc f b)) =
      (let o1 = snd (hci_comb (hci_input f False b) (hci b)); a = q_addr (hci b) in
       if q_ncs (con b) \<and> \<not> ri_ncs a
       then (if cpu_r_nw o1 then RiRead (ucast a) else RiWrite (ucast a) (cpu_dout o1)) # ri_trace (con b)
       else ri_trace (con b))"
  using assms by (simp_all add: cycle_active bus_clk_def Let_def)

lemma ri_regs [simp]: "(0x2000 :: 3 word) = 0" "(0x2001 :: 3 word) = 1" "(0x2002 :: 3 word) = 2"
  by (simp_all add: word_eq_iff_unsigned)

lemma ri_ncs_regs: "ri_ncs 0" "\<not> ri_ncs 0x2000" "\<not> ri_ncs 0x2001" "\<not> ri_ncs 0x2002"
  by (simp_all add: ri_ncs_def)

definition ri :: "bool \<Rightarrow> ri_access list \<Rightarrow> board \<Rightarrow> bool" where
  "ri ncs tr b \<longleftrightarrow> q_ncs (con b) = ncs \<and> ri_trace (con b) = tr"

lemma ri_disable:
  assumes "st S_PPU_DISABLE k ec ad rx out t b" and "ri ncs tr b"
  shows "ri (ri_ncs ad) (if ncs \<and> \<not> ri_ncs ad
       then (if k = 1 \<or> k = 3 then RiWrite (ucast ad) 0 else RiRead (ucast ad)) # tr else tr)
     (cycle rc f b)"
  using assms ri_cycle[of b rc f] st_fields[OF assms(1)]
  by (simp add: ri_def c_eval hci_ppu_disable_def)

lemma ri_idle:
  assumes "st s dc ec ad rx out t b" and "s \<noteq> S_DISABLED" and "ri_ncs ad" and "ri ncs tr b"
  shows "ri True tr (cycle rc f b)"
  using assms ri_cycle[of b rc f] st_fields[OF assms(1,2)] by (simp add: ri_def c_eval)

lemma ppu_disable_cycles:
  assumes d: "st S_DECODE dc ec ad (encode PpuDisable @ rx) out t b" and "ri ncs tr b"
    and n: "ri_ncs ad"
  shows "at_decode rx out t (run rc full 7 b) \<and>
    ri False (RiRead 2 # RiWrite 1 0 # RiWrite 0 0 # tr) (run rc full 7 b)"
proof -
  define b1 where "b1 = cycle rc (full 0) b"
  define b2 where "b2 = cycle rc (full 1) b1"
  define b3 where "b3 = cycle rc (full 2) b2"
  define b4 where "b4 = cycle rc (full 3) b3"
  define b5 where "b5 = cycle rc (full 4) b4"
  define b6 where "b6 = cycle rc (full 5) b5"
  define b7 where "b7 = cycle rc (full 6) b6"
  note c = c_ppu_disable
  have s1: "st S_PPU_DISABLE 0 ec ad rx out t b1"
    unfolding b1_def by (rule c_decode(12)[OF _ refl]) (use d in simp)
  have s2: "st S_PPU_DISABLE 1 ec 0x2000 rx out t b2" unfolding b2_def by (rule c(1)[OF s1])
  have s3: "st S_PPU_DISABLE 2 ec 0 rx out t b3" unfolding b3_def by (rule c(2)[OF s2])
  have s4: "st S_PPU_DISABLE 3 ec 0x2001 rx out t b4" unfolding b4_def by (rule c(3)[OF s3])
  have s5: "st S_PPU_DISABLE 4 ec 0 rx out t b5" unfolding b5_def by (rule c(4)[OF s4])
  have s6: "st S_PPU_DISABLE 5 ec 0x2002 rx out t b6" unfolding b6_def by (rule c(5)[OF s5])
  have s7: "st S_DECODE 6 ec 0 rx out t b7" unfolding b7_def by (rule c(6)[OF s6])
  have r1: "ri True tr b1" unfolding b1_def by (rule ri_idle[OF d _ n assms(2)]) simp
  have r2: "ri True tr b2" using ri_disable[OF s1 r1, of rc "full 1"] n by (simp add: b2_def)
  have r3: "ri False (RiWrite 0 0 # tr) b3"
    using ri_disable[OF s2 r2, of rc "full 2"] by (simp add: b3_def ri_ncs_regs)
  have r4: "ri True (RiWrite 0 0 # tr) b4"
    using ri_disable[OF s3 r3, of rc "full 3"] by (simp add: b4_def ri_ncs_regs)
  have r5: "ri False (RiWrite 1 0 # RiWrite 0 0 # tr) b5"
    using ri_disable[OF s4 r4, of rc "full 4"] by (simp add: b5_def ri_ncs_regs)
  have r6: "ri True (RiWrite 1 0 # RiWrite 0 0 # tr) b6"
    using ri_disable[OF s5 r5, of rc "full 5"] by (simp add: b6_def ri_ncs_regs)
  have r7: "ri False (RiRead 2 # RiWrite 1 0 # RiWrite 0 0 # tr) b7"
    using ri_disable[OF s6 r6, of rc "full 6"] by (simp add: b7_def ri_ncs_regs)
  have "run rc full 7 b = b7"
    by (simp add: eval_nat_numeral b1_def b2_def b3_def b4_def b5_def b6_def b7_def)
  with s7 r7 show ?thesis by (auto intro: at_decodeI)
qed

text \<open>
  The register interface during CPU_MEM_WR: the header stage drives the address while it waits for
  the count, with the read/write line on read.
\<close>

lemma ri_header:
  assumes "st S_CPU_MEM_WR_STG_0 k ec ad rx out t b" and "ri ncs tr b"
  shows "ri (ri_ncs ad) (if ncs \<and> \<not> ri_ncs ad then RiRead (ucast ad) # tr else tr) (cycle rc f b)"
  using assms ri_cycle[of b rc f] st_fields[OF assms(1)]
  by (simp add: ri_def m_eval mem_hdr_def)

lemma ri_selected:
  assumes "st S_CPU_MEM_WR_STG_1 dc ec ad rx out t b" and "ri False tr b"
  shows "ri (ri_ncs ad) tr (cycle rc f b)"
  using assms ri_cycle[of b rc f] st_fields[OF assms(1)] by (simp add: ri_def c_eval)

lemma ri_data:
  assumes "st S_CPU_MEM_WR_STG_1 dc (of_nat (length ds)) ad (ds @ rx) out t b" and "ri False tr b"
    and "ds \<noteq> []" and "length ds < 65536" and "\<And>i. i < length ds \<Longrightarrow> \<not> ri_ncs (ad + of_nat i)"
  shows "at_decode rx out (wr_block t_cpu_wr ad ds t) (run rc full (length ds) b) \<and> ri False tr (run rc full (length ds) b)"
  using assms
proof (induction ds arbitrary: ad t b full)
  case (Cons x xs)
  have one: "(of_nat (length (x # xs)) :: 17 word) = 1 \<longleftrightarrow> xs = []"
    using cnt_one[of "length xs"] Cons.prems(4) by simp
  have s: "st (if xs = [] then S_DECODE else S_CPU_MEM_WR_STG_1) dc (of_nat (length xs)) (ad + 1) (xs @ rx) out
      (t_cpu_wr ad x t) (cycle rc (full 0) b)"
    using c_cpu_wr[of dc "of_nat (length (x # xs))" ad x "xs @ rx" out t b rc "full 0"] Cons.prems(1) one by simp
  have r: "ri False tr (cycle rc (full 0) b)"
    using ri_selected[OF Cons.prems(1,2), of rc "full 0"] Cons.prems(5)[of 0] by simp
  show ?case
  proof (cases "xs = []")
    case True
    then show ?thesis using s r by (auto intro: at_decodeI)
  next
    case False
    have "\<not> ri_ncs (ad + 1 + of_nat i)" if "i < length xs" for i
      using Cons.prems(5)[of "Suc i"] that by (simp add: add.assoc)
    with Cons.IH[OF _ r False, of "ad + 1" "t_cpu_wr ad x t" "\<lambda>i. full (Suc i)"] s False Cons.prems(4)
    show ?thesis by simp
  qed
qed simp

lemma ri_write:
  assumes d: "st S_DECODE dc ec ad (encode (CpuMemWr a ds) @ rx) out t b" and "ri True tr b" and n: "ri_ncs ad"
    and ds: "ds \<noteq> []" "length ds < 65536" "\<And>i. i < length ds \<Longrightarrow> \<not> ri_ncs (a + of_nat i)"
  shows "at_decode rx out (wr_block t_cpu_wr a ds t) (run rc full (5 + length ds) b) \<and>
    ri False (RiRead (ucast a) # tr) (run rc full (5 + length ds) b)"
proof -
  define b1 where "b1 = cycle rc (full 0) b"
  define b2 where "b2 = cycle rc (full 1) b1"
  define b3 where "b3 = cycle rc (full 2) b2"
  define b4 where "b4 = cycle rc (full 3) b3"
  define b5 where "b5 = cycle rc (full 4) b4"
  let ?s = S_CPU_MEM_WR_STG_0 and ?n = "len16 ds"
  have h: "mem_hdr ?s" "\<not> doubled ?s" "data_stage ?s = S_CPU_MEM_WR_STG_1"
    by (simp_all add: mem_hdr_def doubled_def data_stage_def)
  have len: "(ucast ?n :: 17 word) = of_nat (length ds)" "of_nat (length ds) \<noteq> (0 :: 17 word)"
    using ds(1,2) cnt_zero[of "length ds"] by (simp_all add: len16_def unsigned_of_nat take_bit_nat_eq_self)
  have a: "\<not> ri_ncs a" using ds(3)[of 0] ds(1) by simp
  have "drop_bit 13 (ucast (lo8 a) :: 16 word) = 0"
    by (rule bit_word_eqI) (auto simp: bit_simps dest: bit_imp_le_length)
  then have lo: "ri_ncs (ucast (lo8 a))" by (simp add: ri_ncs_def)
  have s1: "st ?s 0 ec ad (lo8 a # hi8 a # lo8 ?n # hi8 ?n # ds @ rx) out t b1"
    unfolding b1_def by (rule c_decode(3)[OF _ refl]) (use d in \<open>simp add: bytes16_def\<close>)
  note s2 = c_mem_0(1)[OF h(1) s1, of rc "full 1", folded b2_def]
  note s3 = c_mem_0(2)[OF h(1) s2, of rc "full 2", folded b3_def, unfolded le16_lo8_hi8]
  note s4 = c_mem_0(3)[OF h(1) s3, of rc "full 3", folded b4_def]
  have s5: "st S_CPU_MEM_WR_STG_1 4 (of_nat (length ds)) a (ds @ rx) out t b5"
    using c_mem_0_last[OF h(1) s4, of "of_nat (length ds)" rc "full 4"] h len by (simp add: b5_def)
  have r1: "ri True tr b1" unfolding b1_def by (rule ri_idle[OF d _ n assms(2)]) simp
  have r2: "ri True tr b2" using ri_header[OF s1 r1, of rc "full 1"] n by (simp add: b2_def)
  have r3: "ri True tr b3" using ri_header[OF s2 r2, of rc "full 2"] lo by (simp add: b3_def)
  have r4: "ri False (RiRead (ucast a) # tr) b4" using ri_header[OF s3 r3, of rc "full 3"] a by (simp add: b4_def)
  have r5: "ri False (RiRead (ucast a) # tr) b5" using ri_header[OF s4 r4, of rc "full 4"] a by (simp add: b5_def)
  have "run rc full (5 + length ds) b = run rc (\<lambda>i. full (5 + i)) (length ds) b5"
    unfolding run_add by (simp add: eval_nat_numeral b1_def b2_def b3_def b4_def b5_def)
  with ri_data[OF s5 r5 ds] show ?thesis by simp
qed

section \<open>A board at power on\<close>

definition zero_ram :: "'a::zero ram" where
  "zero_ram = \<lparr>ram = (\<lambda>_. 0), q_addr_a = 0\<rparr>"

definition cpu_reset :: cpu_regs where
  "cpu_reset = \<lparr>q_pcl = 0x80, q_pch = 0, q_ac = 0, q_x = 0, q_y = 0, q_s = 0xFF, q_n = False,
     q_v = False, q_d = False, q_i = False, q_z = False, q_c = False, irq_brk = True, q_pchs = 0,
     q_pcls = 0x80, q_abh = 0, q_abl = 0x80, q_t_is_T0 = False, clk_phase = 1, dbg_xx = 0\<rparr>"

definition power_on :: "byte list \<Rightarrow> board" where
  "power_on rx =
     \<lparr>hci = hci_reset,
      con = \<lparr>wram = zero_ram, prgrom = zero_ram, chrrom = zero_ram, vram = zero_ram,
             cpu = cpu_reset, q_ncs = True, ri_trace = [], ri_model = (\<lambda>_. 0)\<rparr>,
      rxq = rx, txq = [], rx_stale = 0\<rparr>"

definition power_on_target :: target where
  "power_on_target = \<lparr>t_halted = True, t_err = 0, t_cfg = 0, t_wram = (\<lambda>_. 0), t_prg = (\<lambda>_. 0),
     t_chr = (\<lambda>_. 0), t_vram = (\<lambda>_. 0), t_cpu = cpu_reset\<rparr>"

lemma power_on_st: "st S_DECODE 0 0 0 rx [] power_on_target (power_on rx)"
  by (simp add: st_def power_on_def hci_reset_def sent_def abs_board_def hci_active_def
      power_on_target_def zero_ram_def)

lemma power_on_decode: "at_decode rx [] power_on_target (power_on rx)"
  using power_on_st by (rule at_decodeI)

lemma power_on_ri: "ri True [] (power_on rx)"
  by (simp add: ri_def power_on_def)

section \<open>Properties\<close>

lemma ri_no_cell: "cpu_cell t a \<noteq> None \<Longrightarrow> ri_ncs a"
proof (rule ccontr)
  assume c: "cpu_cell t a \<noteq> None" and "\<not> ri_ncs a"
  then have d: "drop_bit 13 a = 1" by (simp add: ri_ncs_def)
  then have "\<not> bit (drop_bit 13 a) 2" by simp
  then have "\<not> bit a 15" by (simp add: bit_drop_bit_eq)
  moreover have "\<not> wram_en a" using d by (simp add: wram_en_def)
  ultimately show False using c by (simp add: cpu_cell_def)
qed

lemma wr_block_ri:
  assumes "\<And>i. i < length ds \<Longrightarrow> \<not> ri_ncs (a + of_nat i)"
  shows "wr_block t_cpu_wr a ds t = t"
  using assms
proof (induction ds arbitrary: a)
  case (Cons d ds)
  have "cpu_cell t a = None" using Cons.prems[of 0] ri_no_cell[of t a] by fastforce
  then have "t_cpu_wr a d t = t" by (simp add: cpu_cell_def t_cpu_wr_def split: if_splits)
  moreover have "\<not> ri_ncs (a + 1 + of_nat i)" if "i < length ds" for i
    using Cons.prems[of "Suc i"] that by (simp add: add.assoc)
  ultimately show ?case using Cons.IH[of "a + 1"] by simp
qed simp

lemma exec_all_snoc:
  "exec_all (cs @ [c]) t =
     (fst (exec_all cs t) @ fst (exec c (snd (exec_all cs t))), snd (exec c (snd (exec_all cs t))))"
  by (induction cs arbitrary: t) (simp_all add: Let_def split_beta)

text \<open>
  C1: A halted board that is sent any sequence of well-formed packets, of which only the last
  may be DBG_RUN (the board that runs no longer obeys) and none is a CPU_MEM_RD of an address from $2000 to $3FFF (the PPU's
  registers, whose values are not modelled), executes them all in order, at whatever times their bytes arrive and the transmit
  FIFO is full, as long as none of them waits for ever: it consumes exactly their bytes, sends exactly the replies of the abstract
  target, and ends with the memories, registers and configuration of the abstract target.
\<close>

theorem hci_executes_packets:
  assumes "\<And>c'. c' \<in> set cs \<Longrightarrow> wf_cmd c' \<and> plain_cmd c' \<and> c' \<noteq> DbgRun"
    and "wf_cmd c" and "plain_cmd c"
  shows "leads rc (at_decode (concat (map encode (cs @ [c])) @ rx) out t)
    (packet_done c rx (out @ fst (exec_all (cs @ [c]) t)) (snd (exec_all (cs @ [c]) t)))"
  using leads_trans[OF packets_lead[of cs rc "encode c @ rx" out t]
      leads_packet[OF assms(2,3)]] assms(1) by (simp add: exec_all_snoc)

lemma hci_executes_packets_witness:
  "leads (\<lambda>c. (c, False))
     (at_decode (concat (map encode ([CpuMemWr 0x10 [7, 8], CpuMemRd 0x10 2] @ [DbgRun])) @ [9]) []
        power_on_target)
     (packet_done DbgRun [9]
        ([] @ fst (exec_all ([CpuMemWr 0x10 [7, 8], CpuMemRd 0x10 2] @ [DbgRun]) power_on_target))
        (snd (exec_all ([CpuMemWr 0x10 [7, 8], CpuMemRd 0x10 2] @ [DbgRun]) power_on_target)))"
  by (rule hci_executes_packets) (auto simp: wf_cmd_def ri_ncs_def less_2_cases_iff)

text \<open>
  A block written through the CPU bus and read back is returned unchanged, for every block
  that lies in mapped memory cells that are pairwise distinct.
\<close>

lemma hci_write_read_back:
  assumes "length ds < 65536"
    and "\<And>i. i < length ds \<Longrightarrow> cpu_cell t (a + of_nat i) \<noteq> None"
    and "inj_on (\<lambda>i. cpu_cell t (a + of_nat i)) {..<length ds}"
  shows "leads rc (at_decode (encode (CpuMemWr a ds) @ encode (CpuMemRd a (len16 ds)) @ rx) out t)
    (at_decode rx (out @ ds) (wr_block t_cpu_wr a ds t))"
proof -
  have "ri_ncs (a + of_nat i)" if "i < length ds" for i
    using assms(2)[OF that] ri_no_cell by blast
  then have "leads rc (at_decode (concat (map encode [CpuMemWr a ds, CpuMemRd a (len16 ds)]) @ rx) out t)
      (at_decode rx (out @ fst (exec_all [CpuMemWr a ds, CpuMemRd a (len16 ds)] t))
        (snd (exec_all [CpuMemWr a ds, CpuMemRd a (len16 ds)] t)))"
    using assms(1) by (intro packets_lead) (auto simp: wf_cmd_def)
  then show ?thesis
    using cpu_bus.rd_block_wr_block[OF assms(2,3)] assms(1) by simp
qed

lemma hci_write_read_back_witness:
  "leads (\<lambda>c. (c, False))
     (at_decode (encode (CpuMemWr 0x7F [1, 2]) @ encode (CpuMemRd 0x7F (len16 [1, 2])) @ []) [] power_on_target)
     (at_decode [] ([] @ [1, 2]) (wr_block t_cpu_wr 0x7F [1, 2] power_on_target))"
proof (rule hci_write_read_back)
  show "inj_on (\<lambda>i. cpu_cell power_on_target (0x7F + of_nat i)) {..<length [1, 2::byte]}"
    by (auto simp: inj_on_def cpu_cell_def wram_en_def less_Suc_eq bit_numeral_rec)
qed (auto simp: cpu_cell_def wram_en_def less_Suc_eq bit_numeral_rec)

text \<open>
  C27: DBG_HLT reaches a running console: whatever its CPU does in the meantime, a break included,
  the board ends halted, having consumed exactly that packet and sent nothing.
\<close>

theorem hci_halt:
  "leads rc (running (encode DbgHlt @ rx) out) (halted rx out)"
  by (rule halt_lead)

text \<open>
  C28: A running console, whatever its CPU does, whenever the bytes arrive and the transmit FIFO is full (neither keeps it waiting
  for ever), drops every byte but DBG_HLT and QUERY_HLT
  without a reply and then answers a QUERY_HLT with 0; unless its CPU asks for the break in a clock before: then the
  board halts in the next with the bytes left that had not been dropped, nothing sent. So when the CPU does not
  break in the meantime a packet sent to the running console gets no answer and leaves the line in step, as long as none of
  its bytes is one of those two opcodes.
\<close>

theorem hci_running_replies:
  assumes "opcode OpDbgHlt \<notin> set bs" and "opcode OpQueryHlt \<notin> set bs" and "fair full" and "fair late"
    and "running (bs @ encode QueryHlt @ rx) out (total s)"
  shows "\<exists>n. running rx (out @ [0]) (total (arun rc full late n s)) \<or>
    (breaks rc (fst (arun rc full late n s)) \<and>
      (\<exists>k \<le> length bs. halted (drop k bs @ encode QueryHlt @ rx) out (total (arun rc full late (Suc n) s))))"
  using skip_run[OF assms] .

lemma hci_running_replies_witness:
  "\<exists>n. running [5] [0] (total (arun (\<lambda>c. (c, False)) (\<lambda>_. False) (\<lambda>_. False) n
    ((power_on (encode (CpuMemRd 0x10 2) @ encode QueryHlt @ [5]))\<lparr>hci := hci_reset\<lparr>q_state := S_DISABLED\<rparr>\<rparr>, [])))"
proof -
  let ?bs = "encode (CpuMemRd 0x10 2)"
  let ?b = "(power_on (?bs @ encode QueryHlt @ [5]))\<lparr>hci := hci_reset\<lparr>q_state := S_DISABLED\<rparr>\<rparr>"
  have "fair (\<lambda>_. False)" by (auto simp: fair_def)
  moreover have "running (?bs @ encode QueryHlt @ [5]) [] (total (?b, []))"
    by (simp add: running_def power_on_def total_def sent_def hci_reset_def)
  ultimately show ?thesis
    using hci_running_replies[of ?bs "\<lambda>_. False" "\<lambda>_. False" "[5]" "[]" "(?b, [])" "\<lambda>c. (c, False)"]
    by (auto simp: bytes16_def lo8_def hi8_def breaks_def)
qed

text \<open>
  A byte that is no opcode is consumed and sets bit 1 of the error code, which the next
  QUERY_ERR_CODE reports; memories, registers and configuration are untouched.
\<close>

theorem hci_unknown_opcode:
  assumes "x \<notin> range opcode"
  shows "leads rc (at_decode (x # encode QueryErrCode @ rx) out t)
    (at_decode rx (out @ [ucast (t_err t OR 2)]) (t\<lparr>t_err := t_err t OR 2\<rparr>))"
proof -
  have "leads rc (at_decode (x # encode QueryErrCode @ rx) out t)
      (at_decode (encode QueryErrCode @ rx) out (t\<lparr>t_err := t_err t OR 2\<rparr>))"
    unfolding at_decode_def by (intro leads_Ex leads_take) (simp add: takes_def, blast intro: c_decode_bad[OF _ assms])
  with leads_packet[of QueryErrCode rc rx out "t\<lparr>t_err := t_err t OR 2\<rparr>"] show ?thesis
    by (auto simp: packet_done_decode wf_cmd_def simp del: encode.simps elim: leads_trans)
qed

lemma hci_unknown_opcode_witness:
  "leads (\<lambda>c. (c, False)) (at_decode (0x0D # encode QueryErrCode @ []) [] power_on_target)
     (at_decode [] ([] @ [ucast (t_err power_on_target OR 2)])
       (power_on_target\<lparr>t_err := t_err power_on_target OR 2\<rparr>))"
proof (rule hci_unknown_opcode)
  have "opcode op \<noteq> 0x0D" for op by (cases op) simp_all
  then show "0x0D \<notin> range opcode" by (metis imageE)
qed

text \<open>
  C32: When the address the HCI last used is not one of the PPU's registers ($2000 to $3FFF), PPU_DISABLE takes seven clock
  cycles, whatever the FIFOs do, and makes the PPU's register interface see exactly three accesses: 0 written to $2000,
  0 written to $2001 and a read of $2002.
\<close>

theorem hci_ppu_disable_accesses:
  assumes "st S_DECODE dc ec ad (encode PpuDisable @ rx) out t b" and "ri ncs tr b" and "ri_ncs ad"
  shows "at_decode rx out t (run rc full 7 b) \<and>
    ri False (RiRead 2 # RiWrite 1 0 # RiWrite 0 0 # tr) (run rc full 7 b)"
  by (rule ppu_disable_cycles[OF assms])

lemma hci_ppu_disable_accesses_witness:
  "at_decode [] [] power_on_target (run (\<lambda>c. (c, False)) (\<lambda>_. True) 7 (power_on (encode PpuDisable @ []))) \<and>
   ri False (RiRead 2 # RiWrite 1 0 # RiWrite 0 0 # [])
     (run (\<lambda>c. (c, False)) (\<lambda>_. True) 7 (power_on (encode PpuDisable @ [])))"
  by (rule hci_ppu_disable_accesses[OF power_on_st power_on_ri]) (simp add: ri_ncs_def)

text \<open>
  C36: A CPU_MEM_WR packet cannot write a PPU register: when its block lies in $2000 to $3FFF, and the address the HCI used
  before does not, the PPU's
  register interface sees one access, a read of the first register, while the packet's header is still
  being received, and none of the writes; no memory changes either. With the packet in the receive
  FIFO it takes five cycles and one for each byte.
\<close>

theorem hci_ppu_register_write:
  assumes "st S_DECODE dc ec ad (encode (CpuMemWr a ds) @ rx) out t b" and "ri True tr b" and "ri_ncs ad"
    and "ds \<noteq> []" "length ds < 65536" "\<And>i. i < length ds \<Longrightarrow> \<not> ri_ncs (a + of_nat i)"
  shows "at_decode rx out t (run rc full (5 + length ds) b) \<and>
    ri False (RiRead (ucast a) # tr) (run rc full (5 + length ds) b)"
  using ri_write[OF assms, of rc full] wr_block_ri[OF assms(6)] by simp

lemma hci_ppu_register_write_witness:
  "at_decode [] [] power_on_target
     (run (\<lambda>c. (c, False)) (\<lambda>_. True) (5 + length [0x80, 0x1E :: byte]) (power_on (encode (CpuMemWr 0x2000 [0x80, 0x1E]) @ []))) \<and>
   ri False (RiRead (ucast (0x2000 :: 16 word)) # [])
     (run (\<lambda>c. (c, False)) (\<lambda>_. True) (5 + length [0x80, 0x1E :: byte]) (power_on (encode (CpuMemWr 0x2000 [0x80, 0x1E]) @ [])))"
  by (rule hci_ppu_register_write[OF power_on_st power_on_ri]) (auto simp: ri_ncs_def less_Suc_eq)

end
