(* ===== verification/Lua_Props.thy ===== *)
theory Lua_Props
  imports Bench Hci_Packets
begin

text \<open>
  What a Lua test script may rely on: the properties of the functions of the nesdbg library, for
  every environment that meets the contracts of theory \<open>Link\<close>, with instances on the bench.
\<close>

text \<open>
  C20: A block that a script writes to CPU memory and reads back with the same address and count is
  returned unchanged, for every block in mapped, pairwise distinct memory cells of a halted console.
  The write returns no value to Lua and leaves nothing unread on the line.
\<close>

theorem LuaCpuMem_roundtrip:
  assumes env: "script_host E h tgt inq stk" and g: "GetSerialComm g = Inr \<lparr>m_hSerialComm = h\<rparr>"
    and st: "t_halted (tgt w)" "inq w = []"
    and args: "stk w = [LNum x1, LNum x2, LTab tb]" "cast_ushort x1 = Inr a" "cast_ushort x2 = Inr n"
      "tab_bytes tb (unat n) ds"
    and mem: "\<And>i. i < length ds \<Longrightarrow> cpu_cell (tgt w) (a + of_nat i) \<noteq> None"
      "inj_on (\<lambda>i. cpu_cell (tgt w) (a + of_nat i)) {..<length ds}"
  shows "\<exists>w1. LuaCpuMemWr E g w = Inr (0, w1) \<and> stk w1 = stk w \<and> inq w1 = [] \<and>
    (\<forall>w2. stk w2 = [LNum x1, LNum x2] \<and> tgt w2 = tgt w1 \<and> inq w2 = inq w1 \<longrightarrow>
       (\<exists>w3. LuaCpuMemRd E g w2 = Inr (1, w3) \<and> stk w3 = stk w2 @ [LTab (table_of ds)] \<and>
         tgt w3 = tgt w1 \<and> inq w3 = []))"
proof -
  let ?t = "wr_block t_cpu_wr a ds (tgt w)"
  have con: "script_host.connected h g" by (simp add: script_host.connected_def[OF env] g)
  have n: "unat n = length ds" using args(4) by (simp add: tab_bytes_def)
  obtain w1 where w1: "LuaCpuMemWr E g w = Inr (0, w1)" "stk w1 = stk w" "tgt w1 = ?t" "inq w1 = []"
    using script_host.LuaCpuMemWr_spec[OF env args con st(1)] st(2) by auto
  have "ri_ncs (a + of_nat i)" if "i < unat n" for i
    using mem(1)[of i] that n ri_no_cell by metis
  then have plain: "plain_cmd (CpuMemRd a n)" by simp
  have rd: "rd_block t_cpu_rd ?t a (unat n) = ds" using cpu_bus.rd_block_wr_block[OF mem] n by simp
  have "\<exists>w3. LuaCpuMemRd E g w2 = Inr (1, w3) \<and> stk w3 = stk w2 @ [LTab (table_of ds)] \<and>
      tgt w3 = tgt w1 \<and> inq w3 = []"
    if "stk w2 = [LNum x1, LNum x2]" "tgt w2 = tgt w1" "inq w2 = inq w1" for w2
    using script_host.LuaCpuMemRd_spec[OF env that(1) args(2,3) plain con] that(2,3) w1(3,4) rd st(1)
    by (auto simp: cpu_wr_frame)
  with w1 show ?thesis by blast
qed

lemma desk_cells:
  "inj_on (\<lambda>i. cpu_cell desk_target (0x7F + of_nat i)) {..<length [7, 8::byte]}"
  "i < length [7, 8::byte] \<Longrightarrow> cpu_cell desk_target (0x7F + of_nat i) \<noteq> None"
  by (auto simp: inj_on_def cpu_cell_def wram_en_def less_Suc_eq bit_numeral_rec)

lemma LuaCpuMem_roundtrip_witness:
  "\<exists>w1. LuaCpuMemWr (bench_env desk_cfg) desk_g
       (desk_w [nat_val 0x7F, nat_val 2, LTab (table_of [7, 8])]) = Inr (0, w1) \<and>
     b_stk w1 = b_stk (desk_w [nat_val 0x7F, nat_val 2, LTab (table_of [7, 8])]) \<and> b_in w1 = [] \<and>
     (\<forall>w2. b_stk w2 = [nat_val 0x7F, nat_val 2] \<and> b_tgt w2 = b_tgt w1 \<and> b_in w2 = b_in w1 \<longrightarrow>
       (\<exists>w3. LuaCpuMemRd (bench_env desk_cfg) desk_g w2 = Inr (1, w3) \<and>
         b_stk w3 = b_stk w2 @ [LTab (table_of [7, 8])] \<and> b_tgt w3 = b_tgt w1 \<and> b_in w3 = []))"
  by (rule LuaCpuMem_roundtrip[OF desk_axioms(1)]) (use tab_bytes_pair desk_cells in auto)

text \<open>
  The same for PPU memory (pattern tables and name tables), where every address is mapped.
\<close>

lemma LuaPpuMem_roundtrip:
  assumes env: "script_host E h tgt inq stk" and g: "GetSerialComm g = Inr \<lparr>m_hSerialComm = h\<rparr>"
    and st: "t_halted (tgt w)" "inq w = []"
    and args: "stk w = [LNum x1, LNum x2, LTab tb]" "cast_ushort x1 = Inr a" "cast_ushort x2 = Inr n"
      "tab_bytes tb (unat n) ds"
    and mem: "inj_on (\<lambda>i. ppu_cell (tgt w) (a + of_nat i)) {..<length ds}"
  shows "\<exists>w1. LuaPpuMemWr E g w = Inr (0, w1) \<and> stk w1 = stk w \<and> inq w1 = [] \<and>
    (\<forall>w2. stk w2 = [LNum x1, LNum x2] \<and> tgt w2 = tgt w1 \<and> inq w2 = inq w1 \<longrightarrow>
       (\<exists>w3. LuaPpuMemRd E g w2 = Inr (1, w3) \<and> stk w3 = stk w2 @ [LTab (table_of ds)] \<and>
         tgt w3 = tgt w1 \<and> inq w3 = []))"
proof -
  let ?t = "wr_block t_ppu_wr a ds (tgt w)"
  have con: "script_host.connected h g" by (simp add: script_host.connected_def[OF env] g)
  have n: "unat n = length ds" using args(4) by (simp add: tab_bytes_def)
  obtain w1 where w1: "LuaPpuMemWr E g w = Inr (0, w1)" "stk w1 = stk w" "tgt w1 = ?t" "inq w1 = []"
    using script_host.LuaPpuMemWr_spec[OF env args con st(1)] st(2) by auto
  have "ppu_cell (tgt w) (a + of_nat i) \<noteq> None" for i by (auto simp: ppu_cell_def)
  then have rd: "rd_block t_ppu_rd ?t a (unat n) = ds" using ppu_bus.rd_block_wr_block[OF _ mem] n by simp
  have "\<exists>w3. LuaPpuMemRd E g w2 = Inr (1, w3) \<and> stk w3 = stk w2 @ [LTab (table_of ds)] \<and>
      tgt w3 = tgt w1 \<and> inq w3 = []"
    if "stk w2 = [LNum x1, LNum x2]" "tgt w2 = tgt w1" "inq w2 = inq w1" for w2
    using script_host.LuaPpuMemRd_spec[OF env that(1) args(2,3) con] that(2,3) w1(3,4) rd st(1)
    by (auto simp: ppu_wr_frame)
  with w1 show ?thesis by blast
qed

lemma LuaPpuMem_roundtrip_witness:
  "\<exists>w1. LuaPpuMemWr (bench_env desk_cfg) desk_g
       (desk_w [nat_val 0x2000, nat_val 2, LTab (table_of [7, 8])]) = Inr (0, w1) \<and>
     b_stk w1 = b_stk (desk_w [nat_val 0x2000, nat_val 2, LTab (table_of [7, 8])]) \<and> b_in w1 = [] \<and>
     (\<forall>w2. b_stk w2 = [nat_val 0x2000, nat_val 2] \<and> b_tgt w2 = b_tgt w1 \<and> b_in w2 = b_in w1 \<longrightarrow>
       (\<exists>w3. LuaPpuMemRd (bench_env desk_cfg) desk_g w2 = Inr (1, w3) \<and>
         b_stk w3 = b_stk w2 @ [LTab (table_of [7, 8])] \<and> b_tgt w3 = b_tgt w1 \<and> b_in w3 = []))"
proof (rule LuaPpuMem_roundtrip[OF desk_axioms(1)])
  show "inj_on (\<lambda>i. ppu_cell (b_tgt (desk_w [nat_val 0x2000, nat_val 2, LTab (table_of [7, 8])])) (0x2000 + of_nat i))
      {..<length [7, 8::byte]}"
    by (auto simp: inj_on_def ppu_cell_def vram_a_def desk_target_def less_Suc_eq bit_numeral_rec)
qed (use tab_bytes_pair in auto)

text \<open>What register \<open>r\<close> reads as after \<open>v\<close> has been written to it.\<close>

definition reg_after :: "uint \<Rightarrow> byte \<Rightarrow> cpu_regs \<Rightarrow> byte" where
  "reg_after r v c =
     (if r \<le> 4 then v
      else if r = 5 then (v AND 0xCF) OR 0x20 OR (if irq_brk c then 0x10 else 0)
      else q_s c)"

lemma reg_cases: "r \<le> (6 :: uint) \<Longrightarrow> r \<in> {0, 1, 2, 3, 4, 5, 6}"
  by (simp add: word_le_nat_alt word_unat_eq_iff) presburger

lemma flags_readback:
  "cpu_p (dbgreg_write 5 v c) = (v AND 0xCF) OR 0x20 OR (if irq_brk c then 0x10 else 0)"
proof (rule bit_word_eqI)
  fix n assume "n < LENGTH(8)"
  then have "n = 0 \<or> n = 1 \<or> n = 2 \<or> n = 3 \<or> n = 4 \<or> n = 5 \<or> n = 6 \<or> n = 7" by auto
  then show "bit (cpu_p (dbgreg_write 5 v c)) n =
      bit ((v AND 0xCF) OR 0x20 OR (if irq_brk c then 0x10 else 0)) n"
    by (elim disjE; simp add: cpu_p_def dbgreg_write_def bit_of_def bit_simps bit_numeral_rec)
qed

lemma reg_readback:
  assumes "r \<le> 6"
  shows "dbgreg_out (dbgreg_write (ucast (ucast r :: byte)) v c) (ucast (ucast r :: byte)) = reg_after r v c"
  using reg_cases[OF assms] flags_readback
  by (auto simp: dbgreg_out_def dbgreg_write_def reg_after_def Let_def)

text \<open>
  C31: What a script writes to a CPU register of a halted console is what it reads back, for the
  program counter's halves, A, X and Y. Of the flags register only the six flag bits are stored;
  bit 5 reads as 1 and bit 4 tells whether the interrupt the core selects is BRK (theory Console). A write to the stack pointer is lost: S keeps its value.
\<close>

theorem LuaCpuReg_roundtrip:
  assumes env: "script_host E h tgt inq stk" and g: "GetSerialComm g = Inr \<lparr>m_hSerialComm = h\<rparr>"
    and st: "t_halted (tgt w)" "inq w = []"
    and args: "stk w = [LNum x1, LNum x2]" "cast_uint x1 = Inr r" "cast_byte x2 = Inr v" and r: "r \<le> 6"
  shows "\<exists>w1. LuaCpuRegWr E g w = Inr (0, w1) \<and> stk w1 = stk w \<and> inq w1 = [] \<and>
    (\<forall>w2. stk w2 = [LNum x1] \<and> tgt w2 = tgt w1 \<and> inq w2 = inq w1 \<longrightarrow>
       (\<exists>w3. LuaCpuRegRd E g w2 = Inr (1, w3) \<and>
         stk w3 = stk w2 @ [num_of (reg_after r v (t_cpu (tgt w)))] \<and> tgt w3 = tgt w1 \<and> inq w3 = []))"
proof -
  let ?t = "(tgt w)\<lparr>t_cpu := dbgreg_write (ucast (ucast r :: byte)) v (t_cpu (tgt w))\<rparr>"
  have con: "script_host.connected h g" by (simp add: script_host.connected_def[OF env] g)
  obtain w1 where w1: "LuaCpuRegWr E g w = Inr (0, w1)" "stk w1 = stk w" "tgt w1 = ?t" "inq w1 = []"
    using script_host.LuaCpuRegWr_spec[OF env args con st(1)] st(2) by auto
  have "\<exists>w3. LuaCpuRegRd E g w2 = Inr (1, w3) \<and>
      stk w3 = stk w2 @ [num_of (reg_after r v (t_cpu (tgt w)))] \<and> tgt w3 = tgt w1 \<and> inq w3 = []"
    if "stk w2 = [LNum x1]" "tgt w2 = tgt w1" "inq w2 = inq w1" for w2
    using script_host.LuaCpuRegRd_spec[OF env that(1) args(2) con] that(2,3) w1(3,4) st(1) reg_readback[OF r]
    by auto
  with w1 show ?thesis by blast
qed

lemma LuaCpuReg_roundtrip_witness:
  "\<exists>w1. LuaCpuRegWr (bench_env desk_cfg) desk_g (desk_w [nat_val 6, nat_val 0x80]) = Inr (0, w1) \<and>
     b_stk w1 = b_stk (desk_w [nat_val 6, nat_val 0x80]) \<and> b_in w1 = [] \<and>
     (\<forall>w2. b_stk w2 = [nat_val 6] \<and> b_tgt w2 = b_tgt w1 \<and> b_in w2 = b_in w1 \<longrightarrow>
       (\<exists>w3. LuaCpuRegRd (bench_env desk_cfg) desk_g w2 = Inr (1, w3) \<and>
         b_stk w3 = b_stk w2 @ [num_of (reg_after 6 0x80 (t_cpu (b_tgt (desk_w [nat_val 6, nat_val 0x80]))))] \<and>
         b_tgt w3 = b_tgt w1 \<and> b_in w3 = []))"
  by (rule LuaCpuReg_roundtrip[OF desk_axioms(1)]) auto

text \<open>
  An echo from a script returns the table it was given, and nothing else happens to the console.
\<close>

lemma LuaEcho_returns:
  assumes env: "script_host E h tgt inq stk" and g: "GetSerialComm g = Inr \<lparr>m_hSerialComm = h\<rparr>"
    and st: "t_halted (tgt w)" "inq w = []"
    and args: "stk w = [LNum x1, LTab tb]" "cast_ushort x1 = Inr n" "tab_bytes tb (unat n) ds"
  shows "\<exists>w1. LuaEcho E g w = Inr (1, w1) \<and> stk w1 = stk w @ [LTab (table_of ds)] \<and>
    tgt w1 = tgt w \<and> inq w1 = []"
  by (rule script_host.LuaEcho_spec[OF env args _ st]) (simp add: script_host.connected_def[OF env] g)

lemma LuaEcho_returns_witness:
  "\<exists>w1. LuaEcho (bench_env desk_cfg) desk_g (desk_w [nat_val 2, LTab (table_of [7, 8])]) = Inr (1, w1) \<and>
     b_stk w1 = b_stk (desk_w [nat_val 2, LTab (table_of [7, 8])]) @ [LTab (table_of [7, 8])] \<and>
     b_tgt w1 = b_tgt (desk_w [nat_val 2, LTab (table_of [7, 8])]) \<and> b_in w1 = []"
  by (rule LuaEcho_returns[OF desk_axioms(1)]) (use tab_bytes_pair in auto)

text \<open>
  C21: Waiting for a breakpoint returns exactly when the console halts: if it is halted after some
  number of polls the loop is left after at most one poll more, with the console halted and nothing
  unread on the line, and if it never halts the loop is never left.
\<close>

theorem LuaWaitForHlt_returns:
  assumes env: "script_host E h tgt inq stk" and g: "GetSerialComm g = Inr \<lparr>m_hSerialComm = h\<rparr>"
    and st: "inq w = []"
  shows "(\<forall>k fuel. t_halted (tgt ((poll E h ^^ k) w)) \<longrightarrow> k < fuel \<longrightarrow>
      (\<exists>w1. LuaWaitForHlt E g fuel w = Some (Inr (0, w1)) \<and>
         t_halted (tgt w1) \<and> stk w1 = stk w \<and> inq w1 = [])) \<and>
    ((\<forall>k. \<not> t_halted (tgt ((poll E h ^^ k) w))) \<longrightarrow> (\<forall>fuel. LuaWaitForHlt E g fuel w = None))"
proof -
  have con: "script_host.connected h g" by (simp add: script_host.connected_def[OF env] g)
  show ?thesis
    using script_host.LuaWaitForHlt_spec[OF env con st] script_host.LuaWaitForHlt_blocks[OF env con st]
    by blast
qed

definition desk_run :: bench where
  "desk_run = \<lparr>b_tgt = desk_target\<lparr>t_halted := False\<rparr>, b_in = [], b_stk = [], b_brk = 2\<rparr>"

lemma desk_run_polls: "t_halted (b_tgt ((poll (bench_env desk_cfg) bench_port ^^ 3) desk_run))"
proof -
  have "decode (encode QueryHlt) = Some QueryHlt" by (rule decode_encode) (simp add: wf_cmd_def)
  then show ?thesis
    by (simp add: numeral_3_eq_3 poll_def bench_env_defs bench_write_def bench_read_def bench_sleep_def port_exec_def
        desk_run_def desk_target_def bench_port_def del: encode.simps)
qed

lemma LuaWaitForHlt_returns_witness:
  "\<exists>w1. LuaWaitForHlt (bench_env desk_cfg) desk_g 4 desk_run = Some (Inr (0, w1)) \<and>
     t_halted (b_tgt w1) \<and> b_stk w1 = b_stk desk_run \<and> b_in w1 = []"
proof -
  have "b_in desk_run = []" by (simp add: desk_run_def)
  from LuaWaitForHlt_returns[OF desk_axioms(1) desk_simps(1) this] desk_run_polls show ?thesis
    by (metis numeral_3_eq_3 eval_nat_numeral(2) lessI semiring_norm(26,27))
qed

text \<open>
  C25: Loading an assembled program: the file's first two bytes are its start address, which is
  returned to Lua, and the rest of the file is in CPU memory from there on, for every file of 2 to
  65536 bytes whose code lies in mapped, pairwise distinct cells.
\<close>

theorem LuaLoadAsm_loads:
  assumes env: "ui_host E h tgt inq stk" and g: "GetSerialComm g = Inr \<lparr>m_hSerialComm = h\<rparr>"
    and st: "t_halted (tgt w)" and arg: "stk w = [LStr name]"
    and opened: "\<And>w. fst (CreateFile E (AsmPrgDir @ CreateTcharString E name) GENERIC_READ w) = hf"
      "hf \<noteq> INVALID_HANDLE_VALUE" "hf \<noteq> h"
      "\<And>w. fst (ReadFile E hf (of_nat AsmBufferSize) w) = (True, lo # hi # code)" "length code \<le> 65534"
    and mem: "\<And>i. i < length code \<Longrightarrow> cpu_cell (tgt w) (le16 lo hi + of_nat i) \<noteq> None"
      "inj_on (\<lambda>i. cpu_cell (tgt w) (le16 lo hi + of_nat i)) {..<length code}"
  shows "\<exists>w1. LuaLoadAsm E g w = Inr (1, w1) \<and>
    stk w1 = stk w @ [LNum (LFinite (of_nat (unat (le16 lo hi))))] \<and>
    rd_block t_cpu_rd (tgt w1) (le16 lo hi) (length code) = code \<and> t_halted (tgt w1) \<and> inq w1 = inq w"
proof -
  have host: "script_host E h tgt inq stk" using env by (rule ui_host.axioms(1))
  have con: "script_host.connected h g" by (simp add: script_host.connected_def[OF host] g)
  show ?thesis
    using ui_host.LuaLoadAsm_ok[OF env arg con opened st] cpu_bus.rd_block_wr_block[OF mem] st
    by (auto simp: cpu_wr_frame)
qed

lemma desk_file:
  "AsmPrgDir @ s \<noteq> T ''COM5''"
  by (simp add: AsmPrgDir_def T_def)

lemma LuaLoadAsm_loads_witness:
  "\<exists>w1. LuaLoadAsm (bench_env desk_cfg) desk_g (desk_w [LStr [0x61]]) = Inr (1, w1) \<and>
     b_stk w1 = b_stk (desk_w [LStr [0x61]]) @ [LNum (LFinite (of_nat (unat (le16 0 3))))] \<and>
     rd_block t_cpu_rd (b_tgt w1) (le16 0 3) (length [0xA9, 0x42 :: byte]) = [0xA9, 0x42] \<and>
     t_halted (b_tgt w1) \<and> b_in w1 = b_in (desk_w [LStr [0x61]])"
proof (rule LuaLoadAsm_loads[OF desk_axioms(2)])
  show "fst (CreateFile (bench_env desk_cfg) (AsmPrgDir @ CreateTcharString (bench_env desk_cfg) [0x61])
      GENERIC_READ w) = bench_file" for w
    by (simp add: bench_env_defs desk_file)
  show "fst (ReadFile (bench_env desk_cfg) bench_file (of_nat AsmBufferSize) w) = (True, [0, 3, 0xA9, 0x42])" for w
    by (simp add: bench_env_defs bench_read_def bench_file_def bench_port_def AsmBufferSize_def desk_cfg_def)
  show "cpu_cell (b_tgt (desk_w [LStr [0x61]])) (le16 0 3 + of_nat i) \<noteq> None" if "i < length [0xA9, 0x42 :: byte]" for i
    using that by (auto simp: cpu_cell_def wram_en_def less_Suc_eq le16_def bit_numeral_rec)
  show "inj_on (\<lambda>i. cpu_cell (b_tgt (desk_w [LStr [0x61]])) (le16 0 3 + of_nat i)) {..<length [0xA9, 0x42 :: byte]}"
    by (auto simp: inj_on_def cpu_cell_def wram_en_def less_Suc_eq le16_def bit_numeral_rec)
qed (simp_all add: bench_file_def bench_port_def INVALID_HANDLE_VALUE_def)

text \<open>
  A program file of fewer than two bytes makes the loader read a byte of its buffer that was
  never written, on every environment: the file's size is not compared with the size of the header.
\<close>

theorem LuaLoadAsm_short_file:
  assumes "lua_isstring E 1 w" and "lua_tostring E 1 w = name"
    and "\<And>w. fst (CreateFile E (AsmPrgDir @ CreateTcharString E name) GENERIC_READ w) = hf"
    and "hf \<noteq> INVALID_HANDLE_VALUE" and "length bytes < 2"
    and "\<And>w. fst (ReadFile E hf (of_nat AsmBufferSize) w) = (True, bytes)"
  shows "LuaLoadAsm E g w = Inl UninitRead"
proof -
  have buf: "new_buf AsmBufferSize = None # None # replicate 0xFFFE None"
    by (simp only: new_buf_def AsmBufferSize_def) (simp flip: replicate_Suc)
  have "bytes = [] \<or> (\<exists>b. bytes = [b])" using assms(5) by (cases bytes; cases "tl bytes") auto
  then have "LuaLoadAsm_send E g hf w = Inl UninitRead" for w
    using assms(6) by (auto simp: LuaLoadAsm_send_def bnd_call buf_fill_def buf buf_rd_def)
  then show ?thesis using assms(1-4) by (simp add: LuaLoadAsm_def bnd_call bnd_Inl)
qed

lemma LuaLoadAsm_short_file_witness:
  "LuaLoadAsm (bench_env (desk_cfg\<lparr>c_data := [0x60]\<rparr>)) desk_g (desk_w [LStr [0x61]]) = Inl UninitRead"
proof (rule LuaLoadAsm_short_file)
  show "fst (CreateFile (bench_env (desk_cfg\<lparr>c_data := [0x60]\<rparr>)) (AsmPrgDir @
      CreateTcharString (bench_env (desk_cfg\<lparr>c_data := [0x60]\<rparr>)) [0x61]) GENERIC_READ w) = bench_file" for w
    by (simp add: bench_env_defs desk_file)
  show "fst (ReadFile (bench_env (desk_cfg\<lparr>c_data := [0x60]\<rparr>)) bench_file (of_nat AsmBufferSize) w) = (True, [0x60])" for w
    by (simp add: bench_env_defs bench_read_def bench_file_def bench_port_def AsmBufferSize_def)
qed (simp_all add: bench_env_defs bench_file_def INVALID_HANDLE_VALUE_def)

section \<open>Printing and wrong arguments\<close>

text \<open>The world after \<open>out\<close> has been appended to the output control of the script dialog.\<close>

definition shown :: "'w env \<Rightarrow> uint \<Rightarrow> tstring \<Rightarrow> 'w \<Rightarrow> 'w" where
  "shown E dlg out w =
     snd (SendDlgItemMessage E dlg IDC_TESTSCRIPTS_OUTPUT (EM_REPLACESEL out)
       (snd (SendDlgItemMessage E dlg IDC_TESTSCRIPTS_OUTPUT (EM_SETSEL MAXINT MAXINT) w)))"

text \<open>
  print hands the script's text to the dialog as a format string without arguments. A text of
  less than 1024 characters without a percent sign is appended as it is; a text with a percent sign
  that is not doubled has no defined result.
\<close>

theorem LuaPrint_output:
  assumes "lua_isstring E 1 w" and "GetScriptMgr g = Inr sm" and "m_hWndDlg sm \<noteq> 0"
    and "CreateTcharString E (lua_tostring E 1 w) = txt"
  shows "(0x25 \<notin> set txt \<and> length txt < 1024 \<longrightarrow> LuaPrint E g w = Inr (0, shown E (m_hWndDlg sm) txt w)) \<and>
    (\<forall>pre d post. txt = pre @ 0x25 # d # post \<and> 0x25 \<notin> set pre \<and> d \<noteq> 0x25 \<longrightarrow>
       LuaPrint E g w = Inl BadFormat)"
proof -
  obtain d where d: "g = Some d" "m_pScriptMgr d = Some sm"
    using assms(2) by (auto simp: GetScriptMgr_def split: option.split_asm)
  show ?thesis
  proof (intro conjI impI allI)
    assume "0x25 \<notin> set txt \<and> length txt < 1024"
    then have "stprintf_s 1024 txt [] = Inr txt" by (intro stprintf_plain) simp_all
    then show "LuaPrint E g w = Inr (0, shown E (m_hWndDlg sm) txt w)"
      using assms by (simp add: LuaPrint_def d deref_def seq_Inr[OF AppendOutput_plain] shown_def ret_apply)
  next
    fix pre d post
    assume "txt = pre @ 0x25 # d # post \<and> 0x25 \<notin> set pre \<and> d \<noteq> 0x25"
    then have "stprintf_s 1024 txt [] = Inl BadFormat" using stprintf_percent by blast
    then show "LuaPrint E g w = Inl BadFormat"
      using assms by (simp add: LuaPrint_def d deref_def TestScriptDlgAppendOutput_def seq_def ret_apply)
  qed
qed

lemma desk_print:
  "lua_isstring (bench_env desk_cfg) 1 (desk_w [LStr s])"
  "CreateTcharString (bench_env desk_cfg) (lua_tostring (bench_env desk_cfg) 1 (desk_w [LStr s])) = map ucast s"
  by (simp_all add: bench_env_defs CreateTcharString_def)

lemma LuaPrint_output_witness:
  "LuaPrint (bench_env desk_cfg) desk_g (desk_w [LStr [0x35, 0x30, 0x25, 0x20]]) = Inl BadFormat"
proof -
  note p = LuaPrint_output[OF desk_print(1) desk_g_mgr, of "[0x35, 0x30, 0x25, 0x20]" "map ucast [0x35, 0x30, 0x25, 0x20 :: byte]",
      OF _ desk_print(2), THEN conjunct2, rule_format, of "[0x35, 0x30]" "0x20" "[]"]
  show ?thesis by (rule p) simp_all
qed

text \<open>
  Called without arguments, every library function that needs a number fails its assertion in a
  debug build and returns no value in a release build; nothing is sent and the world is unchanged.
\<close>

lemma Lua_wrong_arguments:
  assumes env: "lua_vm E stk" and arg: "stk w = []"
    and f: "f \<in> {LuaEcho E g, LuaCpuMemRd E g, LuaCpuMemWr E g, LuaCpuRegRd E g, LuaCpuRegWr E g,
      LuaPpuMemRd E g, LuaPpuMemWr E g}"
  shows "f w = (if debug_build E then Inl AssertFailed else Inr (0, w))"
proof -
  have "lget (stk w) 1 = LNil" by (simp add: arg lget_def)
  then have "\<not> lua_isnumber E 1 w" using lua_vm.not_number[OF env] by blast
  then show ?thesis
    using f by (auto simp: LuaEcho_def LuaCpuMemRd_def LuaCpuMemWr_def LuaCpuRegRd_def LuaCpuRegWr_def
        LuaPpuMemRd_def LuaPpuMemWr_def usage_error_def assert_exp_def ret_apply)
qed

lemma Lua_wrong_arguments_witness:
  "LuaPpuMemWr (bench_env desk_cfg) desk_g (desk_w []) =
     (if debug_build (bench_env desk_cfg) then Inl AssertFailed else Inr (0, desk_w []))"
  by (rule Lua_wrong_arguments[OF desk_lua.lua_vm_axioms, where g = desk_g]) simp_all

end
