(* ===== verification/App_Props.thy ===== *)
theory App_Props
  imports Bench
begin

text \<open>
  The properties of the application: loading a ROM, the raw debug dialog, the connection test, the
  script dialog and the life cycle of the objects.
\<close>

section \<open>Loading a ROM\<close>

lemma desk_picked:
  assumes "length ds \<le> FileDataBufferSize"
  shows "file_picked (bench_env (desk_file_cfg ds)) (T ''game.nes'') bench_file ds"
  using assms
  by (simp add: file_picked_def bench_env_defs desk_file_cfg_def desk_cfg_def bench_read_def bench_file_def bench_port_def
      INVALID_HANDLE_VALUE_def FileDataBufferSize_def T_def)

text \<open>
  C6: Loading a ROM, whatever the console did before: for every complete image the checks accept, the
  loader halts the console, sends its packets and closes the file, and right after the last packet
  the CPU sees the PRG ROM at $8000 and the PPU the CHR ROM at 0, the program counter is at the reset
  vector, the cartridge is configured from the header and the console runs. Nothing is left unread. (For an image without
  a PRG bank, which the checks accept, the two bytes taken for the vector are 12 and 13 of the header.)
\<close>

theorem LoadRom_loads:
  assumes env: "ui_host E h tgt inq stk" and g: "GetSerialComm g = Inr \<lparr>m_hSerialComm = h\<rparr>"
    and f: "file_picked E path hf data" "hf \<noteq> h" and ok: "ines_ok data" "ines_complete data"
  shows "\<exists>hDlg w1. LoadRom E g d w = Inr ((), CloseHandle E hf (DestroyWindow E hDlg w1)) \<and>
    rom_loaded data (tgt w1) \<and> stk w1 = stk w \<and> inq w1 = inq w"
proof -
  have host: "script_host E h tgt inq stk" using env by (rule ui_host.axioms(1))
  have con: "script_host.connected h g" by (simp add: script_host.connected_def[OF host] g)
  show ?thesis by (rule ui_host.LoadRom_ok[OF env f con ok])
qed

lemma LoadRom_loads_witness:
  "\<exists>hDlg w1. LoadRom (bench_env (desk_file_cfg (rom_file one_bank 0x4000))) desk_g (new_NesDbg 1 1) (desk_w []) =
      Inr ((), CloseHandle (bench_env (desk_file_cfg (rom_file one_bank 0x4000))) bench_file
        (DestroyWindow (bench_env (desk_file_cfg (rom_file one_bank 0x4000))) hDlg w1)) \<and>
    rom_loaded (rom_file one_bank 0x4000) (b_tgt w1) \<and> b_stk w1 = b_stk (desk_w []) \<and> b_in w1 = b_in (desk_w [])"
  by (rule LoadRom_loads[OF desk_axioms(2) desk_simps(1) desk_picked bench_file_port])
    (simp_all add: rom_file_ok ines_complete_def FileDataBufferSize_def)

text \<open>
  An image that fails a check is refused: no packet is sent, a halted console is untouched.
\<close>

lemma LoadRom_rejects:
  assumes env: "ui_host E h tgt inq stk" and f: "file_picked E path hf data" "hf \<noteq> h"
    and len: "8 \<le> length data" and bad: "\<not> ines_ok data"
  shows "\<exists>w1. LoadRom E g d w = Inr ((), w1) \<and> stk w1 = stk w \<and> inq w1 = inq w \<and>
    (t_halted (tgt w) \<longrightarrow> tgt w1 = tgt w)"
  by (rule ui_host.LoadRom_rejected[OF env f len bad])

lemma LoadRom_rejects_witness:
  "\<exists>w1. LoadRom (bench_env (desk_file_cfg (rom_file [0x4E, 0x45, 0x53, 0x1A, 3, 0, 0, 0] 8))) desk_g (new_NesDbg 1 1) (desk_w []) = Inr ((), w1) \<and>
     b_stk w1 = b_stk (desk_w []) \<and> b_in w1 = b_in (desk_w []) \<and>
     (t_halted (b_tgt (desk_w [])) \<longrightarrow> b_tgt w1 = b_tgt (desk_w []))"
  by (rule LoadRom_rejects[OF desk_axioms(2) desk_picked bench_file_port])
    (simp_all add: rom_file_def ines_ok_def FileDataBufferSize_def)

text \<open>
  C33: When at least 8 bytes of the file have been read, the header checks decide exactly the predicate ines_ok (magic number, at most two PRG banks
  and one CHR bank, horizontal or vertical mirroring, mapper 0), they return the bank counts, and an
  accepted header raises no message box.
\<close>

theorem LoadRom_check_exact:
  assumes "8 \<le> length data"
  shows "\<exists>w1. LoadRom_check E (map Some data @ rest) w =
      Inr ((ines_ok data, ucast (data ! 4), ucast (data ! 5)), w1) \<and> (ines_ok data \<longrightarrow> w1 = w)"
  using LoadRom_check_eq[OF assms, of E rest w] by blast

lemma LoadRom_check_exact_witness:
  "\<exists>w1. LoadRom_check (bench_env desk_cfg) (map Some (rom_file one_bank 0) @ []) (desk_w []) =
      Inr ((ines_ok (rom_file one_bank 0), ucast (rom_file one_bank 0 ! 4), ucast (rom_file one_bank 0 ! 5)), w1) \<and>
     (ines_ok (rom_file one_bank 0) \<longrightarrow> w1 = desk_w [])"
  by (rule LoadRom_check_exact) (simp add: rom_file_ok)

text \<open>
  The loader does not compare the file's size with the sizes the header announces: a file with a
  full header that ends early makes it send bytes of its buffer that were never written.
\<close>

theorem LoadRom_short_file:
  assumes env: "ui_host E h tgt inq stk" and g: "GetSerialComm g = Inr \<lparr>m_hSerialComm = h\<rparr>"
    and f: "file_picked E path hf data" "hf \<noteq> h" and ok: "ines_ok data"
    and short: "16 \<le> length data" "length data < 16 + prg_size data + chr_size data"
  shows "\<exists>e. LoadRom E g d w = Inl e \<and> bad_read e"
proof -
  have host: "script_host E h tgt inq stk" using env by (rule ui_host.axioms(1))
  have con: "script_host.connected h g" by (simp add: script_host.connected_def[OF host] g)
  show ?thesis by (rule ui_host.LoadRom_short[OF env f con ok short(2,1)])
qed

lemma LoadRom_short_file_witness:
  "\<exists>e. LoadRom (bench_env (desk_file_cfg (rom_file one_bank 0x3FFF))) desk_g (new_NesDbg 1 1) (desk_w []) = Inl e \<and>
     bad_read e"
  by (rule LoadRom_short_file[OF desk_axioms(2) desk_simps(1) desk_picked bench_file_port])
    (simp_all add: rom_file_ok FileDataBufferSize_def)

section \<open>The raw debug dialog\<close>

text \<open>
  C29: A packet of the kinds the dialog knows (ECHO, CPU_MEM_WR and CPU_MEM_RD, the last of no address from $2000 to $3FFF, the
  PPU's registers), typed in as the dialog prints packets, is executed by the
  halted console; the dialog shows exactly the console's reply, in the same format, and clears its input.
\<close>

theorem RawDbg_executes:
  assumes env: "ui_host E h tgt inq stk" and g: "GetSerialComm g = Inr \<lparr>m_hSerialComm = h\<rparr>"
    and input: "\<And>w. lresult (fst (SendDlgItemMessage E hDlg IDC_RAWDBG_IN WM_GETTEXTLENGTH w)) =
        of_nat (length (hex_dump (encode c)))"
      "\<And>n w. r_text (fst (SendDlgItemMessage E hDlg IDC_RAWDBG_IN (WM_GETTEXT n) w)) = hex_dump (encode c)"
    and c: "wf_cmd c" "typed_in c" "plain_cmd c" and st: "t_halted (tgt w)" "inq w = []"
  shows "\<exists>w1. RawDbg_send E g hDlg w =
      Inr ((), snd (SendDlgItemMessage E hDlg IDC_RAWDBG_IN (WM_SETTEXT [])
                 (snd (SendDlgItemMessage E hDlg IDC_RAWDBG_OUT (WM_SETTEXT (hex_dump (fst (exec c (tgt w))))) w1)))) \<and>
    tgt w1 = snd (exec c (tgt w)) \<and> inq w1 = [] \<and> stk w1 = stk w"
proof -
  have host: "script_host E h tgt inq stk" using env by (rule ui_host.axioms(1))
  have con: "script_host.connected h g" by (simp add: script_host.connected_def[OF host] g)
  obtain p where p: "CreateObjFromString (hex_dump (encode c)) = Inr (Some p)" "carries p c"
    using packet_of_raw_encode[OF c(1,2)] by (auto simp: CreateObj_hex_dump)
  have "length (hex_dump (encode c)) < 2 ^ 32" using length_encode[OF c(1)] by simp
  from ui_host.RawDbg_send_ok[OF env input this p c(1,3) st con] show ?thesis .
qed

definition desk_typed :: "cmd \<Rightarrow> bench_cfg" where
  "desk_typed c = desk_cfg\<lparr>c_text := hex_dump (encode c)\<rparr>"

lemma desk_typed_text:
  "lresult (fst (SendDlgItemMessage (bench_env (desk_typed c)) dlg ctl WM_GETTEXTLENGTH w)) = of_nat (length (hex_dump (encode c)))"
  "r_text (fst (SendDlgItemMessage (bench_env (desk_typed c)) dlg ctl (WM_GETTEXT n) w)) = hex_dump (encode c)"
  by (simp_all add: bench_env_defs bench_reply_def desk_typed_def Let_def)

lemma RawDbg_executes_witness:
  "\<exists>w1. RawDbg_send (bench_env (desk_typed (Echo [1, 0x7F]))) desk_g 1 (desk_w []) =
      Inr ((), snd (SendDlgItemMessage (bench_env (desk_typed (Echo [1, 0x7F]))) 1 IDC_RAWDBG_IN (WM_SETTEXT [])
                 (snd (SendDlgItemMessage (bench_env (desk_typed (Echo [1, 0x7F]))) 1 IDC_RAWDBG_OUT
                   (WM_SETTEXT (hex_dump (fst (exec (Echo [1, 0x7F]) (b_tgt (desk_w [])))))) w1)))) \<and>
    b_tgt w1 = snd (exec (Echo [1, 0x7F]) (b_tgt (desk_w []))) \<and> b_in w1 = [] \<and> b_stk w1 = b_stk (desk_w [])"
  by (rule RawDbg_executes[OF desk_axioms(2) desk_simps(1) desk_typed_text]) (simp_all add: wf_cmd_def typed_in_def)

text \<open>
  What the dialog does with a text it cannot use. A foreign character, an odd number of digits with
  a blank among them, or an opcode other than the three the parser knows is answered with a message
  box, and nothing is sent. An empty text makes it read the opcode from an array without elements, and
  an odd number of digits without a blank makes it write behind the array.
\<close>

theorem RawDbg_bad_text:
  assumes env: "ui_host E h tgt inq stk"
    and input: "\<And>w. lresult (fst (SendDlgItemMessage E hDlg IDC_RAWDBG_IN WM_GETTEXTLENGTH w)) = of_nat (length s)"
      "\<And>n w. r_text (fst (SendDlgItemMessage E hDlg IDC_RAWDBG_IN (WM_GETTEXT n) w)) = s" "length s < 2 ^ 32"
  shows "(\<not> clean s \<or> odd (length (nibbles s)) \<and> length (nibbles s) < length s \<or>
        even (length (nibbles s)) \<and> (\<exists>op bs. pack (nibbles s) = op # bs \<and> 2 < op) \<longrightarrow>
      (\<exists>w1. RawDbg_send E g hDlg w = Inr ((), MessageBox E (T ''Invalid data.'') NesDbg_title w1) \<and>
        stk w1 = stk w \<and> inq w1 = inq w \<and> (t_halted (tgt w) \<longrightarrow> tgt w1 = tgt w))) \<and>
    (s = [] \<longrightarrow> RawDbg_send E g hDlg w = Inl OobRead) \<and>
    (clean s \<and> odd (length s) \<and> length (nibbles s) = length s \<longrightarrow> RawDbg_send E g hDlg w = Inl OobWrite)"
proof -
  note bad = ui_host.RawDbg_send_bad[OF env input]
  have "CreateObjFromString s = Inr None"
    if "\<not> clean s \<or> odd (length (nibbles s)) \<and> length (nibbles s) < length s \<or>
      even (length (nibbles s)) \<and> (\<exists>op bs. pack (nibbles s) = op # bs \<and> 2 < op)"
  proof (cases "clean s")
    case True
    with that show ?thesis using CreateObj_odd_blank[OF True] CreateObj_even[OF True] raw_of_unknown[of s]
      by (cases "even (length (nibbles s))") auto
  qed (rule CreateObj_invalid)
  moreover have "CreateObjFromString [] = Inl OobRead"
    by (simp add: CreateObjFromString_def packet_of_raw_def new_buf_def)
  ultimately show ?thesis using bad CreateObj_odd_digits[of s] by auto
qed

definition desk_odd_cfg :: bench_cfg where
  "desk_odd_cfg = desk_cfg\<lparr>c_text := T ''00 0''\<rparr>"

lemma desk_odd_text: "odd (length (nibbles (T ''00 0''))) \<and> length (nibbles (T ''00 0'')) < length (T ''00 0'')"
  by (simp add: T_def classify_def)

lemma desk_odd_typed:
  "lresult (fst (SendDlgItemMessage (bench_env desk_odd_cfg) dlg ctl WM_GETTEXTLENGTH w)) = of_nat (length (T ''00 0''))"
  "r_text (fst (SendDlgItemMessage (bench_env desk_odd_cfg) dlg ctl (WM_GETTEXT n) w)) = T ''00 0''"
  by (simp_all add: bench_env_defs bench_reply_def desk_odd_cfg_def Let_def)

lemma RawDbg_bad_text_witness:
  "\<exists>w1. RawDbg_send (bench_env desk_odd_cfg) desk_g 1 (desk_w []) =
      Inr ((), MessageBox (bench_env desk_odd_cfg) (T ''Invalid data.'') NesDbg_title w1) \<and>
    b_stk w1 = [] \<and> b_in w1 = [] \<and> b_tgt w1 = desk_target"
proof -
  have "length (T ''00 0'') < 2 ^ 32" by (simp add: T_def)
  from RawDbg_bad_text[OF desk_axioms(2) desk_odd_typed this, where g = desk_g and w = "desk_w []"] desk_odd_text
  show ?thesis by auto
qed

section \<open>The connection test\<close>

text \<open>
  C24: The connection test of a release build, for everything that can arrive within its timeout: exactly the string that
  was sent, with its terminator, is accepted; a string that differs from it in the bytes received is
  refused with a message; and when what arrives is a proper prefix of it (nothing at all, say), the
  comparison reads bytes of the buffer that were never received.
\<close>

theorem handshake_outcome:
  assumes "\<not> debug_build E" and "length (snd (fst (ask_echo E h w))) \<le> 4"
  shows "Init_handshake E \<lparr>m_hSerialComm = h\<rparr> w =
    (let bs = snd (fst (ask_echo E h w)); w1 = snd (ask_echo E h w) in
     if bs = initString then Inr (True, w1)
     else if bs = take (length bs) initString then Inl UninitRead
     else Inr (False, MessageBox E (T ''NES FPGA not connected.'') NesDbg_title w1))"
  by (rule handshake_eq[OF assms])

lemma handshake_outcome_witness:
  "Init_handshake (bench_env desk_cfg) \<lparr>m_hSerialComm = bench_port\<rparr> (desk_w []) =
    (let bs = snd (fst (ask_echo (bench_env desk_cfg) bench_port (desk_w [])));
         w1 = snd (ask_echo (bench_env desk_cfg) bench_port (desk_w [])) in
     if bs = initString then Inr (True, w1)
     else if bs = take (length bs) initString then Inl UninitRead
     else Inr (False, MessageBox (bench_env desk_cfg) (T ''NES FPGA not connected.'') NesDbg_title w1))"
  by (rule handshake_outcome) (simp_all add: bench_env_defs ask_echo_def bench_read_def)

section \<open>The script dialog\<close>

text \<open>
  C30: With the application's script manager in place, running the selected scripts ends with the tally of their results: every selected script is run
  once, and passes, failures and errors are counted separately.
\<close>

theorem TestScriptDlgRun_tally:
  assumes "script_list E (m_hWndDlg sm) names items" and "script_results E res" and "GetScriptMgr g = Inr m" and "float_rounding (flt E)"
  shows "\<exists>w1. TestScriptDlgRun E g sm w =
    Inr (Some (count_of SCRIPT_RESULT_PASS (map (\<lambda>j. res (ScriptDir @ names j)) items),
               count_of SCRIPT_RESULT_FAIL (map (\<lambda>j. res (ScriptDir @ names j)) items),
               count_of SCRIPT_RESULT_ERROR (map (\<lambda>j. res (ScriptDir @ names j)) items)), w1)"
  by (rule TestScriptDlgRun_ok[OF assms])

lemma desk_scripts:
  "script_list (bench_env desk_cfg) 1 (\<lambda>i. T ''test.lua'') [0, 1, 2]"
  "script_results (bench_env desk_cfg) (\<lambda>p. SCRIPT_RESULT_PASS)"
  "float_rounding (flt (bench_env desk_cfg))"
  by (simp_all add: script_list_def script_results_def bench_env_defs bench_reply_def desk_cfg_def Let_def bar_range_def
      lget_def cast_uint_def cast_unsigned_def trunc_def T_def float_rounding_def mono_def)

lemma TestScriptDlgRun_tally_witness:
  "\<exists>w1. TestScriptDlgRun (bench_env desk_cfg) desk_g \<lparr>m_pLuaVm = 1, m_hWndDlg = 1\<rparr> (desk_w []) = Inr (Some (3, 0, 0), w1)"
  using TestScriptDlgRun_tally[where names = "\<lambda>i. T ''test.lua''" and items = "[0, 1, 2]" and w = "desk_w []"
      and sm = "\<lparr>m_pLuaVm = 1, m_hWndDlg = 1\<rparr>", OF _ desk_scripts(2) desk_g_mgr desk_scripts(3)] desk_scripts(1)
  by (simp add: count_of_def)

text \<open>
  The progress bar is always moved to a position within its range, whatever single precision does
  to the quotient and the product, and to the end of the range when all scripts have been run.
\<close>

theorem TestScriptDlgSetProgress_in_range:
  fixes E :: "'w env"
  assumes "m_hWndDlg sm \<noteq> 0" and "a \<le> b" and "b \<noteq> 0" and "float_rounding (flt E)"
  defines "txt \<equiv> T ''Progress: '' @ fmt_d a @ T '' / '' @ fmt_d b"
  defines "w1 \<equiv> \<lambda>w. snd (SendDlgItemMessage E (m_hWndDlg sm) IDC_TESTSCRIPTS_PROGRESSTXT (WM_SETTEXT txt) w)"
  defines "r \<equiv> \<lambda>w. SendDlgItemMessage E (m_hWndDlg sm) IDC_TESTSCRIPTS_PROGRESS PBM_GETRANGE (w1 w)"
  assumes "bar_range (fst (r w))"
  shows "\<exists>pos. iLow (fst (r w)) \<le> pos \<and> pos \<le> iHigh (fst (r w)) \<and> (a = b \<longrightarrow> pos = iHigh (fst (r w))) \<and>
    TestScriptDlgSetProgress E sm a b w =
      Inr ((), snd (SendDlgItemMessage E (m_hWndDlg sm) IDC_TESTSCRIPTS_PROGRESS (PBM_SETPOS (of_int pos)) (snd (r w))))"
proof -
  obtain q where q: "ratio E a b = Inr q" "0 \<le> q" "q \<le> 1" "a = b \<Longrightarrow> q = 1"
    using ratio_bounds[OF assms(4,3,2)] by blast
  obtain pos where pos: "bar_pos E (iLow (fst (r w))) (iHigh (fst (r w))) q = Inr (of_int pos)"
    "iLow (fst (r w)) \<le> pos" "pos \<le> iHigh (fst (r w))" "q = 1 \<Longrightarrow> pos = iHigh (fst (r w))"
    using bar_pos_bounds[OF assms(4,8) q(2,3)] by blast
  have "TestScriptDlgSetProgress E sm a b w =
      Inr ((), snd (SendDlgItemMessage E (m_hWndDlg sm) IDC_TESTSCRIPTS_PROGRESS (PBM_SETPOS (of_int pos)) (snd (r w))))"
    using assms(1,2) q(1) pos(1) unfolding r_def w1_def txt_def
    by (simp add: TestScriptDlgSetProgress_def progress_text bnd_call seq_call ret_apply)
  with q(4) pos show ?thesis by blast
qed

lemma TestScriptDlgSetProgress_in_range_witness:
  "\<exists>pos. 0 \<le> pos \<and> pos \<le> (100 :: int) \<and> ((1 :: uint) = 3 \<longrightarrow> pos = 100) \<and>
    TestScriptDlgSetProgress (bench_env desk_cfg) \<lparr>m_pLuaVm = 1, m_hWndDlg = 1\<rparr> 1 3 (desk_w []) = Inr ((), desk_w [])"
proof -
  have "bar_range (fst (SendDlgItemMessage (bench_env desk_cfg) 1 IDC_TESTSCRIPTS_PROGRESS PBM_GETRANGE w))"
    "iLow (fst (SendDlgItemMessage (bench_env desk_cfg) 1 ctl PBM_GETRANGE w)) = 0"
    "iHigh (fst (SendDlgItemMessage (bench_env desk_cfg) 1 ctl PBM_GETRANGE w)) = 100"
    "snd (SendDlgItemMessage (bench_env desk_cfg) 1 ctl m w) = w" for ctl m w
    by (simp_all add: bench_env_defs bench_reply_def Let_def bar_range_def)
  with TestScriptDlgSetProgress_in_range[of "\<lparr>m_pLuaVm = 1, m_hWndDlg = 1\<rparr>" 1 3 "bench_env desk_cfg" "desk_w []"]
    desk_scripts(3) show ?thesis by simp
qed

text \<open>
  The value a script returns is used as an index without a check: any number above 2 that fits an
  unsigned integer makes the dialog read behind the table of result names.
\<close>

theorem run_script_bad_result:
  assumes "script_list E (m_hWndDlg sm) names items" and "float_rounding (flt E)" and "i < length items" and "GetScriptMgr g = Inr m"
    and "\<And>path w. \<exists>w1. luaL_dofile E path w = Inr (False, w1) \<and> cast_uint (lua_tonumber E (-1) w1) = Inr v"
    and "2 < v"
  shows "run_script E g sm items (of_nat (length items)) i t w = Inl OobRead"
proof -
  obtain w1 where w1: "run_script E g sm items (of_nat (length items)) i t w =
      bnd (ExecuteScript E g sm (ScriptDir @ names (items ! i))) (script_done E sm t) w1"
    by (rule run_script_start[OF assms(1-3)]) (rule that, assumption)
  obtain w2 where "luaL_dofile E (CreateAsciiString E (ScriptDir @ names (items ! i))) w1 = Inr (False, w2)"
    "cast_uint (lua_tonumber E (-1) w2) = Inr v" using assms(5) by blast
  then have "ExecuteScript E g sm (ScriptDir @ names (items ! i)) w1 = Inr (v, w2)"
    using assms(4) by (simp add: ExecuteScript_def bnd_def ask_def lift_def ret_def)
  moreover have "scriptResultStrTbl v = Inl OobRead"
    using assms(6) by (auto simp: scriptResultStrTbl_def)
  ultimately show ?thesis using w1 by (simp add: bnd_Inr script_done_def)
qed

text \<open>A bench on which every script returns 3.\<close>

definition desk_bad_env :: "bench env" where
  "desk_bad_env = (bench_env desk_cfg)\<lparr>luaL_dofile := \<lambda>path w. Inr (False, w\<lparr>b_stk := [LNum (LFinite 3)]\<rparr>)\<rparr>"

lemma run_script_bad_result_witness:
  "run_script desk_bad_env desk_g \<lparr>m_pLuaVm = 1, m_hWndDlg = 1\<rparr> [0, 1, 2] (of_nat (length [0, 1, 2 :: uint])) 1 (0, 0, 0) (desk_w []) =
     Inl OobRead"
proof (rule run_script_bad_result)
  show "script_list desk_bad_env (m_hWndDlg \<lparr>m_pLuaVm = 1, m_hWndDlg = 1\<rparr>) (\<lambda>i. T ''test.lua'') [0, 1, 2]"
    "float_rounding (flt desk_bad_env)"
    using desk_scripts(1,3) by (simp_all add: desk_bad_env_def script_list_def)
  show "\<exists>w1. luaL_dofile desk_bad_env path w = Inr (False, w1) \<and> cast_uint (lua_tonumber desk_bad_env (-1) w1) = Inr 3" for path w
    by (simp add: desk_bad_env_def bench_env_defs lget_def)
qed (simp_all add: desk_g_mgr)

section \<open>Life cycle\<close>

lemma Init_open_handle:
  "Init_open E w = Inr ((ok, s), w1) \<Longrightarrow> ok \<longleftrightarrow> m_hSerialComm s \<noteq> INVALID_HANDLE_VALUE"
  by (auto simp: Init_open_def bnd_call ret_apply seq_bnd bnd_eq_Inr split: if_splits)

lemma SerialComm_Init_handle:
  assumes "SerialComm_Init E w = Inr ((ok, s), w1)"
  shows "ok \<longrightarrow> m_hSerialComm s \<noteq> INVALID_HANDLE_VALUE"
proof -
  obtain ok1 s1 w2 where o: "Init_open E w = Inr ((ok1, s1), w2)"
    using assms by (cases "Init_open E w") (auto simp: SerialComm_Init_def bnd_Inl)
  have "s = s1 \<and> (ok \<longrightarrow> ok1)"
    using assms by (cases ok1) (auto simp: SerialComm_Init_def bnd_def[of "Init_open E"] o bnd_eq_Inr ret_apply split_beta)
  with Init_open_handle[OF o] show ?thesis by simp
qed

text \<open>
  C35: When the application object's Init succeeds, everything the dialogs and the Lua functions reach
  through the global pointer is there: a valid font, a serial port object with a valid handle and a
  script manager with a Lua state. When it fails there is no script manager.
\<close>

theorem NesDbg_Init_ready:
  assumes "NesDbg_Init E sm (new_NesDbg inst wnd) w = Inr ((ok, d), w1)"
  shows "if ok then m_hFontCourierNew d \<noteq> 0 \<and>
      (\<exists>s. GetSerialComm (Some d) = Inr s \<and> m_hSerialComm s \<noteq> INVALID_HANDLE_VALUE) \<and>
      (\<exists>m. GetScriptMgr (Some d) = Inr m \<and> m_pLuaVm m \<noteq> 0)
    else m_pScriptMgr d = None"
proof -
  obtain ok1 d1 v1 where f: "Init_font E (new_NesDbg inst wnd) w = Inr ((ok1, d1), v1)"
    "ok1 = (m_hFontCourierNew d1 \<noteq> 0)" "m_pScriptMgr d1 = None"
    by (simp add: Init_font_def bnd_call ret_apply new_NesDbg_def)
  have a: "bnd (if ok1 then Init_serial E d1 else ret (False, d1)) (\<lambda>(ok, d). if ok then Init_script E sm d else ret (False, d)) v1 =
      Inr ((ok, d), w1)"
    using assms f(1) by (simp add: NesDbg_Init_def bnd_def[of "Init_font E (new_NesDbg inst wnd)"])
  then obtain ok2 d2 v2 where s: "(if ok1 then Init_serial E d1 else ret (False, d1)) v1 = Inr ((ok2, d2), v2)"
    and b: "(if ok2 then Init_script E sm d2 else ret (False, d2)) v2 = Inr ((ok, d), w1)"
    by (auto simp: bnd_eq_Inr)
  have "m_pScriptMgr d2 = None \<and> m_hFontCourierNew d2 = m_hFontCourierNew d1 \<and> (ok2 \<longrightarrow> ok1 \<and>
      (\<exists>p. m_pSerialComm d2 = Some p \<and> m_hSerialComm p \<noteq> INVALID_HANDLE_VALUE))"
    using s f(3) by (auto simp: Init_serial_def bnd_eq_Inr seq_bnd ret_apply split: if_splits dest!: SerialComm_Init_handle)
  moreover have "(ok \<longrightarrow> ok2 \<and> m_pSerialComm d = m_pSerialComm d2 \<and> m_hFontCourierNew d = m_hFontCourierNew d2 \<and>
      (\<exists>m. m_pScriptMgr d = Some m \<and> m_pLuaVm m \<noteq> 0)) \<and> (\<not> ok \<longrightarrow> m_pScriptMgr d = None \<or> d = d2)"
    using b by (auto simp: Init_script_def ScriptMgr_Init_def bnd_call bnd_eq_Inr seq_bnd ret_apply Let_def act_def split: if_splits)
  ultimately show ?thesis using f(2) by (auto simp: GetSerialComm_def GetScriptMgr_def)
qed

lemma desk_echo:
  assumes "t_halted (b_tgt w)" and "b_in w = []"
  shows "ask_echo (bench_env desk_cfg) bench_port w = ((True, initString), w)"
proof -
  have d: "decode (encode (Echo initString)) = Some (Echo initString)"
    by (rule decode_encode) (simp add: wf_cmd_def initString_def)
  show ?thesis
    using assms by (simp add: ask_echo_def bench_env_defs bench_write_def bench_read_def bench_sleep_def port_exec_def d
        initString_def[symmetric] del: encode.simps) (simp add: initString_def)
qed

lemma desk_Init_serial:
  assumes "t_halted (b_tgt w)" and "b_in w = []"
  shows "SerialComm_Init (bench_env desk_cfg) w = Inr ((True, \<lparr>m_hSerialComm = bench_port\<rparr>), w)"
proof -
  have "Init_handshake (bench_env desk_cfg) \<lparr>m_hSerialComm = bench_port\<rparr> w = Inr (True, w)"
    using handshake_eq[of "bench_env desk_cfg" bench_port w] desk_echo[OF assms]
    by (simp add: bench_env_defs initString_def)
  moreover have "Init_open (bench_env desk_cfg) w = Inr ((True, \<lparr>m_hSerialComm = bench_port\<rparr>), w)"
    "Init_getstate (bench_env desk_cfg) s w = Inr ((True, serialConfig0), w)"
    "Init_setstate (bench_env desk_cfg) s c w = Inr (True, w)" "Init_timeouts (bench_env desk_cfg) s w = Inr (True, w)" for s c
    by (simp_all add: Init_open_def Init_getstate_def Init_setstate_def Init_timeouts_def bnd_call ret_apply bench_env_defs
        bench_port_def INVALID_HANDLE_VALUE_def)
  ultimately show ?thesis by (simp add: SerialComm_Init_def bnd_Inr ret_apply)
qed

lemma desk_Init:
  "NesDbg_Init (bench_env desk_cfg) \<lparr>m_pLuaVm = 0, m_hWndDlg = 0\<rparr> (new_NesDbg 1 1) (desk_w []) =
     Inr ((True, (new_NesDbg 1 1)\<lparr>m_hFontCourierNew := 1, m_pSerialComm := Some \<lparr>m_hSerialComm = bench_port\<rparr>,
       m_pScriptMgr := Some \<lparr>m_pLuaVm = 1, m_hWndDlg = 0\<rparr>\<rparr>), desk_w [])"
proof -
  have "Init_font (bench_env desk_cfg) d w = Inr ((True, d\<lparr>m_hFontCourierNew := 1\<rparr>), w)"
    "ScriptMgr_Init (bench_env desk_cfg) \<lparr>m_pLuaVm = 0, m_hWndDlg = 0\<rparr> w = Inr ((True, \<lparr>m_pLuaVm = 1, m_hWndDlg = 0\<rparr>), w)" for d w
    by (simp_all add: Init_font_def ScriptMgr_Init_def bnd_call ret_apply bench_env_defs Let_def)
  then show ?thesis
    using desk_Init_serial[of "desk_w []"]
    by (simp add: NesDbg_Init_def Init_serial_def Init_script_def bnd_Inr ret_apply new_NesDbg_def)
qed

lemma NesDbg_Init_ready_witness:
  "\<exists>s. GetSerialComm (Some ((new_NesDbg 1 1)\<lparr>m_hFontCourierNew := 1,
       m_pSerialComm := Some \<lparr>m_hSerialComm = bench_port\<rparr>,
       m_pScriptMgr := Some \<lparr>m_pLuaVm = 1, m_hWndDlg = 0\<rparr>\<rparr>)) = Inr s \<and> m_hSerialComm s \<noteq> INVALID_HANDLE_VALUE"
  using NesDbg_Init_ready[OF desk_Init] by simp

text \<open>
  \<open>pumps E w k w'\<close>: from \<open>w\<close>, \<open>k\<close> messages are taken and dispatched without a fault, which leaves \<open>w'\<close>.
\<close>

inductive pumps :: "'w env \<Rightarrow> 'w \<Rightarrow> nat \<Rightarrow> 'w \<Rightarrow> bool" for E :: "'w env" where
  pump_none: "pumps E w 0 w"
| pump_one: "GetMessage E w = ((True, msg), w1) \<Longrightarrow>
    DispatchMessage E msg (TranslateMessage E msg w1) = Inr ((), w2) \<Longrightarrow> pumps E w2 k w3 \<Longrightarrow> pumps E w (Suc k) w3"

lemma message_loop_pumps:
  "pumps E w k w1 \<Longrightarrow> GetMessage E w1 = ((False, msg), w2) \<Longrightarrow> k < fuel \<Longrightarrow>
   message_loop E fuel w = Some (Inr (msg, w2))"
proof (induction arbitrary: fuel rule: pumps.induct)
  case (pump_none w)
  then show ?case by (cases fuel) simp_all
next
  case (pump_one w m w1 w2 k w3)
  then show ?case by (cases fuel) simp_all
qed

text \<open>
  The program ends: when initialization fails it destroys what was built and returns 0 without
  entering the message loop; otherwise, if after some number of messages the quit message arrives, it
  leaves the loop, destroys the application object and returns the quit message's code.
\<close>

theorem WinMain_returns:
  assumes "WinMain_app E sm inst w = Inr ((ok, wnd, g), w1)"
    and "ok \<Longrightarrow> pumps E (UpdateWindow E wnd (ShowWindow E wnd cmdShow w1)) k w2 \<and> GetMessage E w2 = ((False, msg), w3)"
    and "k < fuel"
  shows "WinMain E sm inst cmdShow fuel w =
    Some (if ok then WinMain_exit E g (sint (wParam msg)) w3 else WinMain_exit E g 0 w1)"
  using assms message_loop_pumps[of E "UpdateWindow E wnd (ShowWindow E wnd cmdShow w1)" k w2 msg w3 fuel]
  by (cases ok) (simp_all add: WinMain_def)

lemma WinMain_returns_witness:
  "WinMain (bench_env desk_cfg) \<lparr>m_pLuaVm = 0, m_hWndDlg = 0\<rparr> 1 5 1 (desk_w []) = Some (Inr (0, desk_w []))"
proof -
  let ?E = "bench_env desk_cfg"
  let ?d = "(new_NesDbg 1 1)\<lparr>m_hFontCourierNew := 1, m_pSerialComm := Some \<lparr>m_hSerialComm = bench_port\<rparr>,
       m_pScriptMgr := Some \<lparr>m_pLuaVm = 1, m_hWndDlg = 0\<rparr>\<rparr>"
  let ?m = "\<lparr>hwnd = 0, message = WM_OTHER 18, wParam = 0\<rparr>"
  have "WinMain_window ?E (desk_w []) = Inr ((True, 1), desk_w [])"
    by (simp add: WinMain_window_def bnd_call ret_apply bench_env_defs)
  then have app: "WinMain_app ?E \<lparr>m_pLuaVm = 0, m_hWndDlg = 0\<rparr> 1 (desk_w []) = Inr ((True, 1, Some ?d), desk_w [])"
    by (simp add: WinMain_app_def bnd_Inr desk_Init ret_apply)
  have show_w: "UpdateWindow ?E 1 (ShowWindow ?E 1 5 (desk_w [])) = desk_w []" and quit: "GetMessage ?E w = ((False, ?m), w)" for w
    by (simp_all add: bench_env_defs)
  have "WinMain ?E \<lparr>m_pLuaVm = 0, m_hWndDlg = 0\<rparr> 1 5 1 (desk_w []) =
      Some (if True then WinMain_exit ?E (Some ?d) (sint (wParam ?m)) (desk_w []) else WinMain_exit ?E (Some ?d) 0 (desk_w []))"
    using show_w quit pump_none[of ?E "desk_w []"]
    by (intro WinMain_returns[OF app, where k = 0 and ?w2.0 = "desk_w []"]) simp_all
  moreover have "WinMain_exit ?E (Some ?d) 0 (desk_w []) = Inr (0, desk_w [])"
    by (simp add: WinMain_exit_def delete_NesDbg_def delete_SerialComm_def delete_ScriptMgr_def new_NesDbg_def bench_env_defs
        bench_port_def seq_def act_def ret_def)
  ultimately show ?thesis by simp
qed

end
