(* ===== verification/Text_Props.thy ===== *)
theory Text_Props
  imports RawText Target
begin

text \<open>
  The properties of the packets: the bytes every constructor builds, the sizes the virtual methods
  report, and what the parser of the raw debug dialog makes of any text.
\<close>

section \<open>Packets\<close>

text \<open>
  C22: Every constructor succeeds, stays inside its array, and builds the object that carries its
  command: all header fields little-endian, the payload copied in full behind them.
\<close>

theorem constructors_carry:
  assumes "at_off src off ds" and "length ds < 65536" and "at_off hdr 4 [b4, b5, b6, b7, b8]"
  shows "(\<exists>p. new_EchoPacket src off (len16 ds) = Inr p \<and> carries p (Echo ds)) \<and>
    (\<exists>p. new_CpuMemRdPacket a n = Inr p \<and> carries p (CpuMemRd a n)) \<and>
    (\<exists>p. new_CpuMemWrPacket a (len16 ds) src off = Inr p \<and> carries p (CpuMemWr a ds)) \<and>
    (\<exists>p. new_DbgHltPacket = Inr p \<and> carries p DbgHlt) \<and>
    (\<exists>p. new_DbgRunPacket = Inr p \<and> carries p DbgRun) \<and>
    (\<exists>p. new_CpuRegRdPacket r = Inr p \<and> carries p (CpuRegRd (ucast r))) \<and>
    (\<exists>p. new_CpuRegWrPacket r v = Inr p \<and> carries p (CpuRegWr (ucast r) v)) \<and>
    (\<exists>p. new_QueryHltPacket = Inr p \<and> carries p QueryHlt) \<and>
    (\<exists>p. new_PpuMemRdPacket a n = Inr p \<and> carries p (PpuMemRd a n)) \<and>
    (\<exists>p. new_PpuMemWrPacket a (len16 ds) src off = Inr p \<and> carries p (PpuMemWr a ds)) \<and>
    (\<exists>p. new_PpuDisablePacket = Inr p \<and> carries p PpuDisable) \<and>
    (\<exists>p. new_CartSetCfgPacket hdr = Inr p \<and> carries p (CartSetCfg b4 b5 b6 b7 b8))"
  using new_EchoPacket_at[OF assms(1,2)] new_CpuMemWrPacket_at[OF assms(1,2), of a]
    new_PpuMemWrPacket_at[OF assms(1,2), of a] new_CartSetCfgPacket_at[OF assms(3)]
  by (simp add: packet_ctors carries_def)

lemma constructors_carry_witness:
  "\<exists>p. new_CpuMemWrPacket 0x8000 (len16 [7, 8]) (map Some [1, 7, 8, 3, 0, 0, 0, 0, 0]) 1 = Inr p \<and>
     carries p (CpuMemWr 0x8000 [7, 8])"
  using constructors_carry[of "map Some [1, 7, 8, 3, 0, 0, 0, 0, 0]" 1 "[7, 8]"
      "map Some [1, 7, 8, 3, 0, 0, 0, 0, 0]" 0 0 0 0 0 "0x8000" 0 0 0]
  by (simp add: at_off_def)

text \<open>
  C23: The virtual methods of an object agree with its command and with the target: the array holds
  exactly the bytes that decode to the command, its announced size is the array's, and the announced
  reply size is the number of bytes the target answers with.
\<close>

theorem packet_methods_agree:
  assumes "carries p c" and "wf_cmd c"
  shows "\<exists>bs. PacketData p = map Some bs \<and> decode bs = Some c \<and>
    SizeInBytes p = Inr (of_nat (length bs)) \<and> length bs < 2 ^ 32 \<and>
    ReturnBytesExpected p = Inr (of_nat (reply_len c)) \<and> length (fst (exec c t)) = reply_len c"
  using carries_PacketData[OF assms(1)] carries_SizeInBytes[OF assms] carries_ReturnBytesExpected[OF assms]
    decode_encode[OF assms(2)] length_exec_reply[OF assms(2)] length_encode[OF assms(2)]
  by (intro exI[of _ "encode c"]) simp

lemma packet_methods_agree_witness:
  "\<forall>t. \<exists>bs. PacketData (PpuMemRdPacket (map Some (encode (PpuMemRd 0x2000 3)))) = map Some bs \<and>
     decode bs = Some (PpuMemRd 0x2000 3) \<and>
     SizeInBytes (PpuMemRdPacket (map Some (encode (PpuMemRd 0x2000 3)))) = Inr (of_nat (length bs)) \<and>
     length bs < 2 ^ 32 \<and>
     ReturnBytesExpected (PpuMemRdPacket (map Some (encode (PpuMemRd 0x2000 3)))) =
       Inr (of_nat (reply_len (PpuMemRd 0x2000 3))) \<and>
     length (fst (exec (PpuMemRd 0x2000 3) t)) = reply_len (PpuMemRd 0x2000 3)"
  by (intro allI, rule packet_methods_agree) (simp_all add: carries_def wf_cmd_def)

section \<open>The parser\<close>

text \<open>
  C19: The result of the raw dialog's parser on every text, against a reference that works on the list
  of digit values: a foreign character rejects it, an even number of digits is paired into bytes, an
  odd number is rejected, except that without a blank in between the last digit is written behind
  the end of the array.
\<close>

theorem CreateObjFromString_spec:
  "CreateObjFromString s =
     (if \<not> clean s then Inr None
      else if even (length (nibbles s)) then packet_of_raw (raw_of s)
      else if length (nibbles s) < length s then Inr None
      else Inl OobWrite)"
  using CreateObj_invalid CreateObj_even CreateObj_odd_blank CreateObj_odd_digits[of s] length_nibbles[of s]
  by (auto simp: not_less)

text \<open>
  C26: A packet printed by the dialog's output loop and typed in again is parsed into the object that
  carries it, for the three packets the parser knows; any other packet is rejected.
\<close>

theorem CreateObjFromString_hex_dump:
  assumes "wf_cmd c"
  shows "if typed_in c then \<exists>p. CreateObjFromString (hex_dump (encode c)) = Inr (Some p) \<and> carries p c
    else CreateObjFromString (hex_dump (encode c)) = Inr None"
  using packet_of_raw_encode[OF assms] packet_of_raw_other by (simp add: CreateObj_hex_dump)

lemma CreateObjFromString_hex_dump_witness:
  "if typed_in (Echo [0xAB, 5]) then
     \<exists>p. CreateObjFromString (hex_dump (encode (Echo [0xAB, 5]))) = Inr (Some p) \<and> carries p (Echo [0xAB, 5])
   else CreateObjFromString (hex_dump (encode (Echo [0xAB, 5]))) = Inr None"
  by (rule CreateObjFromString_hex_dump) (simp add: wf_cmd_def)

text \<open>
  C34: The parser never compares the number of typed bytes with what the packet needs: every proper
  prefix of an ECHO, CPU_MEM_RD or CPU_MEM_WR packet, the three it knows, makes it read bytes that were never typed in.
\<close>

theorem CreateObjFromString_truncated:
  assumes "wf_cmd c" and "typed_in c" and "n < length (encode c)"
  shows "\<exists>e. CreateObjFromString (hex_dump (take n (encode c))) = Inl e \<and> bad_read e"
  unfolding CreateObj_hex_dump by (rule packet_of_raw_truncated[OF assms])

lemma CreateObjFromString_truncated_witness:
  "\<exists>e. CreateObjFromString (hex_dump (take 4 (encode (CpuMemRd 0x8000 1)))) = Inl e \<and> bad_read e"
  by (rule CreateObjFromString_truncated) (simp_all add: wf_cmd_def typed_in_def)

text \<open>
  The parser looks at the low byte of a character only, so a text in another script can be taken
  for a packet (U+0141 for the digit A).
\<close>

lemma CreateObjFromString_low_bytes:
  "CreateObjFromString s = CreateObjFromString (map (\<lambda>c. c AND 0xFF) s)"
proof -
  have "ucast (c AND 0xFF) = (ucast c :: byte)" for c :: tchar
  proof -
    have m: "c AND 0xFF = take_bit 8 c" by (simp add: take_bit_eq_mask mask_eq_exp_minus_1)
    show ?thesis unfolding m by (rule bit_word_eqI) (auto simp: bit_simps)
  qed
  then have c: "classify (c AND 0xFF) = classify c" for c by (simp add: classify_def)
  have "scan_hex (map (\<lambda>c. c AND 0xFF) s) b k = scan_hex s b k" for b k
    by (induction s b k rule: scan_hex.induct) (simp_all add: c split: scan_class.split)
  then show ?thesis by (simp add: CreateObjFromString_def)
qed

end
