(* ===== verification/In_Step.thy ===== *)
theory In_Step
  imports Hci_Packets
begin

text \<open>
  The HCI stays in step with the host: while a packet comes in, its registers tell how many of the
  packet's bytes are still to come (\<open>expects\<close>), every clock cycle keeps that, and as long as there are
  any it takes each at once, but for one cycle at the start of the cartridge configuration and the
  one in which a running console breaks. A running console may be sent DBG_HLT and QUERY_DBG_BRK.
\<close>

definition expects :: "hci_regs \<Rightarrow> byte list \<Rightarrow> bool" where
  "expects q rx \<longleftrightarrow>
     (case q_state q of
        S_DISABLED \<Rightarrow> rx = [] \<or> rx = encode DbgHlt \<or> rx = encode QueryHlt
      | S_DECODE \<Rightarrow> rx = [] \<or> (\<exists>c. wf_cmd c \<and> rx = encode c)
      | S_ECHO_STG_0 \<Rightarrow>
          (\<exists>lo hi ds. unat (le16 lo hi) = length ds \<and>
             (q_decode_cnt q = 0 \<and> rx = lo # hi # ds \<or>
              q_decode_cnt q = 1 \<and> q_execute_cnt q = ucast lo \<and> rx = hi # ds))
      | S_ECHO_STG_1 \<Rightarrow> rx \<noteq> [] \<and> length rx < 65536 \<and> q_execute_cnt q = of_nat (length rx)
      | S_CPU_MEM_RD_STG_0 \<Rightarrow> length rx + unat (q_decode_cnt q) = 4 \<and> rx \<noteq> []
      | S_CPU_MEM_RD_STG_1 \<Rightarrow> rx = []
      | S_CPU_MEM_WR_STG_0 \<Rightarrow>
          (\<exists>x y lo hi ds. unat (le16 lo hi) = length ds \<and>
             (q_decode_cnt q = 0 \<and> rx = x # y # lo # hi # ds \<or> q_decode_cnt q = 1 \<and> rx = y # lo # hi # ds \<or>
              q_decode_cnt q = 2 \<and> rx = lo # hi # ds \<or>
              q_decode_cnt q = 3 \<and> q_execute_cnt q = ucast lo \<and> rx = hi # ds))
      | S_CPU_MEM_WR_STG_1 \<Rightarrow> rx \<noteq> [] \<and> length rx < 65536 \<and> q_execute_cnt q = of_nat (length rx)
      | S_CPU_REG_RD \<Rightarrow> length rx = 1
      | S_CPU_REG_WR_STG_0 \<Rightarrow> length rx = 2
      | S_CPU_REG_WR_STG_1 \<Rightarrow> length rx = 1
      | S_QUERY_ERR_CODE \<Rightarrow> rx = []
      | S_PPU_MEM_RD_STG_0 \<Rightarrow> length rx + unat (q_decode_cnt q) = 4 \<and> rx \<noteq> []
      | S_PPU_MEM_RD_STG_1 \<Rightarrow> rx = []
      | S_PPU_MEM_WR_STG_0 \<Rightarrow>
          (\<exists>x y lo hi ds. unat (le16 lo hi) = length ds \<and>
             (q_decode_cnt q = 0 \<and> rx = x # y # lo # hi # ds \<or> q_decode_cnt q = 1 \<and> rx = y # lo # hi # ds \<or>
              q_decode_cnt q = 2 \<and> rx = lo # hi # ds \<or>
              q_decode_cnt q = 3 \<and> q_execute_cnt q = ucast lo \<and> rx = hi # ds))
      | S_PPU_MEM_WR_STG_1 \<Rightarrow> rx \<noteq> [] \<and> length rx < 65536 \<and> q_execute_cnt q = of_nat (length rx)
      | S_PPU_DISABLE \<Rightarrow> rx = []
      | S_CART_SET_CFG_STG_0 \<Rightarrow> length rx = 5
      | S_CART_SET_CFG_STG_1 \<Rightarrow> rx \<noteq> [] \<and> length rx \<le> 5 \<and> q_execute_cnt q + 1 = of_nat (length rx))"

lemma of_nat_Suc_minus: "(of_nat (length (x # xs)) :: 17 word) - 1 = of_nat (length xs)"
  by simp

lemma ucast_len: "unat (le16 lo hi) = length ds \<Longrightarrow> (ucast (le16 lo hi) :: 17 word) = of_nat (length ds)"
  by (metis of_nat_unat)

lemma unat_le16_lt: "unat (le16 lo hi) < 65536"
  using unsigned_less[of "le16 lo hi", where 'a = nat] by simp

lemma len17: "length ds < 65536 \<Longrightarrow> (of_nat (length ds) :: 17 word) = 0 \<longleftrightarrow> ds = []"
  using cnt_zero[of "length ds"] by simp

lemmas expects_eval = expects_def hci_comb_def default_next_def out0_def hci_states Let_def

lemma expects_echo:
  assumes "q_state q \<in> {S_ECHO_STG_0, S_ECHO_STG_1}" and "expects q rx" and i: "rx_empty i \<or> (\<exists>rx'. rx = rd_data i # rx')"
  shows "expects (fst (hci_comb i q)) (if rd_en (snd (hci_comb i q)) then tl rx else rx)"
proof (cases "rx_empty i")
  case True
  then show ?thesis using assms(1,2) by (auto simp: expects_eval)
next
  case False
  then obtain rx' where rx: "rx = rd_data i # rx'" using i by blast
  show ?thesis
  proof (cases "q_state q = S_ECHO_STG_0")
    case True
    obtain lo hi ds where h: "unat (le16 lo hi) = length ds"
      "q_decode_cnt q = 0 \<and> rx = lo # hi # ds \<or> q_decode_cnt q = 1 \<and> q_execute_cnt q = ucast lo \<and> rx = hi # ds"
      using assms(2) True by (auto simp: expects_def)
    have l: "length ds < 65536" using h(1) unat_le16_lt[of lo hi] by simp
    show ?thesis using h(2) True False rx len17[OF l] ucast_len[OF h(1)] h(1) l
      by (auto simp: expects_eval)
  next
    case s: False
    then have "rx' = [] \<or> rx' \<noteq> [] \<and> length rx' < 65536" "q_execute_cnt q = 1 + of_nat (length rx')" "length rx' < 65536"
      using assms(1,2) rx by (auto simp: expects_def)
    then show ?thesis using s assms(1) False rx len17[of rx'] by (auto simp: expects_eval)
  qed
qed

lemma expects_rd:
  assumes "q_state q \<in> {S_CPU_MEM_RD_STG_0, S_PPU_MEM_RD_STG_0, S_CPU_MEM_RD_STG_1, S_PPU_MEM_RD_STG_1}"
    and "expects q rx" and i: "rx_empty i \<or> (\<exists>rx'. rx = rd_data i # rx')"
  shows "expects (fst (hci_comb i q)) (if rd_en (snd (hci_comb i q)) then tl rx else rx)"
proof (cases "q_state q \<in> {S_CPU_MEM_RD_STG_1, S_PPU_MEM_RD_STG_1} \<or> rx_empty i")
  case True
  then show ?thesis using assms(1,2) by (auto simp: expects_eval)
next
  case False
  then obtain rx' where rx: "rx = rd_data i # rx'" using i by blast
  have s: "q_state q \<in> {S_CPU_MEM_RD_STG_0, S_PPU_MEM_RD_STG_0}" using False assms(1) by blast
  then have len: "length rx' + unat (q_decode_cnt q) = 3" using assms(2) rx by (auto simp: expects_def)
  then have "unat (q_decode_cnt q) = 0 \<or> unat (q_decode_cnt q) = 1 \<or> unat (q_decode_cnt q) = 2 \<or> unat (q_decode_cnt q) = 3"
    by linarith
  then consider "q_decode_cnt q = 0" | "q_decode_cnt q = 1" | "q_decode_cnt q = 2" | "q_decode_cnt q = 3"
    by (auto simp: word_unat_eq_iff)
  then show ?thesis by cases (use s False rx len in \<open>auto simp: expects_eval\<close>)
qed

lemma expects_wr:
  assumes "q_state q \<in> {S_CPU_MEM_WR_STG_0, S_PPU_MEM_WR_STG_0, S_CPU_MEM_WR_STG_1, S_PPU_MEM_WR_STG_1}"
    and "expects q rx" and i: "rx_empty i \<or> (\<exists>rx'. rx = rd_data i # rx')"
  shows "expects (fst (hci_comb i q)) (if rd_en (snd (hci_comb i q)) then tl rx else rx)"
proof (cases "rx_empty i")
  case True
  then show ?thesis using assms(1,2) by (auto simp: expects_eval)
next
  case False
  then obtain rx' where rx: "rx = rd_data i # rx'" using i by blast
  show ?thesis
  proof (cases "q_state q \<in> {S_CPU_MEM_WR_STG_0, S_PPU_MEM_WR_STG_0}")
    case True
    obtain x y lo hi ds where h: "unat (le16 lo hi) = length ds"
      "q_decode_cnt q = 0 \<and> rx = x # y # lo # hi # ds \<or> q_decode_cnt q = 1 \<and> rx = y # lo # hi # ds \<or>
       q_decode_cnt q = 2 \<and> rx = lo # hi # ds \<or> q_decode_cnt q = 3 \<and> q_execute_cnt q = ucast lo \<and> rx = hi # ds"
      using assms(2) True by (auto simp: expects_def)
    have l: "length ds < 65536" using h(1) unat_le16_lt[of lo hi] by simp
    consider "q_decode_cnt q = 0" "rx = x # y # lo # hi # ds" | "q_decode_cnt q = 1" "rx = y # lo # hi # ds"
      | "q_decode_cnt q = 2" "rx = lo # hi # ds" | "q_decode_cnt q = 3" "q_execute_cnt q = ucast lo" "rx = hi # ds"
      using h(2) by blast
    then show ?thesis
    proof cases
      case 4
      then show ?thesis using True False rx len17[OF l] ucast_len[OF h(1)] l by (auto simp: expects_eval)
    qed (use True False rx h(1) in \<open>auto simp: expects_eval\<close>)
  next
    case s: False
    then have "rx' = [] \<or> rx' \<noteq> [] \<and> length rx' < 65536" "q_execute_cnt q = 1 + of_nat (length rx')" "length rx' < 65536"
      using assms(1,2) rx by (auto simp: expects_def)
    then show ?thesis using s assms(1) False rx len17[of rx'] by (auto simp: expects_eval)
  qed
qed

lemma expects_cart:
  assumes "q_state q \<in> {S_CART_SET_CFG_STG_0, S_CART_SET_CFG_STG_1}"
    and "expects q rx" and i: "rx_empty i \<or> (\<exists>rx'. rx = rd_data i # rx')"
  shows "expects (fst (hci_comb i q)) (if rd_en (snd (hci_comb i q)) then tl rx else rx)"
proof (cases "rx_empty i \<or> q_state q = S_CART_SET_CFG_STG_0")
  case True
  then show ?thesis using assms(1,2) by (auto simp: expects_eval)
next
  case False
  then obtain rx' where rx: "rx = rd_data i # rx'" using i by blast
  have s: "q_state q = S_CART_SET_CFG_STG_1" using False assms(1) by blast
  then have l: "length rx' \<le> 4" "q_execute_cnt q = of_nat (length rx')" using assms(2) rx by (auto simp: expects_def)
  have "length rx' < 65536" using l(1) by simp
  from len17[OF this] l show ?thesis using s False rx by (auto simp: expects_eval)
qed

lemma expects_rest:
  assumes "q_state q \<in> {S_CPU_REG_RD, S_CPU_REG_WR_STG_0, S_CPU_REG_WR_STG_1, S_QUERY_ERR_CODE, S_PPU_DISABLE}"
    and "expects q rx" and i: "rx_empty i \<or> (\<exists>rx'. rx = rd_data i # rx')"
  shows "expects (fst (hci_comb i q)) (if rd_en (snd (hci_comb i q)) then tl rx else rx)"
proof (cases "rx_empty i")
  case True
  then show ?thesis using assms(1,2) by (auto simp: expects_eval)
next
  case False
  then obtain rx' where "rx = rd_data i # rx'" using i by blast
  then show ?thesis using assms(1,2) False by (auto simp: expects_eval)
qed

lemma expects_disabled:
  assumes "q_state q = S_DISABLED" and "expects q rx" and i: "rx_empty i \<or> (\<exists>rx'. rx = rd_data i # rx')"
  shows "expects (fst (hci_comb i q)) (if rd_en (snd (hci_comb i q)) then tl rx else rx)"
proof (cases "rx = []")
  case True
  then show ?thesis using assms by (simp add: expects_eval)
next
  case False
  then consider "rx = encode DbgHlt" | "rx = encode QueryHlt" using assms(1,2) by (auto simp: expects_def)
  moreover have "wf_cmd DbgHlt" "wf_cmd QueryHlt" by (simp_all add: wf_cmd_def)
  ultimately show ?thesis using assms(1) i by cases (auto simp: expects_eval)
qed

lemma expects_decode:
  assumes "q_state q = S_DECODE" and "expects q rx" and i: "rx_empty i \<or> (\<exists>rx'. rx = rd_data i # rx')"
  shows "expects (fst (hci_comb i q)) (if rd_en (snd (hci_comb i q)) then tl rx else rx)"
proof (cases "rx_empty i")
  case True
  then show ?thesis using assms(1,2) by (auto simp: expects_eval)
next
  case False
  then obtain rx' where rx: "rx = rd_data i # rx'" using i by blast
  then obtain c where c: "wf_cmd c" "rd_data i # rx' = encode c" using assms(1,2) by (auto simp: expects_def)
  then have e: "rd_data i = hd (encode c)" "rx' = tl (encode c)" by (metis list.sel(1), metis list.sel(3))
  have len: "unat (len16 (payload c)) = length (payload c)"
    using c(1) by (simp add: wf_cmd_def)
  show ?thesis
  proof (cases c)
    case (Echo ds)
    then show ?thesis using assms(1) False rx e len by (simp add: expects_eval bytes16_def)
  next
    case (CpuMemWr a ds)
    then show ?thesis using assms(1) False rx e len by (simp add: expects_eval bytes16_def)
  next
    case (PpuMemWr a ds)
    then show ?thesis using assms(1) False rx e len by (simp add: expects_eval bytes16_def)
  qed (use assms(1) False rx e in \<open>simp_all add: expects_eval bytes16_def\<close>)
qed

lemma expects_step:
  assumes "expects q rx" and "rx_empty i \<or> (\<exists>rx'. rx = rd_data i # rx')"
  shows "expects (fst (hci_comb i q)) (if rd_en (snd (hci_comb i q)) then tl rx else rx)"
proof (cases "q_state q")
  case S_DECODE
  then show ?thesis by (rule expects_decode[OF _ assms])
next
  case S_DISABLED
  then show ?thesis by (rule expects_disabled[OF _ assms])
qed ((rule expects_echo[OF _ assms], simp; fail) | (rule expects_rd[OF _ assms], simp; fail) | (rule expects_wr[OF _ assms], simp; fail) |
  (rule expects_cart[OF _ assms], simp; fail) | (rule expects_rest[OF _ assms], simp; fail))+

text \<open>Where it takes a byte at once.\<close>

lemma expects_takes:
  assumes "expects q rx" and "rx \<noteq> []" and "q_state q \<notin> {S_CART_SET_CFG_STG_0, S_DISABLED}"
    and "\<not> rx_empty i" and "q_state q = S_CPU_REG_RD \<Longrightarrow> \<not> tx_full i"
  shows "rd_en (snd (hci_comb i q))"
  using assms by (cases "q_state q") (auto simp: expects_eval)

lemma expects_reg_rd: "expects q rx \<Longrightarrow> q_state q = S_CPU_REG_RD \<Longrightarrow> length rx = 1"
  by (simp add: expects_def)

lemma expects_once:
  assumes "q_state q \<in> {S_CART_SET_CFG_STG_0, S_DISABLED}" and "\<not> rx_empty i" and "\<not> rd_en (snd (hci_comb i q))"
  shows "q_state (fst (hci_comb i q)) \<notin> {S_CART_SET_CFG_STG_0, S_DISABLED}"
  using assms by (auto simp: expects_eval split: if_splits)

end
