(* ===== verification/Uart_Rx.thy ===== *)
theory Uart_Rx
  imports Prelude
begin

text \<open>
  The UART's receiver \<^verbatim>\<open>cmn/uart/uart_rx.v\<close> as the HCI instantiates it: 8 data bits, one stop
  bit, odd parity, 16 baud clock ticks a bit. One clock cycle, and what the receiver makes of a
  frame: from the cycle it sees the start bit on, it is a counter of ticks that samples the line in
  the middle of every bit.
\<close>

section \<open>The module\<close>

datatype uart_state = S_IDLE | S_START | S_DATA | S_PARITY | S_STOP

record uart_rx =
  q_state :: uart_state
  q_oversample_tick_cnt :: "4 word"
  q_data :: byte
  q_data_bit_idx :: "3 word"
  q_done_tick :: bool
  q_parity_err :: bool
  q_rx :: bool

definition rx_reset :: uart_rx where
  "rx_reset = \<lparr>q_state = S_IDLE, q_oversample_tick_cnt = 0, q_data = 0, q_data_bit_idx = 0,
     q_done_tick = False, q_parity_err = False, q_rx = True\<rparr>"

text \<open>\<^verbatim>\<open>^v\<close>, the exclusive or of the bits, and \<^verbatim>\<open>{ b, v[7:1] }\<close>.\<close>

definition xor_bits :: "byte \<Rightarrow> bool" where
  "xor_bits v \<longleftrightarrow> fold (\<lambda>i b. b \<noteq> bit v i) [0..<8] False"

definition shift_in :: "bool \<Rightarrow> byte \<Rightarrow> byte" where
  "shift_in b v = (if b then set_bit 7 (drop_bit 1 v) else drop_bit 1 v)"

definition rx_comb :: "bool \<Rightarrow> uart_rx \<Rightarrow> uart_rx" where
  "rx_comb baud_clk_tick q =
     (let d = q\<lparr>q_oversample_tick_cnt :=
            (if baud_clk_tick then q_oversample_tick_cnt q + 1 else q_oversample_tick_cnt q),
          q_done_tick := False, q_parity_err := False\<rparr> in
      case q_state q of
        S_IDLE \<Rightarrow> (if \<not> q_rx q then d\<lparr>q_state := S_START, q_oversample_tick_cnt := 0\<rparr> else d)
      | S_START \<Rightarrow>
          (if baud_clk_tick \<and> q_oversample_tick_cnt q = 7
           then d\<lparr>q_state := S_DATA, q_oversample_tick_cnt := 0, q_data_bit_idx := 0\<rparr> else d)
      | S_DATA \<Rightarrow>
          (if baud_clk_tick \<and> q_oversample_tick_cnt q = 15
           then (let d = d\<lparr>q_data := shift_in (q_rx q) (q_data q), q_oversample_tick_cnt := 0\<rparr> in
             if q_data_bit_idx q = 7 then d\<lparr>q_state := S_PARITY\<rparr>
             else d\<lparr>q_data_bit_idx := q_data_bit_idx q + 1\<rparr>)
           else d)
      | S_PARITY \<Rightarrow>
          (if baud_clk_tick \<and> q_oversample_tick_cnt q = 15
           then d\<lparr>q_parity_err := (q_rx q \<noteq> (\<not> xor_bits (q_data q))), q_state := S_STOP,
             q_oversample_tick_cnt := 0\<rparr>
           else d)
      | S_STOP \<Rightarrow>
          (if baud_clk_tick \<and> q_oversample_tick_cnt q = 15
           then d\<lparr>q_state := S_IDLE, q_done_tick := True\<rparr> else d))"

definition rx_clk :: "bool \<Rightarrow> bool \<Rightarrow> uart_rx \<Rightarrow> uart_rx" where
  "rx_clk baud_clk_tick rx q = (rx_comb baud_clk_tick q)\<lparr>q_rx := rx\<rparr>"

text \<open>The receiver at clock \<open>n\<close>, for a tick and a line level at every clock.\<close>

primrec rx_at :: "(nat \<Rightarrow> bool) \<Rightarrow> (nat \<Rightarrow> bool) \<Rightarrow> uart_rx \<Rightarrow> nat \<Rightarrow> uart_rx" where
  "rx_at tick line q 0 = q"
| "rx_at tick line q (Suc n) = rx_clk (tick n) (line n) (rx_at tick line q n)"

text \<open>What it hands to the FIFO in the first \<open>n\<close> clocks, and whether it reports a parity error.\<close>

definition rx_bytes :: "(nat \<Rightarrow> bool) \<Rightarrow> (nat \<Rightarrow> bool) \<Rightarrow> uart_rx \<Rightarrow> nat \<Rightarrow> byte list" where
  "rx_bytes tick line q n =
     concat (map (\<lambda>m. if q_done_tick (rx_at tick line q m) then [q_data (rx_at tick line q m)] else []) [0..<n])"

definition rx_parity :: "(nat \<Rightarrow> bool) \<Rightarrow> (nat \<Rightarrow> bool) \<Rightarrow> uart_rx \<Rightarrow> nat \<Rightarrow> bool" where
  "rx_parity tick line q n \<longleftrightarrow> (\<exists>m \<in> set [0..<n]. q_parity_err (rx_at tick line q m))"

section \<open>Within a frame\<close>

text \<open>
  The receiver \<open>r\<close> ticks after it saw the start bit, for a frame with data \<open>d\<close>. Bits \<open>0\<close> to \<open>i - 1\<close>
  have been shifted in from the top.
\<close>

definition shifted :: "byte \<Rightarrow> nat \<Rightarrow> byte \<Rightarrow> bool" where
  "shifted d i v \<longleftrightarrow> (\<forall>j < i. bit v (8 - i + j) = bit d j)"

definition in_frame :: "byte \<Rightarrow> nat \<Rightarrow> uart_rx \<Rightarrow> bool" where
  "in_frame d r q \<longleftrightarrow>
     (if r < 8 then q_state q = S_START \<and> q_oversample_tick_cnt q = of_nat r
      else if r < 136 then q_state q = S_DATA \<and> q_oversample_tick_cnt q = of_nat ((r - 8) mod 16) \<and>
        q_data_bit_idx q = of_nat ((r - 8) div 16) \<and> shifted d ((r - 8) div 16) (q_data q)
      else if r < 152 then q_state q = S_PARITY \<and> q_oversample_tick_cnt q = of_nat (r - 136) \<and> q_data q = d
      else q_state q = S_STOP \<and> q_oversample_tick_cnt q = of_nat (r - 152) \<and> q_data q = d)"

text \<open>The level the receiver sees at its sampling points.\<close>

definition sample_ok :: "byte \<Rightarrow> bool \<Rightarrow> nat \<Rightarrow> bool \<Rightarrow> bool" where
  "sample_ok d p r v \<longleftrightarrow> (\<forall>j < 8. r = 23 + 16 * j \<longrightarrow> v = bit d j) \<and> (r = 151 \<longrightarrow> v = p)"

lemma shifted_0: "shifted d 0 v"
  by (simp add: shifted_def)

lemma bit_shift_in: "k < 8 \<Longrightarrow> bit (shift_in b v) k \<longleftrightarrow> (if k = 7 then b else bit v (k + 1))"
  by (auto simp: shift_in_def bit_simps dest: bit_imp_le_length)

lemma shifted_in:
  assumes "shifted d i v" and "i < 8"
  shows "shifted d (Suc i) (shift_in (bit d i) v)"
  unfolding shifted_def
proof (intro allI impI)
  fix j assume "j < Suc i"
  then consider "j = i" | "j < i" by linarith
  then show "bit (shift_in (bit d i) v) (8 - Suc i + j) = bit d j"
  proof cases
    case 1
    then show ?thesis using assms(2) by (simp add: bit_shift_in)
  next
    case 2
    then have "8 - Suc i + j + 1 = 8 - i + j" "8 - Suc i + j < 7" using assms(2) by auto
    then show ?thesis using assms(1) 2 by (simp only: bit_shift_in) (simp add: shifted_def)
  qed
qed

lemma shifted_all: "shifted d 8 v \<Longrightarrow> v = d"
  by (rule bit_word_eqI) (simp add: shifted_def)

lemma cnt4: "n < 16 \<Longrightarrow> (of_nat n :: 4 word) = 15 \<longleftrightarrow> n = 15" "n < 8 \<Longrightarrow> (of_nat n :: 4 word) = 7 \<longleftrightarrow> n = 7"
  by (auto simp: word_unat_eq_iff unsigned_of_nat take_bit_nat_eq_self)

lemma idx3: "n < 8 \<Longrightarrow> (of_nat n :: 3 word) = 7 \<longleftrightarrow> n = 7"
  by (auto simp: word_unat_eq_iff unsigned_of_nat take_bit_nat_eq_self)

lemmas rx_eval = rx_clk_def rx_comb_def Let_def

lemma rx_idle_clk:
  "in_frame d r q \<Longrightarrow> in_frame d r (rx_clk False l q)"
  "r < 168 \<Longrightarrow> in_frame d r q \<Longrightarrow> \<not> q_done_tick (rx_clk False l q)"
  "r < 168 \<Longrightarrow> in_frame d r q \<Longrightarrow> \<not> q_parity_err (rx_clk False l q)"
  by (auto simp: in_frame_def rx_eval split: if_splits)

text \<open>The two outputs that are up for one clock.\<close>

lemma rx_done:
  "q_done_tick (rx_clk k l q) \<longleftrightarrow> q_state q = S_STOP \<and> k \<and> q_oversample_tick_cnt q = 15"
  by (cases "q_state q"; simp add: rx_eval split: if_split)

lemma rx_perr:
  "q_parity_err (rx_clk k l q) \<longleftrightarrow>
     q_state q = S_PARITY \<and> k \<and> q_oversample_tick_cnt q = 15 \<and> q_rx q \<noteq> (\<not> xor_bits (q_data q))"
  by (cases "q_state q"; auto simp add: rx_eval split: if_split)

lemma in_frame_data:
  assumes "r = 8 + 16 * i + c" and "i < 8" and "c < 16"
  shows "in_frame d r q \<longleftrightarrow> q_state q = S_DATA \<and> q_oversample_tick_cnt q = of_nat c \<and>
    q_data_bit_idx q = of_nat i \<and> shifted d i (q_data q)"
  using assms by (simp add: in_frame_def)

lemma in_frame_parity: "in_frame d 136 q \<longleftrightarrow> q_state q = S_PARITY \<and> q_oversample_tick_cnt q = 0 \<and> q_data q = d"
  by (simp add: in_frame_def)

lemma rx_tick_start:
  assumes "r < 8" and "in_frame d r q"
  shows "in_frame d (Suc r) (rx_clk True l q)"
proof (cases "r = 7")
  case True
  then have "q_state q = S_START" "q_oversample_tick_cnt q = 7" using assms by (simp_all add: in_frame_def)
  then show ?thesis using in_frame_data[of "Suc r" 0 0] True by (simp add: rx_eval shifted_0)
next
  case False
  then have "Suc r < 8" using assms(1) by simp
  then show ?thesis using assms cnt4(2)[of r] by (simp add: in_frame_def rx_eval add.commute)
qed

lemma rx_tick_data:
  assumes r: "r = 8 + 16 * i + c" "i < 8" "c < 16" and q: "in_frame d r q" and s: "sample_ok d p r (q_rx q)"
  shows "in_frame d (Suc r) (rx_clk True l q)"
proof -
  have f: "q_state q = S_DATA" "q_oversample_tick_cnt q = of_nat c" "q_data_bit_idx q = of_nat i"
    "shifted d i (q_data q)"
    using q in_frame_data[OF r] by simp_all
  show ?thesis
  proof (cases "c = 15")
    case False
    then have "Suc r = 8 + 16 * i + Suc c" "Suc c < 16" using r by auto
    from in_frame_data[OF this(1) r(2) this(2)] f False r(3) cnt4(1)[of c] show ?thesis
      by (simp add: rx_eval add.commute)
  next
    case True
    then have v: "q_rx q = bit d i" using s r by (simp add: sample_ok_def)
    have sh: "shifted d (Suc i) (shift_in (q_rx q) (q_data q))" using shifted_in[OF f(4) r(2)] v by simp
    show ?thesis
    proof (cases "i = 7")
      case i: True
      then have "shift_in (q_rx q) (q_data q) = d" "Suc r = 136" using sh shifted_all r True by simp_all
      with f i True in_frame_parity show ?thesis by (simp add: rx_eval)
    next
      case i: False
      then have "Suc r = 8 + 16 * Suc i + 0" "Suc i < 8" using r True by auto
      from in_frame_data[OF this] f i True sh idx3[OF r(2)] show ?thesis by (simp add: rx_eval add.commute)
    qed
  qed
qed

lemma rx_tick_parity:
  assumes "136 \<le> r" and "r < 152" and "in_frame d r q"
  shows "in_frame d (Suc r) (rx_clk True l q)"
    and "q_parity_err (rx_clk True l q) \<longleftrightarrow> r = 151 \<and> q_rx q \<noteq> (\<not> xor_bits d)"
proof -
  obtain c where c: "r = 136 + c" "c < 16" using assms(1,2) le_Suc_ex by fastforce
  show "in_frame d (Suc r) (rx_clk True l q)"
    "q_parity_err (rx_clk True l q) \<longleftrightarrow> r = 151 \<and> q_rx q \<noteq> (\<not> xor_bits d)"
    using assms(3) c cnt4(1)[of c] by (auto simp: in_frame_def rx_eval)
qed

lemma rx_tick_stop:
  assumes "152 \<le> r" and "r < 168" and "in_frame d r q"
  shows "r < 167 \<Longrightarrow> in_frame d (Suc r) (rx_clk True l q)"
    and "r = 167 \<Longrightarrow> q_state (rx_clk True l q) = S_IDLE \<and> q_data (rx_clk True l q) = d"
    and "q_done_tick (rx_clk True l q) \<longleftrightarrow> r = 167"
proof -
  obtain c where c: "r = 152 + c" "c < 16" using assms(1,2) le_Suc_ex by fastforce
  show "r < 167 \<Longrightarrow> in_frame d (Suc r) (rx_clk True l q)"
    "r = 167 \<Longrightarrow> q_state (rx_clk True l q) = S_IDLE \<and> q_data (rx_clk True l q) = d"
    "q_done_tick (rx_clk True l q) \<longleftrightarrow> r = 167"
    using assms(3) c cnt4(1)[of c] by (auto simp: in_frame_def rx_eval)
qed

section \<open>A whole frame\<close>

text \<open>The ticks in the clocks from \<open>s\<close> up to, not including, \<open>n\<close>.\<close>

definition ticks :: "(nat \<Rightarrow> bool) \<Rightarrow> nat \<Rightarrow> nat \<Rightarrow> nat" where
  "ticks tick s n = length (filter tick [s..<n])"

lemma ticks_start [simp]: "ticks tick s s = 0"
  by (simp add: ticks_def)

lemma ticks_Suc: "s \<le> n \<Longrightarrow> ticks tick s (Suc n) = ticks tick s n + (if tick n then 1 else 0)"
  by (simp add: ticks_def)

lemma ticks_split: "s \<le> m \<Longrightarrow> m \<le> n \<Longrightarrow> ticks tick s n = ticks tick s m + ticks tick m n"
  by (metis ticks_def le_Suc_ex upt_add_eq_append filter_append length_append)

lemma ticks_mono: "m \<le> n \<Longrightarrow> s \<le> m \<Longrightarrow> ticks tick s m \<le> ticks tick s n"
  using ticks_split[of s m n tick] by simp

text \<open>Every number of ticks below the count is passed at a tick.\<close>

lemma ticks_reach:
  assumes "k < ticks tick s n"
  obtains m where "s \<le> m" and "m < n" and "tick m" and "ticks tick s m = k"
proof -
  have "\<exists>m \<ge> s. m < n \<and> tick m \<and> ticks tick s m = k"
    using assms
  proof (induction n)
    case (Suc n)
    have s: "s \<le> n" using Suc.prems by (rule contrapos_pp) (simp add: ticks_def)
    show ?case
    proof (cases "k < ticks tick s n")
      case True
      then show ?thesis using Suc.IH less_SucI by blast
    next
      case False
      then have "k = ticks tick s n" "tick n" using Suc.prems ticks_Suc[OF s, of tick] by (auto split: if_splits)
      then show ?thesis using s by blast
    qed
  qed (simp add: ticks_def)
  then show thesis using that by blast
qed

definition framed :: "(nat \<Rightarrow> bool) \<Rightarrow> (nat \<Rightarrow> bool) \<Rightarrow> uart_rx \<Rightarrow> nat \<Rightarrow> byte \<Rightarrow> bool \<Rightarrow> bool" where
  "framed tick line q s d p \<longleftrightarrow>
     (let q' = rx_at tick line q s in in_frame d 0 q' \<and> \<not> q_done_tick q' \<and> \<not> q_parity_err q') \<and>
     (\<forall>n. s \<le> n \<longrightarrow> tick n \<longrightarrow> sample_ok d p (ticks tick s n) (q_rx (rx_at tick line q n)))"

lemma in_frame_run:
  assumes f: "framed tick line q s d p" and "s \<le> n" and "ticks tick s n \<le> 167"
  shows "in_frame d (ticks tick s n) (rx_at tick line q n) \<and> \<not> q_done_tick (rx_at tick line q n) \<and>
    (q_parity_err (rx_at tick line q n) \<longrightarrow> p \<noteq> (\<not> xor_bits d))"
  using assms(2,3)
proof (induction n rule: dec_induct)
  case base
  then show ?case using f by (simp add: framed_def Let_def)
next
  case (step n)
  let ?q = "rx_at tick line q n" and ?r = "ticks tick s n"
  note suc = ticks_Suc[OF step.hyps(1), of tick]
  have le: "?r \<le> 167" using step.prems suc by (auto split: if_splits)
  with step.IH have IH: "in_frame d ?r ?q" by blast
  show ?case
  proof (cases "tick n")
    case False
    then show ?thesis using rx_idle_clk[where d = d and r = ?r and q = ?q and l = "line n"] IH le suc by simp
  next
    case True
    then have r: "?r < 167" using step.prems suc by simp
    have s: "sample_ok d p ?r (q_rx ?q)" using f step.hyps(1) True by (simp add: framed_def)
    consider "?r < 8" | i c where "?r = 8 + 16 * i + c" "i < 8" "c < 16" | "136 \<le> ?r" "?r < 152" | "152 \<le> ?r"
    proof -
      have "?r = 8 + 16 * ((?r - 8) div 16) + (?r - 8) mod 16 \<and> (?r - 8) div 16 < 8 \<and> (?r - 8) mod 16 < 16"
        if "8 \<le> ?r" "?r < 136" using that by auto
      with that show thesis by (metis not_less)
    qed
    then show ?thesis
    proof cases
      case 1
      then have "q_state ?q = S_START" using IH by (simp add: in_frame_def)
      then show ?thesis using rx_tick_start[OF 1 IH] rx_done rx_perr suc True by simp
    next
      case 2
      then have "q_state ?q = S_DATA" using IH in_frame_data by blast
      then show ?thesis using rx_tick_data[OF 2 IH s] rx_done rx_perr suc True by simp
    next
      case 3
      then have "q_state ?q = S_PARITY" using IH by (simp add: in_frame_def)
      then show ?thesis using rx_tick_parity[OF 3 IH, of "line n"] rx_done suc True s
        by (auto simp: sample_ok_def)
    next
      case 4
      then have "q_state ?q = S_STOP" using IH by (simp add: in_frame_def)
      then show ?thesis using rx_tick_stop(1,3)[OF 4 _ IH, of "line n"] rx_perr r suc True by simp
    qed
  qed
qed

lemma rx_bytes_Suc:
  "rx_bytes tick line q (Suc n) =
     rx_bytes tick line q n @ (if q_done_tick (rx_at tick line q n) then [q_data (rx_at tick line q n)] else [])"
  by (simp add: rx_bytes_def)

lemma rx_parity_Suc:
  "rx_parity tick line q (Suc n) \<longleftrightarrow> rx_parity tick line q n \<or> q_parity_err (rx_at tick line q n)"
  by (auto simp: rx_parity_def)

text \<open>
  The frame ends with the 168th tick, at clock \<open>e\<close>: the receiver is idle and has handed over exactly
  the frame's byte, and it has reported a parity error exactly if the parity bit is not the odd parity.
\<close>

lemma rx_frame:
  assumes f: "framed tick line q s d p" and e: "s \<le> e" "ticks tick s e = 167" "tick e"
  shows "q_state (rx_at tick line q (Suc e)) = S_IDLE" and "q_done_tick (rx_at tick line q (Suc e))"
    and "rx_bytes tick line q (Suc (Suc e)) = rx_bytes tick line q s @ [d]"
    and "rx_parity tick line q (Suc (Suc e)) \<longleftrightarrow> rx_parity tick line q s \<or> p = xor_bits d"
proof -
  have run: "in_frame d (ticks tick s n) (rx_at tick line q n) \<and> \<not> q_done_tick (rx_at tick line q n) \<and>
    (q_parity_err (rx_at tick line q n) \<longrightarrow> p \<noteq> (\<not> xor_bits d))" if "s \<le> n" "n \<le> e" for n
    using in_frame_run[OF f that(1)] ticks_mono[OF that(2,1), of tick] e(2) by simp
  have bytes: "rx_bytes tick line q n = rx_bytes tick line q s" if "s \<le> n" "n \<le> Suc e" for n
    using that by (induction n rule: dec_induct) (simp_all add: rx_bytes_Suc run)
  note stop = rx_tick_stop(2,3)[of "ticks tick s e" d "rx_at tick line q e" "line e"]
  have last: "q_state (rx_at tick line q (Suc e)) = S_IDLE \<and> q_data (rx_at tick line q (Suc e)) = d \<and>
      q_done_tick (rx_at tick line q (Suc e))"
    using stop run[OF e(1)] e by simp
  then show "q_state (rx_at tick line q (Suc e)) = S_IDLE" "q_done_tick (rx_at tick line q (Suc e))" by simp_all
  show "rx_bytes tick line q (Suc (Suc e)) = rx_bytes tick line q s @ [d]"
    using last bytes[of "Suc e"] e(1) by (simp add: rx_bytes_Suc[of _ _ _ "Suc e"] del: rx_at.simps)
  have stop_no_err: "\<not> q_parity_err (rx_at tick line q (Suc e))"
    using run[OF e(1)] e rx_perr by (simp add: in_frame_def)
  obtain m where m: "s \<le> m" "m < e" "tick m" "ticks tick s m = 151"
    using ticks_reach[of 151 tick s e] e(2) by auto
  have "sample_ok d p 151 (q_rx (rx_at tick line q m))" using f m by (auto simp: framed_def)
  then have "q_parity_err (rx_at tick line q (Suc m)) \<longleftrightarrow> p \<noteq> (\<not> xor_bits d)"
    using rx_tick_parity(2)[of "ticks tick s m" d "rx_at tick line q m" "line m"] run[of m] m
    by (simp add: sample_ok_def)
  then have hit: "p \<noteq> (\<not> xor_bits d) \<Longrightarrow> rx_parity tick line q (Suc (Suc e))"
    unfolding rx_parity_def using m by (intro bexI[of _ "Suc m"]) (simp_all del: rx_at.simps upt_Suc)
  have miss: "rx_parity tick line q (Suc (Suc e)) \<longleftrightarrow> rx_parity tick line q s" if p: "p = (\<not> xor_bits d)"
  proof -
    have noerr: "\<not> q_parity_err (rx_at tick line q n)" if "s \<le> n" "n \<le> e" for n
      using run[OF that] p by blast
    have "rx_parity tick line q n \<longleftrightarrow> rx_parity tick line q s" if "s \<le> n" "n \<le> Suc e" for n
      using that
    proof (induction n rule: dec_induct)
      case (step n)
      then have "n \<le> Suc e" "n \<le> e" by simp_all
      with step.IH noerr[OF step.hyps(1)] show ?case unfolding rx_parity_Suc by blast
    qed (rule refl)
    from this[of "Suc e"] e(1) stop_no_err show ?thesis
      unfolding rx_parity_Suc[of tick line q "Suc e"] by (metis le_SucI order_refl)
  qed
  have "rx_parity tick line q s \<Longrightarrow> rx_parity tick line q (Suc (Suc e))"
    using e(1) by (auto simp: rx_parity_def)
  with hit miss show "rx_parity tick line q (Suc (Suc e)) \<longleftrightarrow> rx_parity tick line q s \<or> p = xor_bits d" by blast
qed

section \<open>Between frames\<close>

definition rx_ready :: "uart_rx \<Rightarrow> bool" where
  "rx_ready q \<longleftrightarrow> q_state q = S_IDLE \<and> q_rx q \<and> \<not> q_done_tick q \<and> \<not> q_parity_err q"

lemma rx_idle:
  "q_state q = S_IDLE \<Longrightarrow> q_rx q \<Longrightarrow> q_state (rx_clk k l q) = S_IDLE"
  "q_state q = S_IDLE \<Longrightarrow> \<not> q_done_tick (rx_clk k l q) \<and> \<not> q_parity_err (rx_clk k l q)"
  by (simp_all add: rx_eval)

lemma rx_sees_start: "q_state q = S_IDLE \<Longrightarrow> \<not> q_rx q \<Longrightarrow> in_frame d 0 (rx_clk k l q)"
  by (simp add: rx_eval in_frame_def)

lemma rx_line [simp]: "q_rx (rx_clk k l q) = l"
  by (simp add: rx_clk_def)

text \<open>While the line is high, an idle receiver stays idle and hands nothing over.\<close>

lemma rx_idle_run:
  assumes "q_state (rx_at tick line q m) = S_IDLE" and "m \<le> n"
    and "\<And>k. m \<le> k \<Longrightarrow> k < n \<Longrightarrow> q_rx (rx_at tick line q k)"
  shows "q_state (rx_at tick line q n) = S_IDLE"
    and "rx_bytes tick line q (Suc n) = rx_bytes tick line q (Suc m)"
    and "rx_parity tick line q (Suc n) \<longleftrightarrow> rx_parity tick line q (Suc m)"
proof -
  have "q_state (rx_at tick line q n) = S_IDLE \<and> rx_bytes tick line q (Suc n) = rx_bytes tick line q (Suc m) \<and>
    (rx_parity tick line q (Suc n) \<longleftrightarrow> rx_parity tick line q (Suc m))"
    using assms(2,3)
  proof (induction n rule: dec_induct)
    case (step n)
    then have IH: "q_state (rx_at tick line q n) = S_IDLE" "rx_bytes tick line q (Suc n) = rx_bytes tick line q (Suc m)"
      "rx_parity tick line q (Suc n) \<longleftrightarrow> rx_parity tick line q (Suc m)" and "q_rx (rx_at tick line q n)" by auto
    with rx_idle[OF IH(1), of "tick n" "line n"] show ?case
      by (simp add: rx_bytes_Suc[of _ _ _ "Suc n"] rx_parity_Suc[of _ _ _ "Suc n"])
  qed (simp add: assms(1))
  then show "q_state (rx_at tick line q n) = S_IDLE" "rx_bytes tick line q (Suc n) = rx_bytes tick line q (Suc m)"
    "rx_parity tick line q (Suc n) \<longleftrightarrow> rx_parity tick line q (Suc m)" by simp_all
qed

text \<open>A stretch of clocks in which nothing is sent.\<close>

lemma rx_gap:
  assumes "rx_ready q" and "\<And>k. k < g \<Longrightarrow> line k"
  shows "rx_ready (rx_at tick line q g)" and "rx_bytes tick line q g = []" and "\<not> rx_parity tick line q g"
proof -
  have "rx_ready (rx_at tick line q g) \<and> rx_bytes tick line q g = [] \<and> \<not> rx_parity tick line q g"
    using assms(2)
  proof (induction g)
    case 0
    then show ?case using assms(1) by (simp add: rx_bytes_def rx_parity_def)
  next
    case (Suc g)
    then have "rx_ready (rx_at tick line q g)" "rx_bytes tick line q g = []" "\<not> rx_parity tick line q g" "line g"
      by simp_all
    then show ?case using rx_idle[of "rx_at tick line q g" "tick g" True]
      by (simp add: rx_ready_def rx_bytes_Suc rx_parity_Suc)
  qed
  then show "rx_ready (rx_at tick line q g)" "rx_bytes tick line q g = []" "\<not> rx_parity tick line q g" by simp_all
qed

section \<open>Runs\<close>

text \<open>A run depends on the line during the run only, and can be cut in two.\<close>

lemma rx_at_cong: "(\<And>k. k < n \<Longrightarrow> line k = line' k) \<Longrightarrow> rx_at tick line q n = rx_at tick line' q n"
  by (induction n) simp_all

lemma rx_cong:
  assumes "\<And>k. k < n \<Longrightarrow> line k = line' k"
  shows "rx_at tick line q n = rx_at tick line' q n" and "rx_bytes tick line q n = rx_bytes tick line' q n"
    and "rx_parity tick line q n \<longleftrightarrow> rx_parity tick line' q n"
proof -
  have same: "rx_at tick line q m = rx_at tick line' q m" if "m \<le> n" for m
    using assms that by (intro rx_at_cong) simp
  then show "rx_at tick line q n = rx_at tick line' q n" by simp
  show "rx_bytes tick line q n = rx_bytes tick line' q n"
    unfolding rx_bytes_def using same by (intro arg_cong[of _ _ concat] map_cong) simp_all
  show "rx_parity tick line q n \<longleftrightarrow> rx_parity tick line' q n"
    unfolding rx_parity_def using same by simp
qed

lemma rx_at_shift:
  "rx_at tick line q (s + n) = rx_at (\<lambda>n. tick (s + n)) (\<lambda>n. line (s + n)) (rx_at tick line q s) n"
  by (induction n) simp_all

lemma rx_shift:
  "rx_at tick line q (s + n) = rx_at (\<lambda>n. tick (s + n)) (\<lambda>n. line (s + n)) (rx_at tick line q s) n"
  "rx_bytes tick line q (s + n) =
     rx_bytes tick line q s @ rx_bytes (\<lambda>n. tick (s + n)) (\<lambda>n. line (s + n)) (rx_at tick line q s) n"
  "rx_parity tick line q (s + n) \<longleftrightarrow>
     rx_parity tick line q s \<or> rx_parity (\<lambda>n. tick (s + n)) (\<lambda>n. line (s + n)) (rx_at tick line q s) n"
proof -
  show "rx_at tick line q (s + n) = rx_at (\<lambda>n. tick (s + n)) (\<lambda>n. line (s + n)) (rx_at tick line q s) n"
    by (rule rx_at_shift)
  show "rx_bytes tick line q (s + n) =
     rx_bytes tick line q s @ rx_bytes (\<lambda>n. tick (s + n)) (\<lambda>n. line (s + n)) (rx_at tick line q s) n"
    by (induction n) (simp_all add: rx_bytes_Suc rx_at_shift, simp add: rx_bytes_def)
  show "rx_parity tick line q (s + n) \<longleftrightarrow>
     rx_parity tick line q s \<or> rx_parity (\<lambda>n. tick (s + n)) (\<lambda>n. line (s + n)) (rx_at tick line q s) n"
    by (induction n) (auto simp: rx_parity_Suc rx_at_shift, auto simp: rx_parity_def)
qed

section \<open>The bytes keep their distance\<close>

text \<open>The receiver passes through all its states between two bytes.\<close>

lemma rx_distance:
  assumes "uart_rx.q_state (rx_at tick line q n) = S_IDLE"
  shows "j < 4 \<Longrightarrow> \<not> q_done_tick (rx_at tick line q (Suc n + j))"
proof -
  have step: "uart_rx.q_state (rx_clk k l r) \<in> {uart_rx.q_state r,
      (case uart_rx.q_state r of S_IDLE \<Rightarrow> S_START | S_START \<Rightarrow> S_DATA | S_DATA \<Rightarrow> S_PARITY | S_PARITY \<Rightarrow> S_STOP | S_STOP \<Rightarrow> S_IDLE)}"
    for k l r by (cases "uart_rx.q_state r"; simp add: rx_eval split: if_split)
  have s1: "uart_rx.q_state (rx_at tick line q (Suc n)) \<in> {S_IDLE, S_START}"
    using step[of "tick n" "line n" "rx_at tick line q n"] assms by simp
  have s2: "uart_rx.q_state (rx_at tick line q (Suc (Suc n))) \<in> {S_IDLE, S_START, S_DATA}"
    using step[of "tick (Suc n)" "line (Suc n)" "rx_at tick line q (Suc n)"] s1 by (auto simp del: rx_at.simps(2) simp: rx_at.simps(2)[of _ _ _ "Suc n"])
  have s3: "uart_rx.q_state (rx_at tick line q (Suc (Suc (Suc n)))) \<in> {S_IDLE, S_START, S_DATA, S_PARITY}"
    using step[of "tick (Suc (Suc n))" "line (Suc (Suc n))" "rx_at tick line q (Suc (Suc n))"] s2
    by (auto simp del: rx_at.simps(2) simp: rx_at.simps(2)[of _ _ _ "Suc (Suc n)"])
  have "uart_rx.q_state (rx_at tick line q (n + j)) \<noteq> S_STOP" if "j < 4"
  proof -
    have "j = 0 \<or> j = 1 \<or> j = 2 \<or> j = 3" using that by auto
    then show ?thesis using assms s1 s2 s3 by (auto simp: numeral_3_eq_3 numeral_2_eq_2 simp del: rx_at.simps(2))
  qed
  then show "j < 4 \<Longrightarrow> \<not> q_done_tick (rx_at tick line q (Suc n + j))" using rx_done by simp
qed

end
