(* ===== verification/Uart_Tx.thy ===== *)
theory Uart_Tx
  imports Uart_Rx
begin

text \<open>
  The UART's transmitter \<^verbatim>\<open>cmn/uart/uart_tx.v\<close>, in the same instance as the receiver: one clock
  cycle, and the line's level during the frame it sends, by the number of ticks since its start.
\<close>

section \<open>The module\<close>

record uart_tx =
  q_state :: uart_state
  q_baud_clk_tick_cnt :: "4 word"
  q_data :: byte
  q_data_bit_idx :: "3 word"
  q_parity_bit :: bool
  q_tx :: bool
  q_tx_done_tick :: bool

definition tx_reset :: uart_tx where
  "tx_reset = \<lparr>q_state = S_IDLE, q_baud_clk_tick_cnt = 0, q_data = 0, q_data_bit_idx = 0,
     q_parity_bit = False, q_tx = True, q_tx_done_tick = False\<rparr>"

definition tx_clk :: "bool \<Rightarrow> bool \<Rightarrow> byte \<Rightarrow> uart_tx \<Rightarrow> uart_tx" where
  "tx_clk baud_clk_tick tx_start tx_data q =
     (let d = q\<lparr>q_baud_clk_tick_cnt :=
            (if baud_clk_tick then q_baud_clk_tick_cnt q + 1 else q_baud_clk_tick_cnt q),
          q_tx_done_tick := False, q_tx := True\<rparr>;
          bit_done = baud_clk_tick \<and> q_baud_clk_tick_cnt q = 15 in
      case q_state q of
        S_IDLE \<Rightarrow>
          (if tx_start \<and> \<not> q_tx_done_tick q
           then d\<lparr>q_state := S_START, q_baud_clk_tick_cnt := 0, q_data := tx_data,
             q_parity_bit := \<not> xor_bits tx_data\<rparr>
           else d)
      | S_START \<Rightarrow>
          (let d = d\<lparr>q_tx := False\<rparr> in
           if bit_done then d\<lparr>q_state := S_DATA, q_baud_clk_tick_cnt := 0, q_data_bit_idx := 0\<rparr> else d)
      | S_DATA \<Rightarrow>
          (let d = d\<lparr>q_tx := bit (q_data q) 0\<rparr> in
           if bit_done
           then d\<lparr>q_data := drop_bit 1 (q_data q), q_data_bit_idx := q_data_bit_idx q + 1,
             q_baud_clk_tick_cnt := 0, q_state := (if q_data_bit_idx q = 7 then S_PARITY else S_DATA)\<rparr>
           else d)
      | S_PARITY \<Rightarrow>
          (let d = d\<lparr>q_tx := q_parity_bit q\<rparr> in
           if bit_done then d\<lparr>q_state := S_STOP, q_baud_clk_tick_cnt := 0\<rparr> else d)
      | S_STOP \<Rightarrow> (if bit_done then d\<lparr>q_state := S_IDLE, q_tx_done_tick := True\<rparr> else d))"

text \<open>The transmitter at clock \<open>n\<close>.\<close>

primrec tx_at :: "(nat \<Rightarrow> bool) \<Rightarrow> (nat \<Rightarrow> bool) \<Rightarrow> (nat \<Rightarrow> byte) \<Rightarrow> uart_tx \<Rightarrow> nat \<Rightarrow> uart_tx" where
  "tx_at tick start data q 0 = q"
| "tx_at tick start data q (Suc n) = tx_clk (tick n) (start n) (data n) (tx_at tick start data q n)"

section \<open>Within a frame\<close>

text \<open>The level of the line \<open>t\<close> ticks after the start of a frame with data \<open>d\<close>.\<close>

definition wave :: "byte \<Rightarrow> nat \<Rightarrow> bool" where
  "wave d t \<longleftrightarrow>
     (if t < 16 then False else if t < 144 then bit d ((t - 16) div 16)
      else if t < 160 then \<not> xor_bits d else True)"

definition sending :: "byte \<Rightarrow> nat \<Rightarrow> uart_tx \<Rightarrow> bool" where
  "sending d t q \<longleftrightarrow> q_parity_bit q = (\<not> xor_bits d) \<and>
     (if t < 16 then q_state q = S_START \<and> q_baud_clk_tick_cnt q = of_nat t \<and> q_data q = d
      else if t < 144 then q_state q = S_DATA \<and> q_baud_clk_tick_cnt q = of_nat ((t - 16) mod 16) \<and>
        q_data_bit_idx q = of_nat ((t - 16) div 16) \<and> q_data q = drop_bit ((t - 16) div 16) d
      else if t < 160 then q_state q = S_PARITY \<and> q_baud_clk_tick_cnt q = of_nat (t - 144)
      else q_state q = S_STOP \<and> q_baud_clk_tick_cnt q = of_nat (t - 160))"

lemma sending_data:
  assumes "t = 16 + 16 * i + c" and "i < 8" and "c < 16"
  shows "sending d t q \<longleftrightarrow> q_parity_bit q = (\<not> xor_bits d) \<and> q_state q = S_DATA \<and>
    q_baud_clk_tick_cnt q = of_nat c \<and> q_data_bit_idx q = of_nat i \<and> q_data q = drop_bit i d"
  using assms by (simp add: sending_def)

lemma frame_cases:
  fixes t :: nat
  assumes "t < 176"
  obtains c where "t = c" "c < 16" | i c where "t = 16 + 16 * i + c" "i < 8" "c < 16"
    | c where "t = 144 + c" "c < 16" | c where "t = 160 + c" "c < 16"
proof -
  consider "t < 16" | "16 \<le> t" "t < 144" | "144 \<le> t" "t < 160" | "160 \<le> t" "t < 176" using assms by linarith
  then show thesis
  proof cases
    case 2
    then have "t = 16 + 16 * ((t - 16) div 16) + (t - 16) mod 16" "(t - 16) div 16 < 8" "(t - 16) mod 16 < 16" by auto
    then show thesis using that(2) by blast
  qed (use that le_Suc_ex[of 144 t] le_Suc_ex[of 160 t] in auto)
qed

lemma tx_hold:
  assumes "t < 176" and "sending d t q"
  shows "sending d t (tx_clk False s x q) \<and> q_tx (tx_clk False s x q) = wave d t \<and>
    \<not> q_tx_done_tick (tx_clk False s x q)"
  using assms(1)
proof (cases rule: frame_cases)
  case (2 i c)
  then show ?thesis using assms(2) sending_data[OF 2] sending_data[OF 2]
    by (simp add: tx_clk_def wave_def bit_simps)
qed (use assms(2) in \<open>auto simp: sending_def wave_def tx_clk_def\<close>)

lemma tx_tick:
  assumes "t < 176" and q: "sending d t q"
  shows "t < 175 \<Longrightarrow> sending d (Suc t) (tx_clk True s x q)"
    and "t = 175 \<Longrightarrow> q_state (tx_clk True s x q) = S_IDLE"
    and "q_tx (tx_clk True s x q) = wave d t"
    and "q_tx_done_tick (tx_clk True s x q) \<longleftrightarrow> t = 175"
proof -
  have "(t < 175 \<longrightarrow> sending d (Suc t) (tx_clk True s x q)) \<and>
    (t = 175 \<longrightarrow> q_state (tx_clk True s x q) = S_IDLE) \<and>
    q_tx (tx_clk True s x q) = wave d t \<and> (q_tx_done_tick (tx_clk True s x q) \<longleftrightarrow> t = 175)"
    using assms(1)
  proof (cases rule: frame_cases)
    case (1 c)
    then have f: "q_parity_bit q = (\<not> xor_bits d)" "q_state q = S_START" "q_baud_clk_tick_cnt q = of_nat c" "q_data q = d"
      using q by (simp_all add: sending_def)
    show ?thesis
    proof (cases "c = 15")
      case True
      then show ?thesis using f 1 sending_data[of "Suc t" 0 0] by (simp add: tx_clk_def wave_def)
    next
      case False
      then show ?thesis using f 1 cnt4(1)[of c] by (simp add: tx_clk_def wave_def sending_def add.commute)
    qed
  next
    case (2 i c)
    then have f: "q_parity_bit q = (\<not> xor_bits d)" "q_state q = S_DATA" "q_baud_clk_tick_cnt q = of_nat c"
      "q_data_bit_idx q = of_nat i" "q_data q = drop_bit i d"
      using q sending_data[OF 2] by simp_all
    have w: "wave d t = bit d i" using 2 by (simp add: wave_def)
    consider "c < 15" | "c = 15" "i < 7" | "c = 15" "i = 7" using 2 by linarith
    then show ?thesis
    proof cases
      case c: 1
      then have "Suc t = 16 + 16 * i + Suc c" "Suc c < 16" using 2 by auto
      from sending_data[OF this(1) 2(2) this(2)] f w c 2 cnt4(1)[of c] show ?thesis
        by (simp add: tx_clk_def bit_simps add.commute)
    next
      case c: 2
      then have "Suc t = 16 + 16 * Suc i + 0" "Suc i < 8" using 2 by auto
      from sending_data[OF this] f w c 2 idx3[of i] show ?thesis
        by (simp add: tx_clk_def bit_simps add.commute)
    next
      case c: 3
      then have "t = 143" using 2 by simp
      with f w c show ?thesis by (simp add: tx_clk_def bit_simps sending_def)
    qed
  next
    case (3 c)
    then have "q_parity_bit q = (\<not> xor_bits d)" "q_state q = S_PARITY" "q_baud_clk_tick_cnt q = of_nat c"
      using q by (simp_all add: sending_def)
    with 3 cnt4(1)[of c] show ?thesis by (auto simp: tx_clk_def wave_def sending_def add.commute)
  next
    case (4 c)
    then have "q_parity_bit q = (\<not> xor_bits d)" "q_state q = S_STOP" "q_baud_clk_tick_cnt q = of_nat c"
      using q by (simp_all add: sending_def)
    with 4 cnt4(1)[of c] show ?thesis by (auto simp: tx_clk_def wave_def sending_def add.commute)
  qed
  then show "t < 175 \<Longrightarrow> sending d (Suc t) (tx_clk True s x q)" "t = 175 \<Longrightarrow> q_state (tx_clk True s x q) = S_IDLE"
    "q_tx (tx_clk True s x q) = wave d t" "q_tx_done_tick (tx_clk True s x q) \<longleftrightarrow> t = 175" by simp_all
qed

section \<open>A whole frame\<close>

lemma sending_run:
  assumes "sending d 0 (tx_at tick start data q s)" and "s \<le> n" and "ticks tick s n \<le> 175"
  shows "sending d (ticks tick s n) (tx_at tick start data q n)"
  using assms(2,3)
proof (induction n rule: dec_induct)
  case base
  then show ?case using assms(1) by simp
next
  case (step n)
  note suc = ticks_Suc[OF step.hyps(1), of tick]
  then have le: "ticks tick s n < 176" using step.prems by (auto split: if_splits)
  then have IH: "sending d (ticks tick s n) (tx_at tick start data q n)" using step.IH by simp
  show ?case
  proof (cases "tick n")
    case True
    then show ?thesis using tx_tick(1)[OF le IH] suc step.prems by simp
  next
    case False
    then show ?thesis using tx_hold[OF le IH] suc by simp
  qed
qed

lemma tx_wave:
  assumes "sending d 0 (tx_at tick start data q s)" and "s \<le> n" and "ticks tick s n \<le> 175"
  shows "q_tx (tx_at tick start data q (Suc n)) = wave d (ticks tick s n)"
    and "q_tx_done_tick (tx_at tick start data q (Suc n)) \<longleftrightarrow> tick n \<and> ticks tick s n = 175"
proof -
  have "ticks tick s n < 176" using assms(3) by simp
  from tx_hold[OF this sending_run[OF assms]] tx_tick(3,4)[OF this sending_run[OF assms]]
  show "q_tx (tx_at tick start data q (Suc n)) = wave d (ticks tick s n)"
    "q_tx_done_tick (tx_at tick start data q (Suc n)) \<longleftrightarrow> tick n \<and> ticks tick s n = 175"
    by (cases "tick n"; simp)+
qed

lemma tx_end:
  assumes "sending d 0 (tx_at tick start data q s)" and "s \<le> e" and "ticks tick s e = 175" and "tick e"
  shows "q_state (tx_at tick start data q (Suc e)) = S_IDLE" and "q_tx (tx_at tick start data q (Suc e))"
    and "q_tx_done_tick (tx_at tick start data q (Suc e))"
  using tx_tick[of 175 d "tx_at tick start data q e" "start e" "data e"] sending_run[OF assms(1,2)] assms(3,4)
  by (simp_all add: wave_def)

text \<open>A request to an idle transmitter starts a frame.\<close>

lemma tx_request:
  assumes "q_state q = S_IDLE" and "\<not> q_tx_done_tick q"
  shows "sending d 0 (tx_clk k True d q)" and "q_tx (tx_clk k True d q)" and "\<not> q_tx_done_tick (tx_clk k True d q)"
  using assms by (simp_all add: sending_def tx_clk_def)

text \<open>Between frames: the line is high, and a request will be taken.\<close>

definition tx_ready :: "uart_tx \<Rightarrow> bool" where
  "tx_ready q \<longleftrightarrow> q_state q = S_IDLE \<and> q_tx q \<and> \<not> q_tx_done_tick q"

section \<open>Progress\<close>

lemma tx_at_shift:
  "tx_at tick start data q (s + n) =
     tx_at (\<lambda>n. tick (s + n)) (\<lambda>n. start (s + n)) (\<lambda>n. data (s + n)) (tx_at tick start data q s) n"
  by (induction n) simp_all

text \<open>From every state, reachable or not, the ticks up to the one at which a frame ends.\<close>

definition tx_left :: "uart_tx \<Rightarrow> nat" where
  "tx_left q =
     (case q_state q of
        S_IDLE \<Rightarrow> 0
      | S_START \<Rightarrow> 176 - unat (q_baud_clk_tick_cnt q)
      | S_DATA \<Rightarrow> 160 - 16 * unat (q_data_bit_idx q) - unat (q_baud_clk_tick_cnt q)
      | S_PARITY \<Rightarrow> 32 - unat (q_baud_clk_tick_cnt q)
      | S_STOP \<Rightarrow> 16 - unat (q_baud_clk_tick_cnt q))"

lemma unat_cnt4: "unat (c :: 4 word) \<le> 15" "c \<noteq> 15 \<Longrightarrow> unat (c + 1) = Suc (unat c)"
proof -
  show le: "unat c \<le> 15" using unsigned_less[of c, where 'a = nat] by simp
  assume "c \<noteq> 15"
  then have "unat c \<noteq> 15" by (simp add: word_unat_eq_iff)
  with le show "unat (c + 1) = Suc (unat c)" by (simp add: unat_word_ariths)
qed

lemma unat_idx3: "unat (i :: 3 word) \<le> 7" "i \<noteq> 7 \<Longrightarrow> unat (i + 1) = Suc (unat i)"
proof -
  show le: "unat i \<le> 7" using unsigned_less[of i, where 'a = nat] by simp
  assume "i \<noteq> 7"
  then have "unat i \<noteq> 7" by (simp add: word_unat_eq_iff)
  with le show "unat (i + 1) = Suc (unat i)" by (simp add: unat_word_ariths)
qed

lemma tx_left_bound: "tx_left q \<le> 176"
  unfolding tx_left_def by (cases "q_state q"; simp; linarith)

lemma tx_left_hold:
  "q_state q \<noteq> S_IDLE \<Longrightarrow> q_state (tx_clk False s d q) \<noteq> S_IDLE \<and> tx_left (tx_clk False s d q) = tx_left q"
  by (cases "q_state q") (simp_all add: tx_left_def tx_clk_def)

lemma tx_left_tick:
  assumes "q_state q \<noteq> S_IDLE"
  shows "q_tx_done_tick (tx_clk True s d q) \<or>
    q_state (tx_clk True s d q) \<noteq> S_IDLE \<and> Suc (tx_left (tx_clk True s d q)) = tx_left q"
proof (cases "q_baud_clk_tick_cnt q = 15")
  case True
  then show ?thesis using assms unat_idx3[of "q_data_bit_idx q"]
    by (cases "q_state q"; cases "q_data_bit_idx q = 7") (simp_all add: tx_left_def tx_clk_def word_unat_eq_iff[of _ 7])
next
  case False
  then show ?thesis using assms unat_cnt4[of "q_baud_clk_tick_cnt q"] unat_idx3(1)[of "q_data_bit_idx q"]
    by (cases "q_state q") (simp_all add: tx_left_def tx_clk_def)
qed

lemma tx_finishes:
  assumes "q_state q \<noteq> S_IDLE" and "tx_left q \<le> ticks tick 0 n"
  shows "\<exists>m \<le> n. q_tx_done_tick (tx_at tick start data q m)"
proof (rule ccontr)
  assume none: "\<not> (\<exists>m \<le> n. q_tx_done_tick (tx_at tick start data q m))"
  have "q_state (tx_at tick start data q k) \<noteq> S_IDLE \<and> tx_left (tx_at tick start data q k) + ticks tick 0 k = tx_left q"
    if "k \<le> n" for k
    using that
  proof (induction k)
    case (Suc k)
    then have "\<not> q_tx_done_tick (tx_clk (tick k) (start k) (data k) (tx_at tick start data q k))"
      using none by (metis tx_at.simps(2))
    with Suc tx_left_hold tx_left_tick ticks_Suc[of 0 k tick] show ?case by (cases "tick k") fastforce+
  qed (use assms(1) in simp)
  from this[of n] assms(2) have "tx_left (tx_at tick start data q n) = 0" "q_state (tx_at tick start data q n) \<noteq> S_IDLE" by simp_all
  then show False
    using unat_cnt4(1)[of "q_baud_clk_tick_cnt (tx_at tick start data q n)"] unat_idx3(1)[of "q_data_bit_idx (tx_at tick start data q n)"]
    by (cases "q_state (tx_at tick start data q n)") (simp_all add: tx_left_def)
qed

end
