(* ===== verification/Uart.thy ===== *)
theory Uart
  imports Complex_Main Uart_Tx
begin

text \<open>
  The UART's baud clock \<^verbatim>\<open>cmn/uart/uart_baud_clk.v\<close>, and the serial line end to end: what the
  receiver makes of the frames of a host whose bit time is not an exact multiple of the clock's, and
  of the frames of the transmitter.
\<close>

section \<open>The baud clock\<close>

text \<open>At 100 MHz, 38400 baud and 16 ticks a bit, as the HCI instantiates it.\<close>

definition CLKS_PER_OVERSAMPLE_TICK :: nat where
  "CLKS_PER_OVERSAMPLE_TICK = 100000000 div 38400 div 16"

definition baud_clk :: "ushort \<Rightarrow> ushort" where
  "baud_clk q_cnt = (if q_cnt = of_nat CLKS_PER_OVERSAMPLE_TICK - 1 then 0 else q_cnt + 1)"

definition baud_clk_tick :: "ushort \<Rightarrow> bool" where
  "baud_clk_tick q_cnt \<longleftrightarrow> q_cnt = of_nat CLKS_PER_OVERSAMPLE_TICK - 1"

text \<open>The tick at clock \<open>n\<close>, when the counter starts at \<open>c\<close>.\<close>

definition baud_tick :: "ushort \<Rightarrow> nat \<Rightarrow> bool" where
  "baud_tick c n \<longleftrightarrow> baud_clk_tick ((baud_clk ^^ n) c)"

lemma CLKS: "CLKS_PER_OVERSAMPLE_TICK = 162"
  by (simp add: CLKS_PER_OVERSAMPLE_TICK_def)

lemma baud_step: "unat c < 162 \<Longrightarrow> unat (baud_clk c) = Suc (unat c) mod 162"
  by (auto simp: baud_clk_def CLKS word_unat_eq_iff unat_word_ariths mod_Suc)

lemma baud_cnt: "unat c < 162 \<Longrightarrow> unat ((baud_clk ^^ n) c) = (unat c + n) mod 162"
  by (induction n) (simp_all add: baud_step mod_Suc_eq)

lemma baud_tick_iff: "unat c < 162 \<Longrightarrow> baud_tick c n \<longleftrightarrow> (unat c + n) mod 162 = 161"
  by (simp add: baud_tick_def baud_clk_tick_def CLKS word_unat_eq_iff[of _ 161] baud_cnt)

lemma baud_ticks:
  assumes "unat c < 162" and "s \<le> n"
  shows "ticks (baud_tick c) s n + (unat c + s) div 162 = (unat c + n) div 162"
  using assms(2)
proof (induction n rule: dec_induct)
  case (step n)
  then show ?case using ticks_Suc[OF step.hyps(1), of "baud_tick c"] baud_tick_iff[OF assms(1), of n]
    by (auto simp: div_Suc mod_Suc)
qed simp

lemma baud_tick_shift: "(\<lambda>n. baud_tick c (s + n)) = baud_tick ((baud_clk ^^ s) c)"
  by (simp add: baud_tick_def fun_eq_iff add.commute[of s] funpow_add)

section \<open>A host with its own clock\<close>

text \<open>
  A frame as a host sends it, with a bit time of \<open>b\<close> clocks of the FPGA, sampled \<open>n + f\<close> clocks after its
  start, where \<open>f\<close> is the part of a clock between the start and the first edge after it: start bit,
  eight data bits, the parity bit \<open>p\<close>, then high.
\<close>

definition host_line :: "rat \<Rightarrow> rat \<Rightarrow> byte \<Rightarrow> bool \<Rightarrow> nat \<Rightarrow> bool" where
  "host_line b f d p n \<longleftrightarrow>
     (let i = nat \<lfloor>(of_nat n + f) / b\<rfloor> in
      if i = 0 then False else if i \<le> 8 then bit d (i - 1) else if i = 9 then p else True)"

text \<open>The bit times under which every sampling point lies within its bit.\<close>

definition bit_time_ok :: "rat \<Rightarrow> bool" where
  "bit_time_ok b \<longleftrightarrow> 2463 \<le> b \<and> b \<le> 2705"

definition phase_ok :: "rat \<Rightarrow> bool" where
  "phase_ok f \<longleftrightarrow> 0 \<le> f \<and> f < 1"

lemma bit_index:
  assumes "0 < b" and "of_nat i * b \<le> x" and "x < (of_nat i + 1) * (b :: rat)"
  shows "nat \<lfloor>x / b\<rfloor> = i"
proof -
  have "\<lfloor>x / b\<rfloor> = int i" using assms by (intro floor_unique) (simp_all add: field_simps)
  then show ?thesis by simp
qed

lemma host_bit:
  assumes b: "bit_time_ok b" and f: "phase_ok f" and j: "j \<le> 8" and n: "3727 + 2592 * j \<le> n" "n \<le> 3888 + 2592 * j"
  shows "nat \<lfloor>(of_nat n + f) / b\<rfloor> = Suc j"
proof (rule bit_index)
  have b': "2463 \<le> b" "b \<le> 2705" and f': "0 \<le> f" "f < 1" using b f by (simp_all add: bit_time_ok_def phase_ok_def)
  have jr: "(of_nat j :: rat) \<le> 8" using of_nat_mono[OF j, where 'a = rat] by simp
  have nr: "3727 + 2592 * (of_nat j :: rat) \<le> of_nat n" "(of_nat n :: rat) \<le> 3888 + 2592 * of_nat j"
    using of_nat_mono[OF n(1), where 'a = rat] of_nat_mono[OF n(2), where 'a = rat] by simp_all
  show "0 < b" using b' by simp
  have "of_nat (Suc j) * b \<le> (of_nat j + 1) * 2705"
    using mult_left_mono[OF b'(2), of "of_nat j + 1"] by (simp add: algebra_simps)
  also have "\<dots> \<le> 3727 + 2592 * of_nat j" using jr by (simp add: algebra_simps)
  finally show "of_nat (Suc j) * b \<le> of_nat n + f" using nr f' by simp
  have "(of_nat n :: rat) + f < (of_nat j + 2) * 2463" using nr jr f' by (simp add: algebra_simps)
  also have "\<dots> \<le> (of_nat (Suc j) + 1) * b"
    using mult_left_mono[OF b'(1), of "of_nat j + 2"] by (simp add: algebra_simps)
  finally show "of_nat n + f < (of_nat (Suc j) + 1) * b" .
qed

lemma host_high:
  assumes b: "bit_time_ok b" and f: "phase_ok f" and n: "27055 \<le> n"
  shows "host_line b f d p n"
proof -
  have b': "0 < b" "b \<le> 2705" "0 \<le> f" using b f by (simp_all add: bit_time_ok_def phase_ok_def)
  have "10 * b \<le> of_nat n + f" using b' n of_nat_mono[OF n, where 'a = rat] by simp
  then have "10 \<le> \<lfloor>(of_nat n + f) / b\<rfloor>" using b' by (simp add: le_floor_iff field_simps)
  moreover define i where "i = nat \<lfloor>(of_nat n + f) / b\<rfloor>"
  ultimately have "10 \<le> i" by linarith
  then show ?thesis unfolding host_line_def Let_def i_def[symmetric] by simp
qed

lemma host_low:
  assumes "bit_time_ok b" and "phase_ok f" and "n \<le> 1"
  shows "\<not> host_line b f d p n"
proof -
  have "(of_nat n :: rat) \<le> 1" using of_nat_mono[OF assms(3), where 'a = rat] by simp
  then have "nat \<lfloor>(of_nat n + f) / b\<rfloor> = 0"
    using assms(1,2) by (intro bit_index) (simp_all add: bit_time_ok_def phase_ok_def)
  then show ?thesis by (simp add: host_line_def)
qed

lemma host_line_bits:
  assumes "bit_time_ok b" and "phase_ok f" and "3727 + 2592 * j \<le> n" and "n \<le> 3888 + 2592 * j"
  shows "j < 8 \<Longrightarrow> host_line b f d p n \<longleftrightarrow> bit d j" and "j = 8 \<Longrightarrow> host_line b f d p n \<longleftrightarrow> p"
  using host_bit[OF assms(1,2) _ assms(3,4)] by (simp_all add: host_line_def Let_def)

text \<open>The receiver sees the frame that starts at clock 0 from clock 2 on.\<close>

lemma host_framed:
  assumes b: "bit_time_ok b" and h: "phase_ok f" and q: "rx_ready q" and c: "unat c < 162"
  shows "framed (baud_tick c) (host_line b f d p) q 2 d p"
proof -
  have low: "\<not> host_line b f d p 0" "\<not> host_line b f d p 1" using host_low[OF b h] by simp_all
  let ?rx = "rx_at (baud_tick c) (host_line b f d p) q"
  have s1: "uart_rx.q_state (?rx 1) = S_IDLE" "\<not> q_rx (?rx 1)"
    using q rx_idle(1)[of q] low by (simp_all add: rx_ready_def)
  then have s2: "in_frame d 0 (?rx 2)" "\<not> q_done_tick (?rx 2)" "\<not> q_parity_err (?rx 2)"
    using rx_sees_start[of "?rx 1"] rx_idle(2)[of "?rx 1"] by (simp_all add: numeral_2_eq_2)
  have "sample_ok d p (ticks (baud_tick c) 2 n) (q_rx (?rx n))" if le: "2 \<le> n" "baud_tick c n" for n
  proof -
    let ?r = "ticks (baud_tick c) 2 n"
    define o' where "o' = (unat c + 2) div 162"
    have "unat c + n = 162 * ((unat c + n) div 162) + 161"
      using le(2) baud_tick_iff[OF c] by (metis mult_div_mod_eq)
    then have n: "unat c + n = 162 * (?r + o') + 161" using baud_ticks[OF c le(1)] by (simp add: o'_def)
    have o: "162 * o' \<le> unat c + 2" "unat c + 2 < 162 * o' + 162" by (simp_all add: o'_def)
    obtain m where m: "n = Suc m" using le by (cases n) auto
    have "q_rx (?rx n) = host_line b f d p m" by (simp add: m)
    moreover have "3727 + 2592 * j \<le> m \<and> m \<le> 3888 + 2592 * j" if "?r = 23 + 16 * j" for j
      using n o m that c by auto
    moreover have "?r = 151 \<Longrightarrow> ?r = 23 + 16 * 8" by simp
    ultimately show ?thesis using host_line_bits[OF b h] unfolding sample_ok_def by blast
  qed
  with s2 show ?thesis by (simp add: framed_def Let_def)
qed

lemma host_frame_end:
  assumes "bit_time_ok b" and "phase_ok f" and "rx_ready q" and "unat c < 162"
  obtains e where "2 \<le> e" and "ticks (baud_tick c) 2 e = 167" and "baud_tick c e" and "27056 \<le> e" and "e \<le> 27217"
    and "unat c + e = 162 * (167 + (unat c + 2) div 162) + 161"
    and "q_done_tick (rx_at (baud_tick c) (host_line b f d p) q (Suc e))"
proof -
  let ?o = "(unat c + 2) div 162"
  define e where "e = 162 * (167 + ?o) + 161 - unat c"
  have o: "162 * ?o \<le> unat c + 2" "unat c + 2 < 162 * ?o + 162" by simp_all
  then have e: "27056 \<le> e" "e \<le> 27217" "unat c + e = 162 * (167 + ?o) + 161"
    using assms(4) by (simp_all add: e_def)
  moreover have t: "2 \<le> e" "ticks (baud_tick c) 2 e = 167" "baud_tick c e"
    using baud_ticks[OF assms(4), of 2 e] baud_tick_iff[OF assms(4), of e] e by simp_all
  moreover note rx_frame(2)[OF host_framed[OF assms(1-4), of d p] t]
  ultimately show thesis using that by blast
qed

text \<open>
  A byte sent by a host arrives: for every phase of the FPGA's baud clock, whose divider rounds the
  bit time down to 2592 clocks, the receiver hands exactly this byte to its FIFO within 27219 clocks of
  the start bit, reports an error exactly if the parity bit is wrong and waits for the next start bit.
\<close>

lemma host_frame:
  assumes "bit_time_ok b" and "phase_ok f" and "rx_ready q" and "unat c < 162" and "27219 \<le> n"
  shows "rx_bytes (baud_tick c) (host_line b f d p) q n = [d]"
    and "rx_parity (baud_tick c) (host_line b f d p) q n \<longleftrightarrow> p = xor_bits d"
    and "rx_ready (rx_at (baud_tick c) (host_line b f d p) q (Suc n))"
proof -
  let ?tick = "baud_tick c" and ?line = "host_line b f d p"
  note f = host_framed[OF assms(1-4), of d p]
  obtain e where e: "2 \<le> e" "ticks ?tick 2 e = 167" "?tick e" "27056 \<le> e" "e \<le> 27217"
    using host_frame_end[OF assms(1-4)] by blast
  note fin = rx_frame[OF f e(1-3)]
  have first: "rx_bytes ?tick ?line q 2 = []" "\<not> rx_parity ?tick ?line q 2"
    using assms(3) rx_idle(2)[of q] by (simp_all add: rx_bytes_def rx_parity_def rx_ready_def numeral_2_eq_2)
  have high: "q_rx (rx_at ?tick ?line q k)" if "Suc e \<le> k" for k
    using that e(4) host_high[OF assms(1,2)] by (cases k) simp_all
  obtain m where m: "n = Suc m" "Suc e \<le> m" using assms(5) e(5) by (cases n) auto
  note idle = rx_idle_run[OF fin(1)]
  show "rx_bytes ?tick ?line q n = [d]" "rx_parity ?tick ?line q n \<longleftrightarrow> p = xor_bits d"
    using idle(2,3)[OF m(2) high] fin(3,4) first e(4) by (simp_all add: m(1))
  have "uart_rx.q_state (rx_at ?tick ?line q n) = S_IDLE" "Suc e \<le> n"
    using idle(1)[of n, OF _ high] m by simp_all
  then show "rx_ready (rx_at ?tick ?line q (Suc n))"
    using rx_idle[of "rx_at ?tick ?line q n" "?tick n" "?line n"] high[of n] high[of "Suc n"]
    by (simp add: rx_ready_def)
qed

lemma host_rx_ready: "rx_ready rx_reset"
  by (simp add: rx_ready_def rx_reset_def)

text \<open>
  A host that sends one frame after the other: before each, the line is high for any number of clocks,
  and each lasts eleven bit times. At 27220 clocks or more a frame, the receiver is back in time for
  the next start bit.
\<close>

type_synonym host_sends = "(nat \<times> rat \<times> byte \<times> bool) list"

definition frame_clks :: "rat \<Rightarrow> nat" where
  "frame_clks b = nat \<lfloor>11 * b\<rfloor>"

fun host_send :: "rat \<Rightarrow> host_sends \<Rightarrow> nat \<Rightarrow> bool" where
  "host_send b [] n \<longleftrightarrow> True"
| "host_send b ((g, f, d, p) # fs) n \<longleftrightarrow>
     (if n < g then True else if n < g + frame_clks b then host_line b f d p (n - g)
      else host_send b fs (n - (g + frame_clks b)))"

fun send_clks :: "rat \<Rightarrow> host_sends \<Rightarrow> nat" where
  "send_clks b [] = 0"
| "send_clks b ((g, f, d, p) # fs) = g + frame_clks b + send_clks b fs"

definition host_ok :: "rat \<Rightarrow> host_sends \<Rightarrow> bool" where
  "host_ok b fs \<longleftrightarrow> 2475 \<le> b \<and> b \<le> 2705 \<and> (\<forall>(g, f, d, p) \<in> set fs. phase_ok f)"

lemma frame_clks:
  assumes "2475 \<le> b"
  shows "27220 \<le> frame_clks b"
proof -
  have "27225 \<le> \<lfloor>11 * b\<rfloor>" using assms by (simp add: le_floor_iff)
  then show ?thesis unfolding frame_clks_def by linarith
qed

text \<open>The first frame of several: the receiver is ready when it starts and again when it is over.\<close>

lemma host_first:
  fixes g f d p fs b q c
  defines "line \<equiv> host_send b ((g, f, d, p) # fs)"
  defines "q1 \<equiv> rx_at (baud_tick c) line q g" and "c1 \<equiv> (baud_clk ^^ g) c"
  assumes ok: "host_ok b ((g, f, d, p) # fs)" and q: "rx_ready q" and c: "unat c < 162"
  shows "bit_time_ok b" and "phase_ok f" and "host_ok b fs" and "unat c1 < 162"
    and "k \<le> g \<Longrightarrow> rx_ready (rx_at (baud_tick c) line q k) \<and> rx_bytes (baud_tick c) line q k = [] \<and>
      \<not> rx_parity (baud_tick c) line q k"
    and "j \<le> frame_clks b \<Longrightarrow> rx_at (baud_tick c1) (\<lambda>n. line (g + n)) q1 j = rx_at (baud_tick c1) (host_line b f d p) q1 j \<and>
      rx_bytes (baud_tick c1) (\<lambda>n. line (g + n)) q1 j = rx_bytes (baud_tick c1) (host_line b f d p) q1 j \<and>
      (rx_parity (baud_tick c1) (\<lambda>n. line (g + n)) q1 j \<longleftrightarrow> rx_parity (baud_tick c1) (host_line b f d p) q1 j)"
    and "(\<lambda>n. line (g + (frame_clks b + n))) = host_send b fs"
    and "rx_ready (rx_at (baud_tick c1) (host_line b f d p) q1 (frame_clks b))"
proof -
  show b: "bit_time_ok b" and f: "phase_ok f" and "host_ok b fs"
    using ok by (auto simp: host_ok_def bit_time_ok_def)
  show c1: "unat c1 < 162" using baud_cnt[OF c] by (simp add: c1_def)
  show gap: "rx_ready (rx_at (baud_tick c) line q k) \<and> rx_bytes (baud_tick c) line q k = [] \<and>
      \<not> rx_parity (baud_tick c) line q k" if "k \<le> g" for k
    using rx_gap[OF q, of k line "baud_tick c"] that by (simp add: line_def)
  show "rx_at (baud_tick c1) (\<lambda>n. line (g + n)) q1 j = rx_at (baud_tick c1) (host_line b f d p) q1 j \<and>
      rx_bytes (baud_tick c1) (\<lambda>n. line (g + n)) q1 j = rx_bytes (baud_tick c1) (host_line b f d p) q1 j \<and>
      (rx_parity (baud_tick c1) (\<lambda>n. line (g + n)) q1 j \<longleftrightarrow> rx_parity (baud_tick c1) (host_line b f d p) q1 j)"
    if "j \<le> frame_clks b"
    using rx_cong[of j "\<lambda>n. line (g + n)" "host_line b f d p" "baud_tick c1" q1] that by (simp add: line_def)
  show "(\<lambda>n. line (g + (frame_clks b + n))) = host_send b fs" by (simp add: line_def fun_eq_iff)
  obtain l where l: "frame_clks b = Suc l" "27219 \<le> l"
    using frame_clks[of b] ok by (cases "frame_clks b") (auto simp: host_ok_def)
  show "rx_ready (rx_at (baud_tick c1) (host_line b f d p) q1 (frame_clks b))"
    unfolding l(1) using gap[of g] host_frame(3)[OF b f _ c1 l(2)] by (simp add: q1_def)
qed

lemma host_sends_received:
  assumes "host_ok b fs" and "rx_ready q" and "unat c < 162"
  shows "rx_bytes (baud_tick c) (host_send b fs) q (send_clks b fs) = map (\<lambda>(g, f, d, p). d) fs \<and>
    (rx_parity (baud_tick c) (host_send b fs) q (send_clks b fs) \<longleftrightarrow> (\<exists>(g, f, d, p) \<in> set fs. p = xor_bits d)) \<and>
    rx_ready (rx_at (baud_tick c) (host_send b fs) q (send_clks b fs))"
  using assms
proof (induction fs arbitrary: q c)
  case Nil
  then show ?case by (simp add: rx_bytes_def rx_parity_def)
next
  case (Cons x fs)
  obtain g f d p where x: "x = (g, f, d, p)" by (cases x)
  let ?L = "frame_clks b" and ?line = "host_send b (x # fs)"
  define q1 where "q1 = rx_at (baud_tick c) ?line q g"
  define c1 where "c1 = (baud_clk ^^ g) c"
  let ?line1 = "\<lambda>n. ?line (g + n)"
  note h = host_first[OF Cons.prems[unfolded x], folded x, folded q1_def c1_def]
  have gap: "rx_ready q1" "rx_bytes (baud_tick c) ?line q g = []" "\<not> rx_parity (baud_tick c) ?line q g"
    using h(5)[of g] by (simp_all add: q1_def)
  define q2 where "q2 = rx_at (baud_tick c1) ?line1 q1 ?L"
  have L: "27219 \<le> ?L" using frame_clks[of b] Cons.prems(1) by (simp add: host_ok_def)
  have frame: "rx_bytes (baud_tick c1) ?line1 q1 ?L = [d]"
    "rx_parity (baud_tick c1) ?line1 q1 ?L \<longleftrightarrow> p = xor_bits d" "rx_ready q2"
    using h(6)[of ?L] h(8) host_frame(1,2)[OF h(1,2) gap(1) h(4) L] by (simp_all add: q2_def)
  define c2 where "c2 = (baud_clk ^^ ?L) c1"
  have c2: "unat c2 < 162" using baud_cnt[OF h(4)] by (simp add: c2_def)
  have clks: "send_clks b (x # fs) = g + (?L + send_clks b fs)" using x by simp
  show ?case
    unfolding clks rx_shift baud_tick_shift q1_def[symmetric] c1_def[symmetric] q2_def[symmetric] c2_def[symmetric] h(7)
    using Cons.IH[OF h(3) frame(3) c2] gap frame x by simp
qed

lemma host_send_end: "send_clks b fs \<le> k \<Longrightarrow> host_send b fs k"
  by (induction b fs k rule: host_send.induct) auto

text \<open>What a receiver delivers over time, when it is \<open>bs\<close> by clock \<open>T\<close> and nothing more afterwards.\<close>

definition delivers :: "(nat \<Rightarrow> bool) \<Rightarrow> (nat \<Rightarrow> bool) \<Rightarrow> uart_rx \<Rightarrow> byte list \<Rightarrow> nat \<Rightarrow> bool" where
  "delivers tick line q bs T \<longleftrightarrow>
     (\<forall>n. \<exists>rest. bs = rx_bytes tick line q n @ rest) \<and> (\<forall>n \<ge> T. rx_bytes tick line q n = bs) \<and>
     (\<forall>n. \<not> rx_parity tick line q n)"

lemma rx_mono:
  assumes "m \<le> n"
  shows "\<exists>rest. rx_bytes tick line q n = rx_bytes tick line q m @ rest"
    and "rx_parity tick line q m \<Longrightarrow> rx_parity tick line q n"
  using le_Suc_ex[OF assms] rx_shift(2,3)[of tick line q m] by metis+

lemma rx_silence:
  assumes "rx_ready (rx_at tick line q T)" and "\<And>k. T \<le> k \<Longrightarrow> line k" and "T \<le> n"
  shows "rx_bytes tick line q n = rx_bytes tick line q T" and "rx_parity tick line q n \<longleftrightarrow> rx_parity tick line q T"
    and "rx_ready (rx_at tick line q n)"
proof -
  obtain i where n: "n = T + i" using le_Suc_ex[OF assms(3)] by blast
  have l: "line (T + j)" if "j < i" for j by (rule assms(2)) simp
  note g = rx_gap[OF assms(1), of i "\<lambda>i. line (T + i)" "\<lambda>i. tick (T + i)", OF l]
  note s = rx_shift[of tick line q T i]
  show "rx_bytes tick line q n = rx_bytes tick line q T" "rx_parity tick line q n \<longleftrightarrow> rx_parity tick line q T"
    "rx_ready (rx_at tick line q n)"
    unfolding n s(1) s(2) s(3) using g by simp_all
qed

lemma host_delivers:
  assumes "host_ok b fs" and "rx_ready q" and "unat c < 162" and "\<forall>(g, f, d, p) \<in> set fs. p \<noteq> xor_bits d"
  shows "delivers (baud_tick c) (host_send b fs) q (map (\<lambda>(g, f, d, p). d) fs) (send_clks b fs)"
    and "send_clks b fs \<le> n \<Longrightarrow> rx_ready (rx_at (baud_tick c) (host_send b fs) q n)"
proof -
  let ?T = "send_clks b fs" and ?tick = "baud_tick c" and ?line = "host_send b fs"
  let ?bs = "map (\<lambda>(g, f, d, p). d) fs"
  note rx = host_sends_received[OF assms(1-3)]
  have rdy: "rx_ready (rx_at ?tick ?line q ?T)" and bytes: "rx_bytes ?tick ?line q ?T = ?bs"
    and par: "\<not> rx_parity ?tick ?line q ?T"
    using rx assms(4) by auto
  note after = rx_silence[OF rdy host_send_end]
  show "?T \<le> n \<Longrightarrow> rx_ready (rx_at ?tick ?line q n)" by (rule after(3))
  have "\<exists>rest. ?bs = rx_bytes ?tick ?line q m @ rest" "\<not> rx_parity ?tick ?line q m" for m
  proof -
    have "rx_bytes ?tick ?line q (max m ?T) = ?bs" "\<not> rx_parity ?tick ?line q (max m ?T)"
      using after(1,2)[of "max m ?T"] bytes par by simp_all
    then show "\<exists>rest. ?bs = rx_bytes ?tick ?line q m @ rest" "\<not> rx_parity ?tick ?line q m"
      using rx_mono[of m "max m ?T" ?tick ?line q] by (metis max.cobounded1)+
  qed
  then show "delivers ?tick ?line q ?bs ?T" unfolding delivers_def using after(1) bytes by simp
qed

section \<open>When the bytes are reported\<close>

lemma rx_done_twice:
  assumes "q_done_tick (rx_at tick line q m)" and "q_done_tick (rx_at tick line q n)" and "m < n" and "n < k"
  shows "2 \<le> length (rx_bytes tick line q k)"
  unfolding rx_bytes_def using assms by (intro concat_map_twice[of m n]) simp_all

text \<open>The only byte of a frame is reported right after the 168th tick from its third clock on.\<close>

lemma host_done:
  assumes "bit_time_ok b" and "phase_ok f" and "rx_ready q" and "unat c < 162"
    and d: "q_done_tick (rx_at (baud_tick c) (host_line b f d p) q j)"
  shows "unat c + j = 162 * (168 + (unat c + 2) div 162)"
proof -
  obtain e where e: "q_done_tick (rx_at (baud_tick c) (host_line b f d p) q (Suc e))"
    "unat c + e = 162 * (167 + (unat c + 2) div 162) + 161"
    using host_frame_end[OF assms(1-4)] by blast
  have "j = Suc e"
  proof (rule ccontr)
    assume "j \<noteq> Suc e"
    then have "2 \<le> length (rx_bytes (baud_tick c) (host_line b f d p) q (Suc (max j (Suc e) + 27219)))"
      using rx_done_twice[OF d e(1)] rx_done_twice[OF e(1) d] by (cases j "Suc e" rule: linorder_cases) simp_all
    then show False using host_frame(1)[OF assms(1-4)] by simp
  qed
  then show ?thesis using e(2) by simp
qed

fun frame_starts :: "rat \<Rightarrow> host_sends \<Rightarrow> nat list" where
  "frame_starts b [] = []"
| "frame_starts b ((g, f, d, p) # fs) = g # map (\<lambda>s. g + (frame_clks b + s)) (frame_starts b fs)"

lemma done_clock_shift:
  assumes "(c :: nat) < 162" and "(c + g) mod 162 + j = 162 * (168 + ((c + g) mod 162 + s + 2) div 162)"
  shows "c + (g + j) = 162 * (168 + (c + (g + s) + 2) div 162)"
proof -
  define k where "k = (c + g) div 162"
  have k: "c + g = 162 * k + (c + g) mod 162" by (simp add: k_def)
  then have "(c + (g + s) + 2) div 162 = (((c + g) mod 162 + s + 2) + 162 * k) div 162" by (metis add.assoc add.commute)
  also have "\<dots> = k + ((c + g) mod 162 + s + 2) div 162" by simp
  finally show ?thesis using k assms(2) by simp
qed

lemma host_dones:
  assumes "host_ok b fs" and "rx_ready q" and "unat c < 162" and "q_done_tick (rx_at (baud_tick c) (host_send b fs) q n)"
  shows "\<exists>s \<in> set (frame_starts b fs). unat c + n = 162 * (168 + (unat c + s + 2) div 162)"
  using assms
proof (induction fs arbitrary: q c n)
  case Nil
  then show ?case using rx_gap(1)[of q n "\<lambda>_. True" "baud_tick c"] by (simp add: rx_ready_def)
next
  case (Cons x fs)
  obtain g f d p where x: "x = (g, f, d, p)" by (cases x)
  let ?L = "frame_clks b" and ?line = "host_send b (x # fs)"
  define q1 where "q1 = rx_at (baud_tick c) ?line q g"
  define c1 where "c1 = (baud_clk ^^ g) c"
  note h = host_first[OF Cons.prems(1-3)[unfolded x], folded x, folded q1_def c1_def]
  have c1: "unat c1 = (unat c + g) mod 162" using baud_cnt[OF Cons.prems(3)] by (simp add: c1_def)
  have "\<not> rx_ready (rx_at (baud_tick c) ?line q n)" using Cons.prems(4) by (simp add: rx_ready_def)
  then have "g < n" using h(5)[of n] by force
  then obtain j where j: "n = g + j" using less_imp_add_positive by blast
  have d: "q_done_tick (rx_at (baud_tick c1) (\<lambda>n. ?line (g + n)) q1 j)"
    using Cons.prems(4) unfolding j rx_shift(1) baud_tick_shift q1_def[symmetric] c1_def[symmetric] .
  show ?case
  proof (cases "j \<le> ?L")
    case True
    then have "q_done_tick (rx_at (baud_tick c1) (host_line b f d p) q1 j)" using d h(6) by simp
    from host_done[OF h(1,2) _ h(4) this] h(5)[of g]
    have "unat c1 + j = 162 * (168 + (unat c1 + 0 + 2) div 162)" by (simp add: q1_def)
    from done_clock_shift[OF Cons.prems(3) this[unfolded c1]] show ?thesis by (simp add: x j)
  next
    case False
    then obtain i where i: "j = ?L + i" using le_Suc_ex[of ?L j] by auto
    define c2 where "c2 = (baud_clk ^^ ?L) c1"
    have c2: "unat c2 = (unat c1 + ?L) mod 162" "unat c2 < 162" using baud_cnt[OF h(4)] by (simp_all add: c2_def)
    define q2 where "q2 = rx_at (baud_tick c1) (\<lambda>n. ?line (g + n)) q1 ?L"
    have "rx_ready q2" using h(6)[of ?L] h(8) by (simp add: q2_def)
    moreover have "q_done_tick (rx_at (baud_tick c2) (host_send b fs) q2 i)"
      using d unfolding i rx_shift(1) baud_tick_shift q2_def[symmetric] c2_def[symmetric] h(7) .
    ultimately obtain s where s: "s \<in> set (frame_starts b fs)" "unat c2 + i = 162 * (168 + (unat c2 + s + 2) div 162)"
      using Cons.IH[OF h(3) _ c2(2)] by blast
    from done_clock_shift[OF h(4) s(2)[unfolded c2(1)]]
    have "unat c1 + j = 162 * (168 + (unat c1 + (?L + s) + 2) div 162)" unfolding i .
    from done_clock_shift[OF Cons.prems(3) this[unfolded c1]] s(1) show ?thesis by (auto simp: x j add.assoc)
  qed
qed

lemma frame_starts_apart:
  assumes "s \<in> set (frame_starts b fs)" and "s' \<in> set (frame_starts b fs)" and "s < s'"
  shows "s + frame_clks b \<le> s'"
  using assms by (induction b fs arbitrary: s s' rule: frame_starts.induct) auto

text \<open>
  When a frame lasts at least 176 ticks, the host's bit time is at least that of the FPGA, and the
  bytes are reported at least as far from each other as the transmitter needs for one.
\<close>

lemma host_dones_apart:
  assumes "host_ok b fs" and "rx_ready q" and "unat c < 162" and "2592 \<le> b" and "m < n"
    and "q_done_tick (rx_at (baud_tick c) (host_send b fs) q m)" and "q_done_tick (rx_at (baud_tick c) (host_send b fs) q n)"
  shows "m + 28512 \<le> n"
proof -
  obtain s s' where s: "s \<in> set (frame_starts b fs)" "unat c + m = 162 * (168 + (unat c + s + 2) div 162)"
    and s': "s' \<in> set (frame_starts b fs)" "unat c + n = 162 * (168 + (unat c + s' + 2) div 162)"
    using host_dones[OF assms(1-3,6)] host_dones[OF assms(1-3,7)] by blast
  have "s < s'"
  proof (rule ccontr)
    assume "\<not> s < s'"
    then have "(unat c + s' + 2) div 162 \<le> (unat c + s + 2) div 162" by (intro div_le_mono) simp
    then show False using s(2) s'(2) assms(5) by simp
  qed
  have "28512 \<le> \<lfloor>11 * b\<rfloor>" using assms(4) by (simp add: le_floor_iff)
  then have "28512 \<le> frame_clks b" unfolding frame_clks_def by linarith
  then have "s + 28512 \<le> s'" using frame_starts_apart[OF s(1) s'(1) \<open>s < s'\<close>] by simp
  then have "(unat c + s + 2 + 176 * 162) div 162 \<le> (unat c + s' + 2) div 162" by (intro div_le_mono) simp
  then have "(unat c + s + 2) div 162 + 176 \<le> (unat c + s' + 2) div 162" by (simp add: div_mult_self1 del: div_mult_self1)
  then show ?thesis using s(2) s'(2) by simp
qed

lemma rx_done_tick: "q_done_tick (rx_clk k l q) \<Longrightarrow> k"
  by (cases "uart_rx.q_state q"; simp add: rx_eval split: if_splits)

section \<open>Transmitter to receiver\<close>

lemma loop_framed:
  fixes tick start data tx x
  defines "line \<equiv> \<lambda>n. q_tx (tx_at tick start data tx n)"
  assumes s: "sending x 0 (tx_at tick start data tx 1)" and l: "line 0" "line 1" and q: "rx_ready q"
  shows "framed tick line q 4 x (\<not> xor_bits x)"
proof -
  let ?rx = "rx_at tick line q" and ?T = "ticks tick 1"
  have wave: "line (Suc n) = wave x (?T n)" if "1 \<le> n" "?T n \<le> 175" for n
    unfolding line_def using tx_wave(1)[OF s that] .
  have l2: "\<not> line 2" using wave[of 1] by (simp add: wave_def numeral_2_eq_2)
  have r1: "uart_rx.q_state (?rx 1) = S_IDLE" "q_rx (?rx 1)"
    using q rx_idle(1)[of q] l(1) by (simp_all add: rx_ready_def)
  then have r2: "uart_rx.q_state (?rx 2) = S_IDLE" "q_rx (?rx 2)"
    using rx_idle(1)[OF r1] l(2) by (simp_all add: numeral_2_eq_2)
  then have r3: "uart_rx.q_state (?rx 3) = S_IDLE" "\<not> q_rx (?rx 3)"
    using rx_idle(1)[OF r2] l2 by (simp_all add: eval_nat_numeral)
  then have r4: "in_frame x 0 (?rx 4)" "\<not> q_done_tick (?rx 4)" "\<not> q_parity_err (?rx 4)"
    using rx_sees_start[OF r3] rx_idle(2)[OF r3(1)] by (simp_all add: eval_nat_numeral)
  have "sample_ok x (\<not> xor_bits x) (ticks tick 4 n) (q_rx (?rx n))" if le: "4 \<le> n" for n
  proof (cases "ticks tick 4 n \<le> 151")
    case True
    obtain k where k: "n = Suc (Suc k)" "2 \<le> k" using le by (cases n; cases "n - 1") auto
    have v: "q_rx (?rx n) = line (Suc k)" by (simp add: k)
    have a: "?T n = ?T 4 + ticks tick 4 n" using le by (intro ticks_split) simp_all
    have b: "?T 4 \<le> 3" by (simp add: ticks_def eval_nat_numeral)
    have c: "?T k \<le> ?T n" "?T n \<le> ?T k + 2" using k ticks_Suc[of 1 k tick] ticks_Suc[of 1 "Suc k" tick] by auto
    have w: "q_rx (?rx n) = wave x (?T k)" using v wave[of k] k a b c True by simp
    have "wave x (?T k) = bit x j" if j: "j < 8" "ticks tick 4 n = 23 + 16 * j" for j
    proof -
      obtain i where i: "?T k = 21 + 16 * j + i" "i < 6"
        using a b c j le_Suc_ex[of "21 + 16 * j" "?T k"] by auto
      then have "(?T k - 16) div 16 = j" by simp
      with i j show ?thesis by (simp add: wave_def)
    qed
    moreover have "wave x (?T k) = (\<not> xor_bits x)" if "ticks tick 4 n = 151"
      using that a b c by (simp add: wave_def)
    ultimately show ?thesis unfolding sample_ok_def w by blast
  qed (auto simp: sample_ok_def)
  with r4 show ?thesis by (simp add: framed_def Let_def)
qed

text \<open>
  A byte handed to the transmitter comes out of a receiver at the other end of the line, whatever the
  ticks of the baud clock, as long as both run on the same. The transmitter reports that it is done
  once, with the 175th tick after the first; then both are ready again.
\<close>

lemma loop_frame:
  fixes tick start data tx
  defines "line \<equiv> \<lambda>n. q_tx (tx_at tick start data tx n)"
  assumes tx: "tx_ready tx" and rx: "rx_ready rx" and start: "start 0" "data 0 = x"
    and e: "1 \<le> e" "ticks tick 1 e = 175" "tick e"
  shows "tx_ready (tx_at tick start data tx (Suc (Suc e)))"
    and "n \<le> Suc e \<Longrightarrow> q_tx_done_tick (tx_at tick start data tx n) \<longleftrightarrow> n = Suc e"
    and "rx_bytes tick line rx (Suc (Suc e)) = [x]" and "\<not> rx_parity tick line rx (Suc (Suc e))"
    and "rx_ready (rx_at tick line rx (Suc (Suc e)))"
proof -
  let ?T = "ticks tick 1"
  have s: "sending x 0 (tx_at tick start data tx 1)" and l: "line 0" "line 1" and nd: "\<not> q_tx_done_tick (tx_at tick start data tx 1)"
    using tx_request[of tx, where d = x and k = "tick 0"] tx start by (simp_all add: line_def tx_ready_def)
  have wave: "line (Suc n) = wave x (?T n)" if "1 \<le> n" "?T n \<le> 175" for n
    unfolding line_def using tx_wave(1)[OF s that] .
  have f: "framed tick line rx 4 x (\<not> xor_bits x)"
    unfolding line_def by (rule loop_framed[OF s _ _ rx]) (use l in \<open>simp_all add: line_def\<close>)
  have b: "?T 4 \<le> 3" by (simp add: ticks_def eval_nat_numeral)
  have "4 \<le> e" using ticks_mono[of e 4 1 tick] e b by (cases "4 \<le> e") simp_all
  then have r: "ticks tick 4 e = 175 - ?T 4" using ticks_split[of 1 4 e tick] e(2) by simp
  then have "167 < ticks tick 4 e" using b by simp
  then obtain m where m: "4 \<le> m" "m < e" "tick m" "ticks tick 4 m = 167" by (rule ticks_reach)
  note fin = rx_frame[OF f m(1,4,3)]
  have high: "q_rx (rx_at tick line rx k)" if k: "Suc m \<le> k" "k \<le> Suc e" for k
  proof -
    obtain i where i: "k = Suc (Suc i)" "1 \<le> i" using k m(1) by (cases k; cases "k - 1") auto
    have "?T m = ?T 4 + 167" using ticks_split[of 1 4 m tick] m by simp
    moreover have "?T m \<le> ?T (Suc i)" "?T i \<le> ?T e" using i k m(1) by (auto intro!: ticks_mono)
    moreover have "?T (Suc i) \<le> ?T i + 1" using ticks_Suc[OF i(2), of tick] by simp
    ultimately have "line (Suc i)" using wave[OF i(2)] e(2) by (simp add: wave_def)
    then show ?thesis by (simp add: i)
  qed
  note idle = rx_idle_run[OF fin(1), of "Suc e"]
  have up: "q_rx (rx_at tick line rx k)" if "k < 3" for k
    using that rx l by (cases k; cases "k - 1") (simp_all add: rx_ready_def)
  have "rx_bytes tick line rx 4 = []" "\<not> rx_parity tick line rx 4"
    using rx_idle_run(2,3)[of tick line rx 0 3, OF _ _ up] rx
    by (simp_all add: rx_ready_def rx_bytes_def rx_parity_def)
  then show "rx_bytes tick line rx (Suc (Suc e)) = [x]" "\<not> rx_parity tick line rx (Suc (Suc e))"
    using idle m(2) high fin(3,4) by simp_all
  have last: "uart_rx.q_state (rx_at tick line rx (Suc e)) = S_IDLE" using idle(1) m(2) high by simp
  note stop = tx_end[OF s e]
  have "q_rx (rx_at tick line rx (Suc e))" using high[of "Suc e"] m(2) by simp
  then show "rx_ready (rx_at tick line rx (Suc (Suc e)))"
    using rx_idle[OF last] stop(2) by (simp add: rx_ready_def line_def)
  show "tx_ready (tx_at tick start data tx (Suc (Suc e)))"
    using stop by (simp add: tx_ready_def tx_clk_def)
  show "q_tx_done_tick (tx_at tick start data tx n) \<longleftrightarrow> n = Suc e" if "n \<le> Suc e"
  proof (cases "n \<le> 1")
    case True
    then show ?thesis using nd tx e(1) by (cases n) (auto simp: tx_ready_def)
  next
    case False
    then obtain k where k: "n = Suc k" "1 \<le> k" by (cases n) auto
    have T: "?T k \<le> 175" using ticks_mono[of k e 1 tick] that k e by simp
    have "tick k \<Longrightarrow> ?T k = 175 \<Longrightarrow> k = e"
      using ticks_mono[of "Suc k" e 1 tick] ticks_Suc[OF k(2), of tick] that k e by (cases "k = e") simp_all
    with tx_wave(2)[OF s k(2) T] e k show ?thesis by auto
  qed
qed

lemma tx_reset_ready: "tx_ready tx_reset"
  by (simp add: tx_ready_def tx_reset_def)

end
