(* ===== verification/Fifo.thy ===== *)
theory Fifo
  imports Prelude
begin

text \<open>
  The circular buffer \<^verbatim>\<open>cmn/fifo/fifo.v\<close> behind both directions of the UART: its flip-flops, one
  clock cycle, and its refinement of a queue. It is instantiated as in \<^verbatim>\<open>uart.v\<close>: 3-bit pointers,
  eight cells. The contract \<open>queue_port\<close> says what a client on a clocked queue may
  rely on; the buffer meets it in every cycle that does not read and write at once with exactly
  one entry.
\<close>

section \<open>The module\<close>

type_synonym ptr = "3 word"

record fifo =
  q_rd_ptr :: ptr
  q_wr_ptr :: ptr
  q_empty :: bool
  q_full :: bool
  q_data_array :: "ptr \<Rightarrow> byte"

text \<open>\<^verbatim>\<open>reset\<close> leaves the data array alone.\<close>

definition fifo_reset :: "fifo \<Rightarrow> fifo" where
  "fifo_reset q = q\<lparr>q_rd_ptr := 0, q_wr_ptr := 0, q_empty := True, q_full := False\<rparr>"

definition fifo_clk :: "bool \<Rightarrow> bool \<Rightarrow> byte \<Rightarrow> fifo \<Rightarrow> fifo" where
  "fifo_clk rd_en wr_en wr_data q =
     (let rd_en_prot = rd_en \<and> \<not> q_empty q;
          wr_en_prot = wr_en \<and> \<not> q_full q;
          d_wr_ptr = (if wr_en_prot then q_wr_ptr q + 1 else q_wr_ptr q);
          d_data = (if wr_en_prot then wr_data else q_data_array q (q_wr_ptr q));
          d_rd_ptr = (if rd_en_prot then q_rd_ptr q + 1 else q_rd_ptr q);
          d_empty = (q_empty q \<and> \<not> wr_en_prot \<or> q_wr_ptr q - q_rd_ptr q = 1 \<and> rd_en_prot);
          d_full = (q_full q \<and> \<not> rd_en_prot \<or> q_rd_ptr q - q_wr_ptr q = 1 \<and> wr_en_prot)
      in \<lparr>q_rd_ptr = d_rd_ptr, q_wr_ptr = d_wr_ptr, q_empty = d_empty, q_full = d_full,
          q_data_array = (q_data_array q)(q_wr_ptr q := d_data)\<rparr>)"

definition fifo_rd_data :: "fifo \<Rightarrow> byte" where
  "fifo_rd_data q = q_data_array q (q_rd_ptr q)"

section \<open>The queue a client sees\<close>

text \<open>
  \<open>clk rd wr d q\<close> is one cycle, \<open>front\<close>, \<open>is_empty\<close> and \<open>is_full\<close> the outputs. A cycle is \<open>safe\<close> when the laws
  cover it.
\<close>

locale queue_port =
  fixes clk :: "bool \<Rightarrow> bool \<Rightarrow> byte \<Rightarrow> 'q \<Rightarrow> 'q" and front :: "'q \<Rightarrow> byte" and is_empty is_full :: "'q \<Rightarrow> bool"
    and list :: "'q \<Rightarrow> byte list" and inv :: "'q \<Rightarrow> bool" and safe :: "bool \<Rightarrow> bool \<Rightarrow> 'q \<Rightarrow> bool"
  assumes list_clk: "inv q \<Longrightarrow> safe rd wr q \<Longrightarrow>
      list (clk rd wr d q) = (if rd then tl (list q) else list q) @ (if wr \<and> \<not> is_full q then [d] else [])"
    and inv_clk: "inv q \<Longrightarrow> safe rd wr q \<Longrightarrow> inv (clk rd wr d q)"
    and list_empty: "inv q \<Longrightarrow> is_empty q \<longleftrightarrow> list q = []"
    and list_front: "inv q \<Longrightarrow> list q \<noteq> [] \<Longrightarrow> front q = hd (list q)"

text \<open>The cycles of a list of inputs, the bytes taken out and the bytes taken in during them.\<close>

type_synonym port_in = "bool \<times> bool \<times> byte"

fun clks :: "(bool \<Rightarrow> bool \<Rightarrow> byte \<Rightarrow> 'q \<Rightarrow> 'q) \<Rightarrow> port_in list \<Rightarrow> 'q \<Rightarrow> 'q" where
  "clks clk [] q = q"
| "clks clk ((rd, wr, d) # is) q = clks clk is (clk rd wr d q)"

fun taken_out :: "(bool \<Rightarrow> bool \<Rightarrow> byte \<Rightarrow> 'q \<Rightarrow> 'q) \<Rightarrow> ('q \<Rightarrow> byte) \<Rightarrow> ('q \<Rightarrow> bool) \<Rightarrow> port_in list \<Rightarrow> 'q \<Rightarrow> byte list" where
  "taken_out clk front is_empty [] q = []"
| "taken_out clk front is_empty ((rd, wr, d) # is) q =
     (if rd \<and> \<not> is_empty q then [front q] else []) @ taken_out clk front is_empty is (clk rd wr d q)"

fun taken_in :: "(bool \<Rightarrow> bool \<Rightarrow> byte \<Rightarrow> 'q \<Rightarrow> 'q) \<Rightarrow> ('q \<Rightarrow> bool) \<Rightarrow> port_in list \<Rightarrow> 'q \<Rightarrow> byte list" where
  "taken_in clk is_full [] q = []"
| "taken_in clk is_full ((rd, wr, d) # is) q =
     (if wr \<and> \<not> is_full q then [d] else []) @ taken_in clk is_full is (clk rd wr d q)"

fun all_safe :: "(bool \<Rightarrow> bool \<Rightarrow> byte \<Rightarrow> 'q \<Rightarrow> 'q) \<Rightarrow> (bool \<Rightarrow> bool \<Rightarrow> 'q \<Rightarrow> bool) \<Rightarrow> port_in list \<Rightarrow> 'q \<Rightarrow> bool" where
  "all_safe clk safe [] q \<longleftrightarrow> True"
| "all_safe clk safe ((rd, wr, d) # is) q \<longleftrightarrow> safe rd wr q \<and> all_safe clk safe is (clk rd wr d q)"

context queue_port begin

lemma inv_clks: "inv q \<Longrightarrow> all_safe clk safe is q \<Longrightarrow> inv (clks clk is q)"
  by (induction "is" arbitrary: q) (auto simp: inv_clk)

text \<open>Nothing is lost, duplicated or reordered.\<close>

lemma in_order:
  assumes "inv q" and "all_safe clk safe is q"
  shows "taken_out clk front is_empty is q @ list (clks clk is q) = list q @ taken_in clk is_full is q"
  using assms
proof (induction "is" arbitrary: q)
  case (Cons i "is")
  obtain rd wr d where i: "i = (rd, wr, d)" by (cases i)
  let ?q = "clk rd wr d q"
  have s: "safe rd wr q" "all_safe clk safe is ?q" using Cons.prems(2) i by simp_all
  have IH: "taken_out clk front is_empty is ?q @ list (clks clk is ?q) = list ?q @ taken_in clk is_full is ?q"
    using Cons.IH[OF inv_clk[OF Cons.prems(1) s(1)] s(2)] .
  have "(if rd \<and> \<not> is_empty q then [front q] else []) @ (if rd then tl (list q) else list q) = list q"
    using list_empty[OF Cons.prems(1)] list_front[OF Cons.prems(1)] by (cases "list q") auto
  then show ?case using IH list_clk[OF Cons.prems(1) s(1), of d] i by (metis append.assoc clks.simps(2) taken_in.simps(2) taken_out.simps(2))
qed simp

end

section \<open>The buffer is a queue\<close>

definition fifo_count :: "fifo \<Rightarrow> nat" where
  "fifo_count q =
     (if q_empty q then 0 else if q_wr_ptr q = q_rd_ptr q then 8 else unat (q_wr_ptr q - q_rd_ptr q))"

definition fifo_list :: "fifo \<Rightarrow> byte list" where
  "fifo_list q = map (\<lambda>i. q_data_array q (q_rd_ptr q + of_nat i)) [0..<fifo_count q]"

text \<open>
  Equal pointers mean empty or full. The flag for full may also be set with one cell still free, after a
  cycle that reads and writes at once with that many entries.
\<close>

definition fifo_inv :: "fifo \<Rightarrow> bool" where
  "fifo_inv q \<longleftrightarrow> (q_wr_ptr q = q_rd_ptr q \<longrightarrow> q_empty q \<or> q_full q) \<and>
     (q_empty q \<longrightarrow> q_wr_ptr q = q_rd_ptr q \<and> \<not> q_full q) \<and>
     (q_full q \<longrightarrow> q_wr_ptr q = q_rd_ptr q \<or> q_rd_ptr q - q_wr_ptr q = 1)"

definition fifo_safe :: "bool \<Rightarrow> bool \<Rightarrow> fifo \<Rightarrow> bool" where
  "fifo_safe rd wr q \<longleftrightarrow> \<not> (rd \<and> wr \<and> \<not> q_empty q \<and> q_wr_ptr q - q_rd_ptr q = 1)"

lemma fifo_wr_ptr: "fifo_inv q \<Longrightarrow> q_wr_ptr q = q_rd_ptr q + of_nat (fifo_count q)"
  by (auto simp: fifo_inv_def fifo_count_def)

lemma fifo_count_bound: "fifo_count q \<le> 8"
  using unsigned_less[of "q_wr_ptr q - q_rd_ptr q", where 'a = nat]
  by (simp add: fifo_count_def less_imp_le)

lemma fifo_not_full: "fifo_inv q \<Longrightarrow> \<not> q_full q \<Longrightarrow> fifo_count q < 8"
  using unsigned_less[of "q_wr_ptr q - q_rd_ptr q", where 'a = nat]
  by (auto simp: fifo_inv_def fifo_count_def)

lemma of_nat_ptr: "i < 8 \<Longrightarrow> j < 8 \<Longrightarrow> (of_nat i :: ptr) = of_nat j \<longleftrightarrow> i = j"
  by (auto simp: word_unat_eq_iff unsigned_of_nat take_bit_nat_eq_self)

text \<open>The contents from pointer \<open>p\<close> on.\<close>

definition cells :: "(ptr \<Rightarrow> byte) \<Rightarrow> ptr \<Rightarrow> nat \<Rightarrow> byte list" where
  "cells f p n = map (\<lambda>i. f (p + of_nat i)) [0..<n]"

lemma fifo_list_cells: "fifo_list q = cells (q_data_array q) (q_rd_ptr q) (fifo_count q)"
  by (simp add: fifo_list_def cells_def)

lemma cells_upd: "n < 8 \<Longrightarrow> cells (f(p + of_nat n := d)) p (Suc n) = cells f p n @ [d]"
  by (auto simp: cells_def of_nat_ptr intro!: map_cong)

lemma cells_tl: "n \<noteq> 0 \<Longrightarrow> tl (cells f p n) = cells f (p + 1) (n - 1)"
  by (cases n) (simp_all add: cells_def map_upt_Suc add.assoc del: upt_Suc)

text \<open>The number of entries from the pointers, and back.\<close>

lemma count_of_ptrs: "0 < n \<Longrightarrow> n \<le> 8 \<Longrightarrow>
    (if (of_nat n :: ptr) = 0 then 8 else unat (of_nat n :: ptr)) = n"
proof (cases "n = 8")
  case False
  assume "0 < n" "n \<le> 8"
  with False have "n < 8" by simp
  with \<open>0 < n\<close> show ?thesis using of_nat_ptr[of n 0] by (simp add: unsigned_of_nat take_bit_nat_eq_self)
qed simp

lemma fifo_countI:
  assumes "\<not> q_empty q" and "q_wr_ptr q = q_rd_ptr q + of_nat n" and "0 < n" and "n \<le> 8"
  shows "fifo_count q = n"
  using assms(1,2) count_of_ptrs[OF assms(3,4)] by (auto simp: fifo_count_def)

lemma fifo_count_pos: "fifo_inv q \<Longrightarrow> q_empty q \<longleftrightarrow> fifo_count q = 0"
  by (auto simp: fifo_count_def unat_eq_zero simp flip: neq0_conv)

lemma fifo_one: "fifo_inv q \<Longrightarrow> \<not> q_empty q \<Longrightarrow> q_wr_ptr q - q_rd_ptr q = 1 \<longleftrightarrow> fifo_count q = 1"
  using fifo_wr_ptr[of q] fifo_count_bound[of q] fifo_count_pos[of q] of_nat_ptr[of "fifo_count q" 1]
  by (cases "fifo_count q = 8") auto

text \<open>One cycle, by what the protected enables let through.\<close>

lemma fifo_hold:
  assumes "rd \<longrightarrow> q_empty q" and "wr \<longrightarrow> q_full q"
  shows "fifo_clk rd wr d q = q"
  using assms by (cases q) (auto simp: fifo_clk_def Let_def)

lemma fifo_write:
  assumes q: "fifo_inv q" and "rd \<longrightarrow> q_empty q" and "\<not> q_full q"
  shows "fifo_list (fifo_clk rd True d q) = fifo_list q @ [d]" and "fifo_inv (fifo_clk rd True d q)"
proof -
  let ?q = "fifo_clk rd True d q" and ?n = "fifo_count q"
  have n: "?n < 8" using fifo_not_full[OF q assms(3)] .
  have s: "q_rd_ptr ?q = q_rd_ptr q" "q_wr_ptr ?q = q_wr_ptr q + 1" "q_data_array ?q = (q_data_array q)(q_wr_ptr q := d)"
    and e: "\<not> q_empty ?q" "q_full ?q \<longleftrightarrow> q_rd_ptr q - q_wr_ptr q = 1"
    using assms by (auto simp: fifo_clk_def Let_def)
  have c: "fifo_count ?q = Suc ?n"
    using fifo_countI[OF e(1), of "Suc ?n"] fifo_wr_ptr[OF q] n by (simp add: s)
  then show "fifo_list ?q = fifo_list q @ [d]"
    using cells_upd[OF n] fifo_wr_ptr[OF q] by (simp add: fifo_list_cells s)
  have "q_wr_ptr q + 1 = q_rd_ptr q \<longleftrightarrow> q_rd_ptr q - q_wr_ptr q = 1" by (auto simp: algebra_simps)
  with e show "fifo_inv ?q" by (auto simp: fifo_inv_def s)
qed

lemma fifo_read:
  assumes q: "fifo_inv q" and "\<not> q_empty q" and "wr \<longrightarrow> q_full q"
  shows "fifo_list (fifo_clk True wr d q) = tl (fifo_list q)" and "fifo_inv (fifo_clk True wr d q)"
proof -
  let ?q = "fifo_clk True wr d q" and ?n = "fifo_count q"
  have s: "q_rd_ptr ?q = q_rd_ptr q + 1" "q_wr_ptr ?q = q_wr_ptr q" "q_data_array ?q = q_data_array q"
    and e: "q_empty ?q \<longleftrightarrow> q_wr_ptr q - q_rd_ptr q = 1" "\<not> q_full ?q"
    using assms by (auto simp: fifo_clk_def Let_def)
  note one = fifo_one[OF q assms(2)]
  have n: "?n \<noteq> 0" using fifo_count_pos[OF q] assms(2) by simp
  have "fifo_count ?q = ?n - 1"
  proof (cases "?n = 1")
    case True
    then show ?thesis using e one by (simp add: fifo_count_def)
  next
    case False
    have "q_wr_ptr ?q = q_rd_ptr ?q + of_nat (?n - 1)"
      using fifo_wr_ptr[OF q] n by (simp add: s of_nat_diff)
    then show ?thesis using fifo_countI[of ?q "?n - 1"] e one False n fifo_count_bound[of q] by simp
  qed
  then show "fifo_list ?q = tl (fifo_list q)"
    using cells_tl[OF n] by (simp add: fifo_list_cells s)
  show "fifo_inv ?q" using e by (auto simp: fifo_inv_def s algebra_simps)
qed

lemma fifo_both:
  assumes q: "fifo_inv q" and "\<not> q_empty q" and "\<not> q_full q" and "fifo_count q \<noteq> 1"
  shows "fifo_list (fifo_clk True True d q) = tl (fifo_list q) @ [d]" and "fifo_inv (fifo_clk True True d q)"
proof -
  let ?q = "fifo_clk True True d q" and ?n = "fifo_count q"
  have s: "q_rd_ptr ?q = q_rd_ptr q + 1" "q_wr_ptr ?q = q_wr_ptr q + 1" "q_data_array ?q = (q_data_array q)(q_wr_ptr q := d)"
    and e: "\<not> q_empty ?q" "q_full ?q \<longleftrightarrow> q_rd_ptr q - q_wr_ptr q = 1"
    using assms fifo_one[OF q assms(2)] by (auto simp: fifo_clk_def Let_def)
  have n: "?n \<noteq> 0" "?n < 8" using fifo_count_pos[OF q] fifo_not_full[OF q] assms(2,3) by auto
  have "fifo_count ?q = ?n"
    using fifo_countI[OF e(1), of ?n] fifo_wr_ptr[OF q] n by (simp add: s add.commute add.left_commute)
  moreover have "cells ((q_data_array q)(q_wr_ptr q := d)) (q_rd_ptr q + 1) ?n = tl (fifo_list q) @ [d]"
    using cells_upd[of "?n - 1" "q_data_array q" "q_rd_ptr q + 1" d] cells_tl[OF n(1)] fifo_wr_ptr[OF q] n
    by (simp add: fifo_list_cells of_nat_diff)
  ultimately show "fifo_list ?q = tl (fifo_list q) @ [d]" by (simp add: fifo_list_cells s)
  show "fifo_inv ?q" using e q assms(2,3) by (auto simp: fifo_inv_def s)
qed

lemma fifo_list_nil: "fifo_inv q \<Longrightarrow> q_empty q \<longleftrightarrow> fifo_list q = []"
  using fifo_count_pos[of q] by (simp add: fifo_list_def)

interpretation uart_fifo: queue_port fifo_clk fifo_rd_data q_empty q_full fifo_list fifo_inv fifo_safe
proof
  fix q rd wr d
  assume q: "fifo_inv q"
  show "q_empty q \<longleftrightarrow> fifo_list q = []" by (rule fifo_list_nil[OF q])
  show "fifo_rd_data q = hd (fifo_list q)" if "fifo_list q \<noteq> []"
    using that by (auto simp: fifo_rd_data_def fifo_list_def upt_conv_Cons)
  assume s: "fifo_safe rd wr q"
  consider (hold) "rd \<longrightarrow> q_empty q" "wr \<longrightarrow> q_full q" | (push) "rd \<longrightarrow> q_empty q" "wr" "\<not> q_full q"
    | (pop) "rd" "\<not> q_empty q" "wr \<longrightarrow> q_full q" | (both) "rd" "\<not> q_empty q" "wr" "\<not> q_full q" by blast
  then have "fifo_list (fifo_clk rd wr d q) =
      (if rd then tl (fifo_list q) else fifo_list q) @ (if wr \<and> \<not> q_full q then [d] else []) \<and>
      fifo_inv (fifo_clk rd wr d q)"
  proof cases
    case hold
    then show ?thesis using q fifo_list_nil[OF q] by (auto simp: fifo_hold)
  next
    case push
    then show ?thesis using fifo_write[OF q, of rd d] fifo_list_nil[OF q] by auto
  next
    case pop
    then show ?thesis using fifo_read[OF q, of wr d] by auto
  next
    case both
    then have "fifo_count q \<noteq> 1" using s fifo_one[OF q] by (simp add: fifo_safe_def)
    with both show ?thesis using fifo_both[OF q, of d] by auto
  qed
  then show "fifo_list (fifo_clk rd wr d q) =
      (if rd then tl (fifo_list q) else fifo_list q) @ (if wr \<and> \<not> q_full q then [d] else [])"
    and "fifo_inv (fifo_clk rd wr d q)" by simp_all
qed

section \<open>All reachable states\<close>

text \<open>
  What every sequence of cycles keeps, unsafe ones included: besides the states of a queue there is the
  one in which the empty flag hides one entry.
\<close>

definition fifo_hides :: "fifo \<Rightarrow> bool" where
  "fifo_hides q \<longleftrightarrow> q_empty q \<and> \<not> q_full q \<and> q_wr_ptr q - q_rd_ptr q = 1"

definition fifo_ok :: "fifo \<Rightarrow> bool" where
  "fifo_ok q \<longleftrightarrow> fifo_inv q \<or> fifo_hides q"

lemma fifo_ok_clk:
  assumes "fifo_ok q"
  shows "fifo_ok (fifo_clk rd wr d q)"
proof (cases "fifo_inv q")
  case inv: True
  show ?thesis
  proof (cases "fifo_safe rd wr q")
    case True
    then show ?thesis using uart_fifo.inv_clk[OF inv] by (simp add: fifo_ok_def)
  next
    case False
    then have "rd" "wr" "\<not> q_empty q" and w: "q_wr_ptr q = q_rd_ptr q + 1"
      by (auto simp: fifo_safe_def algebra_simps)
    moreover have "\<not> q_full q" using inv w by (auto simp: fifo_inv_def)
    ultimately show ?thesis by (simp add: fifo_ok_def fifo_hides_def fifo_clk_def Let_def)
  qed
next
  case False
  then have "q_empty q" "\<not> q_full q" "q_wr_ptr q = q_rd_ptr q + 1"
    using assms by (auto simp: fifo_ok_def fifo_hides_def algebra_simps)
  then show ?thesis
    by (cases wr) (simp_all add: fifo_ok_def fifo_hides_def fifo_inv_def fifo_clk_def Let_def)
qed

lemma fifo_ok_full: "fifo_ok q \<Longrightarrow> q_full q \<Longrightarrow> fifo_inv q"
  by (auto simp: fifo_ok_def fifo_hides_def)

section \<open>Properties\<close>

text \<open>
  C18: The UART's circular buffer is a first-in first-out queue: over every sequence of clock cycles,
  whatever is read and written, that never reads and writes at once with exactly one entry, the bytes
  read followed by those still in the buffer are those that were in it followed by the bytes accepted,
  in order; and the buffer holds at most eight.
\<close>

theorem fifo_in_order:
  assumes "fifo_inv q" and "all_safe fifo_clk fifo_safe is q"
  shows "taken_out fifo_clk fifo_rd_data q_empty is q @ fifo_list (clks fifo_clk is q) =
      fifo_list q @ taken_in fifo_clk q_full is q \<and>
    fifo_inv (clks fifo_clk is q) \<and> length (fifo_list (clks fifo_clk is q)) \<le> 8"
  using uart_fifo.in_order[OF assms] uart_fifo.inv_clks[OF assms] fifo_count_bound[of "clks fifo_clk is q"]
  by (simp add: fifo_list_def)

definition reset_fifo :: fifo where
  "reset_fifo = fifo_reset \<lparr>q_rd_ptr = 5, q_wr_ptr = 2, q_empty = False, q_full = True, q_data_array = (\<lambda>_. 0)\<rparr>"

lemma reset_inv: "fifo_inv (fifo_reset q)" "fifo_list (fifo_reset q) = []"
  by (simp_all add: fifo_inv_def fifo_reset_def fifo_list_def fifo_count_def)

lemma fifo_in_order_witness:
  "taken_out fifo_clk fifo_rd_data q_empty [(False, True, 7), (False, True, 8), (True, True, 9), (True, False, 0)] reset_fifo @
     fifo_list (clks fifo_clk [(False, True, 7), (False, True, 8), (True, True, 9), (True, False, 0)] reset_fifo) =
   fifo_list reset_fifo @ taken_in fifo_clk q_full [(False, True, 7), (False, True, 8), (True, True, 9), (True, False, 0)] reset_fifo \<and>
   fifo_inv (clks fifo_clk [(False, True, 7), (False, True, 8), (True, True, 9), (True, False, 0)] reset_fifo) \<and>
   length (fifo_list (clks fifo_clk [(False, True, 7), (False, True, 8), (True, True, 9), (True, False, 0)] reset_fifo)) \<le> 8"
  by (rule fifo_in_order)
    (simp_all add: reset_fifo_def fifo_inv_def fifo_safe_def fifo_reset_def fifo_clk_def Let_def)

text \<open>
  In the one cycle the queue contract leaves out, the buffer goes wrong: with exactly one entry, a
  read and a write at once leave it flagged empty although it holds the byte just written. Reading
  does not bring the byte out; the next write makes it visible again, in front of the byte written
  then.
\<close>

lemma fifo_stuck:
  assumes "fifo_inv q" and "fifo_list q = [c]"
  shows "q_empty (fifo_clk True True d q)" and "fifo_list (fifo_clk False True e (fifo_clk True True d q)) = [d, e]"
proof -
  have one: "fifo_count q = 1" using arg_cong[OF assms(2), of length] by (simp add: fifo_list_def)
  then have ptr: "q_wr_ptr q = q_rd_ptr q + 1" using fifo_wr_ptr[OF assms(1)] by simp
  have nempty: "\<not> q_empty q" using one fifo_count_pos[OF assms(1)] by simp
  have nfull: "\<not> q_full q" using assms(1) ptr by (auto simp: fifo_inv_def)
  let ?q = "fifo_clk True True d q"
  have q': "q_empty ?q" "\<not> q_full ?q" "q_rd_ptr ?q = q_rd_ptr q + 1" "q_wr_ptr ?q = q_rd_ptr q + 2"
    "q_data_array ?q (q_rd_ptr q + 1) = d"
    using nempty nfull ptr by (simp_all add: fifo_clk_def Let_def)
  then show "q_empty ?q" "fifo_list (fifo_clk False True e ?q) = [d, e]"
    by (simp_all add: fifo_list_def fifo_count_def fifo_clk_def Let_def upt_rec)
qed

end
