(* ===== verification/Uart_Top.thy ===== *)
theory Uart_Top
  imports Uart Fifo
begin

text \<open>
  The UART of \<^verbatim>\<open>cmn/uart/uart.v\<close>: baud clock, receiver, transmitter and two circular buffers in one
  clocked module, and what its client and the other end of the line see of each other.
\<close>

section \<open>The module\<close>

record uart =
  q_rx_parity_err :: bool
  q_cnt :: ushort
  uart_rx_blk :: uart_rx
  uart_tx_blk :: uart_tx
  uart_rx_fifo :: fifo
  uart_tx_fifo :: fifo

definition uart_reset :: "uart \<Rightarrow> uart" where
  "uart_reset u = \<lparr>q_rx_parity_err = False, q_cnt = 0, uart_rx_blk = rx_reset, uart_tx_blk = tx_reset,
     uart_rx_fifo = fifo_reset (uart_rx_fifo u), uart_tx_fifo = fifo_reset (uart_tx_fifo u)\<rparr>"

definition uart_clk :: "bool \<Rightarrow> byte \<Rightarrow> bool \<Rightarrow> bool \<Rightarrow> uart \<Rightarrow> uart" where
  "uart_clk rx tx_data rd_en wr_en u =
     (let tick = baud_clk_tick (q_cnt u);
          rx_done_tick = q_done_tick (uart_rx_blk u);
          rx_fifo_wr_data = uart_rx.q_data (uart_rx_blk u);
          tx_done_tick = q_tx_done_tick (uart_tx_blk u);
          tx_fifo_rd_data = fifo_rd_data (uart_tx_fifo u);
          tx_fifo_empty = q_empty (uart_tx_fifo u)
      in \<lparr>q_rx_parity_err = q_rx_parity_err u \<or> q_parity_err (uart_rx_blk u),
          q_cnt = baud_clk (q_cnt u),
          uart_rx_blk = rx_clk tick rx (uart_rx_blk u),
          uart_tx_blk = tx_clk tick (\<not> tx_fifo_empty) tx_fifo_rd_data (uart_tx_blk u),
          uart_rx_fifo = fifo_clk rd_en rx_done_tick rx_fifo_wr_data (uart_rx_fifo u),
          uart_tx_fifo = fifo_clk tx_done_tick wr_en tx_data (uart_tx_fifo u)\<rparr>)"

text \<open>The outputs.\<close>

definition uart_tx_pin :: "uart \<Rightarrow> bool" where
  "uart_tx_pin u = q_tx (uart_tx_blk u)"

definition uart_rx_data :: "uart \<Rightarrow> byte" where
  "uart_rx_data u = fifo_rd_data (uart_rx_fifo u)"

definition uart_rx_empty :: "uart \<Rightarrow> bool" where
  "uart_rx_empty u = q_empty (uart_rx_fifo u)"

definition uart_tx_full :: "uart \<Rightarrow> bool" where
  "uart_tx_full u = q_full (uart_tx_fifo u)"

definition uart_parity_err :: "uart \<Rightarrow> bool" where
  "uart_parity_err u = q_rx_parity_err u"

section \<open>A client and a line\<close>

text \<open>
  In each clock the client sets \<open>rd_en\<close>, \<open>wr_en\<close> and \<open>tx_data\<close>, by the time and what it sees of the
  UART. \<open>uart_read\<close> is what it has read in the first \<open>n\<close> clocks.
\<close>

type_synonym uart_client = "nat \<Rightarrow> uart \<Rightarrow> port_in"

primrec uart_at :: "(nat \<Rightarrow> bool) \<Rightarrow> uart_client \<Rightarrow> uart \<Rightarrow> nat \<Rightarrow> uart" where
  "uart_at line client u 0 = u"
| "uart_at line client u (Suc n) =
     (let v = uart_at line client u n; (rd, wr, d) = client n v in uart_clk (line n) d rd wr v)"

definition uart_read :: "(nat \<Rightarrow> bool) \<Rightarrow> uart_client \<Rightarrow> uart \<Rightarrow> nat \<Rightarrow> byte list" where
  "uart_read line client u n =
     concat (map (\<lambda>m. let v = uart_at line client u m in
       if fst (client m v) \<and> \<not> uart_rx_empty v then [uart_rx_data v] else []) [0..<n])"

text \<open>A client that reads a byte as soon as there is one, and one that writes nothing.\<close>

definition eager :: "uart_client \<Rightarrow> bool" where
  "eager client \<longleftrightarrow> (\<forall>n v. fst (client n v) = (\<not> uart_rx_empty v))"

definition silent :: "uart_client \<Rightarrow> bool" where
  "silent client \<longleftrightarrow> (\<forall>n v. \<not> fst (snd (client n v)))"

lemmas uart_pins = uart_tx_pin_def uart_rx_data_def uart_rx_empty_def uart_tx_full_def uart_parity_err_def

section \<open>The blocks of a run\<close>

lemma uart_Suc:
  assumes "v = uart_at line client u n"
  shows "q_rx_parity_err (uart_at line client u (Suc n)) \<longleftrightarrow> q_rx_parity_err v \<or> q_parity_err (uart_rx_blk v)"
    and "q_cnt (uart_at line client u (Suc n)) = baud_clk (q_cnt v)"
    and "uart_rx_blk (uart_at line client u (Suc n)) = rx_clk (baud_clk_tick (q_cnt v)) (line n) (uart_rx_blk v)"
    and "uart_tx_blk (uart_at line client u (Suc n)) =
      tx_clk (baud_clk_tick (q_cnt v)) (\<not> q_empty (uart_tx_fifo v)) (fifo_rd_data (uart_tx_fifo v)) (uart_tx_blk v)"
    and "uart_rx_fifo (uart_at line client u (Suc n)) =
      fifo_clk (fst (client n v)) (q_done_tick (uart_rx_blk v)) (uart_rx.q_data (uart_rx_blk v)) (uart_rx_fifo v)"
    and "uart_tx_fifo (uart_at line client u (Suc n)) =
      fifo_clk (q_tx_done_tick (uart_tx_blk v)) (fst (snd (client n v))) (snd (snd (client n v))) (uart_tx_fifo v)"
  using assms by (simp_all add: uart_clk_def Let_def split: prod.splits)

lemma uart_cnt: "q_cnt (uart_at line client u n) = (baud_clk ^^ n) (q_cnt u)"
  by (induction n) (simp_all add: uart_Suc[OF refl] del: uart_at.simps(2))

lemma uart_tick: "baud_clk_tick (q_cnt (uart_at line client u n)) = baud_tick (q_cnt u) n"
  by (simp add: uart_cnt baud_tick_def)

lemma uart_rx_run: "uart_rx_blk (uart_at line client u n) = rx_at (baud_tick (q_cnt u)) line (uart_rx_blk u) n"
  by (induction n) (simp_all add: uart_Suc[OF refl] uart_tick del: uart_at.simps(2))

lemma uart_tx_run:
  "uart_tx_blk (uart_at line client u n) =
     tx_at (baud_tick (q_cnt u)) (\<lambda>n. \<not> q_empty (uart_tx_fifo (uart_at line client u n)))
       (\<lambda>n. fifo_rd_data (uart_tx_fifo (uart_at line client u n))) (uart_tx_blk u) n"
  by (induction n) (simp_all add: uart_Suc[OF refl] uart_tick del: uart_at.simps(2))

lemma uart_parity_run:
  "uart_parity_err (uart_at line client u n) \<longleftrightarrow>
     uart_parity_err u \<or> rx_parity (baud_tick (q_cnt u)) line (uart_rx_blk u) n"
  by (induction n)
    (auto simp: uart_pins uart_Suc[OF refl] uart_rx_run rx_parity_Suc simp del: uart_at.simps(2), simp add: rx_parity_def)

section \<open>All reachable states\<close>

text \<open>
  The counter of the baud clock stays below its period, the buffers are in order up to the entry one of
  them may hide, and the receiver and the transmitter are idle when they report the end of a byte.
\<close>

definition uart_inv :: "uart \<Rightarrow> bool" where
  "uart_inv u \<longleftrightarrow> unat (q_cnt u) < 162 \<and> fifo_ok (uart_rx_fifo u) \<and> fifo_ok (uart_tx_fifo u) \<and>
     (q_done_tick (uart_rx_blk u) \<longrightarrow> uart_rx.q_state (uart_rx_blk u) = S_IDLE) \<and>
     (q_tx_done_tick (uart_tx_blk u) \<longrightarrow> q_state (uart_tx_blk u) = S_IDLE)"

lemma rx_done_idle: "q_done_tick (rx_clk k l q) \<Longrightarrow> uart_rx.q_state (rx_clk k l q) = S_IDLE"
  by (cases "uart_rx.q_state q"; simp add: rx_eval split: if_splits)

lemma tx_done_idle: "q_tx_done_tick (tx_clk k s d q) \<Longrightarrow> q_state (tx_clk k s d q) = S_IDLE"
  by (cases "q_state q"; simp add: tx_clk_def Let_def split: if_splits)

lemma uart_inv_reset: "uart_inv (uart_reset u)"
  by (simp add: uart_inv_def uart_reset_def fifo_ok_def reset_inv rx_reset_def tx_reset_def)

lemma uart_inv_run:
  assumes "uart_inv u"
  shows "uart_inv (uart_at line client u n)"
proof (induction n)
  case (Suc n)
  then show ?case
    using rx_done_idle tx_done_idle
    by (simp add: uart_inv_def uart_Suc[OF refl] baud_step fifo_ok_clk del: uart_at.simps(2))
qed (use assms in simp)

section \<open>Receiving\<close>

definition rx_side_ready :: "uart \<Rightarrow> bool" where
  "rx_side_ready u \<longleftrightarrow> rx_ready (uart_rx_blk u) \<and> unat (q_cnt u) < 162 \<and>
     fifo_inv (uart_rx_fifo u) \<and> fifo_list (uart_rx_fifo u) = []"

text \<open>
  With a client that reads at once there is never more than one byte in the buffer, and none is written
  while that one is read: the receiver reports no byte in two clocks in a row.
\<close>

lemma eager_run:
  fixes line
  assumes u: "rx_side_ready u" and e: "eager client"
  defines "v \<equiv> uart_at line client u"
  shows "fifo_inv (uart_rx_fifo (v n)) \<and> length (fifo_list (uart_rx_fifo (v n))) \<le> 1 \<and>
    (fifo_list (uart_rx_fifo (v n)) \<noteq> [] \<longrightarrow> \<not> q_done_tick (uart_rx_blk (v n))) \<and>
    (q_done_tick (uart_rx_blk (v n)) \<longrightarrow> uart_rx.q_state (uart_rx_blk (v n)) = S_IDLE) \<and>
    uart_read line client u n @ fifo_list (uart_rx_fifo (v n)) =
      rx_bytes (baud_tick (q_cnt u)) line (uart_rx_blk u) n"
proof (induction n)
  case 0
  then show ?case using u by (simp add: v_def rx_side_ready_def rx_ready_def uart_read_def rx_bytes_def)
next
  case (Suc n)
  let ?f = "uart_rx_fifo (v n)" and ?r = "uart_rx_blk (v n)"
  let ?f' = "fifo_clk (\<not> q_empty ?f) (q_done_tick ?r) (uart_rx.q_data ?r) ?f"
  note S = uart_Suc[of "v n" line client u n, folded v_def, OF refl]
  have inv: "fifo_inv ?f" and len: "length (fifo_list ?f) \<le> 1" using Suc by simp_all
  have empty: "q_empty ?f \<longleftrightarrow> fifo_list ?f = []" by (rule fifo_list_nil[OF inv])
  have safe: "fifo_safe (\<not> q_empty ?f) (q_done_tick ?r) ?f" using Suc empty by (auto simp: fifo_safe_def)
  have nfull: "fifo_list ?f = [] \<Longrightarrow> \<not> q_full ?f" using inv empty by (simp add: fifo_inv_def)
  have f': "uart_rx_fifo (v (Suc n)) = ?f'" using S(5) e by (simp add: eager_def uart_pins)
  have "fifo_list ?f' = (if q_done_tick ?r then [uart_rx.q_data ?r] else [])"
    using uart_fifo.list_clk[OF inv safe] Suc empty nfull len by (cases "fifo_list ?f") auto
  moreover have "fifo_inv ?f'" by (rule uart_fifo.inv_clk[OF inv safe])
  moreover have "\<not> q_done_tick (uart_rx_blk (v (Suc n)))" if "q_done_tick ?r"
    using Suc that rx_idle(2) S(3) by simp
  moreover have "uart_rx.q_state (uart_rx_blk (v (Suc n))) = S_IDLE" if "q_done_tick (uart_rx_blk (v (Suc n)))"
    using rx_done_idle that S(3) by metis
  moreover have "uart_read line client u (Suc n) = uart_read line client u n @ fifo_list ?f"
    using e empty len uart_fifo.list_front[OF inv]
    by (cases "fifo_list ?f") (auto simp: uart_read_def eager_def uart_pins v_def Let_def)
  moreover have "?r = rx_at (baud_tick (q_cnt u)) line (uart_rx_blk u) n" by (simp add: v_def uart_rx_run)
  ultimately show ?case using Suc f' by (auto simp: rx_bytes_Suc)
qed

text \<open>Once the receiver is ready again, the client has read what it received.\<close>

lemma eager_read:
  assumes "rx_side_ready u" and "eager client"
    and "rx_ready (rx_at (baud_tick (q_cnt u)) line (uart_rx_blk u) n)" and "\<And>k. n \<le> k \<Longrightarrow> line k" and "n < m"
  shows "uart_read line client u m = rx_bytes (baud_tick (q_cnt u)) line (uart_rx_blk u) n"
    and "rx_parity (baud_tick (q_cnt u)) line (uart_rx_blk u) m \<longleftrightarrow>
      rx_parity (baud_tick (q_cnt u)) line (uart_rx_blk u) n"
proof -
  let ?rx = "rx_at (baud_tick (q_cnt u)) line (uart_rx_blk u)"
  let ?bytes = "rx_bytes (baud_tick (q_cnt u)) line (uart_rx_blk u)"
  let ?parity = "rx_parity (baud_tick (q_cnt u)) line (uart_rx_blk u)"
  have gap: "rx_ready (?rx k) \<and> ?bytes k = ?bytes n \<and> ?parity k = ?parity n" if "n \<le> k" for k
    using rx_silence[OF assms(3,4) that] by blast
  show "?parity m \<longleftrightarrow> ?parity n" using gap[of m] assms(5) by simp
  obtain k where k: "m = Suc k" "n \<le> k" using assms(5) by (cases m) auto
  have "\<not> q_done_tick (uart_rx_blk (uart_at line client u k))"
    using gap[OF k(2)] by (simp add: uart_rx_run rx_ready_def)
  note run = eager_run[OF assms(1,2), of line]
  have read: "uart_read line client u (Suc k) =
      uart_read line client u k @ fifo_list (uart_rx_fifo (uart_at line client u k))"
    using assms(2) run[of k] fifo_list_nil uart_fifo.list_front
    by (cases "fifo_list (uart_rx_fifo (uart_at line client u k))")
      (auto simp: uart_read_def eager_def uart_pins Let_def)
  then show "uart_read line client u m = ?bytes n" using run[of k] gap[OF k(2)] k(1) by simp
qed

section \<open>Sending\<close>

text \<open>The transmitter and its buffer hold what is to be sent, and the client adds nothing.\<close>

definition tx_side_ready :: "uart \<Rightarrow> bool" where
  "tx_side_ready u \<longleftrightarrow> tx_ready (uart_tx_blk u) \<and> unat (q_cnt u) < 162 \<and> fifo_inv (uart_tx_fifo u)"

lemma uart_shift:
  "uart_at line client u (s + n) = uart_at (\<lambda>n. line (s + n)) (\<lambda>n. client (s + n)) (uart_at line client u s) n"
  by (induction n) (simp_all add: Let_def)

lemma silent_shift: "silent client \<Longrightarrow> silent (\<lambda>n. client (s + n))"
  by (simp add: silent_def)

lemma uart_quiet:
  assumes "tx_side_ready u" and "fifo_list (uart_tx_fifo u) = []" and "silent client"
  shows "tx_side_ready (uart_at line client u n) \<and> uart_tx_fifo (uart_at line client u n) = uart_tx_fifo u"
proof (induction n)
  case (Suc n)
  let ?v = "uart_at line client u n"
  have e: "q_empty (uart_tx_fifo u)" using assms(1,2) fifo_list_nil by (simp add: tx_side_ready_def)
  then have f: "uart_tx_fifo (uart_at line client u (Suc n)) = uart_tx_fifo u"
    using Suc assms(3) by (simp add: uart_Suc(6)[OF refl] fifo_hold silent_def del: uart_at.simps)
  have "tx_ready (tx_clk k False d q)" if "tx_ready q" for k d q
    using that by (simp add: tx_ready_def tx_clk_def)
  with Suc e f assms(1) show ?case
    by (simp add: tx_side_ready_def uart_Suc(2,4)[OF refl] baud_step del: uart_at.simps)
qed (simp add: assms)

text \<open>One byte: its frame is on the line, then it is taken out of the buffer.\<close>

lemma baud_175:
  assumes "unat c < 162"
  obtains e where "1 \<le> e" and "ticks (baud_tick c) 1 e = 175" and "baud_tick c e" and "e < 28513"
    and "unat c < 161 \<Longrightarrow> unat c + e = 28511"
proof -
  have "ticks (baud_tick c) 1 28513 + (unat c + 1) div 162 = (unat c + 1 + 176 * 162) div 162"
    using baud_ticks[OF assms, of 1 28513] by simp
  also have "\<dots> = (unat c + 1) div 162 + 176" by (rule div_mult_self1[THEN trans]) simp_all
  finally have "175 < ticks (baud_tick c) 1 28513" by simp
  then obtain e where e: "1 \<le> e" "e < 28513" "baud_tick c e" "ticks (baud_tick c) 1 e = 175" by (rule ticks_reach)
  have "unat c + e = 28511" if "unat c < 161"
  proof -
    have "175 + (unat c + 1) div 162 = (unat c + e) div 162" "(unat c + e) mod 162 = 161"
      using baud_ticks[OF assms e(1)] baud_tick_iff[OF assms, of e] e by simp_all
    then show ?thesis using that mult_div_mod_eq[of 162 "unat c + e"] by simp
  qed
  with e show thesis using that by blast
qed

text \<open>
  What the client writes, and that it writes only when the buffer has room, and not in the clock in
  which the only entry is taken out.
\<close>

definition uart_written :: "(nat \<Rightarrow> bool) \<Rightarrow> uart_client \<Rightarrow> uart \<Rightarrow> nat \<Rightarrow> byte list" where
  "uart_written line client u n =
     concat (map (\<lambda>m. let (rd, wr, d) = client m (uart_at line client u m) in if wr then [d] else []) [0..<n])"

definition write_safe :: "uart_client \<Rightarrow> nat \<Rightarrow> uart \<Rightarrow> bool" where
  "write_safe client n v \<longleftrightarrow> \<not> fst (snd (client n v)) \<or>
     \<not> q_full (uart_tx_fifo v) \<and> fifo_safe (q_tx_done_tick (uart_tx_blk v)) True (uart_tx_fifo v)"

definition tx_safe :: "(nat \<Rightarrow> bool) \<Rightarrow> uart_client \<Rightarrow> uart \<Rightarrow> bool" where
  "tx_safe line client u \<longleftrightarrow> (\<forall>n. write_safe client n (uart_at line client u n))"

lemma tx_safe_shift: "tx_safe line client u \<Longrightarrow>
    tx_safe (\<lambda>n. line (s + n)) (\<lambda>n. client (s + n)) (uart_at line client u s)"
  by (simp add: tx_safe_def write_safe_def flip: uart_shift)

lemma uart_written_Suc:
  "uart_written line client u (Suc n) = uart_written line client u n @
     (if fst (snd (client n (uart_at line client u n))) then [snd (snd (client n (uart_at line client u n)))] else [])"
  by (simp add: uart_written_def split_beta)

lemma uart_written_shift:
  "uart_written line client u (s + n) = uart_written line client u s @
     uart_written (\<lambda>n. line (s + n)) (\<lambda>n. client (s + n)) (uart_at line client u s) n"
  by (induction n) (simp_all add: uart_written_Suc uart_shift, simp add: uart_written_def)

lemma silent_safe: "silent client \<Longrightarrow> tx_safe line client u" "silent client \<Longrightarrow> uart_written line client u n = []"
  by (simp add: silent_def tx_safe_def write_safe_def) (induction n, simp_all add: uart_written_Suc silent_def, simp add: uart_written_def)

lemma tx_fifo_step:
  fixes line client u
  defines "v \<equiv> uart_at line client u"
  assumes safe: "write_safe client n (v n)" and inv: "fifo_inv (uart_tx_fifo (v n))"
  shows "fifo_inv (uart_tx_fifo (v (Suc n)))"
    and "fifo_list (uart_tx_fifo (v (Suc n))) =
      (if q_tx_done_tick (uart_tx_blk (v n)) then tl (fifo_list (uart_tx_fifo (v n))) else fifo_list (uart_tx_fifo (v n))) @
      (if fst (snd (client n (v n))) then [snd (snd (client n (v n)))] else [])"
proof -
  let ?wr = "fst (snd (client n (v n)))"
  have ok: "?wr \<Longrightarrow> \<not> q_full (uart_tx_fifo (v n))"
    "fifo_safe (q_tx_done_tick (uart_tx_blk (v n))) ?wr (uart_tx_fifo (v n))"
    using safe by (cases ?wr; simp add: write_safe_def fifo_safe_def)+
  note S = uart_Suc(6)[of "v n" line client u n, folded v_def, OF refl]
  show "fifo_inv (uart_tx_fifo (v (Suc n)))" unfolding S by (rule uart_fifo.inv_clk[OF inv ok(2)])
  show "fifo_list (uart_tx_fifo (v (Suc n))) =
      (if q_tx_done_tick (uart_tx_blk (v n)) then tl (fifo_list (uart_tx_fifo (v n))) else fifo_list (uart_tx_fifo (v n))) @
      (if ?wr then [snd (snd (client n (v n)))] else [])"
    unfolding S uart_fifo.list_clk[OF inv ok(2)] using ok(1) by simp
qed

lemma tx_fifo_Suc:
  assumes "tx_safe line client u"
  defines "v \<equiv> uart_at line client u"
  assumes inv: "fifo_inv (uart_tx_fifo (v n))"
  shows "fifo_inv (uart_tx_fifo (v (Suc n)))"
    and "fifo_list (uart_tx_fifo (v (Suc n))) =
      (if q_tx_done_tick (uart_tx_blk (v n)) then tl (fifo_list (uart_tx_fifo (v n))) else fifo_list (uart_tx_fifo (v n))) @
      (if fst (snd (client n (v n))) then [snd (snd (client n (v n)))] else [])"
  using tx_fifo_step[of client n line u] assms(1) inv by (simp_all add: tx_safe_def v_def del: uart_at.simps)

lemma uart_frame:
  fixes line client u r
  defines "v \<equiv> uart_at line client u"
  assumes u: "tx_side_ready u" and l: "fifo_list (uart_tx_fifo u) = x # xs" and c: "tx_safe line client u" and r: "rx_ready r"
  obtains N where "N \<le> 28514" and "unat (q_cnt u) < 161 \<Longrightarrow> unat (q_cnt u) + N = 28513" and "tx_side_ready (v N)"
    and "fifo_list (uart_tx_fifo (v N)) = xs @ uart_written line client u N"
    and "rx_bytes (baud_tick (q_cnt u)) (\<lambda>n. uart_tx_pin (v n)) r N = [x]"
    and "\<not> rx_parity (baud_tick (q_cnt u)) (\<lambda>n. uart_tx_pin (v n)) r N"
    and "rx_ready (rx_at (baud_tick (q_cnt u)) (\<lambda>n. uart_tx_pin (v n)) r N)"
proof -
  have inv: "fifo_inv (uart_tx_fifo u)" and rdy: "tx_ready (uart_tx_blk u)" and cnt: "unat (q_cnt u) < 162"
    using u by (simp_all add: tx_side_ready_def)
  have ne: "\<not> q_empty (uart_tx_fifo u)" and hd: "fifo_rd_data (uart_tx_fifo u) = x"
    using fifo_list_nil[OF inv] uart_fifo.list_front[OF inv] l by simp_all
  obtain e where e: "1 \<le> e" "ticks (baud_tick (q_cnt u)) 1 e = 175" "baud_tick (q_cnt u) e" "e < 28513"
    "unat (q_cnt u) < 161 \<Longrightarrow> unat (q_cnt u) + e = 28511"
    using baud_175[OF cnt] by metis
  define start data where "start = (\<lambda>n. \<not> q_empty (uart_tx_fifo (v n)))" and "data = (\<lambda>n. fifo_rd_data (uart_tx_fifo (v n)))"
  have tx: "uart_tx_blk (v n) = tx_at (baud_tick (q_cnt u)) start data (uart_tx_blk u) n" for n
    by (simp add: v_def start_def data_def uart_tx_run)
  have "start 0" "data 0 = x" using ne hd by (simp_all add: start_def data_def v_def)
  note f = loop_frame[where tick = "baud_tick (q_cnt u)" and start = start and data = data, OF rdy r this e(1-3), folded tx]
  note S = tx_fifo_Suc[OF c, folded v_def]
  have hold: "fifo_inv (uart_tx_fifo (v n)) \<and>
      fifo_list (uart_tx_fifo (v n)) = x # xs @ uart_written line client u n" if "n \<le> Suc e" for n
    using that
  proof (induction n)
    case 0
    then show ?case using inv l by (simp add: v_def uart_written_def)
  next
    case (Suc n)
    then have "\<not> q_tx_done_tick (uart_tx_blk (v n))" using f(2)[of n] by simp
    then show ?case using Suc S[of n] by (simp add: uart_written_Suc v_def del: uart_at.simps)
  qed
  have pop: "fifo_inv (uart_tx_fifo (v (Suc (Suc e))))"
    "fifo_list (uart_tx_fifo (v (Suc (Suc e)))) = xs @ uart_written line client u (Suc (Suc e))"
    using S[of "Suc e"] hold[of "Suc e"] f(2)[of "Suc e"]
    by (simp_all add: uart_written_Suc[of _ _ _ "Suc e"] v_def del: uart_at.simps)
  show thesis
  proof (rule that[of "Suc (Suc e)"])
    show "tx_side_ready (v (Suc (Suc e)))"
      using pop(1) f(1) baud_cnt[OF cnt] by (simp add: tx_side_ready_def v_def uart_cnt del: uart_at.simps funpow.simps)
    show "unat (q_cnt u) + Suc (Suc e) = 28513" if "unat (q_cnt u) < 161" using e(5)[OF that] by simp
  qed (use e(4) pop(2) f(3-5) in \<open>simp_all only: uart_tx_pin_def\<close>, simp)
qed

lemma uart_sends:
  assumes "tx_side_ready u" and "fifo_list (uart_tx_fifo u) = ds" and "silent client" and "rx_ready r"
  shows "\<exists>N \<le> 28514 * length ds. tx_side_ready (uart_at line client u N) \<and>
    fifo_list (uart_tx_fifo (uart_at line client u N)) = [] \<and>
    rx_bytes (baud_tick (q_cnt u)) (\<lambda>n. uart_tx_pin (uart_at line client u n)) r N = ds \<and>
    \<not> rx_parity (baud_tick (q_cnt u)) (\<lambda>n. uart_tx_pin (uart_at line client u n)) r N \<and>
    rx_ready (rx_at (baud_tick (q_cnt u)) (\<lambda>n. uart_tx_pin (uart_at line client u n)) r N)"
  using assms
proof (induction ds arbitrary: u client r line)
  case Nil
  then show ?case by (intro exI[of _ 0]) (simp add: rx_bytes_def rx_parity_def)
next
  case (Cons x xs)
  let ?v = "uart_at line client u" and ?tick = "baud_tick (q_cnt u)"
  let ?pin = "\<lambda>n. uart_tx_pin (?v n)"
  obtain N where N: "N \<le> 28514" "tx_side_ready (?v N)" "fifo_list (uart_tx_fifo (?v N)) = xs"
    "rx_bytes ?tick ?pin r N = [x]" "\<not> rx_parity ?tick ?pin r N" "rx_ready (rx_at ?tick ?pin r N)"
    using uart_frame[OF Cons.prems(1,2) silent_safe(1)[OF Cons.prems(3)] Cons.prems(4)]
      silent_safe(2)[OF Cons.prems(3)] by (metis append_Nil2)
  let ?line = "\<lambda>n. line (N + n)" and ?client = "\<lambda>n. client (N + n)" and ?r = "rx_at ?tick ?pin r N"
  let ?w = "uart_at ?line ?client (?v N)"
  have w: "?v (N + n) = ?w n" for n by (rule uart_shift)
  have tick: "(\<lambda>n. ?tick (N + n)) = baud_tick (q_cnt (?v N))" by (simp add: baud_tick_shift uart_cnt)
  obtain M where M: "M \<le> 28514 * length xs" "tx_side_ready (?w M)" "fifo_list (uart_tx_fifo (?w M)) = []"
    "rx_bytes (baud_tick (q_cnt (?v N))) (\<lambda>n. uart_tx_pin (?w n)) ?r M = xs"
    "\<not> rx_parity (baud_tick (q_cnt (?v N))) (\<lambda>n. uart_tx_pin (?w n)) ?r M"
    "rx_ready (rx_at (baud_tick (q_cnt (?v N))) (\<lambda>n. uart_tx_pin (?w n)) ?r M)"
    using Cons.IH[OF N(2,3) silent_shift[OF Cons.prems(3)] N(6)] by blast
  have "N + M \<le> 28514 * length (x # xs)" using N(1) M(1) by simp
  then show ?case
    using M N by (intro exI[of _ "N + M"]) (simp add: rx_shift w tick)
qed

section \<open>Properties\<close>

text \<open>
  C17: What a host sends over the serial line reaches the HCI: for every sequence of frames of a host
  whose bit time is between 2475 and 2705 clocks (40404 down to 36969 baud; 38400 baud are 15625/6 clocks,
  so from 4.9 percent less to 3.8 percent more of these), each started at any point of a clock and after any pause, the client that reads as soon as
  there is a byte has read exactly the bytes sent, in order, by the clock after the last frame's end;
  and the parity error output is up from then on exactly if it was before or a frame had a wrong
  parity bit.
\<close>

theorem uart_receives:
  assumes "host_ok b fs" and "rx_side_ready u" and "eager client" and "send_clks b fs < n"
  shows "uart_read (host_send b fs) client u n = map (\<lambda>(g, f, d, p). d) fs \<and>
    (uart_parity_err (uart_at (host_send b fs) client u n) \<longleftrightarrow>
      uart_parity_err u \<or> (\<exists>(g, f, d, p) \<in> set fs. p = xor_bits d))"
proof -
  have "rx_ready (uart_rx_blk u)" "unat (q_cnt u) < 162" using assms(2) by (simp_all add: rx_side_ready_def)
  note rx = host_sends_received[OF assms(1) this]
  have "rx_ready (rx_at (baud_tick (q_cnt u)) (host_send b fs) (uart_rx_blk u) (send_clks b fs))" using rx by blast
  note read = eager_read[OF assms(2,3) this host_send_end assms(4)]
  show ?thesis unfolding uart_parity_run using read rx by simp
qed

definition new_uart :: uart where
  "new_uart = uart_reset \<lparr>q_rx_parity_err = True, q_cnt = 7, uart_rx_blk = rx_reset, uart_tx_blk = tx_reset,
     uart_rx_fifo = reset_fifo, uart_tx_fifo = reset_fifo\<rparr>"

lemma new_uart_ready: "rx_side_ready new_uart" "tx_side_ready new_uart" "\<not> uart_parity_err new_uart"
  by (simp_all add: new_uart_def uart_reset_def rx_side_ready_def tx_side_ready_def host_rx_ready tx_reset_ready
    reset_inv uart_pins)

lemma frame_clks_38400: "frame_clks (15625 / 6) = 28645"
proof -
  have "\<lfloor>11 * (15625 / 6 :: rat)\<rfloor> = 28645" by (rule floor_unique) simp_all
  then show ?thesis by (simp add: frame_clks_def)
qed

lemma uart_receives_witness:
  "uart_read (host_send (15625 / 6) [(100, 1 / 2, 0x4E, True), (0, 0, 0x45, True)])
      (\<lambda>n v. (\<not> uart_rx_empty v, False, 0)) new_uart 60000 = [0x4E, 0x45] \<and>
   uart_parity_err (uart_at (host_send (15625 / 6) [(100, 1 / 2, 0x4E, True), (0, 0, 0x45, True)])
      (\<lambda>n v. (\<not> uart_rx_empty v, False, 0)) new_uart 60000)"
  using uart_receives[of "15625 / 6" "[(100, 1 / 2, 0x4E, True), (0, 0, 0x45, True)]" new_uart
      "\<lambda>n v. (\<not> uart_rx_empty v, False, 0)" 60000] new_uart_ready
  by (simp add: host_ok_def phase_ok_def eager_def frame_clks_38400 xor_bits_def upt_rec bit_simps)

text \<open>
  Two such UARTs on one clock, one's transmit line being the other's receive line: what is in the
  buffer of the sender comes out at the receiver's client, byte by byte and in order, without a parity
  error, within 28514 clocks a byte, and then the buffer is empty.
\<close>

lemma uart_to_uart:
  assumes "tx_side_ready a" and "silent ca" and "rx_side_ready r" and "eager cr" and "q_cnt a = q_cnt r"
    and "28514 * length (fifo_list (uart_tx_fifo a)) < n"
  shows "let line = (\<lambda>k. uart_tx_pin (uart_at la ca a k)) in
    uart_read line cr r n = fifo_list (uart_tx_fifo a) \<and>
    uart_parity_err (uart_at line cr r n) = uart_parity_err r \<and> q_empty (uart_tx_fifo (uart_at la ca a n))"
proof -
  define line where "line = (\<lambda>k. uart_tx_pin (uart_at la ca a k))"
  have rdy: "rx_ready (uart_rx_blk r)" using assms(3) by (simp add: rx_side_ready_def)
  obtain N where N': "N \<le> 28514 * length (fifo_list (uart_tx_fifo a))"
    and N: "tx_side_ready (uart_at la ca a N)" "fifo_list (uart_tx_fifo (uart_at la ca a N)) = []"
    and rx: "rx_bytes (baud_tick (q_cnt r)) line (uart_rx_blk r) N = fifo_list (uart_tx_fifo a)"
      "\<not> rx_parity (baud_tick (q_cnt r)) line (uart_rx_blk r) N"
      "rx_ready (rx_at (baud_tick (q_cnt r)) line (uart_rx_blk r) N)"
    using uart_sends[OF assms(1) refl assms(2) rdy, of la] unfolding line_def[symmetric] assms(5) by blast
  have lt: "N < n" using N' assms(6) by (rule le_less_trans)
  have after: "tx_side_ready (uart_at la ca a k) \<and> uart_tx_fifo (uart_at la ca a k) = uart_tx_fifo (uart_at la ca a N)"
    if "N \<le> k" for k
  proof -
    obtain i where k: "k = N + i" using le_Suc_ex[OF \<open>N \<le> k\<close>] by blast
    show ?thesis unfolding k uart_shift by (rule uart_quiet[OF N silent_shift[OF assms(2)]])
  qed
  have high: "line k" if "N \<le> k" for k
    using after[OF that] by (simp add: line_def uart_pins tx_side_ready_def tx_ready_def)
  note read = eager_read[OF assms(3,4) rx(3) high lt]
  have "N \<le> n" using lt by simp
  have "q_empty (uart_tx_fifo (uart_at la ca a n))"
    using after[OF \<open>N \<le> n\<close>] after[OF order_refl] N(2) fifo_list_nil by (simp add: tx_side_ready_def)
  then show ?thesis unfolding Let_def line_def[symmetric] uart_parity_run using read rx by simp
qed

definition loaded_uart :: uart where
  "loaded_uart = new_uart\<lparr>uart_tx_fifo :=
     clks fifo_clk [(False, True, 0x4E), (False, True, 0x45), (False, True, 0x53)] (uart_tx_fifo new_uart)\<rparr>"

lemma loaded_uart: "tx_side_ready loaded_uart" "fifo_list (uart_tx_fifo loaded_uart) = [0x4E, 0x45, 0x53]"
proof -
  let ?is = "[(False, True, 0x4E), (False, True, 0x45), (False, True, 0x53 :: byte)]"
  have q: "fifo_inv (uart_tx_fifo new_uart)" "fifo_list (uart_tx_fifo new_uart) = []"
    by (simp_all add: new_uart_def uart_reset_def reset_inv)
  have safe: "all_safe fifo_clk fifo_safe ?is (uart_tx_fifo new_uart)" by (simp add: fifo_safe_def)
  have "fifo_inv (clks fifo_clk ?is (uart_tx_fifo new_uart))" by (rule uart_fifo.inv_clks[OF q(1) safe])
  then show "tx_side_ready loaded_uart"
    using new_uart_ready(2) by (simp add: loaded_uart_def tx_side_ready_def)
  show "fifo_list (uart_tx_fifo loaded_uart) = [0x4E, 0x45, 0x53]"
    by (simp add: loaded_uart_def new_uart_def uart_reset_def reset_fifo_def fifo_reset_def fifo_clk_def
      fifo_list_def fifo_count_def Let_def upt_rec)
qed

lemma uart_to_uart_witness:
  "let line = (\<lambda>k. uart_tx_pin (uart_at (\<lambda>_. True) (\<lambda>n v. (False, False, 0)) loaded_uart k)) in
    uart_read line (\<lambda>n v. (\<not> uart_rx_empty v, False, 0)) new_uart 90000 = fifo_list (uart_tx_fifo loaded_uart) \<and>
    uart_parity_err (uart_at line (\<lambda>n v. (\<not> uart_rx_empty v, False, 0)) new_uart 90000) = uart_parity_err new_uart \<and>
    q_empty (uart_tx_fifo (uart_at (\<lambda>_. True) (\<lambda>n v. (False, False, 0)) loaded_uart 90000))"
  by (rule uart_to_uart[OF loaded_uart(1) _ new_uart_ready(1)])
    (simp_all add: loaded_uart(2) silent_def eager_def, simp add: loaded_uart_def)

text \<open>From every state in which the transmit buffer is full, it takes a byte again soon.\<close>

lemma tx_full_falls:
  assumes "fifo_inv (uart_tx_fifo u)" and "unat (q_cnt u) < 162"
  shows "\<exists>n \<le> 28514. \<not> uart_tx_full (uart_at line client u n)"
proof (rule ccontr)
  assume none: "\<not> ?thesis"
  let ?v = "uart_at line client u"
  have full: "q_full (uart_tx_fifo (?v n))" if "n \<le> 28514" for n
    using none that by (auto simp: uart_pins)
  have same: "uart_tx_fifo (?v n) = uart_tx_fifo u \<and> (n < 28514 \<longrightarrow> \<not> q_tx_done_tick (uart_tx_blk (?v n)))"
    if "n \<le> 28514" for n
    using that
  proof (induction n)
    case 0
    have "\<not> q_empty (uart_tx_fifo u)" using assms(1) full[of 0] by (simp add: fifo_inv_def)
    with full[of 0] full[of 1] show ?case
      by (auto simp: uart_Suc(6)[OF refl] fifo_clk_def Let_def One_nat_def simp del: uart_at.simps(2))
  next
    case (Suc n)
    have "uart_tx_fifo (?v (Suc n)) = uart_tx_fifo u"
      using Suc full[of n] by (simp add: uart_Suc(6)[OF refl] fifo_hold del: uart_at.simps(2))
    moreover have "\<not> q_empty (uart_tx_fifo u)" using assms(1) full[of 0] by (simp add: fifo_inv_def)
    ultimately show ?case
      using full[of "Suc n"] full[of "Suc (Suc n)"] uart_Suc(6)[of "?v (Suc n)" line client u "Suc n"]
      by (auto simp: fifo_clk_def Let_def simp del: uart_at.simps(2))
  qed
  define start data where "start = (\<lambda>n. \<not> q_empty (uart_tx_fifo (?v n)))" and "data = (\<lambda>n. fifo_rd_data (uart_tx_fifo (?v n)))"
  have tx: "uart_tx_blk (?v n) = tx_at (baud_tick (q_cnt u)) start data (uart_tx_blk u) n" for n
    by (simp add: start_def data_def uart_tx_run)
  have go: "start 0" using assms(1) full[of 0] by (simp add: start_def fifo_inv_def)
  let ?tick = "baud_tick (q_cnt u)" and ?q = "uart_tx_blk u"
  have done01: "\<not> q_tx_done_tick ?q" "\<not> q_tx_done_tick (tx_at ?tick start data ?q 1)"
    using same[of 0] same[of 1] tx[of 1] by simp_all
  have busy: "q_state (tx_at ?tick start data ?q 1) \<noteq> S_IDLE"
  proof (cases "q_state ?q = S_IDLE")
    case True
    then show ?thesis using done01(1) go by (simp add: tx_clk_def)
  next
    case False
    then show ?thesis using done01(2) tx_left_hold tx_left_tick by (cases "?tick 0") fastforce+
  qed
  have "unat (baud_clk (q_cnt u)) < 162" using baud_cnt[OF assms(2), of 1] by simp
  from baud_ticks[OF this, of 0 28512] have "ticks (baud_tick (baud_clk (q_cnt u))) 0 28512 = 176" by simp
  with tx_left_bound have "tx_left (tx_at ?tick start data ?q 1) \<le> ticks (\<lambda>n. ?tick (1 + n)) 0 28512"
    by (simp add: baud_tick_shift[of _ 1, simplified])
  from tx_finishes[OF busy this] obtain m where
    "m \<le> 28512" "q_tx_done_tick (tx_at ?tick start data ?q (1 + m))"
    unfolding tx_at_shift by blast
  then show False using same[of "1 + m"] tx[of "1 + m"] by simp
qed

lemma uart_accepts:
  assumes "uart_inv u"
  shows "\<exists>n \<le> 28514. \<not> uart_tx_full (uart_at line client u (m + n))"
proof (cases "uart_tx_full (uart_at line client u m)")
  case True
  have inv: "uart_inv (uart_at line client u m)" by (rule uart_inv_run[OF assms])
  then have "fifo_inv (uart_tx_fifo (uart_at line client u m))"
    using True fifo_ok_full by (simp add: uart_inv_def uart_pins)
  then show ?thesis unfolding uart_shift using inv by (intro tx_full_falls) (simp_all add: uart_inv_def)
qed (intro exI[of _ 0], simp)

text \<open>
  C37: In every state the UART reaches from its reset, whatever the line and the client do: the counter
  of the baud clock is below its period, each buffer's flags and pointers fit together (it is a queue of
  at most eight bytes, or hides one behind its empty flag), and the receiver and the transmitter are
  idle whenever they report the end of a byte.
\<close>

theorem uart_invariant: "uart_inv (uart_at line client (uart_reset u) n)"
  by (rule uart_inv_run[OF uart_inv_reset])

text \<open>
  The transmit buffer cannot stay full: in every run of the UART from its reset, whatever the line
  and the client do, after any number of clocks the output tx_full is low within another 28514. This is the fairness
  that the packets on the board rely on.
\<close>

lemma uart_tx_accepts: "\<exists>n \<le> 28514. \<not> uart_tx_full (uart_at line client (uart_reset u) (m + n))"
  by (rule uart_accepts[OF uart_inv_reset])

text \<open>
  C38: The race the transmit side leaves open: when the transmitter reports the end of the only byte in
  the buffer in the very clock in which the client writes the next one, that byte is not sent. The
  buffer reports that it is empty and the line stays high for as long as the client writes nothing
  more; only the next write makes the byte visible, in front of the one written then.
\<close>

theorem uart_stuck_byte:
  assumes "fifo_inv (uart_tx_fifo u)" and "fifo_list (uart_tx_fifo u) = [x]"
    and "q_state (uart_tx_blk u) = S_IDLE" and "q_tx_done_tick (uart_tx_blk u)"
    and "client 0 u = (rd, True, d)" and "silent (\<lambda>n. client (Suc n))"
  shows "let v = uart_at line client u (Suc n) in
    uart_tx_pin v \<and> q_empty (uart_tx_fifo v) \<and> fifo_list (fifo_clk False True e (uart_tx_fifo v)) = [d, e]"
proof -
  let ?v = "\<lambda>n. uart_at line client u (Suc n)" and ?f = "fifo_clk True True d (uart_tx_fifo u)"
  have stay: "q_state (tx_clk k False a q) = S_IDLE \<and> q_tx (tx_clk k False a q)" if "q_state q = S_IDLE" for k a q
    using that by (simp add: tx_clk_def)
  have wr: "\<not> fst (snd (client (Suc m) w))" for m w using assms(6) by (simp add: silent_def)
  have "q_state (uart_tx_blk (?v n)) = S_IDLE \<and> q_tx (uart_tx_blk (?v n)) \<and> uart_tx_fifo (?v n) = ?f"
  proof (induction n)
    case 0
    then show ?case using assms(3-5) by (simp add: uart_clk_def tx_clk_def Let_def)
  next
    case (Suc n)
    then show ?case
      using fifo_stuck(1)[OF assms(1,2), of d] wr[of n] stay[of "uart_tx_blk (?v n)"]
      by (simp add: uart_Suc(4,6)[OF refl, of _ _ _ "Suc n"] fifo_hold del: uart_at.simps)
  qed
  then show ?thesis using fifo_stuck[OF assms(1,2)] by (simp add: uart_pins del: uart_at.simps)
qed

text \<open>The race does occur: the second byte is written in the clock in which the first one is done.\<close>

definition racing_uart :: uart where
  "racing_uart = new_uart\<lparr>uart_tx_blk := tx_reset\<lparr>q_tx_done_tick := True\<rparr>,
     uart_tx_fifo := fifo_clk False True 0x4E (uart_tx_fifo new_uart)\<rparr>"

lemma uart_stuck_byte_witness:
  "let v = uart_at (\<lambda>_. True) (\<lambda>n v. (False, n = 0, 0x45)) racing_uart (Suc 1000000) in
    uart_tx_pin v \<and> q_empty (uart_tx_fifo v) \<and> fifo_list (fifo_clk False True 0x53 (uart_tx_fifo v)) = [0x45, 0x53]"
proof (rule uart_stuck_byte[where rd = False])
  have "fifo_inv (uart_tx_fifo new_uart)" "fifo_list (uart_tx_fifo new_uart) = []" "\<not> q_full (uart_tx_fifo new_uart)"
    by (simp_all add: new_uart_def uart_reset_def reset_inv, simp add: fifo_reset_def)
  with fifo_write[of "uart_tx_fifo new_uart" False "0x4E"]
  show "fifo_inv (uart_tx_fifo racing_uart)" "fifo_list (uart_tx_fifo racing_uart) = [0x4E]"
    by (simp_all add: racing_uart_def)
qed (simp_all add: racing_uart_def tx_reset_def silent_def)

end
