(* ===== verification/Fpga.thy ===== *)
theory Fpga
  imports In_Step Uart_Top
begin

text \<open>
  The debug side of the FPGA as a whole: the HCI with its UART (\<^verbatim>\<open>hci.v\<close> with the instance
  \<^verbatim>\<open>uart_blk\<close>) on the buses of the console (\<^verbatim>\<open>nes_top.v\<close>). It is driven by one wire, the serial line,
  and refines the board with byte queues of the theories before.
\<close>

section \<open>One clock cycle\<close>

record fpga =
  f_hci :: hci_regs
  f_con :: console
  f_uart :: uart

definition fpga_input :: "bool \<Rightarrow> fpga \<Rightarrow> hci_in" where
  "fpga_input cpu_brk f =
     \<lparr>brk = cpu_brk, rx_empty = uart_rx_empty (f_uart f), rd_data = uart_rx_data (f_uart f),
      tx_full = uart_tx_full (f_uart f), parity_err = uart_parity_err (f_uart f),
      cpu_din = cpu_bus_din (q_addr (f_hci f)) True (f_con f),
      cpu_dbgreg_in = dbgreg_out (cpu (f_con f)),
      ppu_vram_din = ppu_bus_din (q_addr (f_hci f)) (f_con f)\<rparr>"

definition fpga_clk :: "(console \<Rightarrow> console \<times> bool) \<Rightarrow> bool \<Rightarrow> fpga \<Rightarrow> fpga" where
  "fpga_clk run_cpu rx f =
     (let q = f_hci f;
          (con', cpu_brk) = (if hci_active q then (f_con f, False) else run_cpu (f_con f));
          i = fpga_input cpu_brk f;
          (q', o1) = hci_comb i q
      in \<lparr>f_hci = q',
          f_con = (if hci_active q then bus_clk (q_addr q) (q_cart_cfg q) o1 (rd_data i) (f_con f) else con'),
          f_uart = uart_clk rx (q_tx_data q) (rd_en o1) (q_wr_en q) (f_uart f)\<rparr>)"

primrec fpga_at :: "(console \<Rightarrow> console \<times> bool) \<Rightarrow> (nat \<Rightarrow> bool) \<Rightarrow> fpga \<Rightarrow> nat \<Rightarrow> fpga" where
  "fpga_at rc line f 0 = f"
| "fpga_at rc line f (Suc n) = fpga_clk rc (line n) (fpga_at rc line f n)"

section \<open>A byte that is not there\<close>

text \<open>What the empty receive buffer shows as its front makes no difference.\<close>

lemma hci_comb_stale:
  assumes "rx_empty i"
  shows "fst (hci_comb (i\<lparr>rd_data := x\<rparr>) q) = fst (hci_comb i q)"
    and "rd_en (snd (hci_comb (i\<lparr>rd_data := x\<rparr>) q)) = rd_en (snd (hci_comb i q))"
    and "bus_clk a cfg (snd (hci_comb (i\<lparr>rd_data := x\<rparr>) q)) x c = bus_clk a cfg (snd (hci_comb i q)) y c"
  using assms
  by (cases "hci_regs.q_state q"; simp add: expects_eval bus_clk_def ram_clk_def)+

section \<open>Parts of a run\<close>

definition fpga_out :: "(console \<Rightarrow> console \<times> bool) \<Rightarrow> fpga \<Rightarrow> hci_out" where
  "fpga_out rc f =
     snd (hci_comb (fpga_input (\<not> hci_active (f_hci f) \<and> snd (rc (f_con f))) f) (f_hci f))"

definition fpga_client :: "(console \<Rightarrow> console \<times> bool) \<Rightarrow> (nat \<Rightarrow> bool) \<Rightarrow> fpga \<Rightarrow> uart_client" where
  "fpga_client rc line f n v =
     (rd_en (fpga_out rc (fpga_at rc line f n)), q_wr_en (f_hci (fpga_at rc line f n)), q_tx_data (f_hci (fpga_at rc line f n)))"

lemma fpga_clk_uart:
  "f_uart (fpga_clk rc rx f) = uart_clk rx (q_tx_data (f_hci f)) (rd_en (fpga_out rc f)) (q_wr_en (f_hci f)) (f_uart f)"
  by (simp add: fpga_clk_def fpga_out_def Let_def split_beta)

lemma fpga_uart: "f_uart (fpga_at rc line f n) = uart_at line (fpga_client rc line f) (f_uart f) n"
  by (induction n) (simp_all add: fpga_clk_uart fpga_client_def Let_def)

text \<open>What the HCI hands to the UART in a run, the byte in its output register included.\<close>

definition fpga_sent :: "(console \<Rightarrow> console \<times> bool) \<Rightarrow> (nat \<Rightarrow> bool) \<Rightarrow> fpga \<Rightarrow> nat \<Rightarrow> byte list" where
  "fpga_sent rc line f n =
     concat (map (\<lambda>m. let q = f_hci (fpga_at rc line f m) in if q_wr_en q then [q_tx_data q] else []) [0..<Suc n])"

section \<open>The board with queues\<close>

text \<open>The board that a state of the FPGA refines, when the bytes \<open>rx\<close> are in the receive buffer and \<open>out\<close> has
  been handed to the UART before.\<close>

definition board_of :: "fpga \<Rightarrow> byte list \<Rightarrow> byte list \<Rightarrow> board" where
  "board_of f rx out = \<lparr>hci = f_hci f, con = f_con f, rxq = rx, txq = out, rx_stale = 0\<rparr>"

lemma board_of_sels [simp]:
  "hci (board_of f rx out) = f_hci f" "con (board_of f rx out) = f_con f" "rxq (board_of f rx out) = rx"
  "txq (board_of f rx out) = out"
  by (simp_all add: board_of_def)

lemma board_of_cycle:
  assumes inv: "fifo_inv (uart_rx_fifo (f_uart f))" and rx: "fifo_list (uart_rx_fifo (f_uart f)) = rx"
    and par: "\<not> uart_parity_err (f_uart f)"
  shows "cycle rc (uart_tx_full (f_uart f)) (board_of f rx out) =
    board_of (fpga_clk rc l f) (if rd_en (fpga_out rc f) then tl rx else rx)
      (if q_wr_en (f_hci f) then out @ [q_tx_data (f_hci f)] else out)"
proof -
  let ?k = "\<not> hci_active (f_hci f) \<and> snd (rc (f_con f))"
  let ?b = "board_of f rx out" and ?i = "fpga_input ?k f"
  have e: "uart_rx_empty (f_uart f) \<longleftrightarrow> rx = []" using fifo_list_nil[OF inv] rx by (simp add: uart_pins)
  have i: "hci_input (uart_tx_full (f_uart f)) ?k ?b = ?i\<lparr>rd_data := rx_front ?b\<rparr>"
    using par e by (simp add: hci_input_def fpga_input_def board_of_def)
  let ?c = "hci_comb (?i\<lparr>rd_data := rx_front ?b\<rparr>) (f_hci f)" and ?c' = "hci_comb ?i (f_hci f)"
  have same: "fst ?c = fst ?c' \<and> rd_en (snd ?c) = rd_en (snd ?c') \<and>
      (\<forall>a g x. bus_clk a g (snd ?c) (rx_front ?b) x = bus_clk a g (snd ?c') (rd_data ?i) x)"
  proof (cases "rx = []")
    case True
    then have "rx_empty ?i" using e by (simp add: fpga_input_def)
    from hci_comb_stale(1,2)[OF this] hci_comb_stale(3)[OF this, of _ _ _ _ _ "rd_data ?i"] show ?thesis by blast
  next
    case False
    then have "rx_front ?b = rd_data ?i"
      using uart_fifo.list_front[OF inv] rx by (cases rx) (simp_all add: fpga_input_def rx_front_def board_of_def uart_pins)
    then have "?i\<lparr>rd_data := rx_front ?b\<rparr> = ?i" by (cases ?i) simp
    then show ?thesis using \<open>rx_front ?b = rd_data ?i\<close> by simp
  qed
  have act: "hci ?b = f_hci f" "con ?b = f_con f" "rxq ?b = rx" "txq ?b = out" by (simp_all add: board_of_def)
  show ?thesis
  proof (cases "hci_active (f_hci f)")
    case True
    then show ?thesis using same i
      by (simp add: cycle_def fpga_clk_def fpga_out_def Let_def split_beta act) (simp add: board_of_def hci_input_def)
  next
    case False
    then show ?thesis using same i
      by (simp add: cycle_def fpga_clk_def fpga_out_def Let_def split_beta act) (simp add: board_of_def)
  qed
qed

section \<open>Receiving a packet\<close>

abbreviation f_tick :: "fpga \<Rightarrow> nat \<Rightarrow> bool" where
  "f_tick f \<equiv> baud_tick (q_cnt (f_uart f))"

abbreviation f_rx :: "(nat \<Rightarrow> bool) \<Rightarrow> fpga \<Rightarrow> nat \<Rightarrow> uart_rx" where
  "f_rx line f \<equiv> rx_at (f_tick f) line (uart_rx_blk (f_uart f))"

abbreviation f_got :: "(nat \<Rightarrow> bool) \<Rightarrow> fpga \<Rightarrow> nat \<Rightarrow> byte list" where
  "f_got line f \<equiv> rx_bytes (f_tick f) line (uart_rx_blk (f_uart f))"

abbreviation f_queue :: "fpga \<Rightarrow> byte list" where
  "f_queue f \<equiv> fifo_list (uart_rx_fifo (f_uart f))"

text \<open>The bytes \<open>bs\<close> of a packet are on the way, all of them received by clock \<open>T\<close>, and the HCI is ready for
  them.\<close>

definition feeding :: "(nat \<Rightarrow> bool) \<Rightarrow> fpga \<Rightarrow> byte list \<Rightarrow> nat \<Rightarrow> bool" where
  "feeding line f bs T \<longleftrightarrow> rx_side_ready (f_uart f) \<and> \<not> uart_parity_err (f_uart f) \<and> expects (f_hci f) bs \<and>
     delivers (f_tick f) line (uart_rx_blk (f_uart f)) bs T"

text \<open>The two schedules of the board with queues.\<close>

definition fpga_full :: "(console \<Rightarrow> console \<times> bool) \<Rightarrow> (nat \<Rightarrow> bool) \<Rightarrow> fpga \<Rightarrow> nat \<Rightarrow> bool" where
  "fpga_full rc line f n = uart_tx_full (f_uart (fpga_at rc line f n))"

definition fpga_late :: "(nat \<Rightarrow> bool) \<Rightarrow> fpga \<Rightarrow> nat \<Rightarrow> nat \<Rightarrow> bool" where
  "fpga_late line f T n \<longleftrightarrow> n \<le> T \<and> (n = 0 \<or> \<not> q_done_tick (f_rx line f (n - 1)))"

definition fpga_handed :: "(console \<Rightarrow> console \<times> bool) \<Rightarrow> (nat \<Rightarrow> bool) \<Rightarrow> fpga \<Rightarrow> nat \<Rightarrow> byte list" where
  "fpga_handed rc line f n =
     concat (map (\<lambda>m. let q = f_hci (fpga_at rc line f m) in if q_wr_en q then [q_tx_data q] else []) [0..<n])"

text \<open>No byte is reported in the next \<open>k\<close> clocks.\<close>

definition quiet :: "(nat \<Rightarrow> bool) \<Rightarrow> fpga \<Rightarrow> nat \<Rightarrow> nat \<Rightarrow> bool" where
  "quiet line f k n \<longleftrightarrow> (\<forall>j < k. \<not> q_done_tick (f_rx line f (n + j)))"

text \<open>
  The buffer holds at most one byte; when it holds one, none is reported until it has been taken.
\<close>

definition in_time :: "(console \<Rightarrow> console \<times> bool) \<Rightarrow> (nat \<Rightarrow> bool) \<Rightarrow> fpga \<Rightarrow> nat \<Rightarrow> bool" where
  "in_time rc line f n \<longleftrightarrow>
     (let g = fpga_at rc line f n in
      fifo_inv (uart_rx_fifo (f_uart g)) \<and> length (f_queue g) \<le> 1 \<and>
      (f_queue g \<noteq> [] \<longrightarrow>
         quiet line f 3 n \<or> hci_regs.q_state (f_hci g) \<notin> {S_CART_SET_CFG_STG_0, S_DISABLED} \<and> quiet line f 2 n))"

lemma fpga_rx: "uart_rx_blk (f_uart (fpga_at rc line f n)) = f_rx line f n"
  by (simp add: fpga_uart uart_rx_run)

lemma fpga_no_parity:
  assumes "feeding line f bs T"
  shows "\<not> uart_parity_err (f_uart (fpga_at rc line f n))"
  using assms by (simp add: feeding_def delivers_def fpga_uart uart_parity_run)

lemma fpga_done_idle:
  assumes "feeding line f bs T" and "q_done_tick (f_rx line f n)"
  shows "uart_rx.q_state (f_rx line f n) = S_IDLE"
proof (cases n)
  case 0
  then show ?thesis using assms by (simp add: feeding_def rx_side_ready_def rx_ready_def)
next
  case (Suc m)
  then show ?thesis using assms(2) rx_done_idle by simp
qed

lemma quiet_after:
  assumes "feeding line f bs T" and "q_done_tick (f_rx line f n)"
  shows "quiet line f 4 (Suc n)"
  unfolding quiet_def using rx_distance[OF fpga_done_idle[OF assms]] by blast

lemma quiet_end:
  assumes f: "feeding line f bs T" and "f_got line f n = bs"
  shows "quiet line f k n"
  unfolding quiet_def
proof (intro allI impI notI)
  fix j assume "q_done_tick (f_rx line f (n + j))"
  then have "length (f_got line f (Suc (n + j))) = Suc (length (f_got line f (n + j)))" by (simp add: rx_bytes_Suc)
  moreover have "length (f_got line f (Suc (n + j))) \<le> length bs"
    using f unfolding feeding_def delivers_def by (metis length_append le_add1)
  moreover have "length bs \<le> length (f_got line f (n + j))"
    using rx_mono(1)[of n "n + j" "f_tick f" line "uart_rx_blk (f_uart f)"] assms(2) by auto
  ultimately show False by simp
qed

lemma quiet_weaken: "quiet line f k n \<Longrightarrow> j \<le> k \<Longrightarrow> quiet line f j n"
  by (simp add: quiet_def)

lemma quiet_shift: "quiet line f (Suc k) n \<Longrightarrow> quiet line f k (Suc n)"
  by (auto simp: quiet_def)

lemma fpga_hci_Suc:
  "f_hci (fpga_clk rc l g) =
     fst (hci_comb (fpga_input (\<not> hci_active (f_hci g) \<and> snd (rc (f_con g))) g) (f_hci g))"
  by (simp add: fpga_clk_def Let_def split_beta)

lemma in_timeD:
  assumes "in_time rc line f n"
  shows "fifo_inv (uart_rx_fifo (f_uart (fpga_at rc line f n)))" and "length (f_queue (fpga_at rc line f n)) \<le> 1"
    and "f_queue (fpga_at rc line f n) \<noteq> [] \<Longrightarrow> quiet line f 2 n"
    and "f_queue (fpga_at rc line f n) \<noteq> [] \<Longrightarrow> \<not> q_done_tick (f_rx line f n)"
proof -
  show "fifo_inv (uart_rx_fifo (f_uart (fpga_at rc line f n)))" "length (f_queue (fpga_at rc line f n)) \<le> 1"
    using assms by (simp_all add: in_time_def Let_def)
  show q: "f_queue (fpga_at rc line f n) \<noteq> [] \<Longrightarrow> quiet line f 2 n"
    using assms quiet_weaken[of line f 3 n 2] by (auto simp: in_time_def Let_def)
  show "f_queue (fpga_at rc line f n) \<noteq> [] \<Longrightarrow> \<not> q_done_tick (f_rx line f n)"
    using q unfolding quiet_def by (metis add_0_right zero_less_numeral)
qed

text \<open>One clock of the receive buffer.\<close>

lemma queue_Suc:
  assumes "in_time rc line f n"
  defines "g \<equiv> fpga_at rc line f n"
  shows "f_queue (fpga_at rc line f (Suc n)) = (if rd_en (fpga_out rc g) then tl (f_queue g) else f_queue g) @
      (if q_done_tick (f_rx line f n) then [uart_rx.q_data (f_rx line f n)] else [])"
    and "fifo_inv (uart_rx_fifo (f_uart (fpga_at rc line f (Suc n))))"
proof -
  let ?q = "uart_rx_fifo (f_uart g)" and ?d = "q_done_tick (f_rx line f n)"
  have inv: "fifo_inv ?q" and quiet: "f_queue g \<noteq> [] \<Longrightarrow> \<not> ?d"
    using in_timeD[OF assms(1)] by (simp_all add: g_def)
  have f: "uart_rx_fifo (f_uart (fpga_at rc line f (Suc n))) =
      fifo_clk (rd_en (fpga_out rc g)) ?d (uart_rx.q_data (f_rx line f n)) ?q"
    by (simp add: fpga_clk_uart uart_clk_def Let_def g_def fpga_rx)
  have safe: "fifo_safe (rd_en (fpga_out rc g)) ?d ?q"
    using quiet fifo_list_nil[OF inv] by (auto simp: fifo_safe_def)
  have nfull: "?d \<Longrightarrow> \<not> q_full ?q" using quiet fifo_list_nil[OF inv] inv by (auto simp: fifo_inv_def)
  show "fifo_inv (uart_rx_fifo (f_uart (fpga_at rc line f (Suc n))))"
    unfolding f by (rule uart_fifo.inv_clk[OF inv safe])
  show "f_queue (fpga_at rc line f (Suc n)) = (if rd_en (fpga_out rc g) then tl (f_queue g) else f_queue g) @
      (if ?d then [uart_rx.q_data (f_rx line f n)] else [])"
    unfolding f uart_fifo.list_clk[OF inv safe] using nfull by simp
qed

lemma rd_en_there: "rd_en (snd (hci_comb i q)) \<Longrightarrow> \<not> rx_empty i"
  by (cases "hci_regs.q_state q"; auto simp: expects_eval split: if_splits)

definition f_rest :: "(nat \<Rightarrow> bool) \<Rightarrow> fpga \<Rightarrow> byte list \<Rightarrow> nat \<Rightarrow> byte list" where
  "f_rest line f bs n = drop (length (f_got line f n)) bs"

lemma f_rest_Suc:
  assumes "feeding line f bs T"
  shows "f_rest line f bs n =
    (if q_done_tick (f_rx line f n) then [uart_rx.q_data (f_rx line f n)] else []) @ f_rest line f bs (Suc n)"
proof -
  obtain r where "bs = f_got line f (Suc n) @ r" using assms unfolding feeding_def delivers_def by blast
  then show ?thesis by (simp add: f_rest_def rx_bytes_Suc)
qed

text \<open>What the HCI sees of the buffer fits the bytes to come.\<close>

abbreviation f_input :: "(console \<Rightarrow> console \<times> bool) \<Rightarrow> fpga \<Rightarrow> hci_in" where
  "f_input rc g \<equiv> fpga_input (\<not> hci_active (f_hci g) \<and> snd (rc (f_con g))) g"

abbreviation f_due :: "(console \<Rightarrow> console \<times> bool) \<Rightarrow> (nat \<Rightarrow> bool) \<Rightarrow> fpga \<Rightarrow> byte list \<Rightarrow> nat \<Rightarrow> byte list" where
  "f_due rc line f bs n \<equiv> f_queue (fpga_at rc line f n) @ f_rest line f bs n"

lemma feed_input:
  assumes f: "feeding line f bs T" and t: "in_time rc line f n"
  defines "i \<equiv> f_input rc (fpga_at rc line f n)" and "q \<equiv> f_hci (fpga_at rc line f n)"
  shows "rx_empty i \<longleftrightarrow> f_queue (fpga_at rc line f n) = []"
    and "rx_empty i \<or> (\<exists>rx'. f_due rc line f bs n = rd_data i # rx')"
    and "f_due rc line f bs (Suc n) = (if rd_en (snd (hci_comb i q)) then tl (f_due rc line f bs n) else f_due rc line f bs n)"
proof -
  let ?g = "fpga_at rc line f n"
  note inv = in_timeD[OF t]
  show empty: "rx_empty i \<longleftrightarrow> f_queue ?g = []" using fifo_list_nil[OF inv(1)] by (simp add: i_def fpga_input_def uart_pins)
  have front: "f_queue ?g \<noteq> [] \<Longrightarrow> rd_data i = hd (f_queue ?g)"
    using uart_fifo.list_front[OF inv(1)] by (simp add: i_def fpga_input_def uart_pins)
  show "rx_empty i \<or> (\<exists>rx'. f_due rc line f bs n = rd_data i # rx')" using empty front by (cases "f_queue ?g") auto
  have "f_queue ?g \<noteq> []" if "rd_en (snd (hci_comb i q))" using rd_en_there that empty by metis
  then show "f_due rc line f bs (Suc n) =
      (if rd_en (snd (hci_comb i q)) then tl (f_due rc line f bs n) else f_due rc line f bs n)"
    unfolding queue_Suc(1)[OF t] using f_rest_Suc[OF f, of n] inv(4) by (auto simp: fpga_out_def i_def q_def)
qed

lemma feed_step:
  assumes f: "feeding line f bs T" and t: "in_time rc line f n"
    and e: "expects (f_hci (fpga_at rc line f n)) (f_due rc line f bs n)"
  shows "in_time rc line f (Suc n)"
    and "expects (f_hci (fpga_at rc line f (Suc n))) (f_due rc line f bs (Suc n))"
proof -
  let ?g = "fpga_at rc line f n" and ?g' = "fpga_at rc line f (Suc n)"
  let ?i = "f_input rc ?g" and ?rx = "f_due rc line f bs n" and ?d = "q_done_tick (f_rx line f n)"
  have r: "rd_en (fpga_out rc ?g) = rd_en (snd (hci_comb ?i (f_hci ?g)))" by (simp add: fpga_out_def)
  have q': "f_hci ?g' = fst (hci_comb ?i (f_hci ?g))" by (simp add: fpga_hci_Suc)
  note inv = in_timeD[OF t] and inp = feed_input[OF f t] and queue = queue_Suc[OF t]
  note empty = inp(1)
  show "expects (f_hci ?g') (f_due rc line f bs (Suc n))" using expects_step[OF e inp(2)] unfolding q' inp(3) .
  have "f_queue ?g' \<noteq> [] \<longrightarrow>
      quiet line f 3 (Suc n) \<or> hci_regs.q_state (f_hci ?g') \<notin> {S_CART_SET_CFG_STG_0, S_DISABLED} \<and> quiet line f 2 (Suc n)"
  proof (cases "f_queue ?g = []")
    case True
    then show ?thesis unfolding queue(1)
      using quiet_after[OF f, of n] quiet_weaken[of line f 4 "Suc n" 3] by auto
  next
    case False
    note nd = inv(4)[OF False]
    show ?thesis
    proof (cases "rd_en (fpga_out rc ?g)")
      case True
      then show ?thesis unfolding queue(1) using inv(2) nd by (cases "f_queue ?g") auto
    next
      case stall: False
      then have "hci_regs.q_state (f_hci ?g) \<in> {S_CART_SET_CFG_STG_0, S_DISABLED} \<or>
          hci_regs.q_state (f_hci ?g) = S_CPU_REG_RD \<and> length ?rx = 1"
        using expects_takes[OF e, of ?i] expects_reg_rd[OF e] False empty r by (metis append_is_Nil_conv)
      then show ?thesis
      proof
        assume c: "hci_regs.q_state (f_hci ?g) \<in> {S_CART_SET_CFG_STG_0, S_DISABLED}"
        have "quiet line f 3 n" using t False c by (auto simp: in_time_def Let_def)
        then have "quiet line f 2 (Suc n)" using quiet_shift[of line f 2 n] by (simp add: numeral_3_eq_3 numeral_2_eq_2)
        moreover have "hci_regs.q_state (f_hci ?g') \<notin> {S_CART_SET_CFG_STG_0, S_DISABLED}"
          unfolding q' using expects_once[OF c] stall False empty r by simp
        ultimately show ?thesis by blast
      next
        assume "hci_regs.q_state (f_hci ?g) = S_CPU_REG_RD \<and> length ?rx = 1"
        then have "f_rest line f bs n = []" using False by (cases "f_queue ?g") auto
        then have "length bs \<le> length (f_got line f n)" by (simp add: f_rest_def)
        moreover obtain r where "bs = f_got line f n @ r" using f unfolding feeding_def delivers_def by blast
        ultimately have "f_got line f n = bs" by simp
        from quiet_end[OF f this] have "quiet line f 4 n" .
        then show ?thesis using quiet_shift[of line f 3 n] by (simp add: numeral_eq_Suc)
      qed
    qed
  qed
  moreover have "length (f_queue ?g') \<le> 1" unfolding queue(1)
  proof -
    have "\<not> ?d \<or> f_queue ?g = []" using inv(4) by blast
    then show "length ((if rd_en (fpga_out rc ?g) then tl (f_queue ?g) else f_queue ?g) @ (if ?d then [uart_rx.q_data (f_rx line f n)] else [])) \<le> 1"
      using inv(2) by auto
  qed
  ultimately show "in_time rc line f (Suc n)" using queue(2) by (simp add: in_time_def Let_def del: fpga_at.simps)
qed

lemma feed_run:
  assumes f: "feeding line f bs T"
  shows "in_time rc line f n \<and>
    expects (f_hci (fpga_at rc line f n)) (f_due rc line f bs n)"
proof (induction n)
  case 0
  then show ?case using f
    by (simp add: feeding_def rx_side_ready_def in_time_def f_rest_def rx_bytes_def)
next
  case (Suc n)
  then show ?case using feed_step[OF f] by blast
qed

text \<open>The FPGA refines the board with queues, with the bytes arriving as the receiver reports them.\<close>

lemma fpga_refines_board:
  assumes f: "feeding line f bs T"
  shows "arrive (\<not> fpga_late line f T n)
      (arun rc (fpga_full rc line f) (fpga_late line f T) n (board_of f [] out, bs)) =
    (board_of (fpga_at rc line f n) (f_queue (fpga_at rc line f n)) (out @ fpga_handed rc line f n), f_rest line f bs n)"
proof (induction n)
  case 0
  then show ?case using f
    by (simp add: fpga_late_def arrive_def feeding_def rx_side_ready_def fpga_handed_def f_rest_def rx_bytes_def)
next
  case (Suc n)
  let ?g = "fpga_at rc line f n" and ?g' = "fpga_at rc line f (Suc n)"
  let ?d = "q_done_tick (f_rx line f n)" and ?x = "uart_rx.q_data (f_rx line f n)"
  have t: "in_time rc line f n" using feed_run[OF f] by blast
  have cyc: "cycle rc (fpga_full rc line f n) (board_of ?g (f_queue ?g) (out @ fpga_handed rc line f n)) =
      board_of ?g' (if rd_en (fpga_out rc ?g) then tl (f_queue ?g) else f_queue ?g) (out @ fpga_handed rc line f (Suc n))"
    unfolding fpga_full_def
    using board_of_cycle[OF in_timeD(1)[OF t] refl fpga_no_parity[OF f], of rc "out @ fpga_handed rc line f n" "line n"]
    by (simp add: fpga_handed_def Let_def)
  have rest: "f_rest line f bs n = (if ?d then [?x] else []) @ f_rest line f bs (Suc n)" by (rule f_rest_Suc[OF f])
  have late: "f_rest line f bs n = []" if "\<not> ?d" "\<not> fpga_late line f T (Suc n)"
  proof -
    have "T \<le> n" using that by (simp add: fpga_late_def)
    then show ?thesis using f by (simp add: feeding_def delivers_def f_rest_def)
  qed
  show ?case
    unfolding arun_Suc Suc.IH apfst_conv cyc
    using queue_Suc(1)[OF t] rest late
    by (cases ?d) (auto simp: arrive_def receive_def board_of_def fpga_late_def simp del: fpga_at.simps)
qed

section \<open>A packet from the wire\<close>

definition fpga_target :: "fpga \<Rightarrow> target" where
  "fpga_target f = abs_board (board_of f [] [])"

text \<open>A halted FPGA that waits for a packet. Its transmitter may be busy.\<close>

definition fpga_rest :: "target \<Rightarrow> fpga \<Rightarrow> bool" where
  "fpga_rest t f \<longleftrightarrow> hci_regs.q_state (f_hci f) = S_DECODE \<and> \<not> q_wr_en (f_hci f) \<and> fpga_target f = t \<and>
     rx_side_ready (f_uart f) \<and> \<not> uart_parity_err (f_uart f) \<and> uart_inv (f_uart f)"

lemma board_of_abs: "abs_board (board_of f rx out) = fpga_target f"
  by (simp add: fpga_target_def abs_board_def board_of_def)

lemma board_of_sent: "sent (board_of (fpga_at rc line f n) rx (fpga_handed rc line f n)) = fpga_sent rc line f n"
  by (simp add: sent_def board_of_def fpga_sent_def fpga_handed_def Let_def)

lemma fpga_sent_Suc:
  "fpga_sent rc line f (Suc n) = fpga_sent rc line f n @
     (let q = f_hci (fpga_at rc line f (Suc n)) in if q_wr_en q then [q_tx_data q] else [])"
  by (simp add: fpga_sent_def)

lemma fair_full:
  assumes "uart_inv (f_uart f)"
  shows "fair (fpga_full rc line f)"
  unfolding fair_def
proof
  fix m
  obtain n where "\<not> uart_tx_full (uart_at line (fpga_client rc line f) (f_uart f) (m + n))"
    using uart_accepts[OF assms] by blast
  then show "\<exists>n\<ge>m. \<not> fpga_full rc line f n" by (intro exI[of _ "m + n"]) (simp add: fpga_full_def fpga_uart)
qed

lemma fair_late: "fair (fpga_late line f T)"
  unfolding fair_def fpga_late_def by (meson Suc_n_not_le_n le_trans nat_le_linear)

lemma feeding_rest:
  assumes r: "fpga_rest t f" and c: "wf_cmd c" and h: "host_ok b fs"
    and d: "map (\<lambda>(g, f, d, p). d) fs = encode c" and p: "\<forall>(g, f, d, p) \<in> set fs. p \<noteq> xor_bits d"
  shows "feeding (host_send b fs) f (encode c) (send_clks b fs)"
proof -
  have q: "rx_ready (uart_rx_blk (f_uart f))" "unat (q_cnt (f_uart f)) < 162"
    using r by (simp_all add: fpga_rest_def rx_side_ready_def)
  have "expects (f_hci f) (encode c)" using r c by (auto simp: fpga_rest_def expects_def)
  then show ?thesis using r host_delivers(1)[OF h q p] by (simp add: feeding_def fpga_rest_def d)
qed

lemma fpga_packet:
  assumes c: "wf_cmd c" "plain_cmd c" and r: "fpga_rest t f" and f: "feeding line f (encode c) T"
  obtains n where "packet_done c [] (fst (exec c t)) (snd (exec c t))
      (board_of (fpga_at rc line f n) [] (fpga_handed rc line f n))"
    and "f_queue (fpga_at rc line f n) = []" and "f_rest line f (encode c) n = []"
proof -
  have s: "at_decode (encode c) [] t (total (board_of f [] [], encode c))"
    using r by (auto simp: at_decode_def st_def total_def fpga_rest_def board_of_abs)
      (simp_all add: sent_def board_of_def)
  have "fair (fpga_full rc line f)" using fair_full r by (simp add: fpga_rest_def)
  then obtain n where n: "packet_done c [] (fst (exec c t)) (snd (exec c t))
      (total (arun rc (fpga_full rc line f) (fpga_late line f T) n (board_of f [] [], encode c)))"
    using leads_packet[OF c, of rc "[]" "[]" t] s fair_late unfolding leads_def by fastforce
  let ?g = "fpga_at rc line f n"
  have "total (arun rc (fpga_full rc line f) (fpga_late line f T) n (board_of f [] [], encode c)) =
      receive (f_rest line f (encode c) n) (board_of ?g (f_queue ?g) (fpga_handed rc line f n))"
    using arg_cong[OF fpga_refines_board[OF f, of n rc "[]"], of total] unfolding total_arrive by (simp add: total_def)
  note n' = n[unfolded this]
  then have "f_queue ?g @ f_rest line f (encode c) n = []"
    by (auto simp: packet_done_def st_def board_of_def)
  then show thesis using that[of n] n' by simp
qed

text \<open>Halted with nothing to come, it stays so.\<close>

lemma fpga_stays:
  assumes f: "feeding line f bs T" and e: "f_queue (fpga_at rc line f n) = []" "f_rest line f bs n = []"
    and b: "at_decode [] out t (board_of (fpga_at rc line f n) [] (fpga_handed rc line f n))"
  shows "at_decode [] out t (board_of (fpga_at rc line f (n + k)) [] (fpga_handed rc line f (n + k))) \<and>
    f_queue (fpga_at rc line f (n + k)) = []"
proof -
  let ?full = "fpga_full rc line f" and ?late = "fpga_late line f T"
  let ?s = "\<lambda>m. arun rc ?full ?late m (board_of f [] [], bs)"
  let ?b = "\<lambda>m. board_of (fpga_at rc line f m) (f_queue (fpga_at rc line f m)) (fpga_handed rc line f m)"
  have sim: "arrive (\<not> ?late m) (?s m) = (?b m, f_rest line f bs m)" for m
    using fpga_refines_board[OF f, of m rc "[]"] by simp
  obtain b0 p0 where s0: "?s n = (b0, p0)" by (cases "?s n")
  have "rxq (?b n) = []" using e(1) by simp
  moreover have "receive p0 b0 = ?b n"
    using arg_cong[OF sim[of n], of total] e(2) s0 unfolding total_arrive by (simp add: total_def)
  ultimately have "p0 = []" using receive_sels(3)[of p0 b0] by simp
  then have s: "?s n = (?b n, [])" using sim[of n] s0 by (simp add: arrive_def split: if_splits)
  have "?s (n + k) = (run rc (\<lambda>i. ?full (n + i)) k (?b n), [])"
    unfolding arun_add s by (rule arun_run)
  then have "?b (n + k) = run rc (\<lambda>i. ?full (n + i)) k (?b n)"
    using sim[of "n + k"] by (auto simp: arrive_def split: if_splits)
  moreover have "at_decode [] out t (run rc (\<lambda>i. ?full (n + i)) k (?b n))"
    by (rule idle_run) (use b e(1) in simp)
  ultimately have d: "at_decode [] out t (?b (n + k))" by simp
  then have "f_queue (fpga_at rc line f (n + k)) = []" by (auto simp: at_decode_def st_def board_of_def)
  with d show ?thesis by simp
qed

lemma fpga_settles:
  assumes c: "wf_cmd c" "plain_cmd c" "c \<noteq> DbgRun" and r: "fpga_rest t f" and f: "feeding line f (encode c) T"
    and ready: "\<And>m. T \<le> m \<Longrightarrow> rx_ready (f_rx line f m)"
  obtains n where "\<And>m. n \<le> m \<Longrightarrow> fpga_rest (snd (exec c t)) (fpga_at rc line f m) \<and> fpga_sent rc line f m = fst (exec c t)"
proof -
  obtain n where n: "packet_done c [] (fst (exec c t)) (snd (exec c t))
      (board_of (fpga_at rc line f n) [] (fpga_handed rc line f n))"
    "f_queue (fpga_at rc line f n) = []" "f_rest line f (encode c) n = []"
    using fpga_packet[OF c(1,2) r f] .
  have d: "at_decode [] (fst (exec c t)) (snd (exec c t)) (board_of (fpga_at rc line f m) [] (fpga_handed rc line f m)) \<and>
      f_queue (fpga_at rc line f m) = []" if "n \<le> m" for m
    using fpga_stays[OF f n(2,3), of "fst (exec c t)" "snd (exec c t)"] n(1) le_Suc_ex[OF that] c(3)
    by (auto simp: packet_done_decode)
  have sent: "fpga_sent rc line f m = fst (exec c t)" "fpga_target (fpga_at rc line f m) = snd (exec c t)"
    "hci_regs.q_state (f_hci (fpga_at rc line f m)) = S_DECODE" if "n \<le> m" for m
    using d[OF that] board_of_sent[of rc line f m "[]"]
    by (auto simp: at_decode_def st_def board_of_abs)
  have wr: "\<not> q_wr_en (f_hci (fpga_at rc line f (Suc m)))" if "n \<le> m" for m
    using sent(1)[OF that] sent(1)[of "Suc m"] that by (auto simp: fpga_sent_Suc Let_def simp del: fpga_at.simps split: if_splits)
  have "fpga_rest (snd (exec c t)) (fpga_at rc line f m)" if m: "max (Suc n) T \<le> m" for m
  proof -
    obtain k where k: "m = Suc k" "n \<le> k" using m by (cases m) auto
    have "uart_inv (f_uart (fpga_at rc line f m))"
      using r uart_inv_run by (simp add: fpga_rest_def fpga_uart)
    moreover have "rx_side_ready (f_uart (fpga_at rc line f m))"
      using d[of m] ready[of m] m in_timeD(1)[of rc line f m] feed_run[OF f] calculation
      by (simp add: rx_side_ready_def fpga_rx uart_inv_def)
    ultimately show ?thesis
      using sent[of m] wr[OF k(2)] k fpga_no_parity[OF f] m by (simp add: fpga_rest_def del: fpga_at.simps)
  qed
  then show thesis using that[of "max (Suc n) T"] sent(1) by simp
qed

section \<open>Properties\<close>

text \<open>
  C2: From the wire to the memories: when a host sends the frames of a well-formed packet that reads no PPU register (a
  CPU_MEM_RD of no address from $2000 to $3FFF), with the right
  parity bits, any pauses between them and a bit time between 2475 and 2705 clocks, to the FPGA with a
  halted console waiting, its UART and HCI clocked together, then the whole packet is received, none of it lost
  in the receive buffer, and executed: the console ends with the memories, registers and configuration
  of the abstract target, and the HCI has handed exactly the reply to its transmitter. Unless the packet
  was DBG_RUN, it is back waiting for the next packet for good.
\<close>

theorem fpga_executes_packet:
  assumes "wf_cmd c" and "plain_cmd c" and "fpga_rest t f"
    and "host_ok b fs" and "map (\<lambda>(g, f, d, p). d) fs = encode c" and "\<forall>(g, f, d, p) \<in> set fs. p \<noteq> xor_bits d"
  shows "(\<exists>n. hci_regs.q_state (f_hci (fpga_at rc (host_send b fs) f n)) = (if c = DbgRun then S_DISABLED else S_DECODE) \<and>
      fpga_target (fpga_at rc (host_send b fs) f n) = snd (exec c t) \<and>
      fpga_sent rc (host_send b fs) f n = fst (exec c t) \<and> f_queue (fpga_at rc (host_send b fs) f n) = []) \<and>
    (c \<noteq> DbgRun \<longrightarrow> (\<exists>n. \<forall>m \<ge> n. fpga_rest (snd (exec c t)) (fpga_at rc (host_send b fs) f m) \<and>
      fpga_sent rc (host_send b fs) f m = fst (exec c t)))"
proof -
  note f = feeding_rest[OF assms(3,1,4,5,6)]
  have q: "rx_ready (uart_rx_blk (f_uart f))" "unat (q_cnt (f_uart f)) < 162"
    using assms(3) by (simp_all add: fpga_rest_def rx_side_ready_def)
  obtain n where n: "packet_done c [] (fst (exec c t)) (snd (exec c t))
      (board_of (fpga_at rc (host_send b fs) f n) [] (fpga_handed rc (host_send b fs) f n))"
    "f_queue (fpga_at rc (host_send b fs) f n) = []"
    using fpga_packet[OF assms(1-3) f] by blast
  have "hci_regs.q_state (f_hci (fpga_at rc (host_send b fs) f n)) = (if c = DbgRun then S_DISABLED else S_DECODE) \<and>
      fpga_target (fpga_at rc (host_send b fs) f n) = snd (exec c t) \<and> fpga_sent rc (host_send b fs) f n = fst (exec c t)"
    using n(1) board_of_sent[of rc "host_send b fs" f n "[]"]
    by (auto simp: packet_done_def st_def board_of_abs)
  moreover have "\<exists>n. \<forall>m \<ge> n. fpga_rest (snd (exec c t)) (fpga_at rc (host_send b fs) f m) \<and>
      fpga_sent rc (host_send b fs) f m = fst (exec c t)" if "c \<noteq> DbgRun"
    using fpga_settles[OF assms(1,2) that assms(3) f host_delivers(2)[OF assms(4) q assms(6)]] by metis
  ultimately show ?thesis using n(2) by blast
qed


text \<open>The FPGA after reset, and a host at 38400 baud that writes two bytes to its work memory.\<close>

definition power_on_fpga :: fpga where
  "power_on_fpga = \<lparr>f_hci = hci_reset, f_con = con (power_on []), f_uart = new_uart\<rparr>"

definition odd_frames :: "byte list \<Rightarrow> host_sends" where
  "odd_frames = map (\<lambda>d. (100, 1 / 2, d, \<not> xor_bits d))"

lemma power_on_fpga_rest: "fpga_rest power_on_target power_on_fpga"
proof -
  have "fpga_target power_on_fpga = power_on_target"
    using power_on_st[of "[]"]
    by (simp add: fpga_target_def st_def abs_board_def power_on_fpga_def board_of_def power_on_def)
  moreover have "uart_inv new_uart" by (simp add: new_uart_def uart_inv_reset)
  ultimately show ?thesis
    using new_uart_ready by (simp add: fpga_rest_def power_on_fpga_def hci_reset_def)
qed

lemma odd_frames_ok:
  "host_ok (15625 / 6) (odd_frames ds)" "map (\<lambda>(g, f, d, p). d) (odd_frames ds) = ds"
  "\<forall>(g, f, d, p) \<in> set (odd_frames ds). p \<noteq> xor_bits d"
  by (auto simp: odd_frames_def host_ok_def phase_ok_def comp_def)

lemma fpga_executes_packet_witness:
  "\<exists>n. let g = fpga_at (\<lambda>c. (c, False)) (host_send (15625 / 6) (odd_frames (encode (CpuMemWr 0x10 [7, 8])))) power_on_fpga n in
    fpga_target g = power_on_target\<lparr>t_wram := (\<lambda>_. 0)(0x10 := 7, 0x11 := 8)\<rparr>"
proof -
  have c: "wf_cmd (CpuMemWr 0x10 [7, 8])" "plain_cmd (CpuMemWr 0x10 [7, 8])"
    by (auto simp: wf_cmd_def ri_ncs_def less_2_cases_iff)
  have "snd (exec (CpuMemWr 0x10 [7, 8]) power_on_target) = power_on_target\<lparr>t_wram := (\<lambda>_. 0)(0x10 := 7, 0x11 := 8)\<rparr>"
    by (simp add: t_cpu_wr_def wram_en_def power_on_target_def)
  with fpga_executes_packet[OF c power_on_fpga_rest odd_frames_ok, of "\<lambda>c. (c, False)"]
  show ?thesis by (auto simp: Let_def)
qed

text \<open>
  C5: The HCI keeps up with the line: in every clock in which a halted FPGA is sent the frames of a
  well-formed packet of any kind, its receive buffer holds at most one byte, a byte is taken from it before the next one
  is reported, and what is in the buffer with what is still to be received are the bytes
  its state machine waits for. So the buffer, whose full flag nobody reads, never drops one.
\<close>

theorem fpga_keeps_up:
  assumes "wf_cmd c" and "fpga_rest t f"
    and "host_ok b fs" and "map (\<lambda>(g, f, d, p). d) fs = encode c" and "\<forall>(g, f, d, p) \<in> set fs. p \<noteq> xor_bits d"
  shows "let g = fpga_at rc (host_send b fs) f n; q = f_queue g in
    length q \<le> 1 \<and> \<not> (uart_rx.q_done_tick (uart_rx_blk (f_uart g)) \<and> q \<noteq> []) \<and>
    expects (f_hci g) (q @ drop (length (f_got (host_send b fs) f n)) (encode c))"
proof -
  note f = feeding_rest[OF assms(2,1,3-5)]
  note run = feed_run[OF f, of rc n]
  then show ?thesis using in_timeD[of rc "host_send b fs" f n]
    by (auto simp: Let_def f_rest_def fpga_rx)
qed

lemma fpga_keeps_up_witness:
  "let g = fpga_at (\<lambda>c. (c, False)) (host_send (15625 / 6) (odd_frames (encode (CpuMemWr 0x10 [7, 8])))) power_on_fpga 100000;
       q = f_queue g in
    length q \<le> 1 \<and> \<not> (uart_rx.q_done_tick (uart_rx_blk (f_uart g)) \<and> q \<noteq> []) \<and>
    expects (f_hci g) (q @ drop (length (f_got (host_send (15625 / 6) (odd_frames (encode (CpuMemWr 0x10 [7, 8]))))
      power_on_fpga 100000)) (encode (CpuMemWr 0x10 [7, 8])))"
  by (rule fpga_keeps_up[OF _ power_on_fpga_rest odd_frames_ok]) (simp add: wf_cmd_def)

end
