(* ===== verification/Uart_Stream.thy ===== *)
theory Uart_Stream
  imports Uart_Top
begin

text \<open>
  Sending while the client goes on writing: whatever it writes, at any times at which the transmit buffer has
  room and does not lose a byte, comes out on the line in order. Two ways for a client to keep to such times.
\<close>

section \<open>Nothing to send\<close>

text \<open>While the client writes nothing, an idle transmitter leaves the line high.\<close>

lemma uart_idle:
  fixes line client u
  defines "v \<equiv> uart_at line client u"
  assumes s: "tx_side_ready (v s)" "fifo_list (uart_tx_fifo (v s)) = []" "s \<le> n"
    and w: "\<And>m. s \<le> m \<Longrightarrow> m < n \<Longrightarrow> \<not> fst (snd (client m (v m)))"
  shows "tx_side_ready (v n) \<and> fifo_list (uart_tx_fifo (v n)) = []"
  using s(3) w
proof (induction n rule: dec_induct)
  case (step m)
  then have IH: "tx_side_ready (v m)" "fifo_list (uart_tx_fifo (v m)) = []" and nw: "\<not> fst (snd (client m (v m)))" by simp_all
  have e: "q_empty (uart_tx_fifo (v m))" using IH fifo_list_nil by (simp add: tx_side_ready_def)
  have f: "uart_tx_fifo (v (Suc m)) = uart_tx_fifo (v m)"
    using nw e by (simp add: v_def uart_Suc(6)[OF refl] fifo_hold del: uart_at.simps)
  have "tx_ready (tx_clk k False d q)" if "tx_ready q" for k d q
    using that by (simp add: tx_ready_def tx_clk_def)
  then show ?case
    using IH e f by (simp add: v_def tx_side_ready_def uart_Suc(2,4)[OF refl] baud_step del: uart_at.simps)
qed (use s in simp)

section \<open>A stream of bytes\<close>

text \<open>The client is done writing at clock \<open>T\<close>.\<close>

definition stops :: "(nat \<Rightarrow> bool) \<Rightarrow> uart_client \<Rightarrow> uart \<Rightarrow> nat \<Rightarrow> bool" where
  "stops line client u T \<longleftrightarrow> (\<forall>n \<ge> T. \<not> fst (snd (client n (uart_at line client u n))))"

lemma stops_shift:
  "stops line client u T \<Longrightarrow> stops (\<lambda>n. line (s + n)) (\<lambda>n. client (s + n)) (uart_at line client u s) (T - s)"
  by (simp add: stops_def flip: uart_shift)

text \<open>What a receiver on the line has got at clock \<open>N\<close>, when it is back waiting for a start bit.\<close>

definition wired :: "(nat \<Rightarrow> bool) \<Rightarrow> uart_client \<Rightarrow> uart \<Rightarrow> uart_rx \<Rightarrow> nat \<Rightarrow> byte list \<Rightarrow> bool" where
  "wired line client u r N bs \<longleftrightarrow>
     (let tick = baud_tick (q_cnt u); pin = (\<lambda>n. uart_tx_pin (uart_at line client u n)) in
      rx_bytes tick pin r N = bs \<and> \<not> rx_parity tick pin r N \<and> rx_ready (rx_at tick pin r N) \<and>
      tx_side_ready (uart_at line client u N))"

abbreviation wired_rx :: "(nat \<Rightarrow> bool) \<Rightarrow> uart_client \<Rightarrow> uart \<Rightarrow> uart_rx \<Rightarrow> nat \<Rightarrow> uart_rx" where
  "wired_rx line client u r N \<equiv> rx_at (baud_tick (q_cnt u)) (\<lambda>n. uart_tx_pin (uart_at line client u n)) r N"

lemma wired_shift:
  assumes "wired line client u r s bs"
    and "wired (\<lambda>n. line (s + n)) (\<lambda>n. client (s + n)) (uart_at line client u s) (wired_rx line client u r s) n cs"
  shows "wired line client u r (s + n) (bs @ cs)"
proof -
  have t: "(\<lambda>n. baud_tick (q_cnt u) (s + n)) = baud_tick (q_cnt (uart_at line client u s))"
    by (simp add: baud_tick_shift uart_cnt)
  show ?thesis using assms unfolding wired_def Let_def rx_shift t uart_shift by simp
qed

text \<open>One clock of an idle transmitter.\<close>

lemma wired_step:
  assumes u: "tx_side_ready u" "fifo_list (uart_tx_fifo u) = []" and c: "tx_safe line client u" and r: "rx_ready r"
  shows "wired line client u r 1 []" and "fifo_list (uart_tx_fifo (uart_at line client u 1)) = uart_written line client u 1"
proof -
  let ?v = "uart_at line client u"
  have inv: "fifo_inv (uart_tx_fifo u)" and e: "q_empty (uart_tx_fifo u)" and tx: "tx_ready (uart_tx_blk u)"
    using u fifo_list_nil by (simp_all add: tx_side_ready_def)
  have 1: "(1 :: nat) = Suc 0" by simp
  note S = tx_fifo_Suc[OF c, of 0]
  show "fifo_list (uart_tx_fifo (?v 1)) = uart_written line client u 1"
    unfolding 1 using S(2) inv u(2) tx by (simp add: tx_ready_def uart_written_def split_beta del: uart_at.simps(2))
  have "tx_ready (tx_clk k False d q)" if "tx_ready q" for k d q
    using that by (simp add: tx_ready_def tx_clk_def)
  then have "tx_side_ready (?v 1)"
    unfolding 1 using S(1) u e tx inv
    by (simp add: tx_side_ready_def uart_Suc(2,4)[OF refl] baud_step del: uart_at.simps(2))
  moreover have "uart_tx_pin (?v k)" if "k < 1" for k using tx that by (simp add: tx_ready_def uart_pins)
  ultimately show "wired line client u r 1 []"
    using rx_gap[OF r, of 1 "\<lambda>n. uart_tx_pin (?v n)" "baud_tick (q_cnt u)"] by (simp add: wired_def)
qed

lemma wired_frame:
  assumes u: "tx_side_ready u" and l: "fifo_list (uart_tx_fifo u) = x # xs" and c: "tx_safe line client u" and r: "rx_ready r"
  obtains N where "wired line client u r N [x]"
    and "fifo_list (uart_tx_fifo (uart_at line client u N)) = xs @ uart_written line client u N"
  using uart_frame[OF assms] unfolding wired_def Let_def by metis

lemma wiredD:
  assumes "wired line client u r N bs"
  shows "rx_ready (wired_rx line client u r N)" and "tx_side_ready (uart_at line client u N)"
  using assms by (simp_all add: wired_def Let_def)

lemma written_stops:
  assumes "stops line client u T" and "T \<le> n"
  shows "uart_written line client u n = uart_written line client u T"
  using assms(2) by (induction n rule: dec_induct) (use assms(1) in \<open>simp_all add: uart_written_Suc stops_def\<close>)

text \<open>Every byte written comes out, and then the buffer is empty.\<close>

lemma uart_streams:
  assumes "tx_side_ready u" and "tx_safe line client u" and "stops line client u T" and "rx_ready r"
  shows "\<exists>N \<ge> T. wired line client u r N (fifo_list (uart_tx_fifo u) @ uart_written line client u T) \<and>
    fifo_list (uart_tx_fifo (uart_at line client u N)) = []"
  using assms
proof (induction "T + length (fifo_list (uart_tx_fifo u) @ uart_written line client u T)"
    arbitrary: u line client r T rule: less_induct)
  case less
  let ?v = "uart_at line client u" and ?q = "fifo_list (uart_tx_fifo u)" and ?W = "uart_written line client u"
  have go: ?case if w: "wired line client u r s bs" and q: "bs @ fifo_list (uart_tx_fifo (?v s)) = ?q @ ?W s"
    and lt: "bs \<noteq> [] \<or> 0 < s \<and> 0 < T" for s bs
  proof -
    let ?line = "\<lambda>n. line (s + n)" and ?client = "\<lambda>n. client (s + n)" and ?T = "T - s"
    have "?W (s + ?T) = ?W T" using written_stops[OF less.prems(3), of "s + ?T"] by simp
    then have W: "?W T = ?W s @ uart_written ?line ?client (?v s) ?T" by (simp add: uart_written_shift)
    with q have all: "?q @ ?W T = bs @ fifo_list (uart_tx_fifo (?v s)) @ uart_written ?line ?client (?v s) ?T"
      by (metis append.assoc)
    then have "?T + length (fifo_list (uart_tx_fifo (?v s)) @ uart_written ?line ?client (?v s) ?T) <
        T + length (?q @ ?W T)" using lt by (cases bs) auto
    from less.hyps[OF this wiredD(2)[OF w] tx_safe_shift[OF less.prems(2)] stops_shift[OF less.prems(3)] wiredD(1)[OF w]]
    obtain N where "?T \<le> N" "wired ?line ?client (?v s) (wired_rx line client u r s) N
        (fifo_list (uart_tx_fifo (?v s)) @ uart_written ?line ?client (?v s) ?T)"
      "fifo_list (uart_tx_fifo (uart_at ?line ?client (?v s) N)) = []" by blast
    then show ?thesis using wired_shift[OF w] all by (intro exI[of _ "s + N"]) (simp add: uart_shift)
  qed
  show ?case
  proof (cases ?q)
    case (Cons x xs)
    obtain N where "wired line client u r N [x]" "fifo_list (uart_tx_fifo (?v N)) = xs @ ?W N"
      using wired_frame[OF less.prems(1) Cons less.prems(2,4)] .
    then show ?thesis using go[of N "[x]"] Cons by simp
  next
    case Nil
    show ?thesis
    proof (cases T)
      case 0
      then show ?thesis using less.prems Nil
        by (intro exI[of _ 0]) (simp add: wired_def rx_bytes_def rx_parity_def uart_written_def)
    next
      case (Suc n)
      then show ?thesis using go[of 1 "[]"] wired_step[OF less.prems(1) Nil less.prems(2,4)] Nil by simp
    qed
  qed
qed

section \<open>Clients that do not lose a byte\<close>

text \<open>The client that stops writing at clock \<open>k\<close>: what is safe up to there is safe for it at all times.\<close>

definition cut :: "nat \<Rightarrow> uart_client \<Rightarrow> uart_client" where
  "cut k client n v = (let (rd, wr, d) = client n v in (rd, wr \<and> n < k, d))"

lemma cut_at: "n \<le> k \<Longrightarrow> uart_at line (cut k client) u n = uart_at line client u n"
  by (induction n) (auto simp: cut_def Let_def split_beta)

lemma cut_sels [simp]:
  "fst (snd (cut k client n v)) \<longleftrightarrow> fst (snd (client n v)) \<and> n < k" "snd (snd (cut k client n v)) = snd (snd (client n v))"
  by (simp_all add: cut_def split_beta)

lemma cut_safe:
  assumes "\<And>m. m < k \<Longrightarrow> write_safe client m (uart_at line client u m)"
  shows "tx_safe line (cut k client) u"
  unfolding tx_safe_def
proof
  fix n
  show "write_safe (cut k client) n (uart_at line (cut k client) u n)"
    using assms[of n] cut_at[of n k line client u] by (cases "n < k") (simp_all add: write_safe_def)
qed

lemma idle_write_safe:
  assumes "tx_side_ready v" and "fifo_list (uart_tx_fifo v) = []"
  shows "write_safe client n v"
proof -
  have inv: "fifo_inv (uart_tx_fifo v)" and "\<not> q_tx_done_tick (uart_tx_blk v)"
    using assms(1) by (simp_all add: tx_side_ready_def tx_ready_def)
  moreover have "q_empty (uart_tx_fifo v)" using fifo_list_nil[OF inv] assms(2) by simp
  then have "\<not> q_full (uart_tx_fifo v)" using inv by (simp add: fifo_inv_def)
  ultimately show ?thesis by (simp add: write_safe_def fifo_safe_def)
qed

text \<open>
  A client that writes three clocks after a tick of the baud clock, never sooner than 28512 clocks
  (176 ticks) after the last time: the transmitter is idle each time. A client that writes only once is one.
\<close>

definition paced :: "(nat \<Rightarrow> bool) \<Rightarrow> uart_client \<Rightarrow> uart \<Rightarrow> bool" where
  "paced line client u \<longleftrightarrow>
     (\<forall>m n. m < n \<and> fst (snd (client m (uart_at line client u m))) \<and> fst (snd (client n (uart_at line client u n))) \<longrightarrow>
        3 \<le> m \<and> baud_tick (q_cnt u) (m - 3) \<and> m + 28512 \<le> n)"

lemma tx_side_cnt: "tx_side_ready u \<Longrightarrow> unat (q_cnt u) < 162"
  by (simp add: tx_side_ready_def)

lemma paced_idle:
  fixes line client u
  defines "v \<equiv> uart_at line client u"
  assumes u: "tx_side_ready u" "fifo_list (uart_tx_fifo u) = []" and p: "paced line client u"
    and w: "fst (snd (client n (v n)))"
  shows "tx_side_ready (v n) \<and> fifo_list (uart_tx_fifo (v n)) = []"
  using w
proof (induction n rule: less_induct)
  case (less n)
  show ?case
  proof (cases "\<exists>m < n. fst (snd (client m (v m)))")
    case False
    then show ?thesis using uart_idle[of line client u 0 n] u by (simp add: v_def)
  next
    case True
    define s where "s = (GREATEST m. m < n \<and> fst (snd (client m (v m))))"
    have s: "s < n" "fst (snd (client s (v s)))"
      using GreatestI_ex_nat[of "\<lambda>m. m < n \<and> fst (snd (client m (v m)))" n] True by (auto simp: s_def)
    have none: "\<not> fst (snd (client m (v m)))" if "s < m" "m < n" for m
      using Greatest_le_nat[of "\<lambda>m. m < n \<and> fst (snd (client m (v m)))" m n] that by (auto simp: s_def)
    have at: "3 \<le> s" "baud_tick (q_cnt u) (s - 3)" "s + 28512 \<le> n" using p s less.prems unfolding paced_def v_def by blast+
    note idle = less.IH[OF s]
    let ?c = "cut n client" and ?l = "\<lambda>i. line (Suc s + i)" and ?d = "\<lambda>i. cut n client (Suc s + i)"
    have v: "uart_at line ?c u m = v m" if "m \<le> n" for m using cut_at[OF that] by (simp add: v_def)
    have sh: "uart_at (\<lambda>i. line (k + i)) (\<lambda>i. ?c (k + i)) (v k) i = uart_at line ?c u (k + i)" if "k \<le> n" for k i
      unfolding uart_shift v[OF that] ..
    have "write_safe client m (v m)" if "m < n" for m
      using less.IH[OF that] idle_write_safe by (cases "fst (snd (client m (v m)))") (simp_all add: write_safe_def)
    then have safe: "tx_safe line ?c u" unfolding v_def by (rule cut_safe)
    have cnt: "unat (q_cnt (v m)) = (unat (q_cnt u) + m) mod 162" for m
      using baud_cnt[OF tx_side_cnt[OF u(1)]] by (simp add: v_def uart_cnt)
    have c3: "unat (q_cnt (v (Suc s))) = 3"
    proof -
      have "(unat (q_cnt u) + (s - 3)) mod 162 = 161" using at(2) baud_tick_iff[OF tx_side_cnt[OF u(1)]] by simp
      then have "(161 + 4) mod 162 = (unat (q_cnt u) + (s - 3) + 4) mod 162" by (metis mod_add_left_eq)
      then show ?thesis using at(1) unfolding cnt by simp
    qed
    obtain x where x: "fifo_list (uart_tx_fifo (v (Suc s))) = [x]" and tx: "tx_side_ready (v (Suc s))"
    proof -
      note st = wired_step[OF idle[THEN conjunct1] idle[THEN conjunct2], of "\<lambda>i. line (s + i)" "\<lambda>i. ?c (s + i)"]
      have "tx_safe (\<lambda>i. line (s + i)) (\<lambda>i. ?c (s + i)) (v s)"
        using tx_safe_shift[OF safe, of s] v[of s] s(1) by simp
      note st = st[OF this host_rx_ready]
      show thesis
        using that[of "snd (snd (client s (v s)))"] st(2) wiredD(2)[OF st(1)] s v[of "Suc s"] v[of s]
        by (simp add: uart_written_def split_beta sh)
    qed
    have quiet: "\<not> fst (snd (?d i (uart_at ?l ?d (v (Suc s)) i)))" for i
      using none[of "Suc s + i"] v[of "Suc s + i"] sh[of "Suc s" i] s(1) by (cases "Suc s + i < n") (simp_all del: uart_at.simps)
    let ?w = "uart_at ?l ?d (v (Suc s))"
    have wr: "uart_written ?l ?d (v (Suc s)) i = []" for i
    proof (induction i)
      case (Suc i)
      then show ?case using quiet[of i] by (simp add: uart_written_Suc del: cut_sels)
    qed (simp add: uart_written_def)
    have "tx_safe ?l ?d (v (Suc s))" using tx_safe_shift[OF safe, of "Suc s"] v[of "Suc s"] s(1) by simp
    have N: "tx_side_ready (?w 28510) \<and> fifo_list (uart_tx_fifo (?w 28510)) = []"
    proof (rule uart_frame[OF tx x \<open>tx_safe ?l ?d (v (Suc s))\<close> host_rx_ready])
      fix N assume N: "unat (q_cnt (v (Suc s))) < 161 \<Longrightarrow> unat (q_cnt (v (Suc s))) + N = 28513"
        "tx_side_ready (?w N)" "fifo_list (uart_tx_fifo (?w N)) = [] @ uart_written ?l ?d (v (Suc s)) N"
      have "N = 28510" using N(1) unfolding c3 by simp
      with N(2,3) wr[of N] show ?thesis by simp
    qed
    obtain k where k: "k = Suc s + 28510" "k \<le> n" "s < k" using at(3) by simp
    have "?w 28510 = v k" using sh[of "Suc s" 28510] s(1) v[OF k(2)] unfolding k(1) by (simp only: Suc_le_eq)
    then have K: "tx_side_ready (uart_at line ?c u k)" "fifo_list (uart_tx_fifo (uart_at line ?c u k)) = []"
      using N v[OF k(2)] by simp_all
    have "\<not> fst (snd (?c m (uart_at line ?c u m)))" if "k \<le> m" "m < n" for m
      using none[of m] v[of m] that k(3) by simp
    from uart_idle[OF K k(2) this] show ?thesis using v[of n] by simp
  qed
qed

lemma paced_safe:
  assumes "tx_side_ready u" and "fifo_list (uart_tx_fifo u) = []" and "paced line client u"
  shows "tx_safe line client u"
  unfolding tx_safe_def
proof
  fix n
  show "write_safe client n (uart_at line client u n)"
    using paced_idle[OF assms] idle_write_safe
    by (cases "fst (snd (client n (uart_at line client u n)))") (auto simp: write_safe_def)
qed

section \<open>The transmitter between two bytes\<close>

text \<open>Unless it is in the stop bit, the transmitter needs sixteen ticks to report the end of a byte.\<close>

definition before_stop :: "nat \<Rightarrow> uart_tx \<Rightarrow> bool" where
  "before_stop t q \<longleftrightarrow> (q_state q = S_STOP \<longrightarrow> unat (q_baud_clk_tick_cnt q) \<le> t)"

lemma before_stop_step:
  assumes "before_stop t q" and "t < 15"
  shows "\<not> q_tx_done_tick (tx_clk k s d q)" and "before_stop (if k then Suc t else t) (tx_clk k s d q)"
proof -
  have "\<not> q_tx_done_tick (tx_clk k s d q) \<and> before_stop (if k then Suc t else t) (tx_clk k s d q)"
  proof (cases "q_state q = S_STOP")
    case True
    then have le: "unat (q_baud_clk_tick_cnt q) \<le> t" using assms(1) by (simp add: before_stop_def)
    then have ne: "q_baud_clk_tick_cnt q \<noteq> 15" using assms(2) by auto
    from unat_cnt4(2)[OF ne] show ?thesis using True le ne by (simp add: before_stop_def tx_clk_def Let_def)
  next
    case False
    then show ?thesis by (cases "q_state q") (simp_all add: before_stop_def tx_clk_def Let_def)
  qed
  then show "\<not> q_tx_done_tick (tx_clk k s d q)" "before_stop (if k then Suc t else t) (tx_clk k s d q)" by simp_all
qed

lemma tx_quiet:
  assumes "q_state q \<noteq> S_STOP" and "\<not> q_tx_done_tick q" and "unat c < 162" and "j < 100"
  shows "\<not> q_tx_done_tick (tx_at (baud_tick c) start data q j)"
proof -
  have t: "ticks (baud_tick c) 0 i \<le> 1" if "i \<le> j" for i
    using baud_ticks[OF assms(3), of 0 i] assms(3,4) that by simp
  have "before_stop (ticks (baud_tick c) 0 i) (tx_at (baud_tick c) start data q i) \<and>
      \<not> q_tx_done_tick (tx_at (baud_tick c) start data q i)" if "i \<le> j" for i
    using that
  proof (induction i)
    case (Suc i)
    then have "before_stop (ticks (baud_tick c) 0 i) (tx_at (baud_tick c) start data q i)" "ticks (baud_tick c) 0 i < 15"
      using t[of i] by simp_all
    from before_stop_step[OF this, of "baud_tick c i" "start i" "data i"] show ?case
      using ticks_Suc[of 0 i "baud_tick c"] by (simp split: if_splits)
  qed (use assms(1,2) in \<open>simp add: before_stop_def\<close>)
  then show ?thesis by simp
qed

end
