(* ===== verification/Fpga_Reply.thy ===== *)
theory Fpga_Reply
  imports Fpga Uart_Stream
begin

text \<open>
  The reply on the wire: the HCI hands the bytes of a reply to the UART only when its transmit buffer
  takes them and keeps them, so that the whole reply is on the line. For the memory reads it waits for room in
  the buffer and fills it faster than it is emptied; an echo comes no faster than the transmitter
  sends, if the host's bit time is not shorter than the FPGA's; all other replies are one byte.
\<close>

section \<open>Which packet the HCI is in\<close>

text \<open>Before the data stage of a memory read, in it, and after a packet.\<close>

definition rd_head :: "hci_regs \<Rightarrow> byte list \<Rightarrow> bool" where
  "rd_head q rx \<longleftrightarrow> \<not> q_wr_en q \<and>
     (hci_regs.q_state q = S_DECODE \<and> (\<exists>a n. rx = encode (CpuMemRd a n) \<or> rx = encode (PpuMemRd a n)) \<or>
      hci_regs.q_state q \<in> {S_CPU_MEM_RD_STG_0, S_PPU_MEM_RD_STG_0})"

definition rd_data_stage :: "hci_regs \<Rightarrow> bool" where
  "rd_data_stage q \<longleftrightarrow> hci_regs.q_state q \<in> {S_CPU_MEM_RD_STG_1, S_PPU_MEM_RD_STG_1} \<and> (q_wr_en q \<longrightarrow> even (q_execute_cnt q))"

definition at_end :: "hci_regs \<Rightarrow> byte list \<Rightarrow> bool" where
  "at_end q rx \<longleftrightarrow> hci_regs.q_state q = S_DECODE \<and> rx = []"

lemma rd_head_step:
  assumes "rd_head q rx" and "expects q rx" and i: "rx_empty i \<or> (\<exists>rx'. rx = rd_data i # rx')"
  defines "q' \<equiv> fst (hci_comb i q)" and "rx' \<equiv> if rd_en (snd (hci_comb i q)) then tl rx else rx"
  shows "\<not> q_wr_en q' \<and> (rd_head q' rx' \<or> rd_data_stage q' \<or> at_end q' rx')"
proof (cases "rx_empty i")
  case True
  then show ?thesis using assms(1) by (auto simp: q'_def rx'_def rd_head_def expects_eval)
next
  case False
  then obtain r where rx: "rx = rd_data i # r" using i by blast
  consider a n where "hci_regs.q_state q = S_DECODE" "rx = encode (CpuMemRd a n) \<or> rx = encode (PpuMemRd a n)"
    | "hci_regs.q_state q \<in> {S_CPU_MEM_RD_STG_0, S_PPU_MEM_RD_STG_0}"
    using assms(1) by (auto simp: rd_head_def)
  then show ?thesis
  proof cases
    case 1
    then have "rd_data i = 1 \<or> rd_data i = 9" using rx by auto
    then show ?thesis using 1(1) False by (auto simp: q'_def rd_head_def expects_eval)
  next
    case 2
    then have len: "length r + unat (q_decode_cnt q) = 3" using assms(2) rx by (auto simp: expects_def)
    have 3: "r = []" if "q_decode_cnt q \<noteq> 0" "q_decode_cnt q \<noteq> 1" "q_decode_cnt q \<noteq> 2"
    proof -
      have "unat (q_decode_cnt q) \<noteq> 0 \<and> unat (q_decode_cnt q) \<noteq> 1 \<and> unat (q_decode_cnt q) \<noteq> 2"
        using that by (simp add: word_unat_eq_iff)
      then have "length r = 0" using len by linarith
      then show ?thesis by simp
    qed
    show ?thesis using 2 False rx 3
      by (cases "q_decode_cnt q = 0"; cases "q_decode_cnt q = 1"; cases "q_decode_cnt q = 2")
        (auto simp: q'_def rx'_def rd_head_def rd_data_stage_def at_end_def expects_eval split: if_splits)
  qed
qed

text \<open>In the data stage, an even count is a clock of waiting; an odd one writes a byte if there is room.\<close>

lemma even_minus_one: "even (x - 1 :: 17 word) \<longleftrightarrow> odd x"
proof -
  have "even (x - 1 + 1) \<longleftrightarrow> \<not> even (x - 1)" by (simp only: even_plus_one_iff)
  then show ?thesis by simp
qed

lemma rd_data_step:
  fixes i q
  assumes "rd_data_stage q"
  defines "q' \<equiv> fst (hci_comb i q)"
  shows "\<not> rd_en (snd (hci_comb i q))" and "rd_data_stage q' \<or> hci_regs.q_state q' = S_DECODE"
    and "even (q_execute_cnt q) \<Longrightarrow> \<not> q_wr_en q' \<and> rd_data_stage q' \<and> odd (q_execute_cnt q')"
    and "odd (q_execute_cnt q) \<Longrightarrow> tx_full i \<Longrightarrow> \<not> q_wr_en q' \<and> rd_data_stage q' \<and> odd (q_execute_cnt q')"
    and "odd (q_execute_cnt q) \<Longrightarrow> \<not> tx_full i \<Longrightarrow> q_wr_en q' \<and> (rd_data_stage q' \<longrightarrow> even (q_execute_cnt q'))"
  using assms(1) unfolding q'_def rd_data_stage_def
  by (cases "even (q_execute_cnt q)"; cases "tx_full i"; auto simp: expects_eval even_minus_one split: if_splits)+

lemma at_end_step:
  assumes "at_end q rx" and "rx_empty i \<or> (\<exists>rx'. rx = rd_data i # rx')"
  shows "at_end (fst (hci_comb i q)) (if rd_en (snd (hci_comb i q)) then tl rx else rx)"
    and "\<not> q_wr_en (fst (hci_comb i q))"
  using assms by (auto simp: at_end_def expects_eval)

text \<open>An echo writes a byte only in the clock after it took it.\<close>

definition in_echo :: "hci_regs \<Rightarrow> byte list \<Rightarrow> bool" where
  "in_echo q rx \<longleftrightarrow> hci_regs.q_state q = S_DECODE \<and> (\<exists>ds. rx = encode (Echo ds)) \<or>
     hci_regs.q_state q \<in> {S_ECHO_STG_0, S_ECHO_STG_1} \<or> at_end q rx"

lemma in_echo_step:
  assumes "in_echo q rx" and "expects q rx" and i: "rx_empty i \<or> (\<exists>rx'. rx = rd_data i # rx')"
  defines "q' \<equiv> fst (hci_comb i q)" and "rx' \<equiv> if rd_en (snd (hci_comb i q)) then tl rx else rx"
  shows "in_echo q' rx'" and "q_wr_en q' \<Longrightarrow> \<not> rx_empty i"
proof -
  have "in_echo q' rx' \<and> (q_wr_en q' \<longrightarrow> \<not> rx_empty i)"
  proof (cases "rx_empty i")
    case True
    then show ?thesis using assms(1) by (auto simp: q'_def rx'_def in_echo_def at_end_def expects_eval)
  next
    case False
    then obtain r where rx: "rx = rd_data i # r" using i by blast
    consider ds where "hci_regs.q_state q = S_DECODE" "rx = encode (Echo ds)" | "hci_regs.q_state q = S_ECHO_STG_0"
      | "hci_regs.q_state q = S_ECHO_STG_1"
      using assms(1) rx by (auto simp: in_echo_def at_end_def)
    then show ?thesis
    proof cases
      case 1
      then have "rd_data i = 0" using rx by auto
      then show ?thesis using 1(1) False by (simp add: q'_def in_echo_def expects_eval)
    next
      case 2
      obtain lo hi ds where h: "unat (le16 lo hi) = length ds"
        "q_decode_cnt q = 0 \<and> rx = lo # hi # ds \<or> q_decode_cnt q = 1 \<and> q_execute_cnt q = ucast lo \<and> rx = hi # ds"
        using assms(2) 2 by (auto simp: expects_def)
      have l: "length ds < 65536" using h(1) unat_le16_lt[of lo hi] by simp
      show ?thesis using h(2) 2 False rx len17[OF l] ucast_len[OF h(1)]
        by (auto simp: q'_def rx'_def in_echo_def at_end_def expects_eval)
    next
      case 3
      then have "q_execute_cnt q = 1 + of_nat (length r)" "length r < 65536"
        using assms(2) rx by (auto simp: expects_def)
      then show ?thesis using 3 False rx len17[of r] by (auto simp: q'_def rx'_def in_echo_def at_end_def expects_eval)
    qed
  qed
  then show "in_echo q' rx'" "q_wr_en q' \<Longrightarrow> \<not> rx_empty i" by simp_all
qed

section \<open>The transmit side in a run\<close>

definition tx_idle :: "fpga \<Rightarrow> bool" where
  "tx_idle f \<longleftrightarrow> tx_side_ready (f_uart f) \<and> fifo_list (uart_tx_fifo (f_uart f)) = []"

abbreviation f_done :: "fpga \<Rightarrow> bool" where
  "f_done g \<equiv> q_tx_done_tick (uart_tx_blk (f_uart g))"

abbreviation f_keeps :: "fpga \<Rightarrow> bool" where
  "f_keeps g \<equiv> q_wr_en (f_hci g) \<longrightarrow>
     \<not> uart_tx_full (f_uart g) \<and> fifo_safe (f_done g) True (uart_tx_fifo (f_uart g))"

lemma fpga_client_sels [simp]:
  "fst (snd (fpga_client rc line f n v)) = q_wr_en (f_hci (fpga_at rc line f n))"
  "snd (snd (fpga_client rc line f n v)) = q_tx_data (f_hci (fpga_at rc line f n))"
  by (simp_all add: fpga_client_def)

lemma f_keeps_iff: "write_safe (fpga_client rc line f) n (f_uart (fpga_at rc line f n)) \<longleftrightarrow> f_keeps (fpga_at rc line f n)"
  by (auto simp: write_safe_def uart_pins)

lemma fpga_tx_safe:
  assumes "\<And>n. f_keeps (fpga_at rc line f n)"
  shows "tx_safe line (fpga_client rc line f) (f_uart f)"
  unfolding tx_safe_def fpga_uart[symmetric] f_keeps_iff using assms by blast

text \<open>One clock of the transmit buffer, and of its full flag.\<close>

lemma f_tx_Suc:
  fixes rc line f n
  defines "g \<equiv> fpga_at rc line f n" and "g' \<equiv> fpga_at rc line f (Suc n)"
  assumes inv: "fifo_inv (uart_tx_fifo (f_uart g))" and k: "f_keeps g"
  shows "fifo_inv (uart_tx_fifo (f_uart g'))"
    and "fifo_list (uart_tx_fifo (f_uart g')) =
      (if f_done g then tl (fifo_list (uart_tx_fifo (f_uart g))) else fifo_list (uart_tx_fifo (f_uart g))) @
      (if q_wr_en (f_hci g) then [q_tx_data (f_hci g)] else [])"
  using tx_fifo_step[of "fpga_client rc line f" n line "f_uart f"] inv k
  unfolding fpga_uart[symmetric] f_keeps_iff g_def g'_def by (simp_all del: fpga_at.simps)

lemma f_full_Suc:
  fixes rc line f n
  defines "g \<equiv> fpga_at rc line f n" and "g' \<equiv> fpga_at rc line f (Suc n)"
  shows "\<not> f_done g \<Longrightarrow> uart_tx_full (f_uart g) \<Longrightarrow> uart_tx_full (f_uart g')"
    and "\<not> q_wr_en (f_hci g) \<Longrightarrow> \<not> uart_tx_full (f_uart g) \<Longrightarrow> \<not> uart_tx_full (f_uart g')"
  by (simp_all add: g_def g'_def fpga_clk_uart uart_clk_def uart_pins fifo_clk_def Let_def)

text \<open>No byte is done in the next \<open>k\<close> clocks.\<close>

definition tx_wait :: "(console \<Rightarrow> console \<times> bool) \<Rightarrow> (nat \<Rightarrow> bool) \<Rightarrow> fpga \<Rightarrow> nat \<Rightarrow> nat \<Rightarrow> bool" where
  "tx_wait rc line f k n \<longleftrightarrow> (\<forall>j < k. \<not> f_done (fpga_at rc line f (n + j)))"

lemma tx_wait_Suc: "tx_wait rc line f (Suc k) n \<Longrightarrow> tx_wait rc line f k (Suc n)"
  by (auto simp: tx_wait_def simp del: fpga_at.simps)

lemma tx_wait_weaken: "tx_wait rc line f k n \<Longrightarrow> j \<le> k \<Longrightarrow> tx_wait rc line f j n"
  by (simp add: tx_wait_def)

lemma tx_wait_now: "tx_wait rc line f k n \<Longrightarrow> 0 < k \<Longrightarrow> \<not> f_done (fpga_at rc line f n)"
  unfolding tx_wait_def by (metis add_0_right)

lemma fpga_uart_inv: "uart_inv (f_uart f) \<Longrightarrow> uart_inv (f_uart (fpga_at rc line f n))"
  by (simp add: fpga_uart uart_inv_run)

lemma tx_wait_from:
  assumes u: "uart_inv (f_uart f)"
    and q: "q_state (uart_tx_blk (f_uart (fpga_at rc line f n))) \<noteq> S_STOP" "\<not> f_done (fpga_at rc line f n)"
  shows "tx_wait rc line f 100 n"
  unfolding tx_wait_def
proof (intro allI impI)
  fix j :: nat assume j: "j < 100"
  let ?v = "uart_at line (fpga_client rc line f) (f_uart f)"
  have "unat (q_cnt (?v n)) < 162" using uart_inv_run[OF u] by (simp add: uart_inv_def)
  from tx_quiet[OF _ _ this j] show "\<not> f_done (fpga_at rc line f (n + j))"
    using q unfolding fpga_uart uart_shift uart_tx_run[of "\<lambda>i. line (n + i)"] by blast
qed

lemma tx_wait_done:
  assumes u: "uart_inv (f_uart f)" and d: "f_done (fpga_at rc line f n)"
  shows "tx_wait rc line f 100 (Suc n)"
proof (rule tx_wait_from[OF u])
  have "q_state (uart_tx_blk (f_uart (fpga_at rc line f n))) = S_IDLE"
    using fpga_uart_inv[OF u] d by (simp add: uart_inv_def)
  then show "q_state (uart_tx_blk (f_uart (fpga_at rc line f (Suc n)))) \<noteq> S_STOP"
    "\<not> f_done (fpga_at rc line f (Suc n))"
    using d by (simp_all add: fpga_clk_uart uart_clk_def Let_def tx_clk_def)
qed

lemma tx_idle_Suc:
  assumes "tx_idle (fpga_at rc line f n)" and "\<not> q_wr_en (f_hci (fpga_at rc line f n))"
  shows "tx_idle (fpga_at rc line f (Suc n))"
proof -
  have "\<not> q_wr_en (f_hci (fpga_at rc line f m))" if "n \<le> m" "m < Suc n" for m
    using assms(2) le_antisym[OF that(1)] that(2) by simp
  then show ?thesis
    using uart_idle[of line "fpga_client rc line f" "f_uart f" n "Suc n"] assms(1)
    by (simp add: tx_idle_def fpga_uart del: fpga_at.simps uart_at.simps)
qed

lemma tx_idle_run:
  assumes "tx_idle f" and "\<And>m. m < n \<Longrightarrow> \<not> q_wr_en (f_hci (fpga_at rc line f m))"
  shows "tx_idle (fpga_at rc line f n)"
  using uart_idle[of line "fpga_client rc line f" "f_uart f" 0 n] assms
  by (simp add: tx_idle_def fpga_uart)

lemma tx_idle_wait:
  assumes "uart_inv (f_uart f)" and "tx_idle (fpga_at rc line f n)"
  shows "tx_wait rc line f 100 n"
  using tx_wait_from[OF assms(1)] assms(2) by (simp add: tx_idle_def tx_side_ready_def tx_ready_def)

section \<open>Memory reads\<close>

text \<open>
  In the data stage, with \<open>s\<close> bytes in the buffer or about to be, the buffer is full, or no byte is done
  before the HCI has filled it, one byte in two clocks.
\<close>

definition f_level :: "fpga \<Rightarrow> nat" where
  "f_level g = length (fifo_list (uart_tx_fifo (f_uart g))) + (if q_wr_en (f_hci g) then 1 else 0)"

definition fill_time :: "fpga \<Rightarrow> nat" where
  "fill_time g = 2 * (8 - f_level g) + (if rd_data_stage (f_hci g) \<and> odd (q_execute_cnt (f_hci g)) then 0 else 1)"

definition filling :: "(console \<Rightarrow> console \<times> bool) \<Rightarrow> (nat \<Rightarrow> bool) \<Rightarrow> fpga \<Rightarrow> nat \<Rightarrow> bool" where
  "filling rc line f n \<longleftrightarrow>
     (let g = fpga_at rc line f n in f_level g = 8 \<or> uart_tx_full (f_uart g) \<or> tx_wait rc line f (fill_time g) n)"

definition rd_inv :: "(console \<Rightarrow> console \<times> bool) \<Rightarrow> (nat \<Rightarrow> bool) \<Rightarrow> fpga \<Rightarrow> byte list \<Rightarrow> nat \<Rightarrow> bool" where
  "rd_inv rc line f bs n \<longleftrightarrow>
     (let g = fpga_at rc line f n; q = f_hci g in
      rd_head q (f_due rc line f bs n) \<and> tx_idle g \<or>
      (rd_data_stage q \<or> at_end q (f_due rc line f bs n)) \<and> fifo_inv (uart_tx_fifo (f_uart g)) \<and>
      (q_wr_en q \<longrightarrow> \<not> uart_tx_full (f_uart g)) \<and> (rd_data_stage q \<or> q_wr_en q \<longrightarrow> filling rc line f n))"

lemma fill_time_bound: "fill_time g \<le> 17"
  unfolding fill_time_def by (cases "8 - f_level g \<le> 8") (simp_all split: if_split, arith)

lemma fill_time_pos: "q_wr_en (f_hci g) \<Longrightarrow> 0 < fill_time g"
  by (auto simp: fill_time_def rd_data_stage_def)

lemma filling_wait: "tx_wait rc line f 100 n \<Longrightarrow> filling rc line f n"
  using tx_wait_weaken[OF _ order_trans[OF fill_time_bound]] by (simp add: filling_def)

lemma rd_inv_keeps:
  assumes "rd_inv rc line f bs n"
  shows "f_keeps (fpga_at rc line f n)"
proof
  let ?g = "fpga_at rc line f n"
  assume wr: "q_wr_en (f_hci ?g)"
  then have inv: "fifo_inv (uart_tx_fifo (f_uart ?g))" "\<not> uart_tx_full (f_uart ?g)" and fill: "filling rc line f n"
    using assms by (auto simp: rd_inv_def Let_def rd_head_def)
  have "fifo_safe (f_done ?g) True (uart_tx_fifo (f_uart ?g))"
  proof (cases "f_level ?g = 8")
    case True
    then have "fifo_count (uart_tx_fifo (f_uart ?g)) = 7" using wr by (simp add: f_level_def fifo_list_def)
    then show ?thesis using fifo_one[OF inv(1)] by (auto simp: fifo_safe_def)
  next
    case False
    then have "tx_wait rc line f (fill_time ?g) n" using fill inv(2) by (simp add: filling_def Let_def)
    from tx_wait_now[OF this fill_time_pos[OF wr]] show ?thesis by (simp add: fifo_safe_def)
  qed
  with inv(2) show "\<not> uart_tx_full (f_uart ?g) \<and> fifo_safe (f_done ?g) True (uart_tx_fifo (f_uart ?g))" by simp
qed

text \<open>The level and the clocks left go together.\<close>

lemma filling_step:
  assumes u: "uart_inv (f_uart f)" and d: "rd_data_stage (f_hci (fpga_at rc line f n))"
    and inv: "fifo_inv (uart_tx_fifo (f_uart (fpga_at rc line f n)))" and k: "f_keeps (fpga_at rc line f n)"
    and fill: "filling rc line f n"
  shows "filling rc line f (Suc n)"
    and "q_wr_en (f_hci (fpga_at rc line f (Suc n))) \<longrightarrow> \<not> uart_tx_full (f_uart (fpga_at rc line f (Suc n)))"
proof -
  let ?g = "fpga_at rc line f n" and ?g' = "fpga_at rc line f (Suc n)"
  let ?l = "fifo_list (uart_tx_fifo (f_uart ?g))"
  have q': "f_hci ?g' = fst (hci_comb (f_input rc ?g) (f_hci ?g))" by (simp add: fpga_hci_Suc)
  have full: "tx_full (f_input rc ?g) \<longleftrightarrow> uart_tx_full (f_uart ?g)" by (simp add: fpga_input_def)
  note st = rd_data_step[OF d, of "f_input rc ?g", folded q', unfolded full]
  note list = f_tx_Suc(2)[OF inv k] and keep = f_full_Suc[where rc = rc and line = line and f = f and n = n]
  have odd: "\<not> q_wr_en (f_hci ?g)" if "odd (q_execute_cnt (f_hci ?g))" using d that by (auto simp: rd_data_stage_def)
  show "q_wr_en (f_hci ?g') \<longrightarrow> \<not> uart_tx_full (f_uart ?g')" using st(3-5) odd keep(2) by blast
  show "filling rc line f (Suc n)"
  proof (cases "f_done ?g")
    case True
    then show ?thesis using tx_wait_done[OF u] filling_wait by blast
  next
    case nd: False
    consider (wait) "even (q_execute_cnt (f_hci ?g))" | (stall) "uart_tx_full (f_uart ?g)"
      | (put) "odd (q_execute_cnt (f_hci ?g))" "\<not> uart_tx_full (f_uart ?g)" by blast
    then show ?thesis
    proof cases
      case wait
      then have s: "f_level ?g' = f_level ?g" "fill_time ?g = Suc (fill_time ?g')"
        using st(3) list nd by (simp_all add: f_level_def fill_time_def del: fpga_at.simps)
      then show ?thesis using fill keep(1)[OF nd] tx_wait_Suc by (auto simp: filling_def Let_def simp del: fpga_at.simps)
    next
      case stall
      then show ?thesis using keep(1)[OF nd] by (simp add: filling_def Let_def del: fpga_at.simps)
    next
      case put
      then have lt: "length ?l < 8" using fifo_not_full[OF inv] by (simp add: fifo_list_def uart_pins)
      then have s: "f_level ?g = length ?l" "f_level ?g' = Suc (length ?l)" "fill_time ?g = Suc (fill_time ?g')"
        using st(5)[OF put] put list nd odd[OF put(1)] d by (auto simp: f_level_def fill_time_def simp del: fpga_at.simps)
      then show ?thesis using fill put(2) lt tx_wait_Suc by (auto simp: filling_def Let_def simp del: fpga_at.simps)
    qed
  qed
qed

lemma rd_inv_step:
  assumes f: "feeding line f bs T" and u: "uart_inv (f_uart f)" and inv: "rd_inv rc line f bs n"
  shows "rd_inv rc line f bs (Suc n)"
proof -
  let ?g = "fpga_at rc line f n" and ?g' = "fpga_at rc line f (Suc n)"
  let ?rx = "f_due rc line f bs n" and ?i = "f_input rc ?g"
  have t: "in_time rc line f n" and e: "expects (f_hci ?g) ?rx" using feed_run[OF f, of rc n] by simp_all
  note inp = feed_input[OF f t]
  have q': "f_hci ?g' = fst (hci_comb ?i (f_hci ?g))" by (simp add: fpga_hci_Suc)
  note rx' = inp(3)
  note keeps = rd_inv_keeps[OF inv]
  have fill0: "filling rc line f (Suc n)" if "tx_idle ?g'" by (rule filling_wait[OF tx_idle_wait[OF u that]])
  consider (hd) "rd_head (f_hci ?g) ?rx" "tx_idle ?g"
    | (dat) "rd_data_stage (f_hci ?g)" "fifo_inv (uart_tx_fifo (f_uart ?g))" "filling rc line f n"
    | (fin) "at_end (f_hci ?g) ?rx" "fifo_inv (uart_tx_fifo (f_uart ?g))"
    using inv by (auto simp: rd_inv_def Let_def)
  then show ?thesis
  proof cases
    case hd
    note st = rd_head_step[OF hd(1) e inp(2), folded q' rx']
    have "tx_idle ?g'" using tx_idle_Suc[OF hd(2)] hd(1) by (simp add: rd_head_def)
    moreover from this have "fifo_inv (uart_tx_fifo (f_uart ?g'))" by (simp add: tx_idle_def tx_side_ready_def)
    ultimately show ?thesis using st fill0 by (auto simp: rd_inv_def Let_def simp del: fpga_at.simps)
  next
    case dat
    note st = rd_data_step[OF dat(1), of ?i, folded q']
    have "?rx = []" using e dat(1) by (auto simp: expects_def rd_data_stage_def)
    then have "f_due rc line f bs (Suc n) = []" using rx' by (simp del: fpga_at.simps)
    then have "rd_data_stage (f_hci ?g') \<or> at_end (f_hci ?g') (f_due rc line f bs (Suc n))"
      using st(2) by (auto simp: at_end_def)
    then show ?thesis using filling_step[OF u dat(1,2) keeps dat(3)] f_tx_Suc(1)[OF dat(2) keeps]
      by (simp add: rd_inv_def Let_def del: fpga_at.simps)
  next
    case fin
    have "at_end (f_hci ?g') (f_due rc line f bs (Suc n))" "\<not> q_wr_en (f_hci ?g')"
      using at_end_step[OF fin(1) inp(2)] unfolding q' rx' by simp_all
    moreover have "\<not> rd_data_stage (f_hci ?g')" using calculation(1) by (simp add: at_end_def rd_data_stage_def)
    ultimately show ?thesis using f_tx_Suc(1)[OF fin(2) keeps] by (simp add: rd_inv_def Let_def del: fpga_at.simps)
  qed
qed

section \<open>Echo\<close>

lemma in_echo_run:
  assumes f: "feeding line f bs T" and "in_echo (f_hci f) bs"
  shows "in_echo (f_hci (fpga_at rc line f n)) (f_due rc line f bs n)"
proof (induction n)
  case 0
  then show ?case using assms by (simp add: feeding_def rx_side_ready_def f_rest_def rx_bytes_def)
next
  case (Suc n)
  have t: "in_time rc line f n" and e: "expects (f_hci (fpga_at rc line f n)) (f_due rc line f bs n)"
    using feed_run[OF f, of rc n] by simp_all
  show ?case using in_echo_step(1)[OF Suc e feed_input(2)[OF f t]] unfolding feed_input(3)[OF f t] by (simp add: fpga_hci_Suc)
qed

text \<open>A byte is written two clocks after the receiver has reported it.\<close>

lemma echo_writes:
  assumes f: "feeding line f bs T" and q: "in_echo (f_hci f) bs" "\<not> q_wr_en (f_hci f)"
    and wr: "q_wr_en (f_hci (fpga_at rc line f n))"
  obtains m where "n = Suc (Suc m)" and "q_done_tick (f_rx line f m)"
proof (cases n)
  case 0
  then show ?thesis using q(2) wr by simp
next
  case (Suc k)
  have t: "in_time rc line f m" and e: "expects (f_hci (fpga_at rc line f m)) (f_due rc line f bs m)" for m
    using feed_run[OF f, of rc m] by simp_all
  note run = in_echo_run[OF f q(1), of rc]
  have "f_queue (fpga_at rc line f k) \<noteq> []"
    using in_echo_step(2)[OF run e feed_input(2)[OF f t], of k] wr feed_input(1)[OF f t] by (simp add: Suc fpga_hci_Suc)
  then obtain m where m: "k = Suc m" "f_queue (fpga_at rc line f (Suc m)) \<noteq> []"
    using f by (cases k) (simp_all add: feeding_def rx_side_ready_def del: fpga_at.simps(2))
  have "q_done_tick (f_rx line f m)"
  proof (rule ccontr)
    assume nd: "\<not> q_done_tick (f_rx line f m)"
    let ?g = "fpga_at rc line f m"
    have ne: "f_queue ?g \<noteq> []" "\<not> rd_en (fpga_out rc ?g)"
      using m(2) nd in_timeD(2)[OF t, of m] unfolding queue_Suc(1)[OF t]
      by (cases "f_queue ?g"; cases "rd_en (fpga_out rc ?g)"; simp)+
    have "hci_regs.q_state (f_hci ?g) \<noteq> S_CART_SET_CFG_STG_0" "hci_regs.q_state (f_hci ?g) \<noteq> S_CPU_REG_RD"
      "hci_regs.q_state (f_hci ?g) \<noteq> S_DISABLED"
      using run[of m] by (auto simp: in_echo_def at_end_def)
    then show False using expects_takes[OF e, of m "f_input rc ?g"] ne feed_input(1)[OF f t] by (simp add: fpga_out_def)
  qed
  with that[of m] show ?thesis by (simp add: Suc m(1))
qed

lemma echo_paced:
  assumes r: "fpga_rest t f" and f: "feeding (host_send b fs) f bs T" and q: "in_echo (f_hci f) bs"
    and b: "host_ok b fs" "2592 \<le> b"
  shows "paced (host_send b fs) (fpga_client rc (host_send b fs) f) (f_uart f)"
  unfolding paced_def fpga_client_sels fpga_uart[symmetric]
proof (intro allI impI)
  let ?g = "fpga_at rc (host_send b fs) f"
  fix m n assume w: "m < n \<and> q_wr_en (f_hci (?g m)) \<and> q_wr_en (f_hci (?g n))"
  have nw: "\<not> q_wr_en (f_hci f)" using r by (simp add: fpga_rest_def)
  have rdy: "rx_ready (uart_rx_blk (f_uart f))" "unat (q_cnt (f_uart f)) < 162"
    using r by (simp_all add: fpga_rest_def rx_side_ready_def)
  obtain i where i: "m = Suc (Suc i)" "q_done_tick (f_rx (host_send b fs) f i)"
    using echo_writes[OF f q nw, of rc m] w by blast
  obtain j where j: "n = Suc (Suc j)" "q_done_tick (f_rx (host_send b fs) f j)"
    using echo_writes[OF f q nw, of rc n] w by blast
  have "i \<noteq> 0" using i(2) rdy(1) by (intro notI) (simp add: rx_ready_def)
  then obtain k where k: "i = Suc k" by (cases i) simp_all
  then have "f_tick f k" using i(2) rx_done_tick by (metis rx_at.simps(2))
  moreover have "i + 28512 \<le> j" using host_dones_apart[OF b(1) rdy b(2) _ i(2) j(2)] w i(1) j(1) by simp
  ultimately show "3 \<le> m \<and> f_tick f (m - 3) \<and> m + 28512 \<le> n" using i(1) j(1) k by simp
qed

section \<open>Replies of at most one byte\<close>

lemma one_write_paced:
  assumes "\<And>n. length (fpga_sent rc line f n) \<le> 1"
  shows "paced line (fpga_client rc line f) (f_uart f)"
  unfolding paced_def fpga_client_sels
proof (intro allI impI)
  fix m n assume "m < n \<and> q_wr_en (f_hci (fpga_at rc line f m)) \<and> q_wr_en (f_hci (fpga_at rc line f n))"
  then have "2 \<le> length (fpga_sent rc line f n)"
    unfolding fpga_sent_def by (intro concat_map_twice[of m n]) (simp_all add: Let_def)
  then show "3 \<le> m \<and> f_tick f (m - 3) \<and> m + 28512 \<le> n" using assms[of n] by simp
qed

section \<open>The reply\<close>

text \<open>
  A host sends a packet: the frames of its bytes with the right parity bits. It must not echo faster than
  the FPGA sends.
\<close>

definition sends_packet :: "rat \<Rightarrow> host_sends \<Rightarrow> cmd \<Rightarrow> bool" where
  "sends_packet b fs c \<longleftrightarrow> host_ok b fs \<and> map (\<lambda>(g, f, d, p). d) fs = encode c \<and>
     (\<forall>(g, f, d, p) \<in> set fs. p \<noteq> xor_bits d) \<and> ((\<exists>ds. c = Echo ds) \<longrightarrow> 2592 \<le> b)"

lemma sends_packetD:
  assumes "sends_packet b fs c"
  shows "host_ok b fs" and "map (\<lambda>(g, f, d, p). d) fs = encode c" and "\<forall>(g, f, d, p) \<in> set fs. p \<noteq> xor_bits d"
    and "c = Echo ds \<Longrightarrow> 2592 \<le> b"
  using assms by (simp_all add: sends_packet_def)

lemma packet_settles:
  assumes c: "wf_cmd c" "plain_cmd c" "c \<noteq> DbgRun" and r: "fpga_rest t f" and s: "sends_packet b fs c"
  obtains n where "\<And>m. n \<le> m \<Longrightarrow> fpga_rest (snd (exec c t)) (fpga_at rc (host_send b fs) f m) \<and>
    fpga_sent rc (host_send b fs) f m = fst (exec c t)"
proof -
  have q: "rx_ready (uart_rx_blk (f_uart f))" "unat (q_cnt (f_uart f)) < 162"
    using r by (simp_all add: fpga_rest_def rx_side_ready_def)
  show thesis
    using fpga_settles[OF c r feeding_rest[OF r c(1) sends_packetD(1-3)[OF s]]
        host_delivers(2)[OF sends_packetD(1)[OF s] q sends_packetD(3)[OF s]]] that by blast
qed

lemma sent_mono:
  assumes "m \<le> n"
  shows "length (fpga_sent rc line f m) \<le> length (fpga_sent rc line f n)"
  using assms by (induction n rule: dec_induct) (simp_all add: fpga_sent_Suc Let_def)

lemma packet_tx_safe:
  assumes c: "wf_cmd c" "plain_cmd c" "c \<noteq> DbgRun" and r: "fpga_rest t f" and i: "tx_idle f" and s: "sends_packet b fs c"
  shows "tx_safe (host_send b fs) (fpga_client rc (host_send b fs) f) (f_uart f)"
proof -
  let ?line = "host_send b fs"
  note f = feeding_rest[OF r c(1) sends_packetD(1-3)[OF s]]
  have tx: "tx_side_ready (f_uart f)" "fifo_list (uart_tx_fifo (f_uart f)) = []" using i by (simp_all add: tx_idle_def)
  have q: "hci_regs.q_state (f_hci f) = S_DECODE" "\<not> q_wr_en (f_hci f)" "uart_inv (f_uart f)"
    using r by (simp_all add: fpga_rest_def)
  consider (echo) ds where "c = Echo ds" | (rd) a n where "c = CpuMemRd a n \<or> c = PpuMemRd a n" | (short) "reply_len c \<le> 1"
    by (cases c) auto
  then show ?thesis
  proof cases
    case echo
    then have "in_echo (f_hci f) (encode c)" using q by (auto simp: in_echo_def)
    from echo_paced[OF r f this sends_packetD(1)[OF s] sends_packetD(4)[OF s echo]]
    show ?thesis by (rule paced_safe[OF tx])
  next
    case rd
    have "rd_inv rc ?line f (encode c) n" for n
    proof (induction n)
      case 0
      then show ?case using rd q i r
        by (auto simp: rd_inv_def Let_def rd_head_def f_rest_def rx_bytes_def fpga_rest_def rx_side_ready_def)
    qed (rule rd_inv_step[OF f q(3)])
    then show ?thesis using rd_inv_keeps by (intro fpga_tx_safe) blast
  next
    case short
    obtain n where "\<And>m. n \<le> m \<Longrightarrow> fpga_sent rc ?line f m = fst (exec c t)"
      using packet_settles[OF c r s, of rc] by metis
    then have "length (fpga_sent rc ?line f (n + m)) \<le> 1" for m using length_exec_reply[OF c(1)] short by simp
    then have "length (fpga_sent rc ?line f m) \<le> 1" for m
      using sent_mono[of m "n + m" rc ?line f] by (meson le_add2 order_trans)
    then show ?thesis by (intro paced_safe[OF tx] one_write_paced)
  qed
qed

lemma fpga_written: "uart_written line (fpga_client rc line f) (f_uart f) n = fpga_handed rc line f n"
  by (simp add: uart_written_def fpga_handed_def fpga_client_def Let_def)

text \<open>What a receiver at the other end has got by clock \<open>n\<close>, whether with a wrong parity bit, and its state.\<close>

abbreviation f_pin :: "(console \<Rightarrow> console \<times> bool) \<Rightarrow> (nat \<Rightarrow> bool) \<Rightarrow> fpga \<Rightarrow> nat \<Rightarrow> bool" where
  "f_pin rc line f k \<equiv> uart_tx_pin (f_uart (fpga_at rc line f k))"

definition heard :: "(console \<Rightarrow> console \<times> bool) \<Rightarrow> (nat \<Rightarrow> bool) \<Rightarrow> fpga \<Rightarrow> uart_rx \<Rightarrow> nat \<Rightarrow> byte list \<Rightarrow> bool" where
  "heard rc line f r n bs \<longleftrightarrow> rx_bytes (f_tick f) (f_pin rc line f) r n = bs \<and>
     \<not> rx_parity (f_tick f) (f_pin rc line f) r n \<and> rx_ready (rx_at (f_tick f) (f_pin rc line f) r n)"

text \<open>What the HCI has handed to the UART when it stops is heard.\<close>

lemma stream_heard:
  assumes i: "tx_idle f" and s: "tx_safe line (fpga_client rc line f) (f_uart f)" and h: "rx_ready h"
    and k: "\<And>m. k \<le> m \<Longrightarrow> \<not> q_wr_en (f_hci (fpga_at rc line f m))"
  obtains N where "k \<le> N" and "\<And>n. N \<le> n \<Longrightarrow> tx_idle (fpga_at rc line f n) \<and> heard rc line f h n (fpga_sent rc line f k)"
proof -
  let ?g = "fpga_at rc line f" and ?client = "fpga_client rc line f" and ?pin = "f_pin rc line f"
  have stop: "stops line ?client (f_uart f) k" using k by (simp add: stops_def)
  have tx: "tx_side_ready (f_uart f)" "fifo_list (uart_tx_fifo (f_uart f)) = []" using i by (simp_all add: tx_idle_def)
  have W: "uart_written line ?client (f_uart f) k = fpga_sent rc line f k"
    using k[of k] by (simp add: fpga_written fpga_sent_def fpga_handed_def Let_def)
  obtain N where N: "k \<le> N" "wired line ?client (f_uart f) h N (fpga_sent rc line f k)"
    "fifo_list (uart_tx_fifo (f_uart (?g N))) = []"
    using uart_streams[OF tx(1) s stop h] by (auto simp: tx(2) W fpga_uart)
  have idle: "tx_idle (?g n)" if n: "N \<le> n" for n
    using uart_idle[of line ?client "f_uart f" N n, OF wiredD(2)[OF N(2)] _ n] N(1,3) k
    by (simp add: tx_idle_def fpga_uart)
  have pin: "?pin n" if "N \<le> n" for n
    using idle[OF that] by (simp add: tx_idle_def tx_side_ready_def tx_ready_def uart_pins)
  have w: "rx_bytes (f_tick f) ?pin h N = fpga_sent rc line f k" "\<not> rx_parity (f_tick f) ?pin h N"
    "rx_ready (rx_at (f_tick f) ?pin h N)"
    using N(2) by (simp_all add: wired_def fpga_uart Let_def)
  have "heard rc line f h n (fpga_sent rc line f k)" if n: "N \<le> n" for n
    using rx_silence[OF w(3) pin n] w by (simp add: heard_def)
  then show thesis using that[OF N(1)] idle by blast
qed

lemma packet_heard:
  assumes c: "wf_cmd c" "plain_cmd c" "c \<noteq> DbgRun" and r: "fpga_rest t f" and i: "tx_idle f" and s: "sends_packet b fs c"
    and h: "rx_ready h"
  obtains N where "\<And>n. N \<le> n \<Longrightarrow> fpga_rest (snd (exec c t)) (fpga_at rc (host_send b fs) f n) \<and>
    tx_idle (fpga_at rc (host_send b fs) f n) \<and> heard rc (host_send b fs) f h n (fst (exec c t))"
proof -
  let ?line = "host_send b fs"
  obtain k where k: "\<And>m. k \<le> m \<Longrightarrow> fpga_rest (snd (exec c t)) (fpga_at rc ?line f m) \<and> fpga_sent rc ?line f m = fst (exec c t)"
    using packet_settles[OF c r s, of rc] by blast
  then have "\<And>m. k \<le> m \<Longrightarrow> \<not> q_wr_en (f_hci (fpga_at rc ?line f m))" by (simp add: fpga_rest_def)
  from stream_heard[OF i packet_tx_safe[OF c r i s, of rc] h this]
  obtain N where "k \<le> N" "\<And>n. N \<le> n \<Longrightarrow> tx_idle (fpga_at rc ?line f n) \<and> heard rc ?line f h n (fpga_sent rc ?line f k)" by blast
  then show thesis using that[of N] k by (metis order_refl order_trans)
qed

section \<open>One packet after the other\<close>

lemma fpga_shift: "fpga_at rc line f (s + n) = fpga_at rc (\<lambda>n. line (s + n)) (fpga_at rc line f s) n"
  by (induction n) simp_all

lemma fpga_cong:
  assumes "\<And>k. k < n \<Longrightarrow> line k = line' k"
  shows "fpga_at rc line f n = fpga_at rc line' f n"
  using assms by (induction n) simp_all

lemma f_tick_shift: "(\<lambda>n. f_tick f (s + n)) = f_tick (fpga_at rc line f s)"
  by (simp add: baud_tick_shift fpga_uart uart_cnt)

lemma heard_shift:
  assumes "heard rc line f h s bs"
    and "heard rc (\<lambda>n. line (s + n)) (fpga_at rc line f s) (rx_at (f_tick f) (f_pin rc line f) h s) n cs"
  shows "heard rc line f h (s + n) (bs @ cs)"
  using assms unfolding heard_def rx_shift f_tick_shift[of f s rc line] fpga_shift by simp

lemma heard_cong:
  assumes "\<And>k. k < n \<Longrightarrow> line k = line' k"
  shows "heard rc line f h n bs \<longleftrightarrow> heard rc line' f h n bs"
proof -
  have "f_pin rc line f k = f_pin rc line' f k" if "k < n" for k
    using fpga_cong[of k line line' rc f] assms that by simp
  note rx_cong[where tick = "f_tick f" and q = h, OF this]
  then show ?thesis by (simp add: heard_def)
qed

text \<open>The host waits \<open>k\<close> clocks longer before the first frame.\<close>

fun delay :: "nat \<Rightarrow> host_sends \<Rightarrow> host_sends" where
  "delay k [] = []"
| "delay k ((g, f, d, p) # fs) = (k + g, f, d, p) # fs"

lemma host_send_delay: "host_send b (delay k fs) n \<longleftrightarrow> n < k \<or> host_send b fs (n - k)"
proof (cases "n < k")
  case True
  then show ?thesis by (cases fs) auto
next
  case False
  then obtain m where "n = k + m" using le_Suc_ex[of k n] by auto
  then show ?thesis by (cases fs) (auto simp: add.assoc)
qed

lemma host_send_append:
  "host_send b (fs @ delay k fs') n \<longleftrightarrow>
     (if n < send_clks b fs + k then host_send b fs n else host_send b fs' (n - (send_clks b fs + k)))"
proof (induction fs arbitrary: n)
  case Nil
  then show ?case by (simp add: host_send_delay not_less)
next
  case (Cons x fs)
  obtain g f d p where x: "x = (g, f, d, p)" by (cases x)
  show ?case by (simp add: x Cons.IH) (auto simp: diff_diff_left add.assoc)
qed

lemma sends_packet_delay:
  "map (\<lambda>(g, f, d, p). d) (delay k fs) = map (\<lambda>(g, f, d, p). d) fs"
  "(\<forall>(g, f, d, p) \<in> set (delay k fs). p \<noteq> xor_bits d) \<longleftrightarrow> (\<forall>(g, f, d, p) \<in> set fs. p \<noteq> xor_bits d)"
  "host_ok b (delay k fs) \<longleftrightarrow> host_ok b fs"
  by (cases fs; auto simp: host_ok_def)+

lemma odd_frames_sent:
  assumes "2592 \<le> b" and "b \<le> 2705"
  shows "sends_packet b (odd_frames (encode c)) c"
  using assms by (auto simp: sends_packet_def odd_frames_def host_ok_def phase_ok_def comp_def)

text \<open>
  What a host has achieved that has sent the packets \<open>cs\<close> with the frames \<open>fs\<close>.
\<close>

definition served :: "(console \<Rightarrow> console \<times> bool) \<Rightarrow> rat \<Rightarrow> cmd list \<Rightarrow> host_sends \<Rightarrow> target \<Rightarrow> fpga \<Rightarrow> uart_rx \<Rightarrow> nat \<Rightarrow> bool" where
  "served rc b cs fs t f h n \<longleftrightarrow>
     fpga_rest (snd (exec_all cs t)) (fpga_at rc (host_send b fs) f n) \<and> tx_idle (fpga_at rc (host_send b fs) f n) \<and>
     heard rc (host_send b fs) f h n (fst (exec_all cs t))"

lemma served_one:
  assumes c: "wf_cmd c" "plain_cmd c" "c \<noteq> DbgRun" and f: "fpga_rest t f" "tx_idle f" and s: "sends_packet b fs c" and h: "rx_ready h"
  obtains N where "\<And>n. N \<le> n \<Longrightarrow> served rc b [c] fs t f h n"
  using packet_heard[OF c f s h, of rc] that by (auto simp: served_def split_beta)

lemma served_Cons:
  assumes s: "served rc b [c] fs t f h s" "send_clks b fs \<le> s"
    and n: "served rc b cs fs' (snd (exec c t)) (fpga_at rc (host_send b fs) f s)
      (rx_at (f_tick f) (f_pin rc (host_send b fs) f) h s) n"
  shows "served rc b (c # cs) (fs @ delay (s - send_clks b fs) fs') t f h (s + n)"
proof -
  define line where "line = host_send b (fs @ delay (s - send_clks b fs) fs')"
  have l: "line k = (if k < s then host_send b fs k else host_send b fs' (k - s))" for k
    using s(2) host_send_append[of b fs "s - send_clks b fs" fs' k] by (simp add: line_def)
  have after: "(\<lambda>n. line (s + n)) = host_send b fs'" by (simp add: l fun_eq_iff)
  have f: "fpga_at rc line f k = fpga_at rc (host_send b fs) f k" if "k \<le> s" for k
    using fpga_cong[of k line "host_send b fs"] that by (simp add: l)
  have h: "rx_at (f_tick f) (f_pin rc line f) h s = rx_at (f_tick f) (f_pin rc (host_send b fs) f) h s"
    using rx_cong(1)[of s "f_pin rc line f" "f_pin rc (host_send b fs) f"] f by simp
  have "heard rc line f h s (fst (exec c t))"
    using s(1) heard_cong[of s line "host_send b fs"] by (simp add: served_def split_beta l)
  from heard_shift[OF this, of n] n have "heard rc line f h (s + n) (fst (exec c t) @ fst (exec_all cs (snd (exec c t))))"
    unfolding after h f[OF order_refl] by (simp add: served_def)
  then show ?thesis
    using n unfolding served_def line_def[symmetric] fpga_shift[of rc line f s n] after f[OF order_refl]
    by (simp add: split_beta)
qed

text \<open>A whole session: the host starts each packet when it has the reply to the one before.\<close>

lemma session:
  assumes b: "2592 \<le> b" "b \<le> 2705" and ne: "cs \<noteq> []"
    and c: "\<forall>c \<in> set cs. wf_cmd c \<and> plain_cmd c \<and> c \<noteq> DbgRun"
    and f: "fpga_rest t f" "tx_idle f" and h: "rx_ready h"
  shows "\<exists>fs N. host_ok b fs \<and> map (\<lambda>(g, f, d, p). d) fs = concat (map encode cs) \<and>
    (\<forall>(g, f, d, p) \<in> set fs. p \<noteq> xor_bits d) \<and> (\<forall>n \<ge> N. served rc b cs fs t f h n)"
  using ne c f h
proof (induction cs arbitrary: t f h rule: list_nonempty_induct)
  case (single c)
  then obtain N where "\<And>n. N \<le> n \<Longrightarrow> served rc b [c] (odd_frames (encode c)) t f h n"
    using served_one[OF _ _ _ _ _ odd_frames_sent[OF b]] by (metis list.set_intros(1))
  then show ?case
    using sends_packetD(1-3)[OF odd_frames_sent[OF b, of c]] by (intro exI[of _ "odd_frames (encode c)"] exI[of _ N]) simp
next
  case (cons c cs)
  let ?fs = "odd_frames (encode c)"
  note sp = odd_frames_sent[OF b, of c]
  obtain N where N: "\<And>n. N \<le> n \<Longrightarrow> served rc b [c] ?fs t f h n"
    using served_one[OF _ _ _ cons.prems(2,3) sp cons.prems(4), of rc] cons.prems(1) by auto
  define s where "s = max N (send_clks b ?fs)"
  have s: "served rc b [c] ?fs t f h s" "send_clks b ?fs \<le> s" using N by (simp_all add: s_def)
  let ?f = "fpga_at rc (host_send b ?fs) f s" and ?h = "rx_at (f_tick f) (f_pin rc (host_send b ?fs) f) h s"
  have "fpga_rest (snd (exec c t)) ?f" "tx_idle ?f" "rx_ready ?h" using s(1) by (simp_all add: served_def heard_def split_beta)
  from cons.IH[OF _ this] cons.prems(1) obtain fs' M where fs': "host_ok b fs'"
    "map (\<lambda>(g, f, d, p). d) fs' = concat (map encode cs)" "\<forall>(g, f, d, p) \<in> set fs'. p \<noteq> xor_bits d"
    "\<forall>n \<ge> M. served rc b cs fs' (snd (exec c t)) ?f ?h n" by auto
  have "served rc b (c # cs) (?fs @ delay (s - send_clks b ?fs) fs') t f h n" if "s + M \<le> n" for n
    using served_Cons[OF s, of cs fs' "n - s"] fs'(4) that by simp
  moreover have "host_ok b (?fs @ delay (s - send_clks b ?fs) fs')"
    using sends_packetD(1)[OF sp] sends_packet_delay(3)[of b "s - send_clks b ?fs" fs'] fs'(1) by (auto simp: host_ok_def)
  moreover have "map (\<lambda>(g, f, d, p). d) (?fs @ delay (s - send_clks b ?fs) fs') = concat (map encode (c # cs))"
    using sends_packetD(2)[OF sp] sends_packet_delay(1) fs'(2) by simp
  moreover have "\<forall>(g, f, d, p) \<in> set (?fs @ delay (s - send_clks b ?fs) fs'). p \<noteq> xor_bits d"
    using sends_packetD(3)[OF sp] sends_packet_delay(2)[of "s - send_clks b ?fs" fs'] fs'(3) by auto
  ultimately show ?case by blast
qed

section \<open>Properties\<close>

text \<open>
  C3: From wire to wire: when a host with a bit time between 2475 and 2705 clocks sends the frames of a well-formed packet, other than
  DBG_RUN and a CPU_MEM_RD of the PPU's registers (an address from $2000 to $3FFF), to the
  FPGA with a halted console waiting and its transmitter idle, then the reply, all of it and
  nothing else, is on the FPGA's serial output, as frames from which a receiver reads its bytes in
  order and with right parity bits; and the FPGA is back waiting, its transmitter idle, with the
  memories, registers and configuration of the abstract target. An ECHO needs a host that does not send faster than the
  FPGA, 2592 clocks a bit or more: the HCI checks for room in the transmit buffer in the memory and register reads only.
\<close>

theorem fpga_answers:
  assumes "wf_cmd c" and "plain_cmd c" and "c \<noteq> DbgRun" and "fpga_rest t f" and "tx_idle f"
    and "sends_packet b fs c" and "rx_ready h"
  shows "\<exists>N. \<forall>n \<ge> N. fpga_rest (snd (exec c t)) (fpga_at rc (host_send b fs) f n) \<and>
    tx_idle (fpga_at rc (host_send b fs) f n) \<and> heard rc (host_send b fs) f h n (fst (exec c t))"
  using packet_heard[OF assms, of rc] by blast

lemma power_on_tx_idle: "tx_idle power_on_fpga"
  using new_uart_ready(2) by (simp add: tx_idle_def power_on_fpga_def new_uart_def uart_reset_def reset_inv)

lemma rd_block_two: "rd_block rd t a 2 = [rd t a, rd t (a + 1)]"
  by (simp add: numeral_2_eq_2)

lemma fpga_answers_witness:
  "\<exists>n. heard (\<lambda>c. (c, False)) (host_send (15625 / 6) (odd_frames (encode (CpuMemRd 0x10 2)))) power_on_fpga rx_reset n [0, 0]"
proof -
  have c: "wf_cmd (CpuMemRd 0x10 2)" "plain_cmd (CpuMemRd 0x10 2)" "CpuMemRd 0x10 2 \<noteq> DbgRun"
    by (auto simp: wf_cmd_def ri_ncs_def less_2_cases_iff)
  have s: "sends_packet (15625 / 6) (odd_frames (encode (CpuMemRd 0x10 2))) (CpuMemRd 0x10 2)"
    by (rule odd_frames_sent) simp_all
  have "fst (exec (CpuMemRd 0x10 2) power_on_target) = [0, 0]"
    by (simp add: rd_block_two t_cpu_rd_def wram_en_def power_on_target_def)
  with fpga_answers[OF c power_on_fpga_rest power_on_tx_idle s host_rx_ready, of "\<lambda>c. (c, False)"]
  show ?thesis by (metis order_refl)
qed

text \<open>
  C4: A whole session on the wire: a host with a bit time of 2592 to 2705 clocks, 38400 baud among
  them, can have the FPGA with a halted console execute any sequence of well-formed packets, none of them DBG_RUN or a CPU_MEM_RD of
  the PPU's registers (an address from $2000 to $3FFF), sent with pauses in
  which it waits for the replies: there are pauses with which the FPGA's serial output carries exactly the replies
  of the abstract target to all of them in order, and the FPGA ends waiting for the next packet in the state of the target.
\<close>

theorem fpga_session:
  assumes "2592 \<le> b" and "b \<le> 2705" and "cs \<noteq> []"
    and "\<forall>c \<in> set cs. wf_cmd c \<and> plain_cmd c \<and> c \<noteq> DbgRun"
    and "fpga_rest t f" and "tx_idle f" and "rx_ready h"
  shows "\<exists>fs N. host_ok b fs \<and> map (\<lambda>(g, f, d, p). d) fs = concat (map encode cs) \<and>
    (\<forall>(g, f, d, p) \<in> set fs. p \<noteq> xor_bits d) \<and>
    (\<forall>n \<ge> N. fpga_rest (snd (exec_all cs t)) (fpga_at rc (host_send b fs) f n) \<and>
       tx_idle (fpga_at rc (host_send b fs) f n) \<and> heard rc (host_send b fs) f h n (fst (exec_all cs t)))"
  using session[OF assms, of rc] unfolding served_def .

lemma fpga_session_witness:
  "\<exists>fs n. map (\<lambda>(g, f, d, p). d) fs = encode (CpuMemWr 0x10 [7, 8]) @ encode (CpuMemRd 0x10 2) \<and>
     heard (\<lambda>c. (c, False)) (host_send (15625 / 6) fs) power_on_fpga rx_reset n [7, 8]"
proof -
  let ?cs = "[CpuMemWr 0x10 [7, 8], CpuMemRd 0x10 2]"
  have c: "\<forall>c \<in> set ?cs. wf_cmd c \<and> plain_cmd c \<and> c \<noteq> DbgRun"
    by (auto simp: wf_cmd_def ri_ncs_def less_2_cases_iff)
  have "fst (exec_all ?cs power_on_target) = [7, 8]"
    by (simp add: rd_block_two t_cpu_rd_def t_cpu_wr_def wram_en_def power_on_target_def)
  moreover have "2592 \<le> (15625 / 6 :: rat)" "(15625 / 6 :: rat) \<le> 2705" "?cs \<noteq> []" by simp_all
  moreover have "concat (map encode ?cs) = encode (CpuMemWr 0x10 [7, 8]) @ encode (CpuMemRd 0x10 2)" by simp
  ultimately show ?thesis
    using fpga_session[OF _ _ _ c power_on_fpga_rest power_on_tx_idle host_rx_ready, of "15625 / 6" "\<lambda>c. (c, False)"]
    by (metis order_refl)
qed

end
