(* ===== verification/Rig.thy ===== *)
theory Rig
  imports Bench Hci_Packets
begin

text \<open>
  The host program's serial port with the modelled FPGA at its other end: writing to it puts the
  bytes in the HCI's receive queue and lets clock cycles pass until the board has nothing left to
  do; reading takes from what the board has sent. The contract \<open>nes_link\<close> under which the host is
  verified is a theorem about this world, so its properties hold of the host and the
  cycle-level board together.
\<close>

section \<open>A board that has nothing left to do\<close>

definition at_rest :: "board \<Rightarrow> bool" where
  "at_rest b \<longleftrightarrow> rxq b = [] \<and> (q_state (hci b) = S_DECODE \<or> q_state (hci b) = S_DISABLED)"

text \<open>Cycles pass until the board is at rest.\<close>

definition rest_time :: "(console \<Rightarrow> console \<times> bool) \<Rightarrow> (nat \<Rightarrow> bool) \<Rightarrow> board \<Rightarrow> nat" where
  "rest_time rc full b = (LEAST n. at_rest (run rc full n b))"

definition settle :: "(console \<Rightarrow> console \<times> bool) \<Rightarrow> (nat \<Rightarrow> bool) \<Rightarrow> board \<Rightarrow> board" where
  "settle rc full b = run rc full (rest_time rc full b) b"

section \<open>The buses belong to the HCI until the packet is done\<close>

text \<open>
  \<open>run_cpu\<close> does not matter as long as the HCI is active; and it is active until the packet is
  done, since a CPU that had a cycle in between could leave a mark that no packet removes.
\<close>

lemma run_cong:
  assumes "\<And>i. i < n \<Longrightarrow> hci_active (hci (run rc full i b))"
  shows "run rc' full n b = run rc full n b"
  using assms
proof (induction n arbitrary: full b)
  case (Suc n)
  have "hci_active (hci b)" using Suc.prems[of 0] by simp
  then have "cycle rc' (full 0) b = cycle rc (full 0) b" by (simp add: cycle_active)
  then show ?case using Suc.IH[of "\<lambda>i. full (Suc i)" "cycle rc (full 0) b"] Suc.prems[of "Suc i" for i]
    by simp
qed simp

definition marking :: "bool \<Rightarrow> console \<Rightarrow> console \<times> bool" where
  "marking k c = (c\<lparr>cpu := (cpu c)\<lparr>irq_brk := k\<rparr>\<rparr>, False)"

abbreviation mark :: "board \<Rightarrow> bool" where
  "mark b \<equiv> irq_brk (cpu (con b))"

lemma mark_cycle:
  "hci_active (hci b) \<Longrightarrow> mark (cycle rc f b) = mark b"
  "\<not> hci_active (hci b) \<Longrightarrow> mark (cycle (marking k) f b) = k"
  by (simp_all add: cycle_active bus_clk_def dbgreg_write_def cycle_def marking_def Let_def split_beta)

lemma mark_run: "mark b = k \<Longrightarrow> mark (run (marking k) full n b) = k"
  by (induction n arbitrary: full b) (metis mark_cycle run.simps)+

lemma mark_set:
  assumes "i < n" and "\<not> hci_active (hci (run (marking k) full i b))"
  shows "mark (run (marking k) full n b) = k"
proof -
  obtain m where n: "n = i + Suc m" using assms(1) less_iff_Suc_add by auto
  show ?thesis unfolding n run_add run.simps by (intro mark_run mark_cycle(2)[OF assms(2)])
qed

lemma mark_wr_block:
  "irq_brk (t_cpu (wr_block t_cpu_wr a ds t)) = irq_brk (t_cpu t)"
  "irq_brk (t_cpu (wr_block t_ppu_wr a ds t)) = irq_brk (t_cpu t)"
  by (induction ds arbitrary: a t) (simp_all add: t_cpu_wr_def t_ppu_wr_def)

lemma mark_exec: "irq_brk (t_cpu (snd (exec c t))) = irq_brk (t_cpu t)"
  by (cases c) (simp_all add: mark_wr_block dbgreg_write_def Let_def)

lemma packet_run:
  assumes wf: "wf_cmd c" "plain_cmd c" and b: "at_decode (encode c @ rx) out t b" and f: "fair full"
  obtains n where "packet_done c rx (out @ fst (exec c t)) (snd (exec c t)) (run rc full n b)"
    and "\<And>i. i < n \<Longrightarrow> hci_active (hci (run rc full i b))"
proof -
  let ?k = "\<not> irq_brk (t_cpu t)"
  obtain n where n: "packet_done c rx (out @ fst (exec c t)) (snd (exec c t)) (run (marking ?k) full n b)"
    using leads_run[OF leads_packet[OF wf] f b] by blast
  then have "irq_brk (t_cpu t) = mark (run (marking ?k) full n b)"
    using mark_exec[of c t] by (auto simp: packet_done_def st_def simp flip: abs_board_sels(4))
  then have act: "hci_active (hci (run (marking ?k) full i b))" if "i < n" for i
    using mark_set[OF that, of ?k full b] by blast
  then have "run rc full i b = run (marking ?k) full i b" if "i \<le> n" for i
    using that by (intro run_cong) auto
  then show ?thesis using that[of n] n act by simp
qed

section \<open>Coming to rest\<close>

lemma rest_time_props:
  assumes "at_rest (run rc full n b)"
  shows "at_rest (settle rc full b)" and "rest_time rc full b \<le> n"
  unfolding settle_def rest_time_def
  by (rule LeastI[of "\<lambda>n. at_rest (run rc full n b)", OF assms],
      rule Least_le[of "\<lambda>n. at_rest (run rc full n b)", OF assms])

lemma at_decode_rest: "at_decode [] out t b \<Longrightarrow> at_rest b"
  by (auto simp: at_decode_def st_def at_rest_def)

lemma at_decode_abs: "at_decode rx out t b \<Longrightarrow> t = abs_board b \<and> out = sent b \<and> hci_active (hci b)"
  by (auto simp: at_decode_def st_def hci_active_def)

lemma at_decode_all:
  "at_decode [] out t b \<Longrightarrow> at_rest b \<and> t = abs_board b \<and> out = sent b \<and> hci_active (hci b)"
  using at_decode_abs at_decode_rest by blast

lemma rest_decode: "at_rest b \<Longrightarrow> hci_active (hci b) \<Longrightarrow> at_decode [] (sent b) (abs_board b) b"
  by (auto simp: at_decode_def st_def at_rest_def hci_active_def)

lemma packet_done_rest: "packet_done c [] out t b \<Longrightarrow> at_rest b"
  by (auto simp: packet_done_def st_def at_rest_def split: if_splits)

lemma packet_done_run: "c = DbgRun \<Longrightarrow> packet_done c rx out t b \<Longrightarrow> \<not> hci_active (hci b)"
  by (auto simp: packet_done_def st_def hci_active_def)

text \<open>Coming to rest after a packet is being done with it.\<close>

lemma settle_packet:
  assumes wf: "wf_cmd c" "plain_cmd c" and b: "at_decode (encode c) out t b" and f: "fair full"
  shows "packet_done c [] (out @ fst (exec c t)) (snd (exec c t)) (settle rc full b)"
proof -
  obtain n where n: "packet_done c [] (out @ fst (exec c t)) (snd (exec c t)) (run rc full n b)"
    and act: "\<And>i. i < n \<Longrightarrow> hci_active (hci (run rc full i b))"
    using packet_run[OF wf, of "[]" out t b full rc] b f by auto
  let ?m = "rest_time rc full b"
  note m = rest_time_props[OF packet_done_rest[OF n]]
  show ?thesis
  proof (cases "?m = n")
    case True
    then show ?thesis using n by (simp add: settle_def)
  next
    case False
    with m(2) obtain d where d: "n = ?m + d" and "?m < n" using le_Suc_ex by (metis le_neq_implies_less)
    then have dec: "at_decode [] (sent (settle rc full b)) (abs_board (settle rc full b)) (settle rc full b)"
      using rest_decode[OF m(1)] act by (simp add: settle_def)
    have "run rc full n b = run rc (\<lambda>i. full (?m + i)) d (settle rc full b)"
      using d run_add[of rc full ?m d b] by (simp add: settle_def)
    with idle_run[OF dec] have fin: "at_decode [] (sent (settle rc full b)) (abs_board (settle rc full b)) (run rc full n b)"
      by simp
    then have "c \<noteq> DbgRun" using fin packet_done_run[OF _ n] at_decode_abs by blast
    with n fin dec show ?thesis using at_decode_abs by (metis packet_done_decode)
  qed
qed

lemma settle_rest: "at_rest b \<Longrightarrow> settle rc full b = b"
  by (simp add: settle_def rest_time_def Least_eq_0)

lemma settle_step:
  assumes "\<not> at_rest b" and "at_rest (run rc (\<lambda>i. full (Suc i)) n (cycle rc (full 0) b))"
  shows "settle rc full b = settle rc (\<lambda>i. full (Suc i)) (cycle rc (full 0) b)"
proof -
  have "rest_time rc full b = Suc (rest_time rc (\<lambda>i. full (Suc i)) (cycle rc (full 0) b))"
    unfolding rest_time_def
    using Least_Suc[of "\<lambda>n. at_rest (run rc full n b)" "Suc n"] assms by simp
  then show ?thesis by (simp add: settle_def)
qed

section \<open>Packets to a running console\<close>

lemma rest_cases:
  assumes "at_rest b"
  obtains "at_decode [] (sent b) (abs_board b) b" | "running [] (sent b) b" "\<not> hci_active (hci b)"
  using assms rest_decode[OF assms] by (auto simp: at_rest_def running_def hci_active_def)

lemma receive_decode: "at_decode [] out t b \<Longrightarrow> at_decode bs out t (receive bs b)"
  by (simp add: at_decode_def st_def)

lemma receive_running: "running [] out b \<Longrightarrow> running bs out (receive bs b)"
  by (simp add: running_def)

lemma encode_nonempty: "encode c \<noteq> []"
  by (cases c) simp_all

lemma settle_running:
  assumes r: "running (encode c) out b" and c: "wf_cmd c" "plain_cmd c" "c \<noteq> DbgRun" and f: "fair full"
    and brk: "snd (rc (con b)) \<Longrightarrow> halted (encode c) out (cycle rc (full 0) b)"
  shows "(\<exists>t. at_decode [] (out @ fst (exec c t)) (snd (exec c t)) (settle rc full b)) \<or>
    \<not> snd (rc (con b)) \<and> (at_rest (cycle rc (full 0) b) \<longrightarrow> settle rc full b = cycle rc (full 0) b)"
proof -
  have n: "\<not> at_rest b" using r encode_nonempty[of c] by (auto simp: at_rest_def running_def)
  let ?b = "cycle rc (full 0) b" and ?f = "\<lambda>i. full (Suc i)"
  show ?thesis
  proof (cases "snd (rc (con b))")
    case True
    with brk obtain t where "at_decode (encode c) out t ?b" by (auto simp: halted_def)
    with settle_packet[OF c(1,2) this, of ?f rc] fair_shift[OF f, of 1] c(3)
    have d: "at_decode [] (out @ fst (exec c t)) (snd (exec c t)) (settle rc ?f ?b)"
      by (simp add: packet_done_decode)
    then have "settle rc full b = settle rc ?f ?b"
      using settle_step[OF n] at_decode_rest unfolding settle_def by blast
    with d show ?thesis by metis
  next
    case False
    have "settle rc full b = ?b" if "at_rest ?b"
      using settle_step[OF n, of rc full 0] settle_rest[OF that] that by simp
    with False show ?thesis by blast
  qed
qed

lemma settle_halt:
  fixes rc
  assumes "at_rest b" and f: "fair full"
  defines "b' \<equiv> settle rc full (receive (encode DbgHlt) b)"
  shows "at_rest b' \<and> hci_active (hci b') \<and> sent b' = sent b"
  using assms(1)
proof (cases rule: rest_cases)
  case 1
  from settle_packet[where c = DbgHlt and rc = rc, OF _ _ receive_decode[OF 1] f] show ?thesis
    unfolding b'_def by (auto simp: wf_cmd_def packet_done_decode dest: at_decode_all)
next
  case 2
  let ?b = "receive (encode DbgHlt) b"
  note r = receive_running[OF 2(1), of "encode DbgHlt"]
  have "halted [] (sent b) (cycle rc (full 0) ?b)" if "\<not> snd (rc (con ?b))"
    using c_running(2)[of "opcode OpDbgHlt" "[]" "sent b" ?b rc "full 0"] r that by (simp del: opcode.simps)
  moreover have "halted (encode DbgHlt) (sent b) (cycle rc (full 0) ?b)" if "snd (rc (con ?b))"
    using c_running(1)[of "opcode OpDbgHlt" "[]" "sent b" ?b rc "full 0"] r that by (simp del: opcode.simps)
  ultimately show ?thesis
    using settle_running[OF r _ _ _ f, of rc] unfolding b'_def halted_def
    by (fastforce simp: wf_cmd_def dest: at_decode_all)
qed

lemma settle_query:
  fixes rc
  assumes "at_rest b" and f: "fair full"
  defines "b' \<equiv> settle rc full (receive (encode QueryHlt) b)"
  shows "at_rest b' \<and> (hci_active (hci b') \<and> sent b' = sent b @ [1] \<or> sent b' = sent b @ [0])"
  using assms(1)
proof (cases rule: rest_cases)
  case 1
  from settle_packet[where c = QueryHlt and rc = rc, OF _ _ receive_decode[OF 1] f] show ?thesis
    unfolding b'_def by (auto simp: wf_cmd_def packet_done_decode dest: at_decode_all)
next
  case 2
  let ?b = "receive (encode QueryHlt) b"
  note r = receive_running[OF 2(1), of "encode QueryHlt"]
  have "running [] (sent b @ [0]) (cycle rc (full 0) ?b)" if "\<not> snd (rc (con ?b))"
    using c_running(3)[of "opcode OpQueryHlt" "[]" "sent b" ?b rc "full 0"] r that by (simp del: opcode.simps)
  then have "at_rest (cycle rc (full 0) ?b) \<and> sent (cycle rc (full 0) ?b) = sent b @ [0]"
    if "\<not> snd (rc (con ?b))" using that by (simp add: running_def at_rest_def)
  moreover have "halted (encode QueryHlt) (sent b) (cycle rc (full 0) ?b)" if "snd (rc (con ?b))"
    using c_running(1)[of "opcode OpQueryHlt" "[]" "sent b" ?b rc "full 0"] r that by (simp del: opcode.simps)
  ultimately show ?thesis
    using settle_running[OF r _ _ _ f, of rc] unfolding b'_def
    by (fastforce simp: wf_cmd_def dest: at_decode_all)
qed

section \<open>Time passes\<close>

lemma sent_cycle: "length (sent b) \<le> length (sent (cycle rc f b))"
  by (simp add: cycle_def sent_def Let_def split_beta)

lemma sent_run: "length (sent b) \<le> length (sent (run rc full n b))"
  by (induction n arbitrary: full b) (simp, metis run.simps(2) sent_cycle order_trans)

lemma rest_run:
  assumes "at_rest b"
  shows "at_rest (run rc full n b) \<and> sent (run rc full n b) = sent b \<and>
    (hci_active (hci b) \<longrightarrow> hci_active (hci (run rc full n b)) \<and> abs_board (run rc full n b) = abs_board b)"
  using assms
proof (induction n arbitrary: full b)
  case (Suc n)
  let ?b = "cycle rc (full 0) b"
  have "at_rest ?b \<and> sent ?b = sent b \<and> (hci_active (hci b) \<longrightarrow> hci_active (hci ?b) \<and> abs_board ?b = abs_board b)"
    using Suc.prems
  proof (cases rule: rest_cases)
    case 1
    from idle_run[OF this, of rc full 1] show ?thesis by (auto dest: at_decode_all)
  next
    case 2
    with c_running_idle[OF 2(1), of rc "full 0"] show ?thesis
      by (auto simp: at_rest_def running_def halted_def dest: at_decode_all split: if_splits)
  qed
  then show ?case using Suc.IH[of ?b "\<lambda>i. full (Suc i)"] by simp
qed simp

section \<open>The world\<close>

text \<open>The transmit FIFO's schedule, which is not full for ever, and the line: a board at rest and how
  many of the bytes it has sent have been read.\<close>

typedef schedule = "{full. fair full}" morphisms full_at Schedule
  by (rule exI[of _ "\<lambda>_. False"]) (auto simp: fair_def)

lemma power_on_rest: "at_rest (power_on [])"
  using power_on_decode at_decode_rest by blast

typedef line = "{(b, k). at_rest b \<and> k \<le> length (sent b)}" morphisms line_rep Line
  by (rule exI[of _ "(power_on [], 0)"]) (simp add: power_on_rest)

definition l_board :: "line \<Rightarrow> board" where
  "l_board l = fst (line_rep l)"

definition l_read :: "line \<Rightarrow> nat" where
  "l_read l = snd (line_rep l)"

definition l_unread :: "line \<Rightarrow> byte list" where
  "l_unread l = drop (l_read l) (sent (l_board l))"

text \<open>A step of the line that would not leave the board at rest does not happen: the call hangs.\<close>

definition l_become :: "board \<Rightarrow> nat \<Rightarrow> line \<Rightarrow> line" where
  "l_become b k l = (if at_rest b \<and> k \<le> length (sent b) then Line (b, k) else l)"

lemma line_props: "at_rest (l_board l)" "l_read l \<le> length (sent (l_board l))"
  using line_rep[of l] by (auto simp: l_board_def l_read_def)

lemma l_become:
  assumes "at_rest b" and "k \<le> length (sent b)"
  shows "l_board (l_become b k l) = b" and "l_read (l_become b k l) = k"
  using assms by (simp_all add: l_become_def l_board_def l_read_def Line_inverse)

lemma full_shift: "fair (\<lambda>i. full_at s (k + i))"
  using full_at[of s] by (intro fair_shift) simp

record rig =
  g_line :: line
  g_time :: nat
  g_stk :: "lua_value list"

text \<open>The clock has \<open>clocks_per_ms\<close> cycles in a millisecond (\<^verbatim>\<open>CLK_100MHZ\<close>).\<close>

definition clocks_per_ms :: nat where
  "clocks_per_ms = 100000"

type_synonym cpu_cycle = "console \<Rightarrow> console \<times> bool"

definition rig_write :: "cpu_cycle \<Rightarrow> schedule \<Rightarrow> uint \<Rightarrow> byte list \<Rightarrow> rig \<Rightarrow> (bool \<times> uint) \<times> rig" where
  "rig_write rc s k bs w =
     (if k = bench_port then
        (let full = \<lambda>i. full_at s (g_time w + i); b = receive bs (l_board (g_line w)) in
         ((True, of_nat (length bs)),
          w\<lparr>g_line := l_become (settle rc full b) (l_read (g_line w)) (g_line w),
            g_time := g_time w + rest_time rc full b\<rparr>))
      else ((False, 0), w))"

definition rig_read :: "bench_cfg \<Rightarrow> uint \<Rightarrow> uint \<Rightarrow> rig \<Rightarrow> (bool \<times> byte list) \<times> rig" where
  "rig_read cfg k n w =
     (if k = bench_port then
        (let bs = take (unat n) (l_unread (g_line w)) in
         ((True, bs),
          w\<lparr>g_line := l_become (l_board (g_line w)) (l_read (g_line w) + length bs) (g_line w)\<rparr>))
      else if k = bench_file then ((True, take (unat n) (c_data cfg)), w)
      else ((False, []), w))"

definition rig_sleep :: "cpu_cycle \<Rightarrow> schedule \<Rightarrow> uint \<Rightarrow> rig \<Rightarrow> rig" where
  "rig_sleep rc s ms w =
     (let n = unat ms * clocks_per_ms in
      w\<lparr>g_line := l_become (run rc (\<lambda>i. full_at s (g_time w + i)) n (l_board (g_line w)))
          (l_read (g_line w)) (g_line w),
        g_time := g_time w + n\<rparr>)"

definition rig_upd :: "(lua_value list \<Rightarrow> lua_value list) \<Rightarrow> rig \<Rightarrow> rig" where
  "rig_upd f w = w\<lparr>g_stk := f (g_stk w)\<rparr>"

definition rig_env :: "cpu_cycle \<Rightarrow> schedule \<Rightarrow> bench_cfg \<Rightarrow> rig env" where
  "rig_env rc s cfg = desk_env g_stk rig_upd (rig_write rc s) (rig_read cfg) (rig_sleep rc s) cfg"

definition rig_tgt :: "rig \<Rightarrow> target" where
  "rig_tgt w = abs_board (l_board (g_line w))"

definition rig_in :: "rig \<Rightarrow> byte list" where
  "rig_in w = l_unread (g_line w)"

section \<open>The contracts hold\<close>

lemma rig_write_settle:
  assumes "at_rest b'" and "sent b' = sent (l_board (g_line w)) @ bs'"
    and "b' = settle rc (\<lambda>i. full_at s (g_time w + i)) (receive bs (l_board (g_line w)))"
  shows "fst (rig_write rc s bench_port bs w) = (True, of_nat (length bs)) \<and>
    rig_tgt (snd (rig_write rc s bench_port bs w)) = abs_board b' \<and>
    rig_in (snd (rig_write rc s bench_port bs w)) = rig_in w @ bs'"
  using assms line_props[of "g_line w"] l_become[of b' "l_read (g_line w)" "g_line w"]
  by (simp add: rig_write_def rig_tgt_def rig_in_def l_unread_def Let_def)

lemma rig_write_packet:
  assumes "t_halted (rig_tgt w)" and c: "wf_cmd c" "plain_cmd c"
  shows "fst (rig_write rc s bench_port (encode c) w) = (True, of_nat (length (encode c))) \<and>
    rig_tgt (snd (rig_write rc s bench_port (encode c) w)) = snd (exec c (rig_tgt w)) \<and>
    rig_in (snd (rig_write rc s bench_port (encode c) w)) = rig_in w @ fst (exec c (rig_tgt w))"
proof -
  let ?b = "l_board (g_line w)" and ?full = "\<lambda>i. full_at s (g_time w + i)"
  have "hci_active (hci ?b)" using assms(1) by (simp add: rig_tgt_def)
  then have "at_decode [] (sent ?b) (rig_tgt w) ?b" unfolding rig_tgt_def by (rule rest_decode[OF line_props(1)])
  note d = settle_packet[OF c receive_decode[OF this] full_shift[of s "g_time w"], of rc]
  then have "sent (settle rc ?full (receive (encode c) ?b)) = sent ?b @ fst (exec c (rig_tgt w))"
    and a: "abs_board (settle rc ?full (receive (encode c) ?b)) = snd (exec c (rig_tgt w))"
    by (auto simp: packet_done_def st_def)
  from rig_write_settle[OF packet_done_rest[OF d] this(1) refl] a show ?thesis by simp
qed

lemma rig_write_query:
  "\<exists>v. (v = 0 \<or> v = 1) \<and> fst (rig_write rc s bench_port (encode QueryHlt) w) = (True, of_nat (length (encode QueryHlt))) \<and>
     rig_in (snd (rig_write rc s bench_port (encode QueryHlt) w)) = rig_in w @ [v] \<and>
     (v = 1 \<longrightarrow> t_halted (rig_tgt (snd (rig_write rc s bench_port (encode QueryHlt) w))))"
proof -
  define b' where "b' = settle rc (\<lambda>i. full_at s (g_time w + i)) (receive (encode QueryHlt) (l_board (g_line w)))"
  from settle_query[OF line_props(1)[of "g_line w"] full_shift[of s "g_time w"], of rc]
  consider (halted) "at_rest b'" "hci_active (hci b')" "sent b' = sent (l_board (g_line w)) @ [1]"
    | (running) "at_rest b'" "sent b' = sent (l_board (g_line w)) @ [0]"
    unfolding b'_def by blast
  then show ?thesis
  proof cases
    case halted
    from rig_write_settle[OF this(1,3) b'_def] halted(2) show ?thesis by (intro exI[of _ 1]) simp
  next
    case running
    from rig_write_settle[OF this b'_def] show ?thesis by (intro exI[of _ 0]) simp
  qed
qed

interpretation rig_link: nes_link "rig_env rc s cfg" bench_port rig_tgt rig_in for rc s cfg
proof
  fix w :: rig and c :: cmd and n :: uint
  have env: "WriteFile (rig_env rc s cfg) = rig_write rc s" "ReadFile (rig_env rc s cfg) = rig_read cfg"
    by (simp_all add: rig_env_def desk_env_def)
  note rest = line_props[of "g_line w"]
  show "t_halted (rig_tgt w) \<Longrightarrow> wf_cmd c \<Longrightarrow> plain_cmd c \<Longrightarrow>
      fst (WriteFile (rig_env rc s cfg) bench_port (encode c) w) = (True, of_nat (length (encode c))) \<and>
      rig_tgt (snd (WriteFile (rig_env rc s cfg) bench_port (encode c) w)) = snd (exec c (rig_tgt w)) \<and>
      rig_in (snd (WriteFile (rig_env rc s cfg) bench_port (encode c) w)) = rig_in w @ fst (exec c (rig_tgt w))"
    unfolding env by (rule rig_write_packet)
  have "length (encode DbgHlt) = 1" "length (encode QueryHlt) = 1" by simp_all
  then show "fst (WriteFile (rig_env rc s cfg) bench_port (encode DbgHlt) w) = (True, 1) \<and>
      t_halted (rig_tgt (snd (WriteFile (rig_env rc s cfg) bench_port (encode DbgHlt) w))) \<and>
      rig_in (snd (WriteFile (rig_env rc s cfg) bench_port (encode DbgHlt) w)) = rig_in w"
    unfolding env
    using settle_halt[OF rest(1) full_shift[of s "g_time w"], of rc]
      rig_write_settle[OF _ _ refl, of rc s w "encode DbgHlt" "[]"] by (simp del: encode.simps)
  show "fst (WriteFile (rig_env rc s cfg) bench_port (encode QueryHlt) w) = (True, 1) \<and>
      (\<exists>v. (v = 0 \<or> v = 1) \<and> rig_in (snd (WriteFile (rig_env rc s cfg) bench_port (encode QueryHlt) w)) = rig_in w @ [v] \<and>
         (v = 1 \<longrightarrow> t_halted (rig_tgt (snd (WriteFile (rig_env rc s cfg) bench_port (encode QueryHlt) w)))))"
    unfolding env using rig_write_query[of rc s w] \<open>length (encode QueryHlt) = 1\<close> by (auto simp del: encode.simps)
  show "unat n \<le> length (rig_in w) \<Longrightarrow>
      fst (ReadFile (rig_env rc s cfg) bench_port n w) = (True, take (unat n) (rig_in w)) \<and>
      rig_tgt (snd (ReadFile (rig_env rc s cfg) bench_port n w)) = rig_tgt w \<and>
      rig_in (snd (ReadFile (rig_env rc s cfg) bench_port n w)) = drop (unat n) (rig_in w)"
    unfolding env using rest l_become[of "l_board (g_line w)" "l_read (g_line w) + unat n" "g_line w"]
    by (simp add: rig_read_def rig_tgt_def rig_in_def l_unread_def Let_def min_def add.commute)
qed

interpretation rig_lua: lua_vm "rig_env rc s cfg" g_stk for rc s cfg
  unfolding rig_env_def by (rule desk_lua_vm) (simp add: rig_upd_def)

lemma rig_sleep_rest:
  "rig_in (rig_sleep rc s ms w) = rig_in w"
  "t_halted (rig_tgt w) \<Longrightarrow> rig_tgt (rig_sleep rc s ms w) = rig_tgt w"
  using rest_run[OF line_props(1)[of "g_line w"]] line_props(2)[of "g_line w"]
  by (simp_all add: rig_sleep_def rig_in_def rig_tgt_def l_unread_def l_become Let_def)

lemma rig_frames:
  "g_stk (snd (rig_write rc s k bs w)) = g_stk w" "g_stk (snd (rig_read cfg k n w)) = g_stk w"
  "g_stk (rig_sleep rc s ms w) = g_stk w"
  "rig_tgt (rig_upd f w) = rig_tgt w" "rig_in (rig_upd f w) = rig_in w"
  by (simp_all add: rig_write_def rig_read_def rig_sleep_def rig_upd_def rig_tgt_def rig_in_def Let_def)

interpretation rig_script: script_host "rig_env rc s cfg" bench_port rig_tgt rig_in g_stk for rc s cfg
  by unfold_locales (simp_all add: rig_env_def desk_env_def rig_frames rig_sleep_rest)

interpretation rig_ui: ui_host "rig_env rc s cfg" bench_port rig_tgt rig_in g_stk for rc s cfg
  unfolding rig_env_def
  by (rule desk_ui_host[OF rig_script.script_host_axioms[unfolded rig_env_def]])
    (simp add: quiet_def rig_read_def)

end
