(* ===== verification/Wire.thy ===== *)
theory Wire
  imports Fpga_Reply Rig
begin

text \<open>
  What a host at 38400 baud sees that sends one packet and waits until the FPGA is done: for a halted and for a
  running console, whatever its CPU does. This is what the world of theory \<open>Wire_Rig\<close> is made of.
\<close>

section \<open>An FPGA that waits\<close>

abbreviation f_state :: "fpga \<Rightarrow> hci_state" where
  "f_state g \<equiv> hci_regs.q_state (f_hci g)"

text \<open>Nothing is on its way in or out; the console is halted, or it runs.\<close>

definition waits :: "fpga \<Rightarrow> bool" where
  "waits f \<longleftrightarrow> f_state f \<in> {S_DECODE, S_DISABLED} \<and> \<not> q_wr_en (f_hci f) \<and> rx_side_ready (f_uart f) \<and>
     \<not> uart_parity_err (f_uart f) \<and> uart_inv (f_uart f) \<and> tx_idle f"

lemma waits_rest: "waits f \<Longrightarrow> f_state f = S_DECODE \<Longrightarrow> fpga_rest (fpga_target f) f"
  by (simp add: waits_def fpga_rest_def)

lemma rest_waits: "fpga_rest t f \<Longrightarrow> tx_idle f \<Longrightarrow> waits f \<and> f_state f = S_DECODE \<and> fpga_target f = t"
  by (simp add: waits_def fpga_rest_def)

lemma waits_feeding:
  assumes w: "waits f" and e: "expects (f_hci f) (map (\<lambda>(g, f, d, p). d) fs)"
    and h: "host_ok b fs" "\<forall>(g, f, d, p) \<in> set fs. p \<noteq> xor_bits d"
  shows "feeding (host_send b fs) f (map (\<lambda>(g, f, d, p). d) fs) (send_clks b fs)"
    and "send_clks b fs \<le> n \<Longrightarrow> rx_ready (f_rx (host_send b fs) f n)"
proof -
  have q: "rx_ready (uart_rx_blk (f_uart f))" "unat (q_cnt (f_uart f)) < 162"
    using w by (simp_all add: waits_def rx_side_ready_def)
  show "feeding (host_send b fs) f (map (\<lambda>(g, f, d, p). d) fs) (send_clks b fs)"
    using w e host_delivers(1)[OF h(1) q h(2)] by (simp add: feeding_def waits_def)
  show "send_clks b fs \<le> n \<Longrightarrow> rx_ready (f_rx (host_send b fs) f n)" by (rule host_delivers(2)[OF h(1) q h(2)])
qed

lemma empty_step:
  assumes "rx_empty i" and "hci_regs.q_state q \<in> {S_DECODE, S_DISABLED}"
  shows "hci_regs.q_state (fst (hci_comb i q)) \<in> {S_DECODE, S_DISABLED}" and "\<not> q_wr_en (fst (hci_comb i q))"
    and "hci_regs.q_state q = S_DECODE \<Longrightarrow> hci_regs.q_state (fst (hci_comb i q)) = S_DECODE"
  using assms by (auto simp: expects_eval split: if_splits)

text \<open>Once all bytes due have been taken, the HCI writes nothing more.\<close>

lemma over_step:
  assumes f: "feeding line f bs K" and n: "f_due rc line f bs n = []" "f_state (fpga_at rc line f n) \<in> {S_DECODE, S_DISABLED}"
  shows "f_due rc line f bs (Suc n) = []" and "f_state (fpga_at rc line f (Suc n)) \<in> {S_DECODE, S_DISABLED}"
    and "\<not> q_wr_en (f_hci (fpga_at rc line f (Suc n)))"
    and "f_state (fpga_at rc line f n) = S_DECODE \<Longrightarrow> f_state (fpga_at rc line f (Suc n)) = S_DECODE"
proof -
  have t: "in_time rc line f n" using feed_run[OF f] by blast
  note inp = feed_input[OF f t]
  have e: "rx_empty (f_input rc (fpga_at rc line f n))" using inp(2) n(1) by (simp del: fpga_at.simps)
  show "f_due rc line f bs (Suc n) = []" unfolding inp(3) n(1) by simp
  show "f_state (fpga_at rc line f (Suc n)) \<in> {S_DECODE, S_DISABLED}" "\<not> q_wr_en (f_hci (fpga_at rc line f (Suc n)))"
    "f_state (fpga_at rc line f n) = S_DECODE \<Longrightarrow> f_state (fpga_at rc line f (Suc n)) = S_DECODE"
    using empty_step[OF e, of "f_hci (fpga_at rc line f n)"] n(2) by (simp_all add: fpga_hci_Suc)
qed

lemma over_run:
  assumes f: "feeding line f bs K" and n: "f_due rc line f bs n = []" "f_state (fpga_at rc line f n) \<in> {S_DECODE, S_DISABLED}"
  shows "f_due rc line f bs (n + k) = [] \<and> f_state (fpga_at rc line f (n + k)) \<in> {S_DECODE, S_DISABLED} \<and>
    (0 < k \<longrightarrow> \<not> q_wr_en (f_hci (fpga_at rc line f (n + k)))) \<and>
    (f_state (fpga_at rc line f n) = S_DECODE \<longrightarrow> f_state (fpga_at rc line f (n + k)) = S_DECODE)"
proof (induction k)
  case (Suc k)
  then show ?case using over_step[OF f, of rc "n + k"] by (auto simp del: fpga_at.simps)
qed (use n in simp)

lemma waits_at:
  assumes f: "feeding line f bs K" "uart_inv (f_uart f)" and r: "rx_ready (f_rx line f n)"
    and q: "f_due rc line f bs n = []" "f_state (fpga_at rc line f n) \<in> {S_DECODE, S_DISABLED}"
      "\<not> q_wr_en (f_hci (fpga_at rc line f n))" "tx_idle (fpga_at rc line f n)"
  shows "waits (fpga_at rc line f n)"
proof -
  have u: "uart_inv (f_uart (fpga_at rc line f n))" by (rule fpga_uart_inv[OF f(2)])
  have "in_time rc line f n" using feed_run[OF f(1)] by blast
  then have "rx_side_ready (f_uart (fpga_at rc line f n))"
    using in_timeD(1) u r q(1) by (simp add: rx_side_ready_def fpga_rx uart_inv_def)
  then show ?thesis using q u fpga_no_parity[OF f(1)] by (auto simp: waits_def)
qed

section \<open>Time passes\<close>

lemma waits_idle:
  assumes w: "waits f" and h: "rx_ready h"
  shows "waits (fpga_at rc (\<lambda>_. True) f n)" and "heard rc (\<lambda>_. True) f h n []"
    and "f_state f = S_DECODE \<Longrightarrow> f_state (fpga_at rc (\<lambda>_. True) f n) = S_DECODE \<and>
      fpga_target (fpga_at rc (\<lambda>_. True) f n) = fpga_target f"
proof -
  let ?l = "\<lambda>_. True" and ?g = "fpga_at rc (\<lambda>_. True) f"
  have line: "host_send b [] = ?l" for b by (simp add: fun_eq_iff)
  have "expects (f_hci f) []" using w by (auto simp: waits_def expects_def)
  then have f: "feeding ?l f [] 0" and r: "rx_ready (f_rx ?l f m)" for m
    using waits_feeding[OF w, of "[]" 2592] by (simp_all add: host_ok_def line)
  have 0: "f_due rc ?l f [] 0 = []" using w by (simp add: waits_def rx_side_ready_def f_rest_def)
  have run: "f_due rc ?l f [] m = [] \<and> f_state (?g m) \<in> {S_DECODE, S_DISABLED} \<and> \<not> q_wr_en (f_hci (?g m)) \<and>
      (f_state f = S_DECODE \<longrightarrow> f_state (?g m) = S_DECODE)" for m
    using over_run[OF f 0, of m] w by (cases m) (simp_all add: waits_def)
  have idle: "tx_idle (?g m)" for m using tx_idle_run[of f m rc ?l] run w by (simp add: waits_def)
  have u: "uart_inv (f_uart f)" using w by (simp add: waits_def)
  show "waits (?g n)" by (rule waits_at[OF f u r]) (use run[of n] idle[of n] in simp_all)
  have "f_pin rc ?l f m" for m using idle[of m] by (simp add: tx_idle_def tx_side_ready_def tx_ready_def uart_pins)
  from rx_gap[OF h this] show "heard rc ?l f h n []" by (simp add: heard_def)
  assume d: "f_state f = S_DECODE"
  have "at_decode [] [] (fpga_target f) (board_of f [] [])"
    using d w by (auto simp: at_decode_def st_def board_of_abs waits_def) (simp add: sent_def board_of_def)
  then have "at_decode [] [] (fpga_target f) (board_of (?g 0) [] (fpga_handed rc ?l f 0))"
    by (simp add: fpga_handed_def)
  from fpga_stays[OF f _ _ this, of n] 0
  show "f_state (?g n) = S_DECODE \<and> fpga_target (?g n) = fpga_target f"
    by (auto simp: at_decode_def st_def board_of_abs)
qed

section \<open>A host that waits until the line is quiet\<close>

text \<open>38400 baud, in clocks of 100 MHz. The frames follow each other with short pauses.\<close>

definition host_bit :: rat where
  "host_bit = 15625 / 6"

definition line_of :: "byte list \<Rightarrow> nat \<Rightarrow> bool" where
  "line_of bs = host_send host_bit (odd_frames bs)"

definition clks_of :: "byte list \<Rightarrow> nat" where
  "clks_of bs = send_clks host_bit (odd_frames bs)"

lemma host_frames:
  "host_ok host_bit (odd_frames bs)" "map (\<lambda>(g, f, d, p). d) (odd_frames bs) = bs"
  "\<forall>(g, f, d, p) \<in> set (odd_frames bs). p \<noteq> xor_bits d" "2592 \<le> host_bit" "host_bit \<le> 2705"
  using odd_frames_ok by (simp_all add: host_bit_def)

lemma line_high: "clks_of bs \<le> n \<Longrightarrow> line_of bs n"
  unfolding line_of_def clks_of_def by (rule host_send_end)

lemma line_feeding:
  assumes "waits f" and "expects (f_hci f) bs"
  shows "feeding (line_of bs) f bs (clks_of bs)" and "clks_of bs \<le> n \<Longrightarrow> rx_ready (f_rx (line_of bs) f n)"
  using waits_feeding(1)[OF assms(1), where fs = "odd_frames bs" and b = host_bit]
    waits_feeding(2)[OF assms(1), where fs = "odd_frames bs" and b = host_bit and n = n] assms(2) host_frames(1-3)[of bs]
  by (simp_all add: line_of_def clks_of_def)

abbreviation ear :: "cpu_cycle \<Rightarrow> (nat \<Rightarrow> bool) \<Rightarrow> fpga \<Rightarrow> uart_rx \<Rightarrow> nat \<Rightarrow> uart_rx" where
  "ear rc line f h n \<equiv> rx_at (f_tick f) (f_pin rc line f) h n"

definition wire_quiet :: "cpu_cycle \<Rightarrow> byte list \<Rightarrow> fpga \<Rightarrow> uart_rx \<Rightarrow> nat \<Rightarrow> bool" where
  "wire_quiet rc bs f h n \<longleftrightarrow>
     clks_of bs \<le> n \<and> waits (fpga_at rc (line_of bs) f n) \<and> rx_ready (ear rc (line_of bs) f h n)"

definition wire_time :: "cpu_cycle \<Rightarrow> byte list \<Rightarrow> fpga \<Rightarrow> uart_rx \<Rightarrow> nat" where
  "wire_time rc bs f h = (LEAST n. wire_quiet rc bs f h n)"

lemma after_line:
  assumes "clks_of bs \<le> m"
  shows "fpga_at rc (line_of bs) f (m + k) = fpga_at rc (\<lambda>_. True) (fpga_at rc (line_of bs) f m) k"
  using line_high[of bs] assms by (simp add: fpga_shift trans_le_add1)

text \<open>Quiet once, quiet for good; what has been heard then is all there is to hear.\<close>

lemma quiet_stays:
  assumes q: "wire_quiet rc bs f h m" and n: "m \<le> n"
  shows "wire_quiet rc bs f h n" and "heard rc (line_of bs) f h n ds \<Longrightarrow> heard rc (line_of bs) f h m ds"
    and "f_state (fpga_at rc (line_of bs) f m) = S_DECODE \<Longrightarrow> f_state (fpga_at rc (line_of bs) f n) = S_DECODE \<and>
      fpga_target (fpga_at rc (line_of bs) f n) = fpga_target (fpga_at rc (line_of bs) f m)"
proof -
  let ?g = "fpga_at rc (line_of bs) f"
  have m: "clks_of bs \<le> m" "waits (?g m)" "rx_ready (ear rc (line_of bs) f h m)" using q by (simp_all add: wire_quiet_def)
  have at: "\<exists>k. n = m + k \<and> ?g n = fpga_at rc (\<lambda>_. True) (?g m) k" if "m \<le> n" for n
    using le_Suc_ex[OF that] after_line[OF m(1)] by blast
  have w: "waits (?g n)" if "m \<le> n" for n using at[OF that] waits_idle(1)[OF m(2,3)] by auto
  have "f_pin rc (line_of bs) f n" if "m \<le> n" for n
    using w[OF that] by (simp add: waits_def tx_idle_def tx_side_ready_def tx_ready_def uart_pins)
  note s = rx_silence[OF m(3) this n]
  show "wire_quiet rc bs f h n" using m(1) n w[OF n] s(3) by (simp add: wire_quiet_def)
  show "heard rc (line_of bs) f h n ds \<Longrightarrow> heard rc (line_of bs) f h m ds" using s m(3) by (simp add: heard_def)
  show "f_state (?g m) = S_DECODE \<Longrightarrow> f_state (?g n) = S_DECODE \<and> fpga_target (?g n) = fpga_target (?g m)"
    using at[OF n] waits_idle(3)[OF m(2,3)] by auto
qed

lemma wire_settles:
  fixes rc bs f h
  assumes "waits (fpga_at rc (line_of bs) f n)" and "heard rc (line_of bs) f h n ds" and "clks_of bs \<le> n"
  defines "m \<equiv> wire_time rc bs f h"
  shows "wire_quiet rc bs f h m" and "m \<le> n" and "heard rc (line_of bs) f h m ds"
proof -
  have "wire_quiet rc bs f h n" using assms by (simp add: wire_quiet_def heard_def)
  then show q: "wire_quiet rc bs f h m" and le: "m \<le> n"
    unfolding m_def wire_time_def by (rule LeastI, rule Least_le)
  show "heard rc (line_of bs) f h m ds" by (rule quiet_stays(2)[OF q le assms(2)])
qed

section \<open>Packets to a halted console\<close>

text \<open>
  Until the packet is done the buses belong to the HCI, so the CPU makes no difference: a CPU that had a
  cycle would leave a mark.
\<close>

lemma fpga_cpu_cong:
  assumes "\<And>i. i < n \<Longrightarrow> hci_active (f_hci (fpga_at rc line f i))"
  shows "fpga_at rc' line f n = fpga_at rc line f n"
  using assms
proof (induction n)
  case (Suc n)
  then have "fpga_at rc' line f n = fpga_at rc line f n" "hci_active (f_hci (fpga_at rc line f n))" by simp_all
  then show ?case by (simp add: fpga_clk_def)
qed simp

abbreviation f_mark :: "fpga \<Rightarrow> bool" where
  "f_mark g \<equiv> irq_brk (cpu (f_con g))"

lemma f_mark_clk:
  "hci_active (f_hci g) \<Longrightarrow> f_mark (fpga_clk rc l g) = f_mark g"
  "\<not> hci_active (f_hci g) \<Longrightarrow> f_mark (fpga_clk (marking k) l g) = k"
  by (simp_all add: fpga_clk_def bus_clk_def dbgreg_write_def marking_def Let_def split_beta)

lemma f_mark_set:
  assumes "\<not> hci_active (f_hci (fpga_at (marking k) line f i))" and "i < n"
  shows "f_mark (fpga_at (marking k) line f n) = k"
proof -
  have "f_mark (fpga_at (marking k) line f (Suc i + j)) = k" for j
  proof (induction j)
    case 0
    then show ?case using f_mark_clk(2)[OF assms(1)] by simp
  next
    case (Suc j)
    then show ?case using f_mark_clk by (cases "hci_active (f_hci (fpga_at (marking k) line f (Suc i + j)))") simp_all
  qed
  then show ?thesis using less_imp_Suc_add[OF assms(2)] by auto
qed

lemma target_mark: "f_mark g = irq_brk (t_cpu (fpga_target g))"
  by (simp add: fpga_target_def abs_board_def board_of_def)

lemma packet_active:
  assumes c: "wf_cmd c" "plain_cmd c" "c \<noteq> DbgRun" and r: "fpga_rest t f" and s: "sends_packet b fs c"
  shows "hci_active (f_hci (fpga_at rc (host_send b fs) f i))"
proof -
  let ?line = "host_send b fs" and ?k = "\<not> irq_brk (t_cpu t)"
  obtain n where n: "\<And>m. n \<le> m \<Longrightarrow> fpga_target (fpga_at (marking ?k) ?line f m) = snd (exec c t)"
    using packet_settles[OF c r s, of "marking ?k"] by (metis fpga_rest_def)
  have "hci_active (f_hci (fpga_at (marking ?k) ?line f i))" for i
  proof (rule ccontr)
    assume "\<not> ?thesis"
    from f_mark_set[OF this, of "Suc (max n i)"] n[of "Suc (max n i)"] mark_exec[of c t] show False
      by (simp add: target_mark less_Suc_eq_le del: fpga_at.simps)
  qed
  then show ?thesis using fpga_cpu_cong[of i "marking ?k" ?line f rc] by simp
qed

lemma wire_packet:
  fixes rc c f h
  assumes c: "wf_cmd c" "plain_cmd c" "c \<noteq> DbgRun" and w: "waits f" "f_state f = S_DECODE" and h: "rx_ready h"
  defines "m \<equiv> wire_time rc (encode c) f h"
  shows "wire_quiet rc (encode c) f h m" and "heard rc (line_of (encode c)) f h m (fst (exec c (fpga_target f)))"
    and "f_state (fpga_at rc (line_of (encode c)) f m) = S_DECODE"
    and "fpga_target (fpga_at rc (line_of (encode c)) f m) = snd (exec c (fpga_target f))"
    and "hci_active (f_hci (fpga_at rc (line_of (encode c)) f i))"
proof -
  let ?line = "line_of (encode c)"
  have r: "fpga_rest (fpga_target f) f" by (rule waits_rest[OF w])
  have i: "tx_idle f" using w(1) by (simp add: waits_def)
  have s: "sends_packet host_bit (odd_frames (encode c)) c" by (rule odd_frames_sent[OF host_frames(4,5)])
  obtain N where N: "\<And>n. N \<le> n \<Longrightarrow> fpga_rest (snd (exec c (fpga_target f))) (fpga_at rc ?line f n) \<and>
      tx_idle (fpga_at rc ?line f n) \<and> heard rc ?line f h n (fst (exec c (fpga_target f)))"
    using packet_heard[OF c r i s h, of rc] unfolding line_of_def by blast
  let ?n = "max N (clks_of (encode c))"
  have n: "fpga_rest (snd (exec c (fpga_target f))) (fpga_at rc ?line f ?n)" "tx_idle (fpga_at rc ?line f ?n)"
    "heard rc ?line f h ?n (fst (exec c (fpga_target f)))" using N[of ?n] by simp_all
  note rw = rest_waits[OF n(1,2)]
  note set = wire_settles[OF _ n(3), folded m_def]
  have w': "waits (fpga_at rc ?line f ?n)" using rw by blast
  note st = set[OF w']
  show q: "wire_quiet rc (encode c) f h m" and "heard rc ?line f h m (fst (exec c (fpga_target f)))" using st by simp_all
  show act: "hci_active (f_hci (fpga_at rc ?line f i))" for i
    unfolding line_of_def by (rule packet_active[OF c r s])
  then show d: "f_state (fpga_at rc ?line f m) = S_DECODE"
    using q by (auto simp: wire_quiet_def waits_def hci_active_def)
  show "fpga_target (fpga_at rc ?line f m) = snd (exec c (fpga_target f))"
    using quiet_stays(3)[OF q _ d, of ?n] st(2) rw by simp
qed

section \<open>Packets of one byte\<close>

text \<open>
  DBG_HLT, QUERY_DBG_BRK and DBG_RUN. While they are under way the HCI is in one of two states.
\<close>

definition one_byte :: "byte \<Rightarrow> bool" where
  "one_byte x \<longleftrightarrow> x = 3 \<or> x = 4 \<or> x = 7"

lemma byte_step:
  assumes "one_byte x" and q: "hci_regs.q_state q \<in> {S_DECODE, S_DISABLED}" and i: "rx_empty i \<or> rd_data i = x"
  defines "q' \<equiv> fst (hci_comb i q)"
  shows "hci_regs.q_state q' \<in> {S_DECODE, S_DISABLED}"
    and "\<not> rd_en (snd (hci_comb i q)) \<Longrightarrow> \<not> q_wr_en q'"
    and "hci_regs.q_state q = S_DECODE \<Longrightarrow> \<not> rx_empty i \<Longrightarrow> rd_en (snd (hci_comb i q))"
    and "hci_regs.q_state q = S_DISABLED \<Longrightarrow> \<not> rx_empty i \<Longrightarrow> \<not> rd_en (snd (hci_comb i q)) \<Longrightarrow> hci_regs.q_state q' = S_DECODE"
    and "x \<noteq> 4 \<Longrightarrow> hci_regs.q_state q = S_DECODE \<Longrightarrow> hci_regs.q_state q' = S_DECODE"
    and "x \<noteq> 7 \<Longrightarrow> \<not> q_wr_en q'"
    and "x = 3 \<Longrightarrow> rd_en (snd (hci_comb i q)) \<Longrightarrow> hci_regs.q_state q' = S_DECODE"
    and "x = 7 \<Longrightarrow> rd_en (snd (hci_comb i q)) \<Longrightarrow>
      q_wr_en q' \<and> q_tx_data q' = (if hci_regs.q_state q = S_DECODE then 1 else 0) \<and> hci_regs.q_state q' = hci_regs.q_state q"
    and "\<not> rd_en (snd (hci_comb i q)) \<Longrightarrow> hci_regs.q_state q = S_DECODE \<Longrightarrow> hci_regs.q_state q' = S_DECODE"
  using q i assms(1) unfolding q'_def one_byte_def
  by (cases "rx_empty i"; cases "hci_regs.q_state q = S_DECODE"; cases "brk i"; auto simp: expects_eval)+

text \<open>One clock of such a run.\<close>

definition small :: "cpu_cycle \<Rightarrow> (nat \<Rightarrow> bool) \<Rightarrow> fpga \<Rightarrow> byte \<Rightarrow> nat \<Rightarrow> bool" where
  "small rc line f x n \<longleftrightarrow> f_state (fpga_at rc line f n) \<in> {S_DECODE, S_DISABLED} \<and>
     (f_due rc line f [x] n = [x] \<and> fpga_sent rc line f n = [] \<or>
      f_due rc line f [x] n = [] \<and> length (fpga_sent rc line f n) \<le> 1)"

lemma small_input:
  assumes f: "feeding line f [x] K" and s: "small rc line f x n"
  defines "i \<equiv> f_input rc (fpga_at rc line f n)" and "q \<equiv> f_hci (fpga_at rc line f n)"
  shows "hci_regs.q_state q \<in> {S_DECODE, S_DISABLED}" and "rx_empty i \<or> rd_data i = x"
    and "rd_en (snd (hci_comb i q)) \<Longrightarrow> f_due rc line f [x] n = [x]"
    and "f_hci (fpga_at rc line f (Suc n)) = fst (hci_comb i q)"
    and "f_due rc line f [x] (Suc n) = (if rd_en (snd (hci_comb i q)) then [] else f_due rc line f [x] n)"
proof -
  have t: "in_time rc line f n" using feed_run[OF f] by blast
  note inp = feed_input[OF f t, folded i_def q_def]
  show "hci_regs.q_state q \<in> {S_DECODE, S_DISABLED}" using s by (simp add: small_def q_def)
  show "rx_empty i \<or> rd_data i = x" using inp(2) s by (auto simp: small_def simp del: fpga_at.simps)
  show d: "f_due rc line f [x] n = [x]" if "rd_en (snd (hci_comb i q))"
    using rd_en_there[OF that] inp(2) s by (auto simp: small_def simp del: fpga_at.simps)
  show "f_hci (fpga_at rc line f (Suc n)) = fst (hci_comb i q)" by (simp add: fpga_hci_Suc i_def q_def)
  show "f_due rc line f [x] (Suc n) = (if rd_en (snd (hci_comb i q)) then [] else f_due rc line f [x] n)"
    unfolding inp(3) using d by simp
qed

lemma small_run:
  assumes x: "one_byte x" and w: "waits f" and f: "feeding line f [x] K"
  shows "small rc line f x n"
proof (induction n)
  case 0
  have "fpga_sent rc line f 0 = []" using w by (simp add: waits_def fpga_sent_def Let_def)
  moreover have "f_due rc line f [x] 0 = [x]" using w by (simp add: waits_def rx_side_ready_def f_rest_def rx_bytes_def)
  ultimately show ?case using w by (simp add: small_def waits_def)
next
  case (Suc n)
  note inp = small_input[OF f Suc]
  note st = byte_step[OF x inp(1,2)]
  show ?case
    using st(1,2) inp(3) Suc unfolding small_def inp(4,5) fpga_sent_Suc Let_def inp(4)
    by (auto simp del: fpga_at.simps)
qed

text \<open>The byte is taken within two clocks of the end of its frame.\<close>

lemma small_taken:
  assumes x: "one_byte x" and w: "waits f" and f: "feeding line f [x] K"
  shows "f_due rc line f [x] (Suc (Suc K)) = []"
proof -
  note sm = small_run[OF x w f, of rc]
  note inp = small_input[OF f sm]
  have t: "in_time rc line f n" for n using feed_run[OF f] by blast
  have rest: "f_rest line f [x] n = []" if "K \<le> n" for n using f that by (simp add: feeding_def delivers_def f_rest_def)
  have queue: "rx_empty (f_input rc (fpga_at rc line f n)) \<longleftrightarrow> f_due rc line f [x] n = []" if "K \<le> n" for n
    using feed_input(1)[OF f t] rest[OF that] by simp
  have none: "f_due rc line f [x] (Suc n) = []" if "f_due rc line f [x] n = []" for n
    using inp(5)[of n] that by simp
  have dec: "f_due rc line f [x] (Suc n) = []" if "K \<le> n" "f_state (fpga_at rc line f n) = S_DECODE" for n
  proof (cases "f_due rc line f [x] n = []")
    case False
    then have "rd_en (snd (hci_comb (f_input rc (fpga_at rc line f n)) (f_hci (fpga_at rc line f n))))"
      using byte_step(3)[OF x inp(1,2), of n] queue[OF that(1)] that(2) by simp
    then show ?thesis using inp(5)[of n] by (simp del: fpga_at.simps)
  qed (rule none)
  have s: "f_state (fpga_at rc line f K) \<in> {S_DECODE, S_DISABLED}" using sm[of K] by (simp add: small_def)
  show ?thesis
  proof (cases "f_due rc line f [x] (Suc K) = []")
    case False
    then have ne: "f_due rc line f [x] K \<noteq> []" using none by blast
    then have "f_state (fpga_at rc line f K) = S_DISABLED" using dec[of K] False s by blast
    moreover have "\<not> rd_en (snd (hci_comb (f_input rc (fpga_at rc line f K)) (f_hci (fpga_at rc line f K))))"
      using inp(5)[of K] False by (auto split: if_splits)
    ultimately have "f_state (fpga_at rc line f (Suc K)) = S_DECODE"
      using byte_step(4)[OF x inp(1,2), of K] queue[of K] ne unfolding inp(4) by simp
    then show ?thesis using dec[of "Suc K"] by simp
  qed (rule none)
qed

lemma sent_stays:
  assumes "\<And>j. 0 < j \<Longrightarrow> \<not> q_wr_en (f_hci (fpga_at rc line f (m + j)))" and "m \<le> n"
  shows "fpga_sent rc line f n = fpga_sent rc line f m"
  using assms(2)
proof (induction n rule: dec_induct)
  case (step n)
  obtain j where "Suc n = m + Suc j" using step.hyps(1) le_Suc_ex by fastforce
  then show ?case using step.IH assms(1)[of "Suc j"] by (simp add: fpga_sent_Suc Let_def del: fpga_at.simps)
qed simp

lemma small_settles:
  fixes rc f h x
  assumes x: "one_byte x" and w: "waits f" and e: "expects (f_hci f) [x]" and h: "rx_ready h"
  defines "m \<equiv> wire_time rc [x] f h"
  shows "wire_quiet rc [x] f h m" and "heard rc (line_of [x]) f h m (fpga_sent rc (line_of [x]) f m)"
    and "f_due rc (line_of [x]) f [x] m = []"
proof -
  let ?line = "line_of [x]" and ?K = "clks_of [x]"
  let ?g = "fpga_at rc ?line f" and ?k = "Suc (Suc (Suc ?K))"
  note f = line_feeding(1)[OF w e]
  note sm = small_run[OF x w f, of rc]
  have st: "f_state (?g n) \<in> {S_DECODE, S_DISABLED}" for n using sm[of n] by (simp add: small_def)
  have over: "f_due rc ?line f [x] (n + j) = []" "0 < j \<Longrightarrow> \<not> q_wr_en (f_hci (?g (n + j)))"
    if "f_due rc ?line f [x] n = []" for n j using over_run[OF f that st, of j] by simp_all
  note tk = small_taken[OF x w f, of rc]
  have nw: "\<not> q_wr_en (f_hci (?g n))" if n: "?k \<le> n" for n
  proof -
    obtain j where "n = Suc (Suc ?K) + Suc j" using le_Suc_ex[OF n] by auto
    then show ?thesis using over(2)[OF tk, of "Suc j"] by simp
  qed
  have i: "tx_idle f" using w by (simp add: waits_def)
  have "length (fpga_sent rc ?line f n) \<le> 1" for n using sm[of n] by (auto simp: small_def)
  from paced_safe[OF _ _ one_write_paced[OF this]] i
  have safe: "tx_safe ?line (fpga_client rc ?line f) (f_uart f)" by (simp add: tx_idle_def)
  obtain N where N: "?k \<le> N" "\<And>n. N \<le> n \<Longrightarrow> tx_idle (?g n) \<and> heard rc ?line f h n (fpga_sent rc ?line f ?k)"
    using stream_heard[OF i safe h nw] by blast
  have u: "uart_inv (f_uart f)" using w by (simp add: waits_def)
  have due: "f_due rc ?line f [x] N = []"
  proof -
    obtain j where "N = Suc (Suc ?K) + Suc j" using le_Suc_ex[OF N(1)] by auto
    then show ?thesis using over(1)[OF tk, of "Suc j"] by (simp del: fpga_at.simps)
  qed
  have K: "?K \<le> N" using N(1) by simp
  have "waits (?g N)"
    by (rule waits_at[OF f u line_feeding(2)[OF w e K] due st nw[OF N(1)]]) (use N(2)[of N] in simp)
  note set = wire_settles[OF this conjunct2[OF N(2)[OF order_refl]] K, folded m_def]
  show q: "wire_quiet rc [x] f h m" by (rule set(1))
  then have m: "?K \<le> m" "waits (?g m)" by (simp_all add: wire_quiet_def)
  then have "f_rest ?line f [x] m = []" using f by (simp add: feeding_def delivers_def f_rest_def)
  then show d: "f_due rc ?line f [x] m = []" using m(2) by (simp add: waits_def rx_side_ready_def)
  have "fpga_sent rc ?line f (max m ?k) = fpga_sent rc ?line f m"
    by (rule sent_stays) (use over(2)[OF d] in \<open>simp_all del: fpga_at.simps\<close>)
  moreover have "fpga_sent rc ?line f (max m ?k) = fpga_sent rc ?line f ?k"
    by (rule sent_stays) (use nw in \<open>simp_all del: fpga_at.simps add_Suc\<close>)
  ultimately show "heard rc ?line f h m (fpga_sent rc ?line f m)" using set(3) by simp
qed

lemma halt_run:
  assumes w: "waits f" and f: "feeding line f [3] K"
  shows "fpga_sent rc line f n = [] \<and> (f_due rc line f [3] n = [] \<longrightarrow> f_state (fpga_at rc line f n) = S_DECODE)"
proof (induction n)
  case 0
  then show ?case using w by (simp add: waits_def fpga_sent_def Let_def rx_side_ready_def f_rest_def rx_bytes_def)
next
  case (Suc n)
  have x: "one_byte 3" by (simp add: one_byte_def)
  note inp = small_input[OF f small_run[OF x w f]]
  show ?case using byte_step(5-7,9)[OF x inp(1,2)[of rc n]] Suc unfolding fpga_sent_Suc Let_def inp(4,5)
    by (auto split: if_splits)
qed

lemma query_run:
  assumes w: "waits f" and f: "feeding line f [7] K"
  shows "f_due rc line f [7] n = [7] \<and> fpga_sent rc line f n = [] \<or>
    f_due rc line f [7] n = [] \<and> (fpga_sent rc line f n = [0] \<or> fpga_sent rc line f n = [1] \<and> f_state (fpga_at rc line f n) = S_DECODE)"
proof (induction n)
  case 0
  then show ?case using w by (simp add: waits_def fpga_sent_def Let_def rx_side_ready_def f_rest_def rx_bytes_def)
next
  case (Suc n)
  have x: "one_byte 7" by (simp add: one_byte_def)
  note inp = small_input[OF f small_run[OF x w f]]
  show ?case using byte_step(2,5,8)[OF x inp(1,2)[of rc n]] Suc inp(1,3)[of rc n] unfolding fpga_sent_Suc Let_def inp(4,5)
    by (auto split: if_splits)
qed

section \<open>What a one byte packet does\<close>

lemma small_expects:
  assumes "waits f" and "x = 3 \<or> x = 7 \<or> x = 4 \<and> f_state f = S_DECODE"
  shows "one_byte x" and "expects (f_hci f) [x]"
proof -
  have e: "encode DbgHlt = [3]" "encode QueryHlt = [7]" "encode DbgRun = [4]" by simp_all
  have r: "wf_cmd DbgRun" "wf_cmd DbgHlt" "wf_cmd QueryHlt" by (simp_all add: wf_cmd_def)
  consider "f_state f = S_DISABLED" "x = 3 \<or> x = 7" | "f_state f = S_DECODE" using assms by (auto simp: waits_def)
  then show "expects (f_hci f) [x]"
  proof cases
    case 1
    then show ?thesis using e by (auto simp: expects_def)
  next
    case 2
    then show ?thesis using assms(2) r e[symmetric] unfolding expects_def by (simp del: encode.simps) metis
  qed
  show "one_byte x" using assms(2) by (auto simp: one_byte_def)
qed

lemma wire_halt:
  fixes rc f h
  assumes w: "waits f" and h: "rx_ready h"
  defines "m \<equiv> wire_time rc (encode DbgHlt) f h"
  shows "wire_quiet rc (encode DbgHlt) f h m" and "heard rc (line_of (encode DbgHlt)) f h m []"
    and "f_state (fpga_at rc (line_of (encode DbgHlt)) f m) = S_DECODE"
proof -
  have e: "encode DbgHlt = [3]" by simp
  note x = small_expects[OF w, of 3, simplified]
  note s = small_settles[OF x(1) w x(2) h, of rc, folded e, folded m_def]
  show "wire_quiet rc (encode DbgHlt) f h m" by (rule s(1))
  note r = halt_run[OF w line_feeding(1)[OF w x(2)], of rc m, folded e]
  show "heard rc (line_of (encode DbgHlt)) f h m []" using s(2) r by simp
  show "f_state (fpga_at rc (line_of (encode DbgHlt)) f m) = S_DECODE" using s(3) r by simp
qed

lemma wire_query:
  fixes rc f h
  assumes w: "waits f" and h: "rx_ready h"
  defines "m \<equiv> wire_time rc (encode QueryHlt) f h"
  shows "wire_quiet rc (encode QueryHlt) f h m"
    and "heard rc (line_of (encode QueryHlt)) f h m [0] \<or>
      heard rc (line_of (encode QueryHlt)) f h m [1] \<and> f_state (fpga_at rc (line_of (encode QueryHlt)) f m) = S_DECODE"
proof -
  have e: "encode QueryHlt = [7]" by simp
  note x = small_expects[OF w, of 7, simplified]
  note s = small_settles[OF x(1) w x(2) h, of rc, folded e, folded m_def]
  show "wire_quiet rc (encode QueryHlt) f h m" by (rule s(1))
  note r = query_run[OF w line_feeding(1)[OF w x(2)], of rc m, folded e]
  show "heard rc (line_of (encode QueryHlt)) f h m [0] \<or>
      heard rc (line_of (encode QueryHlt)) f h m [1] \<and> f_state (fpga_at rc (line_of (encode QueryHlt)) f m) = S_DECODE"
    using s(2,3) r by auto
qed

text \<open>
  DBG_RUN. The console is as the packet leaves it at the clock in which the HCI gives the buses back; what is
  left of the frame is already time of the CPU.
\<close>

definition wire_left :: "cpu_cycle \<Rightarrow> byte list \<Rightarrow> fpga \<Rightarrow> nat \<Rightarrow> fpga option" where
  "wire_left rc bs f n =
     (if \<forall>i \<le> n. hci_active (f_hci (fpga_at rc (line_of bs) f i)) then None
      else Some (fpga_at rc (line_of bs) f (LEAST i. \<not> hci_active (f_hci (fpga_at rc (line_of bs) f i)))))"

lemma wire_left_runs:
  assumes "wire_left rc bs f n = Some g"
  shows "\<not> hci_active (f_hci g)"
proof -
  obtain i where "\<not> hci_active (f_hci (fpga_at rc (line_of bs) f i))"
    using assms by (auto simp: wire_left_def split: if_splits)
  from LeastI[where P = "\<lambda>i. \<not> hci_active (f_hci (fpga_at rc (line_of bs) f i))", OF this] assms show ?thesis
    by (auto simp: wire_left_def split: if_splits)
qed

lemma run_leaves:
  assumes w: "waits f" "f_state f = S_DECODE"
  obtains n where "\<not> hci_active (f_hci (fpga_at rc (line_of (encode DbgRun)) f n))"
    and "\<And>i. i < n \<Longrightarrow> hci_active (f_hci (fpga_at rc (line_of (encode DbgRun)) f i))"
    and "fpga_target (fpga_at rc (line_of (encode DbgRun)) f n) = (fpga_target f)\<lparr>t_halted := False\<rparr>"
proof -
  let ?line = "line_of (encode DbgRun)" and ?t = "fpga_target f" and ?k = "\<not> irq_brk (t_cpu (fpga_target f))"
  have e: "encode DbgRun = [4]" by simp
  have f: "feeding ?line f (encode DbgRun) (clks_of (encode DbgRun))"
    unfolding e using small_expects[OF w(1), of 4] w(2) by (intro line_feeding(1)[OF w(1)]) simp_all
  obtain n where n: "packet_done DbgRun [] [] (?t\<lparr>t_halted := False\<rparr>)
      (board_of (fpga_at (marking ?k) ?line f n) [] (fpga_handed (marking ?k) ?line f n))"
    by (rule fpga_packet[where c = DbgRun, OF _ _ waits_rest[OF w] f, of "marking ?k"]) (simp_all add: wf_cmd_def)
  then have t: "fpga_target (fpga_at (marking ?k) ?line f n) = ?t\<lparr>t_halted := False\<rparr>"
    and off: "\<not> hci_active (f_hci (fpga_at (marking ?k) ?line f n))"
    by (auto simp: packet_done_def st_def board_of_abs hci_active_def)
  have act: "hci_active (f_hci (fpga_at (marking ?k) ?line f i))" if "i < n" for i
  proof (rule ccontr)
    assume "\<not> ?thesis"
    from f_mark_set[OF this that] t show False by (simp add: target_mark)
  qed
  have same: "fpga_at rc ?line f i = fpga_at (marking ?k) ?line f i" if "i \<le> n" for i
    using that act by (intro fpga_cpu_cong) auto
  show thesis by (rule that[of n]) (use off t act same in simp_all)
qed

lemma wire_run:
  fixes rc f h
  assumes w: "waits f" "f_state f = S_DECODE" and h: "rx_ready h"
  defines "m \<equiv> wire_time rc (encode DbgRun) f h"
  shows "wire_quiet rc (encode DbgRun) f h m" and "heard rc (line_of (encode DbgRun)) f h m []"
    and "\<exists>g. wire_left rc (encode DbgRun) f m = Some g \<and> fpga_target g = (fpga_target f)\<lparr>t_halted := False\<rparr>"
proof -
  let ?line = "line_of (encode DbgRun)"
  have e: "encode DbgRun = [4]" by simp
  note x = small_expects[OF w(1), of 4, simplified, OF w(2)]
  note s = small_settles[OF x(1) w(1) x(2) h, of rc, folded e, folded m_def]
  note f = line_feeding(1)[OF w(1) x(2), folded e]
  show "wire_quiet rc (encode DbgRun) f h m" by (rule s(1))
  have wr: "\<not> q_wr_en (f_hci (fpga_at rc ?line f n))" for n
  proof (cases n)
    case (Suc k)
    note inp = small_input[OF f[unfolded e] small_run[OF x(1) w(1) f[unfolded e]], of rc k]
    show ?thesis unfolding Suc e inp(4) by (rule byte_step(6)[OF x(1) inp(1,2)]) simp
  qed (use w in \<open>simp add: waits_def\<close>)
  have "fpga_sent rc ?line f m = fpga_sent rc ?line f 0" by (rule sent_stays) (simp_all only: wr, simp_all)
  also have "\<dots> = []" using wr[of 0] by (simp add: fpga_sent_def Let_def)
  finally show "heard rc ?line f h m []" using s(2) by simp
  obtain n where n: "\<not> hci_active (f_hci (fpga_at rc ?line f n))"
    "\<And>i. i < n \<Longrightarrow> hci_active (f_hci (fpga_at rc ?line f i))"
    "fpga_target (fpga_at rc ?line f n) = (fpga_target f)\<lparr>t_halted := False\<rparr>"
    using run_leaves[OF w, of rc] by blast
  have "n \<le> m"
  proof (rule ccontr)
    assume "\<not> n \<le> m"
    then obtain k where k: "n = m + k" and "m < n" by (metis le_Suc_ex nat_le_linear not_less)
    have "waits (fpga_at rc ?line f m)" using s(1) by (simp add: wire_quiet_def)
    then have "f_state (fpga_at rc ?line f m) = S_DECODE" using n(2)[OF \<open>m < n\<close>] by (auto simp: waits_def hci_active_def)
    then have "f_state (fpga_at rc ?line f n) = S_DECODE" unfolding k using over_run[OF f s(3), of k] by simp
    with n(1) show False by (simp add: hci_active_def)
  qed
  moreover have "(LEAST i. \<not> hci_active (f_hci (fpga_at rc ?line f i))) = n"
    by (rule Least_equality) (use n(1,2) in \<open>auto simp: not_less[symmetric]\<close>)
  ultimately show "\<exists>g. wire_left rc (encode DbgRun) f m = Some g \<and> fpga_target g = (fpga_target f)\<lparr>t_halted := False\<rparr>"
    using n(1,3) by (auto simp: wire_left_def)
qed

end
