(* ===== verification/System.thy ===== *)
theory System
  imports Rig
begin

text \<open>
  The host program and the FPGA together: properties of the C++ functions on theory \<open>Rig\<close>'s world,
  stated of the block RAMs, registers and state machine of the board. They hold for every CPU
  (\<open>rc\<close>), every schedule of the transmit FIFO that is not full for ever (\<open>s\<close>) and, where nothing is
  assumed of it, every state of the board when the host starts.
\<close>

abbreviation rig_board :: "rig \<Rightarrow> board" where
  "rig_board w \<equiv> l_board (g_line w)"

text \<open>The concrete rig of the instances: the board as it is powered on, or running a CPU.\<close>

definition rig_on :: "board \<Rightarrow> lua_value list \<Rightarrow> rig" where
  "rig_on b s = \<lparr>g_line = Line (b, 0), g_time = 0, g_stk = s\<rparr>"

definition always_ready :: schedule where
  "always_ready = Schedule (\<lambda>_. False)"

definition nop_cpu :: cpu_cycle where
  "nop_cpu c = (c, False)"

lemma rig_on_sels [simp]:
  "at_rest b \<Longrightarrow> rig_board (rig_on b s) = b"
  "at_rest b \<Longrightarrow> rig_in (rig_on b s) = sent b"
  "g_stk (rig_on b s) = s"
  by (simp_all add: rig_on_def l_board_def rig_in_def l_unread_def l_read_def Line_inverse)

lemma power_on_hci [simp]: "q_state (hci (power_on rx)) = S_DECODE"
  by (simp_all add: power_on_def hci_reset_def)

lemma rig_halted: "t_halted (rig_tgt w) \<longleftrightarrow> q_state (hci (rig_board w)) = S_DECODE"
  using line_props(1)[of "g_line w"] by (auto simp: rig_tgt_def hci_active_def at_rest_def)

section \<open>Loading a ROM\<close>

lemma rig_picked:
  assumes "c_path cfg \<noteq> T ''COM5''" and "length (c_path cfg) < 1024" and "length (c_data cfg) \<le> FileDataBufferSize"
  shows "file_picked (rig_env rc s cfg) (c_path cfg) bench_file (c_data cfg)"
  using assms
  by (simp add: file_picked_def rig_env_def desk_env_def rig_read_def bench_file_def bench_port_def
      INVALID_HANDLE_VALUE_def FileDataBufferSize_def)

lemma prg_bus:
  assumes "ines_ok data" and "i < prg_size data"
    and cfg: "q_cart_cfg (hci b) = cfg_word [data ! 4, data ! 5, data ! 6, data ! 7, data ! 8]"
  shows "t_cpu_rd (abs_board b) (of_nat (0x8000 + i)) = ram (prgrom (con b)) (of_nat i)"
proof -
  have i: "i < 0x8000" using sizes(1)[OF assms(1)] assms(2) by simp
  have "unat (prgrom_a (q_cart_cfg (hci b)) (of_nat (0x8000 + i))) = i"
    using prg_cell[OF assms(1,2), of "abs_board b"] rom_addr_bits(1)[OF i] cfg
    by (simp add: cpu_cell_def del: of_nat_add)
  then have "prgrom_a (q_cart_cfg (hci b)) (of_nat (0x8000 + i)) = of_nat i"
    using i by (simp add: word_unat_eq_iff unsigned_of_nat take_bit_nat_eq_self del: of_nat_add)
  then show ?thesis using rom_addr_bits(1)[OF i] by (simp add: t_cpu_rd_def abs_board_def del: of_nat_add)
qed

lemma chr_bus: "i < 0x2000 \<Longrightarrow> t_ppu_rd (abs_board b) (of_nat i) = ram (chrrom (con b)) (of_nat i)"
  using rom_addr_bits(2)[of i]
  by (simp add: t_ppu_rd_def abs_board_def) (rule arg_cong, simp add: word_unat_eq_iff unsigned_ucast_eq unsigned_of_nat)

text \<open>A target that has a ROM, in terms of the board.\<close>

lemma rom_in_rams:
  assumes ok: "ines_ok data" and l: "rom_loaded data (abs_board b)"
  shows "i < prg_size data \<Longrightarrow> ram (prgrom (con b)) (of_nat i) = data ! (16 + i)"
    and "i < chr_size data \<Longrightarrow> ram (chrrom (con b)) (of_nat i) = data ! (16 + prg_size data + i)"
    and "q_pcl (cpu (con b)) = data ! (16 + prg_size data - 4)" and "q_pch (cpu (con b)) = data ! (16 + prg_size data - 3)"
proof -
  note l = l[unfolded rom_loaded_def]
  show "ram (prgrom (con b)) (of_nat i) = data ! (16 + i)" if "i < prg_size data"
    using prg_bus[OF ok that, of b] l that by simp
  show "ram (chrrom (con b)) (of_nat i) = data ! (16 + prg_size data + i)" if "i < chr_size data"
    using chr_bus[of i b] sizes(2)[OF ok] l that by simp
  show "q_pcl (cpu (con b)) = data ! (16 + prg_size data - 4)" "q_pch (cpu (con b)) = data ! (16 + prg_size data - 3)"
    using l by (auto simp: pcl_of_def pch_of_def)
qed

text \<open>
  Loading a ROM, host and FPGA together: from any state of the board, running or halted, and for
  every complete image the checks accept, the loader ends with the PRG and CHR data of the file in
  the cartridge's block RAMs, the CPU's program counter at the reset vector and the HCI's state
  machine in the state that leaves the buses to the console. No byte is left on the line.
\<close>

lemma system_LoadRom:
  assumes g: "GetSerialComm g = Inr \<lparr>m_hSerialComm = bench_port\<rparr>"
    and f: "c_path cfg \<noteq> T ''COM5''" "length (c_path cfg) < 1024" "c_data cfg = data"
      "length data \<le> FileDataBufferSize"
    and ok: "ines_ok data" "ines_complete data"
  shows "\<exists>w1. LoadRom (rig_env rc s cfg) g d w = Inr ((), w1) \<and> rig_in w1 = rig_in w \<and>
    q_state (hci (rig_board w1)) = S_DISABLED \<and>
    (\<forall>i < prg_size data. ram (prgrom (con (rig_board w1))) (of_nat i) = data ! (16 + i)) \<and>
    (\<forall>i < chr_size data. ram (chrrom (con (rig_board w1))) (of_nat i) = data ! (16 + prg_size data + i)) \<and>
    q_pcl (cpu (con (rig_board w1))) = data ! (16 + prg_size data - 4) \<and>
    q_pch (cpu (con (rig_board w1))) = data ! (16 + prg_size data - 3)"
proof -
  have con: "script_host.connected bench_port g"
    by (simp add: script_host.connected_def[OF rig_script.script_host_axioms] g)
  have "file_picked (rig_env rc s cfg) (c_path cfg) bench_file data" using rig_picked f by metis
  from rig_ui.LoadRom_ok[OF this bench_file_port con ok]
  obtain w1 where w1: "LoadRom (rig_env rc s cfg) g d w = Inr ((), w1)" "rig_in w1 = rig_in w"
    and l: "rom_loaded data (rig_tgt w1)"
    by (auto simp: rig_env_def desk_env_def)
  note b = rom_in_rams[OF ok(1) l[unfolded rig_tgt_def]]
  have "q_state (hci (rig_board w1)) = S_DISABLED"
    using l line_props(1)[of "g_line w1"] by (simp add: rom_loaded_def rig_tgt_def hci_active_def)
  then show ?thesis using w1 b by auto
qed

section \<open>Writing memory from a script\<close>

lemma wram_wr_block:
  assumes "\<And>i. i < length ds \<Longrightarrow> wram_en (a + of_nat i)"
    and "inj_on (\<lambda>i. ucast (a + of_nat i) :: 11 word) {..<length ds}" and "i < length ds"
  shows "t_wram (wr_block t_cpu_wr a ds t) (ucast (a + of_nat i)) = ds ! i"
proof -
  let ?t = "wr_block t_cpu_wr a ds t"
  have ram: "\<not> bit (a + of_nat i) 15" if "i < length ds" for i
    using assms(1)[OF that] by (rule wram_en_bit)
  have "inj_on (\<lambda>i. cpu_cell t (a + of_nat i)) {..<length ds}"
    using assms(1,2) ram by (auto simp: inj_on_def cpu_cell_def word_unat_eq_iff[symmetric])
  then have "rd_block t_cpu_rd ?t a (length ds) = ds"
    using assms(1) ram by (intro cpu_bus.rd_block_wr_block) (auto simp: cpu_cell_def)
  then have "t_cpu_rd ?t (a + of_nat i) = ds ! i" using nth_rd_block[OF assms(3), of t_cpu_rd ?t a] by simp
  then show ?thesis using ram[OF assms(3)] assms(1)[OF assms(3)] by (simp add: t_cpu_rd_def)
qed

text \<open>
  A Lua script's CpuMemWr on a halted board stores the bytes of its table in the work RAM's block
  RAM, at the addresses it names, mirrored every 2 KB, and leaves the board halted. The addresses lie
  in the work RAM's range and no two of them share a cell.
\<close>

lemma system_CpuMemWr:
  assumes g: "GetSerialComm g = Inr \<lparr>m_hSerialComm = bench_port\<rparr>"
    and st: "q_state (hci (rig_board w)) = S_DECODE"
    and args: "g_stk w = [LNum x1, LNum x2, LTab tb]" "cast_ushort x1 = Inr a" "cast_ushort x2 = Inr n"
      "tab_bytes tb (unat n) ds"
    and mem: "\<And>i. i < length ds \<Longrightarrow> wram_en (a + of_nat i)"
      "inj_on (\<lambda>i. ucast (a + of_nat i) :: 11 word) {..<length ds}"
  shows "\<exists>w1. LuaCpuMemWr (rig_env rc s cfg) g w = Inr (0, w1) \<and> rig_in w1 = rig_in w \<and>
    q_state (hci (rig_board w1)) = S_DECODE \<and>
    (\<forall>i < length ds. ram (wram (con (rig_board w1))) (ucast (a + of_nat i)) = ds ! i)"
proof -
  have con: "script_host.connected bench_port g"
    by (simp add: script_host.connected_def[OF rig_script.script_host_axioms] g)
  obtain w1 where w1: "LuaCpuMemWr (rig_env rc s cfg) g w = Inr (0, w1)" "rig_in w1 = rig_in w"
    and t: "rig_tgt w1 = wr_block t_cpu_wr a ds (rig_tgt w)"
    using rig_script.LuaCpuMemWr_spec[OF args con] st rig_halted by blast
  have "q_state (hci (rig_board w1)) = S_DECODE"
    using st t cpu_wr_frame(1)[of a ds "rig_tgt w"] rig_halted by metis
  moreover have "ram (wram (con (rig_board w1))) = t_wram (rig_tgt w1)" by (simp add: rig_tgt_def abs_board_def)
  ultimately show ?thesis using w1 wram_wr_block[OF mem] t by auto
qed

section \<open>Waiting for the console to halt\<close>

text \<open>The HCI has the buses, or the CPU breaks in one of its next \<open>k\<close> cycles.\<close>

definition breaks_within :: "cpu_cycle \<Rightarrow> nat \<Rightarrow> board \<Rightarrow> bool" where
  "breaks_within rc k b \<longleftrightarrow> hci_active (hci b) \<or> (\<exists>i < k. snd (rc (((fst \<circ> rc) ^^ i) (con b))))"

lemma breaks_mono: "breaks_within rc k b \<Longrightarrow> k \<le> k' \<Longrightarrow> breaks_within rc k' b"
  unfolding breaks_within_def by (meson order_less_le_trans)

lemma running_cycle:
  assumes "\<not> hci_active (hci b)"
  shows "con (cycle rc f b) = fst (rc (con b))" and "snd (rc (con b)) \<Longrightarrow> hci_active (hci (cycle rc f b))"
  using assms by (simp_all add: d_eval)

lemma breaks_cycle:
  assumes "\<not> hci_active (hci b)" and "breaks_within rc (Suc k) b"
  shows "breaks_within rc k (cycle rc f b)"
proof (cases "snd (rc (con b))")
  case True
  then show ?thesis using running_cycle(2)[OF assms(1)] by (simp add: breaks_within_def)
next
  case False
  obtain i where i: "i < Suc k" "snd (rc (((fst \<circ> rc) ^^ i) (con b)))"
    using assms by (auto simp: breaks_within_def)
  with False obtain j where "i = Suc j" by (cases i) auto
  with i show ?thesis
    using running_cycle(1)[OF assms(1)] by (auto simp: breaks_within_def funpow_swap1)
qed

lemma breaks_run:
  assumes "at_rest b" and "breaks_within rc (n + k) b"
  shows "breaks_within rc k (run rc full n b)"
  using assms
proof (induction n arbitrary: full b)
  case (Suc n)
  show ?case
  proof (cases "hci_active (hci b)")
    case True
    then show ?thesis using rest_run[OF Suc.prems(1), of rc full "Suc n"] by (simp add: breaks_within_def)
  next
    case False
    with Suc.prems have "breaks_within rc (n + k) (cycle rc (full 0) b)" by (simp add: breaks_cycle)
    with Suc.IH rest_run[OF Suc.prems(1), of rc full 1] show ?thesis by simp
  qed
qed simp

text \<open>Answering QUERY_HLT takes a running board one cycle, unless the CPU breaks in it.\<close>

lemma breaks_settle:
  assumes "at_rest b" and f: "fair full" and k: "breaks_within rc (Suc k) b"
  shows "breaks_within rc k (settle rc full (receive (encode QueryHlt) b))"
proof (cases "hci_active (hci b)")
  case True
  from settle_packet[where c = QueryHlt and rc = rc, OF _ _ receive_decode[OF rest_decode[OF assms(1) this]] f]
  show ?thesis by (auto simp: wf_cmd_def packet_done_decode breaks_within_def dest: at_decode_all)
next
  case False
  let ?b = "receive (encode QueryHlt) b"
  have r: "running (encode QueryHlt) (sent b) ?b"
    using False assms(1) by (auto simp: running_def at_rest_def hci_active_def)
  have q: "running [] (sent b @ [0]) (cycle rc (full 0) ?b)" if "\<not> snd (rc (con ?b))"
    using c_running(3)[of "opcode OpQueryHlt" "[]" "sent b" ?b rc "full 0"] r that by (simp del: opcode.simps)
  have "halted (encode QueryHlt) (sent b) (cycle rc (full 0) ?b)" if "snd (rc (con ?b))"
    using c_running(1)[of "opcode OpQueryHlt" "[]" "sent b" ?b rc "full 0"] r that by (simp del: opcode.simps)
  from settle_running[OF r _ _ _ f this]
  consider (halted) "hci_active (hci (settle rc full ?b))"
    | (running) "settle rc full ?b = cycle rc (full 0) ?b"
    using q by (auto simp: wf_cmd_def running_def at_rest_def dest: at_decode_all)
  then show ?thesis
  proof cases
    case running
    have "breaks_within rc (Suc k) ?b" "\<not> hci_active (hci ?b)" using k False by (simp_all add: breaks_within_def)
    then show ?thesis unfolding running by (intro breaks_cycle)
  qed (simp add: breaks_within_def)
qed

text \<open>A poll takes at least the cycle of the answer and the 10 ms of the sleep.\<close>

definition poll_clocks :: nat where
  "poll_clocks = Suc (10 * clocks_per_ms)"

lemma rig_board_write:
  "k = bench_port \<Longrightarrow> bs = encode QueryHlt \<Longrightarrow> rig_board (snd (rig_write rc s k bs w)) =
     settle rc (\<lambda>i. full_at s (g_time w + i)) (receive bs (rig_board w))"
  using settle_query[OF line_props(1)[of "g_line w"] full_shift[of s "g_time w"], of rc] line_props(2)[of "g_line w"]
  by (auto simp: rig_write_def Let_def l_become simp del: encode.simps)

lemma rig_board_read: "rig_board (snd (rig_read cfg k n w)) = rig_board w"
  by (auto simp: rig_read_def l_become_def l_board_def Line_inverse Let_def)

lemma breaks_poll:
  assumes "breaks_within rc (poll_clocks + k) (rig_board w)"
  shows "breaks_within rc k (rig_board (poll (rig_env rc s cfg) bench_port w))"
proof -
  define w1 where "w1 = snd (rig_read cfg bench_port 1 (snd (rig_write rc s bench_port (encode QueryHlt) w)))"
  have "breaks_within rc (Suc (10 * clocks_per_ms + k)) (rig_board w)" using assms by (simp add: poll_clocks_def)
  from breaks_settle[OF line_props(1) full_shift this]
  have "breaks_within rc (10 * clocks_per_ms + k) (rig_board w1)"
    unfolding w1_def by (simp add: rig_board_read rig_board_write del: encode.simps)
  from breaks_run[OF line_props(1) this] have "breaks_within rc k (rig_board (rig_sleep rc s 10 w1))"
    using rest_run[OF line_props(1)[of "g_line w1"]] line_props(2)[of "g_line w1"]
    by (simp add: rig_sleep_def Let_def l_become)
  then show ?thesis by (simp add: poll_def rig_env_def desk_env_def w1_def del: encode.simps)
qed

lemma breaks_polls:
  assumes "breaks_within rc (k * poll_clocks) (rig_board w)"
  shows "q_state (hci (rig_board ((poll (rig_env rc s cfg) bench_port ^^ k) w))) = S_DECODE"
  using assms
proof (induction k arbitrary: w)
  case 0
  then show ?case using line_props(1)[of "g_line w"] by (auto simp: breaks_within_def at_rest_def hci_active_def)
next
  case (Suc k)
  from Suc.IH[OF breaks_poll] Suc.prems show ?case by (simp add: funpow_swap1)
qed

text \<open>
  WaitForHlt returns whenever the CPU reaches a break, with the board halted. Each round of its
  loop takes at least 1000001 clock cycles, so a CPU that breaks within n times as many cycles makes
  it return after at most n + 1 rounds.
\<close>

lemma system_WaitForHlt:
  assumes "GetSerialComm g = Inr \<lparr>m_hSerialComm = bench_port\<rparr>" and "rig_in w = []"
    and "i < n * poll_clocks" and "snd (rc (((fst \<circ> rc) ^^ i) (con (rig_board w))))"
  shows "\<exists>w1. LuaWaitForHlt (rig_env rc s cfg) g (n + 1) w = Some (Inr (0, w1)) \<and>
    q_state (hci (rig_board w1)) = S_DECODE \<and> g_stk w1 = g_stk w \<and> rig_in w1 = []"
proof -
  have con: "script_host.connected bench_port g"
    by (simp add: script_host.connected_def[OF rig_script.script_host_axioms] assms(1))
  have "breaks_within rc (n * poll_clocks) (rig_board w)" using assms(3,4) by (auto simp: breaks_within_def)
  then have "t_halted (rig_tgt ((poll (rig_env rc s cfg) bench_port ^^ n) w))"
    using breaks_polls by (simp add: rig_halted)
  from rig_script.LuaWaitForHlt_spec[OF con assms(2) this, of "n + 1"] show ?thesis
    by (auto simp: rig_halted)
qed

text \<open>A CPU that counts its cycles in X and breaks in the fourth.\<close>

definition counting_cpu :: cpu_cycle where
  "counting_cpu c = (c\<lparr>cpu := (cpu c)\<lparr>q_x := q_x (cpu c) + 1\<rparr>\<rparr>, q_x (cpu c) = 3)"

definition running_board :: board where
  "running_board = (power_on [])\<lparr>hci := hci_reset\<lparr>q_state := S_DISABLED\<rparr>\<rparr>"

lemma running_board [simp]:
  "at_rest running_board" "sent running_board = []" "con running_board = con (power_on [])"
  "q_state (hci running_board) = S_DISABLED"
  by (simp_all add: running_board_def at_rest_def power_on_def hci_reset_def sent_def)

lemma counting_breaks: "snd (counting_cpu (((fst \<circ> counting_cpu) ^^ 3) (con (power_on []))))"
  by (simp add: numeral_3_eq_3 counting_cpu_def power_on_def cpu_reset_def)

section \<open>The connection test\<close>

text \<open>A running board that does not break drops the bytes of a packet one by one.\<close>

lemma settle_skip:
  assumes "\<And>c. \<not> snd (rc c)" and "running bs out b"
    and "opcode OpDbgHlt \<notin> set bs" and "opcode OpQueryHlt \<notin> set bs"
  shows "running [] out (settle rc full b)"
  using assms(2-)
proof (induction bs arbitrary: b full)
  case Nil
  then show ?case by (simp add: settle_rest running_def at_rest_def)
next
  case (Cons x bs)
  let ?b = "cycle rc (full 0) b"
  from Cons.prems(2,3) have x: "x \<noteq> opcode OpDbgHlt" "x \<noteq> opcode OpQueryHlt"
    by (simp_all del: opcode.simps) blast+
  from c_running(4)[OF Cons.prems(1) assms(1) x] have r: "running bs out ?b" .
  from Cons.IH[OF this] Cons.prems(2,3) have s: "running [] out (settle rc (\<lambda>i. full (Suc i)) ?b)"
    by (simp del: opcode.simps)
  then have "settle rc full b = settle rc (\<lambda>i. full (Suc i)) ?b"
    using Cons.prems(1) by (intro settle_step) (auto simp: running_def at_rest_def settle_def)
  with s show ?case by simp
qed

lemma running_run:
  assumes "\<And>c. \<not> snd (rc c)" and "running [] out b"
  shows "running [] out (run rc full n b)"
  using assms(2) c_running_idle[of out _ rc] assms(1)
  by (induction n arbitrary: full b) (simp, metis run.simps(2))

definition test_bytes :: "byte list" where
  "test_bytes = [0, 4, 0, 0x4E, 0x45, 0x53, 0]"

lemma test_bytes: "encode (Echo initString) = test_bytes"
  by (simp add: initString_def test_bytes_def bytes16_def len16_def lo8_def hi8_def)

lemma rig_ask_running:
  assumes "\<And>c. \<not> snd (rc c)" and "q_state (hci (rig_board w)) = S_DISABLED" and "rig_in w = []"
  shows "snd (fst (ask_echo (rig_env rc s cfg) bench_port w)) = []"
proof -
  define w1 where "w1 = rig_sleep rc s 200 w"
  let ?out = "sent (rig_board w)"
  have "running [] ?out (rig_board w)" using line_props(1)[of "g_line w"] assms(2) by (simp add: running_def at_rest_def)
  then have r1: "running [] ?out (rig_board w1)" and k1: "l_read (g_line w1) = l_read (g_line w)"
    using running_run[OF assms(1)] rest_run[OF line_props(1)[of "g_line w"]] line_props(2)[of "g_line w"]
    by (simp_all add: w1_def rig_sleep_def Let_def l_become)
  define w2 where "w2 = snd (rig_write rc s bench_port test_bytes w1)"
  have "running [] ?out (settle rc (\<lambda>i. full_at s (g_time w1 + i)) (receive test_bytes (rig_board w1)))"
    by (rule settle_skip[OF assms(1) receive_running[OF r1]]) (simp_all add: test_bytes_def)
  then have "rig_in w2 = drop (l_read (g_line w)) ?out"
    using line_props(2)[of "g_line w"] k1
    by (simp add: w2_def rig_write_def rig_in_def l_unread_def Let_def l_become running_def at_rest_def)
  then have "rig_in w2 = []" using assms(3) by (simp add: rig_in_def l_unread_def)
  then show ?thesis unfolding ask_echo_def test_bytes
    by (simp add: rig_env_def desk_env_def rig_read_def rig_in_def Let_def w1_def[symmetric] w2_def[symmetric])
qed

lemma rig_ask_halted:
  fixes w s rc cfg
  assumes "q_state (hci (rig_board w)) = S_DECODE" and "rig_in w = []"
  defines "r \<equiv> ask_echo (rig_env rc s cfg) bench_port w"
  shows "snd (fst r) = initString" and "rig_tgt (snd r) = rig_tgt w" and "rig_in (snd r) = []"
proof -
  define w1 where "w1 = rig_sleep rc s 200 w"
  have w1: "t_halted (rig_tgt w1)" "rig_tgt w1 = rig_tgt w" "rig_in w1 = []"
    using assms(1,2) by (simp_all add: w1_def rig_sleep_rest flip: rig_halted)
  have c: "wf_cmd (Echo initString)" "plain_cmd (Echo initString)" by (simp_all add: wf_cmd_def initString_def)
  define w2 where "w2 = snd (rig_write rc s bench_port (encode (Echo initString)) w1)"
  have w2: "rig_tgt w2 = rig_tgt w" "rig_in w2 = initString"
    using rig_write_packet[OF w1(1) c, of rc s] w1 by (simp_all add: w2_def)
  have r: "r = ReadFile (rig_env rc s cfg) bench_port 4 w2"
    by (simp add: r_def ask_echo_def rig_env_def desk_env_def w1_def w2_def)
  have "unat (4 :: uint) = length initString" by (simp add: initString_def)
  with rig_link.read_reply[of 4 w2 rc s cfg] w2
  show "snd (fst r) = initString" "rig_tgt (snd r) = rig_tgt w" "rig_in (snd r) = []"
    by (simp_all add: r)
qed

text \<open>
  C16: The connection test of a release build against the FPGA, with nothing unread on the line: a halted board echoes the
  string, so the test succeeds and leaves the board as it was. A running board whose CPU does not
  break drops the packet, nothing comes back, and the test reads uninitialised bytes instead of
  reporting that the FPGA is not connected.
\<close>

theorem system_handshake:
  assumes "rig_in w = []"
  shows "(q_state (hci (rig_board w)) = S_DECODE \<longrightarrow>
      (\<exists>w1. Init_handshake (rig_env rc s cfg) \<lparr>m_hSerialComm = bench_port\<rparr> w = Inr (True, w1) \<and>
        abs_board (rig_board w1) = abs_board (rig_board w) \<and> rig_in w1 = [])) \<and>
    (q_state (hci (rig_board w)) = S_DISABLED \<longrightarrow> (\<forall>c. \<not> snd (rc c)) \<longrightarrow>
      Init_handshake (rig_env rc s cfg) \<lparr>m_hSerialComm = bench_port\<rparr> w = Inl UninitRead)"
proof -
  let ?r = "ask_echo (rig_env rc s cfg) bench_port w"
  have nodebug: "\<not> debug_build (rig_env rc s cfg)" by (simp add: rig_env_def desk_env_def)
  note eq = handshake_eq[OF nodebug, of bench_port w]
  have "\<exists>w1. Init_handshake (rig_env rc s cfg) \<lparr>m_hSerialComm = bench_port\<rparr> w = Inr (True, w1) \<and>
      abs_board (rig_board w1) = abs_board (rig_board w) \<and> rig_in w1 = []"
    if "q_state (hci (rig_board w)) = S_DECODE"
    using eq rig_ask_halted[OF that assms, of rc s cfg] by (auto simp: initString_def rig_tgt_def Let_def)
  moreover have "Init_handshake (rig_env rc s cfg) \<lparr>m_hSerialComm = bench_port\<rparr> w = Inl UninitRead"
    if "q_state (hci (rig_board w)) = S_DISABLED" "\<forall>c. \<not> snd (rc c)"
    using eq rig_ask_running[OF _ that(1) assms, of rc s cfg] that(2) by (simp add: initString_def Let_def)
  ultimately show ?thesis by blast
qed

lemma system_handshake_witness:
  "(\<exists>w1. Init_handshake (rig_env nop_cpu always_ready desk_cfg) \<lparr>m_hSerialComm = bench_port\<rparr> (rig_on (power_on []) []) =
        Inr (True, w1) \<and> abs_board (rig_board w1) = abs_board (rig_board (rig_on (power_on []) [])) \<and> rig_in w1 = []) \<and>
   Init_handshake (rig_env nop_cpu always_ready desk_cfg) \<lparr>m_hSerialComm = bench_port\<rparr> (rig_on running_board []) =
     Inl UninitRead"
proof -
  have "sent (power_on []) = []" by (simp add: sent_def power_on_def hci_reset_def)
  then have "rig_in (rig_on (power_on []) []) = []" "q_state (hci (rig_board (rig_on (power_on []) []))) = S_DECODE"
    by (simp_all add: power_on_rest)
  moreover have "rig_in (rig_on running_board []) = []" "q_state (hci (rig_board (rig_on running_board []))) = S_DISABLED"
    "\<forall>c. \<not> snd (nop_cpu c)"
    by (simp_all add: nop_cpu_def)
  ultimately show ?thesis
    using system_handshake[of "rig_on (power_on []) []" nop_cpu always_ready desk_cfg]
      system_handshake[of "rig_on running_board []" nop_cpu always_ready desk_cfg] by blast
qed

end
