(* ===== verification/Wire_Rig.thy ===== *)
theory Wire_Rig
  imports Wire System
begin

text \<open>
  The host program's serial port with the whole debug side of the FPGA at its other end, on the wire: writing sends
  the bytes as frames at 38400 baud and lets clocks pass until the line is quiet, reading takes from what a
  receiver has heard on the FPGA's output. The contracts of theory \<open>Link\<close> are interpreted on this world, for every
  CPU. The last theorem is \<open>LoadRom\<close> on it: from the user's file, through the packets, the UART and the state
  machine, to the block RAMs.
\<close>

section \<open>The world\<close>

text \<open>
  The FPGA, the receiver that listens to it, and, for a console that the last packet let run, the FPGA in the
  clock in which its HCI gave the buses to the CPU. The CPU has been running since then, so this is what can be said of
  the packet's effect whatever the CPU does. A write that would not come to an end does not happen.
\<close>

typedef wline = "{(f, h, left :: fpga option). waits f \<and> rx_ready h \<and> (\<forall>g. left = Some g \<longrightarrow> \<not> hci_active (f_hci g))}"
  morphisms wline_rep Wline
  using rest_waits[OF power_on_fpga_rest power_on_tx_idle] host_rx_ready
  by (intro exI[of _ "(power_on_fpga, rx_reset, None)"]) simp

definition w_fpga :: "wline \<Rightarrow> fpga" where
  "w_fpga l = fst (wline_rep l)"

definition w_ear :: "wline \<Rightarrow> uart_rx" where
  "w_ear l = fst (snd (wline_rep l))"

definition w_left :: "wline \<Rightarrow> fpga option" where
  "w_left l = snd (snd (wline_rep l))"

lemma wline_props: "waits (w_fpga l)" "rx_ready (w_ear l)" "w_left l = Some g \<Longrightarrow> \<not> hci_active (f_hci g)"
  using wline_rep[of l] by (auto simp: w_fpga_def w_ear_def w_left_def)

definition w_become :: "fpga \<Rightarrow> uart_rx \<Rightarrow> fpga option \<Rightarrow> wline \<Rightarrow> wline" where
  "w_become f h left l = (if waits f \<and> rx_ready h then Wline (f, h, left) else l)"

lemma w_become:
  assumes "waits f" and "rx_ready h" and "\<forall>g. left = Some g \<longrightarrow> \<not> hci_active (f_hci g)"
  shows "w_fpga (w_become f h left l) = f" and "w_ear (w_become f h left l) = h" and "w_left (w_become f h left l) = left"
  using assms by (simp_all add: w_become_def w_fpga_def w_ear_def w_left_def Wline_inverse)

text \<open>\<open>x_in\<close>: the bytes received and not yet read.\<close>

record wrig =
  x_line :: wline
  x_in :: "byte list"
  x_stk :: "lua_value list"

definition wrig_write :: "cpu_cycle \<Rightarrow> uint \<Rightarrow> byte list \<Rightarrow> wrig \<Rightarrow> (bool \<times> uint) \<times> wrig" where
  "wrig_write rc k bs w =
     (if k = bench_port then
        (let f = w_fpga (x_line w); h = w_ear (x_line w); n = wire_time rc bs f h;
             left = (if f_state f = S_DECODE then wire_left rc bs f n else None) in
         ((True, of_nat (length bs)),
          w\<lparr>x_line := w_become (fpga_at rc (line_of bs) f n) (ear rc (line_of bs) f h n) left (x_line w),
            x_in := x_in w @ rx_bytes (f_tick f) (f_pin rc (line_of bs) f) h n\<rparr>))
      else ((False, 0), w))"

definition wrig_read :: "bench_cfg \<Rightarrow> uint \<Rightarrow> uint \<Rightarrow> wrig \<Rightarrow> (bool \<times> byte list) \<times> wrig" where
  "wrig_read cfg k n w =
     (if k = bench_port then ((True, take (unat n) (x_in w)), w\<lparr>x_in := drop (unat n) (x_in w)\<rparr>)
      else if k = bench_file then ((True, take (unat n) (c_data cfg)), w)
      else ((False, []), w))"

definition wrig_sleep :: "cpu_cycle \<Rightarrow> uint \<Rightarrow> wrig \<Rightarrow> wrig" where
  "wrig_sleep rc ms w =
     (let f = w_fpga (x_line w); h = w_ear (x_line w); n = unat ms * clocks_per_ms in
      w\<lparr>x_line := w_become (fpga_at rc (\<lambda>_. True) f n) (ear rc (\<lambda>_. True) f h n) (w_left (x_line w)) (x_line w)\<rparr>)"

definition wrig_upd :: "(lua_value list \<Rightarrow> lua_value list) \<Rightarrow> wrig \<Rightarrow> wrig" where
  "wrig_upd f w = w\<lparr>x_stk := f (x_stk w)\<rparr>"

definition wrig_env :: "cpu_cycle \<Rightarrow> bench_cfg \<Rightarrow> wrig env" where
  "wrig_env rc cfg = desk_env x_stk wrig_upd (wrig_write rc) (wrig_read cfg) (wrig_sleep rc) cfg"

abbreviation wrig_fpga :: "wrig \<Rightarrow> fpga" where
  "wrig_fpga w \<equiv> w_fpga (x_line w)"

text \<open>The FPGA as the packets have left it: as it is, or when the CPU began to run.\<close>

definition wrig_at :: "wrig \<Rightarrow> fpga" where
  "wrig_at w = (case w_left (x_line w) of None \<Rightarrow> wrig_fpga w | Some g \<Rightarrow> g)"

definition wrig_tgt :: "wrig \<Rightarrow> target" where
  "wrig_tgt w = fpga_target (wrig_at w)"

section \<open>The contracts hold\<close>

lemma target_halted: "t_halted (fpga_target f) \<longleftrightarrow> hci_active (f_hci f)"
  by (simp add: fpga_target_def abs_board_def)

lemma waits_active: "waits f \<Longrightarrow> hci_active (f_hci f) \<longleftrightarrow> f_state f = S_DECODE"
  by (auto simp: waits_def hci_active_def)

lemma wrig_write_quiet:
  fixes rc bs w
  defines "f \<equiv> wrig_fpga w" and "h \<equiv> w_ear (x_line w)" and "w1 \<equiv> snd (wrig_write rc bench_port bs w)"
  defines "m \<equiv> wire_time rc bs f h"
  assumes q: "wire_quiet rc bs f h m" and d: "heard rc (line_of bs) f h m ds"
  shows "fst (wrig_write rc bench_port bs w) = (True, of_nat (length bs))"
    and "wrig_fpga w1 = fpga_at rc (line_of bs) f m" and "x_in w1 = x_in w @ ds"
    and "w_left (x_line w1) = (if f_state f = S_DECODE then wire_left rc bs f m else None)"
  using q d
  by (simp_all add: w1_def wrig_write_def Let_def w_become wire_left_runs wire_quiet_def heard_def flip: f_def h_def m_def)

lemma wrig_halted: "t_halted (wrig_tgt w) \<longleftrightarrow> w_left (x_line w) = None \<and> f_state (wrig_fpga w) = S_DECODE"
  using waits_active[OF wline_props(1)[of "x_line w"]] wline_props(3)[of "x_line w"]
  by (simp add: wrig_tgt_def wrig_at_def target_halted split: option.split)

lemma wrig_write_packet:
  assumes "t_halted (wrig_tgt w)" and c: "wf_cmd c" "plain_cmd c"
  shows "fst (wrig_write rc bench_port (encode c) w) = (True, of_nat (length (encode c))) \<and>
    wrig_tgt (snd (wrig_write rc bench_port (encode c) w)) = snd (exec c (wrig_tgt w)) \<and>
    x_in (snd (wrig_write rc bench_port (encode c) w)) = x_in w @ fst (exec c (wrig_tgt w))"
proof -
  note q = wline_props(1,2)[of "x_line w"]
  have h: "w_left (x_line w) = None" "f_state (wrig_fpga w) = S_DECODE" using assms(1) by (simp_all add: wrig_halted)
  then have t: "wrig_tgt w = fpga_target (wrig_fpga w)" by (simp add: wrig_tgt_def wrig_at_def)
  show ?thesis
  proof (cases "c = DbgRun")
    case True
    note r = wire_run[OF q(1) h(2) q(2), of rc]
    show ?thesis unfolding True using wrig_write_quiet[OF r(1,2)] h r(3)
      by (auto simp add: wrig_tgt_def wrig_at_def simp del: encode.simps)
  next
    case False
    note r = wire_packet[OF c False q(1) h(2) q(2), of rc]
    have "wire_left rc (encode c) (wrig_fpga w) n = None" for n using r(5) by (simp add: wire_left_def)
    then show ?thesis using wrig_write_quiet[OF r(1,2)] h r(4) by (simp add: wrig_tgt_def wrig_at_def)
  qed
qed

lemma wrig_write_query:
  "\<exists>v. (v = 0 \<or> v = 1) \<and> fst (wrig_write rc bench_port (encode QueryHlt) w) = (True, 1) \<and>
     x_in (snd (wrig_write rc bench_port (encode QueryHlt) w)) = x_in w @ [v] \<and>
     (v = 1 \<longrightarrow> t_halted (wrig_tgt (snd (wrig_write rc bench_port (encode QueryHlt) w))))"
proof -
  note q = wline_props(1,2)[of "x_line w"]
  note r = wire_query[OF q, of rc]
  have len: "length (encode QueryHlt) = 1" by simp
  have c: "wf_cmd QueryHlt" "plain_cmd QueryHlt" "QueryHlt \<noteq> DbgRun" by (simp_all add: wf_cmd_def)
  have left: "(if f_state (wrig_fpga w) = S_DECODE then wire_left rc (encode QueryHlt) (wrig_fpga w) n else None) = None" for n
    using wire_packet(5)[OF c q(1) _ q(2), of rc] by (simp add: wire_left_def del: encode.simps)
  from r(2) consider (zero) "heard rc (line_of (encode QueryHlt)) (wrig_fpga w) (w_ear (x_line w))
        (wire_time rc (encode QueryHlt) (wrig_fpga w) (w_ear (x_line w))) [0]"
    | (one) "heard rc (line_of (encode QueryHlt)) (wrig_fpga w) (w_ear (x_line w))
        (wire_time rc (encode QueryHlt) (wrig_fpga w) (w_ear (x_line w))) [1]"
      "f_state (fpga_at rc (line_of (encode QueryHlt)) (wrig_fpga w)
        (wire_time rc (encode QueryHlt) (wrig_fpga w) (w_ear (x_line w)))) = S_DECODE" by blast
  then show ?thesis
  proof cases
    case zero
    show ?thesis using wrig_write_quiet[OF r(1) zero] len by (intro exI[of _ 0]) (simp del: encode.simps)
  next
    case one
    show ?thesis unfolding wrig_halted using wrig_write_quiet[OF r(1) one(1)] one(2) left len
      by (intro exI[of _ 1]) (simp del: encode.simps)
  qed
qed

interpretation wrig_link: nes_link "wrig_env rc cfg" bench_port wrig_tgt x_in for rc cfg
proof
  fix w :: wrig and c :: cmd and n :: uint
  have env: "WriteFile (wrig_env rc cfg) = wrig_write rc" "ReadFile (wrig_env rc cfg) = wrig_read cfg"
    by (simp_all add: wrig_env_def desk_env_def)
  note q = wline_props(1,2)[of "x_line w"]
  show "t_halted (wrig_tgt w) \<Longrightarrow> wf_cmd c \<Longrightarrow> plain_cmd c \<Longrightarrow>
      fst (WriteFile (wrig_env rc cfg) bench_port (encode c) w) = (True, of_nat (length (encode c))) \<and>
      wrig_tgt (snd (WriteFile (wrig_env rc cfg) bench_port (encode c) w)) = snd (exec c (wrig_tgt w)) \<and>
      x_in (snd (WriteFile (wrig_env rc cfg) bench_port (encode c) w)) = x_in w @ fst (exec c (wrig_tgt w))"
    unfolding env by (rule wrig_write_packet)
  have len: "length (encode DbgHlt) = 1" "length (encode QueryHlt) = 1" by simp_all
  note halt = wire_halt[OF q, of rc]
  show "fst (WriteFile (wrig_env rc cfg) bench_port (encode DbgHlt) w) = (True, 1) \<and>
      t_halted (wrig_tgt (snd (WriteFile (wrig_env rc cfg) bench_port (encode DbgHlt) w))) \<and>
      x_in (snd (WriteFile (wrig_env rc cfg) bench_port (encode DbgHlt) w)) = x_in w"
  proof (cases "f_state (wrig_fpga w) = S_DECODE")
    case True
    have c: "wf_cmd DbgHlt" "plain_cmd DbgHlt" "DbgHlt \<noteq> DbgRun" by (simp_all add: wf_cmd_def)
    have "wire_left rc (encode DbgHlt) (wrig_fpga w) n = None" for n
      using wire_packet(5)[OF c q(1) True q(2), of rc] by (simp add: wire_left_def del: encode.simps)
    then show ?thesis unfolding env wrig_halted using wrig_write_quiet[OF halt(1,2)] halt(3) len
      by (simp del: encode.simps)
  next
    case False
    then show ?thesis unfolding env wrig_halted using wrig_write_quiet[OF halt(1,2)] halt(3) len
      by (simp del: encode.simps)
  qed
  show "fst (WriteFile (wrig_env rc cfg) bench_port (encode QueryHlt) w) = (True, 1) \<and>
      (\<exists>v. (v = 0 \<or> v = 1) \<and> x_in (snd (WriteFile (wrig_env rc cfg) bench_port (encode QueryHlt) w)) = x_in w @ [v] \<and>
         (v = 1 \<longrightarrow> t_halted (wrig_tgt (snd (WriteFile (wrig_env rc cfg) bench_port (encode QueryHlt) w)))))"
    using wrig_write_query[of rc w] unfolding env by blast
  show "unat n \<le> length (x_in w) \<Longrightarrow>
      fst (ReadFile (wrig_env rc cfg) bench_port n w) = (True, take (unat n) (x_in w)) \<and>
      wrig_tgt (snd (ReadFile (wrig_env rc cfg) bench_port n w)) = wrig_tgt w \<and>
      x_in (snd (ReadFile (wrig_env rc cfg) bench_port n w)) = drop (unat n) (x_in w)"
    unfolding env by (simp add: wrig_read_def wrig_tgt_def wrig_at_def cong: option.case_cong)
qed

interpretation wrig_lua: lua_vm "wrig_env rc cfg" x_stk for rc cfg
  unfolding wrig_env_def by (rule desk_lua_vm) (simp add: wrig_upd_def)

text \<open>Time does nothing to a halted console and brings no bytes.\<close>

lemma wrig_sleep_rest:
  "x_in (wrig_sleep rc ms w) = x_in w"
  "t_halted (wrig_tgt w) \<Longrightarrow> wrig_tgt (wrig_sleep rc ms w) = wrig_tgt w"
proof -
  note q = wline_props(1,2)[of "x_line w"]
  note i = waits_idle[OF q, of rc "unat ms * clocks_per_ms"]
  show "x_in (wrig_sleep rc ms w) = x_in w" by (simp add: wrig_sleep_def Let_def)
  show "t_halted (wrig_tgt w) \<Longrightarrow> wrig_tgt (wrig_sleep rc ms w) = wrig_tgt w"
    using i by (simp add: wrig_halted) (simp add: wrig_sleep_def wrig_tgt_def wrig_at_def Let_def w_become heard_def)
qed

lemma wrig_frames:
  "x_stk (snd (wrig_write rc k bs w)) = x_stk w" "x_stk (snd (wrig_read cfg k n w)) = x_stk w"
  "x_stk (wrig_sleep rc ms w) = x_stk w"
  "wrig_tgt (wrig_upd f w) = wrig_tgt w" "x_in (wrig_upd f w) = x_in w"
  by (simp_all add: wrig_write_def wrig_read_def wrig_sleep_def wrig_upd_def wrig_tgt_def wrig_at_def Let_def cong: option.case_cong)

interpretation wrig_script: script_host "wrig_env rc cfg" bench_port wrig_tgt x_in x_stk for rc cfg
  by unfold_locales (simp_all add: wrig_env_def desk_env_def wrig_frames wrig_sleep_rest)

interpretation wrig_ui: ui_host "wrig_env rc cfg" bench_port wrig_tgt x_in x_stk for rc cfg
  unfolding wrig_env_def
  by (rule desk_ui_host[OF wrig_script.script_host_axioms[unfolded wrig_env_def]])
    (simp add: Link.quiet_def wrig_read_def)

section \<open>Loading a ROM over the wire\<close>

lemma wrig_picked:
  assumes "c_path cfg \<noteq> T ''COM5''" and "length (c_path cfg) < 1024" and "length (c_data cfg) \<le> FileDataBufferSize"
  shows "file_picked (wrig_env rc cfg) (c_path cfg) bench_file (c_data cfg)"
  using assms
  by (simp add: file_picked_def wrig_env_def desk_env_def wrig_read_def bench_file_def bench_port_def
      INVALID_HANDLE_VALUE_def FileDataBufferSize_def)

lemma wrig_at_board:
  "wrig_tgt w = abs_board (board_of (wrig_at w) [] [])"
  "\<not> t_halted (wrig_tgt w) \<Longrightarrow> f_state (wrig_at w) = S_DISABLED"
  by (simp_all add: wrig_tgt_def fpga_target_def abs_board_def hci_active_def)

text \<open>
  C7: Loading a ROM, the host program and the FPGA with its UART, over the serial line at 38400 baud: from any state of a
  waiting FPGA, halted or running, with any CPU, and for every complete image the checks accept, the loader
  ends; in the clock in which the HCI gives the buses to the CPU the PRG and CHR data of the file are in the cartridge's
  block RAMs and the program counter is at the reset vector. No byte is left on the line.
\<close>

theorem wire_LoadRom:
  assumes g: "GetSerialComm g = Inr \<lparr>m_hSerialComm = bench_port\<rparr>"
    and f: "c_path cfg \<noteq> T ''COM5''" "length (c_path cfg) < 1024" "c_data cfg = data"
      "length data \<le> FileDataBufferSize"
    and ok: "ines_ok data" "ines_complete data"
  shows "\<exists>w1. LoadRom (wrig_env rc cfg) g d w = Inr ((), w1) \<and> x_in w1 = x_in w \<and>
    f_state (wrig_at w1) = S_DISABLED \<and>
    (\<forall>i < prg_size data. ram (prgrom (f_con (wrig_at w1))) (of_nat i) = data ! (16 + i)) \<and>
    (\<forall>i < chr_size data. ram (chrrom (f_con (wrig_at w1))) (of_nat i) = data ! (16 + prg_size data + i)) \<and>
    q_pcl (cpu (f_con (wrig_at w1))) = data ! (16 + prg_size data - 4) \<and>
    q_pch (cpu (f_con (wrig_at w1))) = data ! (16 + prg_size data - 3)"
proof -
  have con: "script_host.connected bench_port g"
    by (simp add: script_host.connected_def[OF wrig_script.script_host_axioms] g)
  have "file_picked (wrig_env rc cfg) (c_path cfg) bench_file data" using wrig_picked f by metis
  from wrig_ui.LoadRom_ok[OF this bench_file_port con ok]
  obtain w1 where w1: "LoadRom (wrig_env rc cfg) g d w = Inr ((), w1)" "x_in w1 = x_in w"
    and l: "rom_loaded data (wrig_tgt w1)"
    by (auto simp: wrig_env_def desk_env_def)
  let ?b = "board_of (wrig_at w1) [] []"
  note b = rom_in_rams[OF ok(1) l[unfolded wrig_at_board(1)]]
  have "f_state (wrig_at w1) = S_DISABLED" using l wrig_at_board(2) by (simp add: rom_loaded_def)
  then show ?thesis using w1 b by auto
qed

text \<open>A concrete world: the FPGA after power on, with its receiver.\<close>

definition wrig_on :: "lua_value list \<Rightarrow> wrig" where
  "wrig_on s = \<lparr>x_line = Wline (power_on_fpga, rx_reset, None), x_in = [], x_stk = s\<rparr>"

lemma wire_LoadRom_witness:
  "\<exists>w1. LoadRom (wrig_env nop_cpu (desk_file_cfg (rom_file one_bank 0x4000))) desk_g (new_NesDbg 1 1)
       (wrig_on []) = Inr ((), w1) \<and> x_in w1 = [] \<and> f_state (wrig_at w1) = S_DISABLED \<and>
    ram (prgrom (f_con (wrig_at w1))) 0x1234 = 0 \<and> q_pcl (cpu (f_con (wrig_at w1))) = 0"
proof -
  have size: "prg_size (rom_file one_bank 0x4000) = 0x4000" by (simp add: rom_file_ok)
  have z: "rom_file one_bank 0x4000 ! n = 0" if "16 \<le> n" "n < 16 + 0x4000" for n
    using that by (simp add: rom_file_def nth_append) (simp add: one_bank_def)
  show ?thesis
    using wire_LoadRom[OF desk_simps(1), of "desk_file_cfg (rom_file one_bank 0x4000)" "rom_file one_bank 0x4000"
        nop_cpu "new_NesDbg 1 1" "wrig_on []"]
    by (auto simp: rom_file_ok ines_complete_def FileDataBufferSize_def desk_file_cfg_def desk_cfg_def T_def size wrig_on_def z
        dest!: spec[of _ "0x1234"])
qed

section \<open>Writing memory from a script\<close>

text \<open>
  C8: A Lua script's CpuMemWr over the serial line: on a halted FPGA it stores the bytes of its table in the block RAM of the
  work RAM, at the addresses it names, mirrored every 2 KB, and leaves the FPGA halted and waiting. The addresses lie
  in the work RAM's range and no two of them share a cell.
\<close>

theorem wire_CpuMemWr:
  assumes g: "GetSerialComm g = Inr \<lparr>m_hSerialComm = bench_port\<rparr>"
    and st: "f_state (wrig_fpga w) = S_DECODE" "w_left (x_line w) = None"
    and args: "x_stk w = [LNum x1, LNum x2, LTab tb]" "cast_ushort x1 = Inr a" "cast_ushort x2 = Inr n"
      "tab_bytes tb (unat n) ds"
    and mem: "\<And>i. i < length ds \<Longrightarrow> wram_en (a + of_nat i)"
      "inj_on (\<lambda>i. ucast (a + of_nat i) :: 11 word) {..<length ds}"
  shows "\<exists>w1. LuaCpuMemWr (wrig_env rc cfg) g w = Inr (0, w1) \<and> x_in w1 = x_in w \<and>
    f_state (wrig_fpga w1) = S_DECODE \<and>
    (\<forall>i < length ds. ram (wram (f_con (wrig_fpga w1))) (ucast (a + of_nat i)) = ds ! i)"
proof -
  have con: "script_host.connected bench_port g"
    by (simp add: script_host.connected_def[OF wrig_script.script_host_axioms] g)
  obtain w1 where w1: "LuaCpuMemWr (wrig_env rc cfg) g w = Inr (0, w1)" "x_in w1 = x_in w"
    and t: "wrig_tgt w1 = wr_block t_cpu_wr a ds (wrig_tgt w)"
    using wrig_script.LuaCpuMemWr_spec[OF args con] st wrig_halted by blast
  have h: "w_left (x_line w1) = None" "f_state (wrig_fpga w1) = S_DECODE"
    using st t cpu_wr_frame(1)[of a ds "wrig_tgt w"] wrig_halted by metis+
  then have "ram (wram (f_con (wrig_fpga w1))) = t_wram (wrig_tgt w1)"
    by (simp add: wrig_tgt_def wrig_at_def fpga_target_def abs_board_def)
  then show ?thesis using w1 h wram_wr_block[OF mem] t by auto
qed

lemma wrig_on_sels [simp]:
  "wrig_fpga (wrig_on s) = power_on_fpga" "w_left (x_line (wrig_on s)) = None" "x_stk (wrig_on s) = s" "x_in (wrig_on s) = []"
  using rest_waits[OF power_on_fpga_rest power_on_tx_idle] host_rx_ready
  by (simp_all add: wrig_on_def w_fpga_def w_left_def Wline_inverse)

lemma wire_CpuMemWr_witness:
  "\<exists>w1. LuaCpuMemWr (wrig_env nop_cpu desk_cfg) desk_g (wrig_on [nat_val 0x7F, nat_val 2, LTab (table_of [7, 8])]) =
      Inr (0, w1) \<and> x_in w1 = [] \<and>
    ram (wram (f_con (wrig_fpga w1))) 0x7F = 7 \<and> ram (wram (f_con (wrig_fpga w1))) 0x80 = 8"
proof -
  let ?w = "wrig_on [nat_val 0x7F, nat_val 2, LTab (table_of [7, 8])]" and ?ds = "[7, 8 :: byte]"
  have st: "f_state (wrig_fpga ?w) = S_DECODE" "w_left (x_line ?w) = None"
    using rest_waits[OF power_on_fpga_rest power_on_tx_idle] by simp_all
  have args: "x_stk ?w = [LNum (LFinite (of_nat 0x7F)), LNum (LFinite (of_nat 2)), LTab (table_of ?ds)]"
    "cast_ushort (LFinite (of_nat 0x7F)) = Inr 0x7F" "cast_ushort (LFinite (of_nat 2)) = Inr 2" by simp_all
  have mem: "wram_en (0x7F + of_nat i)" if "i < length ?ds" for i using that by (auto simp: wram_en_def less_Suc_eq)
  have inj: "inj_on (\<lambda>i. ucast (0x7F + of_nat i :: 16 word) :: 11 word) {..<length ?ds}" by (auto simp: inj_on_def less_Suc_eq)
  obtain w1 where w1: "LuaCpuMemWr (wrig_env nop_cpu desk_cfg) desk_g ?w = Inr (0, w1)" "x_in w1 = x_in ?w"
    and r: "\<forall>i < length ?ds. ram (wram (f_con (wrig_fpga w1))) (ucast (0x7F + of_nat i :: 16 word)) = ?ds ! i"
    using wire_CpuMemWr[OF desk_simps(1) st args tab_bytes_pair mem inj, of nop_cpu desk_cfg] by blast
  have "ram (wram (f_con (wrig_fpga w1))) 0x7F = 7" "ram (wram (f_con (wrig_fpga w1))) 0x80 = 8"
    using r[THEN spec, of 0] r[THEN spec, of 1] by simp_all
  then show ?thesis using w1 by auto
qed

section \<open>Waiting for the console to halt\<close>

abbreviation f_breaks :: "cpu_cycle \<Rightarrow> nat \<Rightarrow> fpga \<Rightarrow> bool" where
  "f_breaks rc k f \<equiv> breaks_within rc k (board_of f [] [])"

lemma breaks_clk:
  assumes "\<not> hci_active (f_hci f)" and "f_breaks rc (Suc k) f"
  shows "f_breaks rc k (fpga_clk rc l f)"
proof (cases "snd (rc (f_con f))")
  case True
  then have "hci_active (f_hci (fpga_clk rc l f))"
    using assms(1) by (simp add: fpga_clk_def fpga_input_def d_eval split_beta)
  then show ?thesis by (simp add: breaks_within_def)
next
  case False
  have con: "f_con (fpga_clk rc l f) = fst (rc (f_con f))" using assms(1) by (simp add: fpga_clk_def Let_def split_beta)
  obtain i where i: "i < Suc k" "snd (rc (((fst \<circ> rc) ^^ i) (f_con f)))"
    using assms by (auto simp: breaks_within_def)
  with False obtain j where "i = Suc j" by (cases i) auto
  with i show ?thesis by (auto simp: breaks_within_def con funpow_swap1)
qed

lemma breaks_fpga:
  assumes "\<And>i. i < n \<Longrightarrow> hci_active (f_hci (fpga_at rc line f i)) \<Longrightarrow> hci_active (f_hci (fpga_at rc line f (Suc i)))"
    and "f_breaks rc (n + k) f"
  shows "f_breaks rc k (fpga_at rc line f n)"
  using assms
proof (induction n arbitrary: k)
  case (Suc n)
  have b: "f_breaks rc (Suc k) (fpga_at rc line f n)" using Suc.IH[of "Suc k"] Suc.prems by (simp del: fpga_at.simps)
  show ?case
  proof (cases "hci_active (f_hci (fpga_at rc line f n))")
    case True
    then show ?thesis using Suc.prems(1)[of n] by (simp add: breaks_within_def del: fpga_at.simps)
  next
    case False
    from breaks_clk[OF this b] show ?thesis by simp
  qed
qed simp

lemma breaks_sleep:
  assumes "f_breaks rc (unat ms * clocks_per_ms + k) (wrig_fpga w)"
  shows "f_breaks rc k (wrig_fpga (wrig_sleep rc ms w))"
proof -
  note q = wline_props(1,2)[of "x_line w"]
  let ?l = "\<lambda>_. True" and ?n = "unat ms * clocks_per_ms"
  note i = waits_idle[OF q, of rc]
  have "hci_active (f_hci (fpga_at rc ?l (wrig_fpga w) (Suc j)))" if "hci_active (f_hci (fpga_at rc ?l (wrig_fpga w) j))" for j
    using waits_idle(3)[OF i(1)[of j] q(2), of rc 1] i(1)[of "Suc j"] i(1)[of j] that by (simp add: waits_active)
  from breaks_fpga[OF this assms] have "f_breaks rc k (fpga_at rc ?l (wrig_fpga w) ?n)" .
  moreover have "wrig_fpga (wrig_sleep rc ms w) = fpga_at rc ?l (wrig_fpga w) ?n"
    using i(1,2)[of ?n] wline_props(3)[of "x_line w"] by (simp add: wrig_sleep_def Let_def w_become heard_def)
  ultimately show ?thesis by simp
qed

lemma query_active:
  assumes w: "waits f" and a: "hci_active (f_hci (fpga_at rc (line_of (encode QueryHlt)) f i))"
  shows "hci_active (f_hci (fpga_at rc (line_of (encode QueryHlt)) f (Suc i)))"
proof -
  have e: "encode QueryHlt = [7]" by simp
  note x = small_expects[OF w, of 7, simplified]
  note f = line_feeding(1)[OF w x(2)]
  note sm = small_run[OF x(1) w f, of rc i]
  note inp = small_input[OF f sm]
  have "f_state (fpga_at rc (line_of [7]) f i) = S_DECODE"
    using a sm by (auto simp: e small_def hci_active_def simp del: fpga_at.simps)
  from byte_step(5)[OF x(1) inp(1,2) _ this] have "f_state (fpga_at rc (line_of [7]) f (Suc i)) = S_DECODE"
    unfolding inp(4) by simp
  then show ?thesis by (simp add: e hci_active_def del: fpga_at.simps)
qed

lemma wrig_query_left:
  assumes "waits f" and "rx_ready h"
  shows "(if f_state f = S_DECODE then wire_left rc (encode QueryHlt) f n else None) = None"
proof (cases "f_state f = S_DECODE")
  case True
  have c: "wf_cmd QueryHlt" "plain_cmd QueryHlt" "QueryHlt \<noteq> DbgRun" by (simp_all add: wf_cmd_def)
  show ?thesis using wire_packet(5)[OF c assms(1) True assms(2), of rc] by (simp add: wire_left_def del: encode.simps)
qed simp

lemma poll_wire:
  fixes rc cfg w
  defines "w1 \<equiv> snd (wrig_write rc bench_port (encode QueryHlt) w)" and "w2 \<equiv> poll (wrig_env rc cfg) bench_port w"
  shows "w_left (x_line w2) = None" and "f_breaks rc (10 * clocks_per_ms + k) (wrig_fpga w) \<Longrightarrow> f_breaks rc k (wrig_fpga w2)"
proof -
  note q = wline_props(1,2)[of "x_line w"]
  note r = wire_query[OF q, of rc]
  obtain ds where d: "heard rc (line_of (encode QueryHlt)) (wrig_fpga w) (w_ear (x_line w))
      (wire_time rc (encode QueryHlt) (wrig_fpga w) (w_ear (x_line w))) ds" using r(2) by blast
  note w1 = wrig_write_quiet[OF r(1) d, folded w1_def]
  have "x_line (snd (wrig_read cfg bench_port 1 w1)) = x_line w1" by (simp add: wrig_read_def)
  then have w2: "x_line w2 = x_line (wrig_sleep rc 10 w1)"
    by (simp add: w2_def poll_def wrig_env_def desk_env_def wrig_sleep_def Let_def flip: w1_def del: encode.simps)
  note i = waits_idle[OF wline_props(1,2)[of "x_line w1"], of rc "unat (10 :: uint) * clocks_per_ms"]
  have "w_left (x_line w1) = None" unfolding w1(4) by (rule wrig_query_left[OF q])
  then show "w_left (x_line w2) = None"
    using i(1,2) by (simp add: w2 wrig_sleep_def Let_def w_become heard_def)
  assume b: "f_breaks rc (10 * clocks_per_ms + k) (wrig_fpga w)"
  have "f_breaks rc (10 * clocks_per_ms + k) (wrig_fpga w1)"
    unfolding w1(2) by (rule breaks_fpga[OF query_active[OF q(1)]]) (use breaks_mono[OF b] in simp_all)
  then have "f_breaks rc k (wrig_fpga (wrig_sleep rc 10 w1))" by (intro breaks_sleep) simp
  then show "f_breaks rc k (wrig_fpga w2)" by (simp add: w2)
qed

lemma polls_wire:
  assumes "f_breaks rc (k * (10 * clocks_per_ms)) (wrig_fpga w)"
  shows "f_state (wrig_fpga ((poll (wrig_env rc cfg) bench_port ^^ k) w)) = S_DECODE"
  using assms
proof (induction k arbitrary: w)
  case 0
  then show ?case using waits_active[OF wline_props(1)[of "x_line w"]] by (simp add: breaks_within_def)
next
  case (Suc k)
  from Suc.IH[OF poll_wire(2)] Suc.prems show ?case by (simp add: funpow_swap1)
qed

text \<open>
  C9: WaitForHlt over the serial line returns whenever the CPU reaches a break, with the FPGA halted and nothing left on the
  line. Each round of its loop takes more than the 1000000 clocks of its sleep, so a CPU that breaks within n times as many
  cycles makes it return after at most n + 1 rounds.
\<close>

theorem wire_WaitForHlt:
  assumes "GetSerialComm g = Inr \<lparr>m_hSerialComm = bench_port\<rparr>" and "x_in w = []"
    and "i < n * (10 * clocks_per_ms)" and "snd (rc (((fst \<circ> rc) ^^ i) (f_con (wrig_fpga w))))"
  shows "\<exists>w1. LuaWaitForHlt (wrig_env rc cfg) g (n + 1) w = Some (Inr (0, w1)) \<and>
    f_state (wrig_fpga w1) = S_DECODE \<and> x_stk w1 = x_stk w \<and> x_in w1 = []"
proof -
  have con: "script_host.connected bench_port g"
    by (simp add: script_host.connected_def[OF wrig_script.script_host_axioms] assms(1))
  have "f_breaks rc (n * (10 * clocks_per_ms)) (wrig_fpga w)" using assms(3,4) by (auto simp: breaks_within_def)
  note d = polls_wire[OF this, of cfg]
  obtain m where "n = Suc m" using assms(3) by (cases n) auto
  then have "w_left (x_line ((poll (wrig_env rc cfg) bench_port ^^ n) w)) = None" by (simp add: poll_wire(1))
  with d have "t_halted (wrig_tgt ((poll (wrig_env rc cfg) bench_port ^^ n) w))" by (simp add: wrig_halted)
  from wrig_script.LuaWaitForHlt_spec[OF con assms(2) this, of "n + 1"] show ?thesis
    by (auto simp: wrig_halted)
qed

text \<open>An FPGA whose CPU runs: the counting one of theory \<open>System\<close>, which breaks in its fourth cycle.\<close>

definition running_fpga :: fpga where
  "running_fpga = power_on_fpga\<lparr>f_hci := hci running_board\<rparr>"

definition wrig_running :: wrig where
  "wrig_running = \<lparr>x_line = Wline (running_fpga, rx_reset, None), x_in = [], x_stk = []\<rparr>"

lemma wrig_running_sels:
  "wrig_fpga wrig_running = running_fpga" "x_in wrig_running = []" "f_con running_fpga = con (power_on [])"
proof -
  have "waits running_fpga"
    using rest_waits[OF power_on_fpga_rest power_on_tx_idle]
    by (simp add: running_fpga_def running_board_def waits_def tx_idle_def power_on_fpga_def hci_reset_def)
  then show "wrig_fpga wrig_running = running_fpga" "x_in wrig_running = []" "f_con running_fpga = con (power_on [])"
    using host_rx_ready
    by (simp_all add: wrig_running_def w_fpga_def Wline_inverse) (simp add: running_fpga_def power_on_fpga_def)
qed

lemma wire_WaitForHlt_witness:
  "\<exists>w1. LuaWaitForHlt (wrig_env counting_cpu desk_cfg) desk_g 2 wrig_running = Some (Inr (0, w1)) \<and>
    f_state (wrig_fpga w1) = S_DECODE \<and> x_stk w1 = x_stk wrig_running \<and> x_in w1 = []"
  using wire_WaitForHlt[OF desk_simps(1), of wrig_running 3 1 counting_cpu desk_cfg] counting_breaks
  by (simp add: wrig_running_sels clocks_per_ms_def numeral_2_eq_2)

end
