(* ===== verification/Cpu.thy ===== *)
theory Cpu
  imports Prelude
begin

text \<open>
  The console's CPU (\<^verbatim>\<open>hw/src/cpu/cpu.v\<close>): a 6502 core clocked at 100 MHz, one CPU cycle in 56
  clocks. Its flip-flops are the record \<open>core\<close>. The decode ROM gives the control signals that are high in the
  current cycle as a list (\<open>decode\<close>, one definition per timing state, in the order of the source); the random
  control logic derives the bus and register enables from them; ALU, buses and the next state follow. A signal of the
  source that is a small code (\<open>q_t\<close>, \<open>q_irq_sel\<close>) is a datatype here.
\<close>

unbundle bit_operations_syntax

section \<open>Opcodes\<close>

abbreviation (input) "ADC_ABS \<equiv> (0x6D :: byte)"
abbreviation (input) "ADC_ABSX \<equiv> (0x7D :: byte)"
abbreviation (input) "ADC_ABSY \<equiv> (0x79 :: byte)"
abbreviation (input) "ADC_IMM \<equiv> (0x69 :: byte)"
abbreviation (input) "ADC_INDX \<equiv> (0x61 :: byte)"
abbreviation (input) "ADC_INDY \<equiv> (0x71 :: byte)"
abbreviation (input) "ADC_ZP \<equiv> (0x65 :: byte)"
abbreviation (input) "ADC_ZPX \<equiv> (0x75 :: byte)"
abbreviation (input) "AND_ABS \<equiv> (0x2D :: byte)"
abbreviation (input) "AND_ABSX \<equiv> (0x3D :: byte)"
abbreviation (input) "AND_ABSY \<equiv> (0x39 :: byte)"
abbreviation (input) "AND_IMM \<equiv> (0x29 :: byte)"
abbreviation (input) "AND_INDX \<equiv> (0x21 :: byte)"
abbreviation (input) "AND_INDY \<equiv> (0x31 :: byte)"
abbreviation (input) "AND_ZP \<equiv> (0x25 :: byte)"
abbreviation (input) "AND_ZPX \<equiv> (0x35 :: byte)"
abbreviation (input) "ASL_ABS \<equiv> (0x0E :: byte)"
abbreviation (input) "ASL_ABSX \<equiv> (0x1E :: byte)"
abbreviation (input) "ASL_ACC \<equiv> (0x0A :: byte)"
abbreviation (input) "ASL_ZP \<equiv> (0x06 :: byte)"
abbreviation (input) "ASL_ZPX \<equiv> (0x16 :: byte)"
abbreviation (input) "BCC \<equiv> (0x90 :: byte)"
abbreviation (input) "BCS \<equiv> (0xB0 :: byte)"
abbreviation (input) "BEQ \<equiv> (0xF0 :: byte)"
abbreviation (input) "BIT_ABS \<equiv> (0x2C :: byte)"
abbreviation (input) "BIT_ZP \<equiv> (0x24 :: byte)"
abbreviation (input) "BMI \<equiv> (0x30 :: byte)"
abbreviation (input) "BNE \<equiv> (0xD0 :: byte)"
abbreviation (input) "BPL \<equiv> (0x10 :: byte)"
abbreviation (input) "BRK \<equiv> (0x00 :: byte)"
abbreviation (input) "BVC \<equiv> (0x50 :: byte)"
abbreviation (input) "BVS \<equiv> (0x70 :: byte)"
abbreviation (input) "CLC \<equiv> (0x18 :: byte)"
abbreviation (input) "CLD \<equiv> (0xD8 :: byte)"
abbreviation (input) "CLI \<equiv> (0x58 :: byte)"
abbreviation (input) "CLV \<equiv> (0xB8 :: byte)"
abbreviation (input) "CMP_ABS \<equiv> (0xCD :: byte)"
abbreviation (input) "CMP_ABSX \<equiv> (0xDD :: byte)"
abbreviation (input) "CMP_ABSY \<equiv> (0xD9 :: byte)"
abbreviation (input) "CMP_IMM \<equiv> (0xC9 :: byte)"
abbreviation (input) "CMP_INDX \<equiv> (0xC1 :: byte)"
abbreviation (input) "CMP_INDY \<equiv> (0xD1 :: byte)"
abbreviation (input) "CMP_ZP \<equiv> (0xC5 :: byte)"
abbreviation (input) "CMP_ZPX \<equiv> (0xD5 :: byte)"
abbreviation (input) "CPX_ABS \<equiv> (0xEC :: byte)"
abbreviation (input) "CPX_IMM \<equiv> (0xE0 :: byte)"
abbreviation (input) "CPX_ZP \<equiv> (0xE4 :: byte)"
abbreviation (input) "CPY_ABS \<equiv> (0xCC :: byte)"
abbreviation (input) "CPY_IMM \<equiv> (0xC0 :: byte)"
abbreviation (input) "CPY_ZP \<equiv> (0xC4 :: byte)"
abbreviation (input) "DEC_ABS \<equiv> (0xCE :: byte)"
abbreviation (input) "DEC_ABSX \<equiv> (0xDE :: byte)"
abbreviation (input) "DEC_ZP \<equiv> (0xC6 :: byte)"
abbreviation (input) "DEC_ZPX \<equiv> (0xD6 :: byte)"
abbreviation (input) "DEX \<equiv> (0xCA :: byte)"
abbreviation (input) "DEY \<equiv> (0x88 :: byte)"
abbreviation (input) "EOR_ABS \<equiv> (0x4D :: byte)"
abbreviation (input) "EOR_ABSX \<equiv> (0x5D :: byte)"
abbreviation (input) "EOR_ABSY \<equiv> (0x59 :: byte)"
abbreviation (input) "EOR_IMM \<equiv> (0x49 :: byte)"
abbreviation (input) "EOR_INDX \<equiv> (0x41 :: byte)"
abbreviation (input) "EOR_INDY \<equiv> (0x51 :: byte)"
abbreviation (input) "EOR_ZP \<equiv> (0x45 :: byte)"
abbreviation (input) "EOR_ZPX \<equiv> (0x55 :: byte)"
abbreviation (input) "HLT \<equiv> (0x02 :: byte)"
abbreviation (input) "INC_ABS \<equiv> (0xEE :: byte)"
abbreviation (input) "INC_ABSX \<equiv> (0xFE :: byte)"
abbreviation (input) "INC_ZP \<equiv> (0xE6 :: byte)"
abbreviation (input) "INC_ZPX \<equiv> (0xF6 :: byte)"
abbreviation (input) "INX \<equiv> (0xE8 :: byte)"
abbreviation (input) "INY \<equiv> (0xC8 :: byte)"
abbreviation (input) "JMP_ABS \<equiv> (0x4C :: byte)"
abbreviation (input) "JMP_IND \<equiv> (0x6C :: byte)"
abbreviation (input) "JSR \<equiv> (0x20 :: byte)"
abbreviation (input) "LDA_ABS \<equiv> (0xAD :: byte)"
abbreviation (input) "LDA_ABSX \<equiv> (0xBD :: byte)"
abbreviation (input) "LDA_ABSY \<equiv> (0xB9 :: byte)"
abbreviation (input) "LDA_IMM \<equiv> (0xA9 :: byte)"
abbreviation (input) "LDA_INDX \<equiv> (0xA1 :: byte)"
abbreviation (input) "LDA_INDY \<equiv> (0xB1 :: byte)"
abbreviation (input) "LDA_ZP \<equiv> (0xA5 :: byte)"
abbreviation (input) "LDA_ZPX \<equiv> (0xB5 :: byte)"
abbreviation (input) "LDX_ABS \<equiv> (0xAE :: byte)"
abbreviation (input) "LDX_ABSY \<equiv> (0xBE :: byte)"
abbreviation (input) "LDX_IMM \<equiv> (0xA2 :: byte)"
abbreviation (input) "LDX_ZP \<equiv> (0xA6 :: byte)"
abbreviation (input) "LDX_ZPY \<equiv> (0xB6 :: byte)"
abbreviation (input) "LDY_ABS \<equiv> (0xAC :: byte)"
abbreviation (input) "LDY_ABSX \<equiv> (0xBC :: byte)"
abbreviation (input) "LDY_IMM \<equiv> (0xA0 :: byte)"
abbreviation (input) "LDY_ZP \<equiv> (0xA4 :: byte)"
abbreviation (input) "LDY_ZPX \<equiv> (0xB4 :: byte)"
abbreviation (input) "LSR_ABS \<equiv> (0x4E :: byte)"
abbreviation (input) "LSR_ABSX \<equiv> (0x5E :: byte)"
abbreviation (input) "LSR_ACC \<equiv> (0x4A :: byte)"
abbreviation (input) "LSR_ZP \<equiv> (0x46 :: byte)"
abbreviation (input) "LSR_ZPX \<equiv> (0x56 :: byte)"
abbreviation (input) "NOP \<equiv> (0xEA :: byte)"
abbreviation (input) "ORA_ABS \<equiv> (0x0D :: byte)"
abbreviation (input) "ORA_ABSX \<equiv> (0x1D :: byte)"
abbreviation (input) "ORA_ABSY \<equiv> (0x19 :: byte)"
abbreviation (input) "ORA_IMM \<equiv> (0x09 :: byte)"
abbreviation (input) "ORA_INDX \<equiv> (0x01 :: byte)"
abbreviation (input) "ORA_INDY \<equiv> (0x11 :: byte)"
abbreviation (input) "ORA_ZP \<equiv> (0x05 :: byte)"
abbreviation (input) "ORA_ZPX \<equiv> (0x15 :: byte)"
abbreviation (input) "PHA \<equiv> (0x48 :: byte)"
abbreviation (input) "PHP \<equiv> (0x08 :: byte)"
abbreviation (input) "PLA \<equiv> (0x68 :: byte)"
abbreviation (input) "PLP \<equiv> (0x28 :: byte)"
abbreviation (input) "ROL_ABS \<equiv> (0x2E :: byte)"
abbreviation (input) "ROL_ABSX \<equiv> (0x3E :: byte)"
abbreviation (input) "ROL_ACC \<equiv> (0x2A :: byte)"
abbreviation (input) "ROL_ZP \<equiv> (0x26 :: byte)"
abbreviation (input) "ROL_ZPX \<equiv> (0x36 :: byte)"
abbreviation (input) "ROR_ABS \<equiv> (0x6E :: byte)"
abbreviation (input) "ROR_ABSX \<equiv> (0x7E :: byte)"
abbreviation (input) "ROR_ACC \<equiv> (0x6A :: byte)"
abbreviation (input) "ROR_ZP \<equiv> (0x66 :: byte)"
abbreviation (input) "ROR_ZPX \<equiv> (0x76 :: byte)"
abbreviation (input) "RTI \<equiv> (0x40 :: byte)"
abbreviation (input) "RTS \<equiv> (0x60 :: byte)"
abbreviation (input) "SAX_ABS \<equiv> (0x8F :: byte)"
abbreviation (input) "SAX_INDX \<equiv> (0x83 :: byte)"
abbreviation (input) "SAX_ZP \<equiv> (0x87 :: byte)"
abbreviation (input) "SAX_ZPY \<equiv> (0x97 :: byte)"
abbreviation (input) "SBC_ABS \<equiv> (0xED :: byte)"
abbreviation (input) "SBC_ABSX \<equiv> (0xFD :: byte)"
abbreviation (input) "SBC_ABSY \<equiv> (0xF9 :: byte)"
abbreviation (input) "SBC_IMM \<equiv> (0xE9 :: byte)"
abbreviation (input) "SBC_INDX \<equiv> (0xE1 :: byte)"
abbreviation (input) "SBC_INDY \<equiv> (0xF1 :: byte)"
abbreviation (input) "SBC_ZP \<equiv> (0xE5 :: byte)"
abbreviation (input) "SBC_ZPX \<equiv> (0xF5 :: byte)"
abbreviation (input) "SEC \<equiv> (0x38 :: byte)"
abbreviation (input) "SED \<equiv> (0xF8 :: byte)"
abbreviation (input) "SEI \<equiv> (0x78 :: byte)"
abbreviation (input) "STA_ABS \<equiv> (0x8D :: byte)"
abbreviation (input) "STA_ABSX \<equiv> (0x9D :: byte)"
abbreviation (input) "STA_ABSY \<equiv> (0x99 :: byte)"
abbreviation (input) "STA_INDX \<equiv> (0x81 :: byte)"
abbreviation (input) "STA_INDY \<equiv> (0x91 :: byte)"
abbreviation (input) "STA_ZP \<equiv> (0x85 :: byte)"
abbreviation (input) "STA_ZPX \<equiv> (0x95 :: byte)"
abbreviation (input) "STX_ABS \<equiv> (0x8E :: byte)"
abbreviation (input) "STX_ZP \<equiv> (0x86 :: byte)"
abbreviation (input) "STX_ZPY \<equiv> (0x96 :: byte)"
abbreviation (input) "STY_ABS \<equiv> (0x8C :: byte)"
abbreviation (input) "STY_ZP \<equiv> (0x84 :: byte)"
abbreviation (input) "STY_ZPX \<equiv> (0x94 :: byte)"
abbreviation (input) "TAX \<equiv> (0xAA :: byte)"
abbreviation (input) "TAY \<equiv> (0xA8 :: byte)"
abbreviation (input) "TSX \<equiv> (0xBA :: byte)"
abbreviation (input) "TXA \<equiv> (0x8A :: byte)"
abbreviation (input) "TXS \<equiv> (0x9A :: byte)"
abbreviation (input) "TYA \<equiv> (0x98 :: byte)"

section \<open>Registers\<close>

datatype tstate = T0 | T1 | T2 | T3 | T4 | T5 | T6

datatype irq_type = INTERRUPT_RST | INTERRUPT_NMI | INTERRUPT_IRQ | INTERRUPT_BRK

record core =
  q_ac :: byte
  q_x :: byte
  q_y :: byte
  q_c :: bool
  q_d :: bool
  q_i :: bool
  q_n :: bool
  q_v :: bool
  q_z :: bool
  q_abh :: byte
  q_abl :: byte
  q_acr :: bool
  q_add :: byte
  q_ai :: byte
  q_bi :: byte
  q_dl :: byte
  q_dor :: byte
  q_ir :: byte
  q_pch :: byte
  q_pcl :: byte
  q_pchs :: byte
  q_pcls :: byte
  q_pd :: byte
  q_s :: byte
  q_t :: tstate
  q_ready :: bool
  q_clk_phase :: "6 word"
  q_irq_sel :: irq_type
  q_rst :: bool
  q_nres :: bool
  q_nmi :: bool
  q_nnmi :: bool

record core_in =
  ready_in :: bool
  nnmi_in :: bool
  nres_in :: bool
  nirq_in :: bool
  d_in :: byte
  dbgreg_sel_in :: "4 word"
  dbgreg_in :: byte
  dbgreg_wr_in :: bool

definition core_reset :: core where
  "core_reset = \<lparr>q_ac = 0, q_x = 0, q_y = 0, q_c = False, q_d = False, q_i = False, q_n = False, q_v = False, q_z = False,
     q_abh = 0x80, q_abl = 0, q_acr = False, q_add = 0, q_ai = 0, q_bi = 0, q_dl = 0, q_dor = 0, q_ir = NOP,
     q_pch = 0x80, q_pcl = 0, q_pchs = 0x80, q_pcls = 0, q_pd = 0, q_s = 0xFF, q_t = T1,
     q_ready = False, q_clk_phase = 1, q_irq_sel = INTERRUPT_RST, q_rst = False, q_nres = True, q_nmi = False, q_nnmi = True\<rparr>"

text \<open>The status register and the address bus.\<close>

definition pack_p :: "bool \<Rightarrow> bool \<Rightarrow> bool \<Rightarrow> bool \<Rightarrow> bool \<Rightarrow> bool \<Rightarrow> bool \<Rightarrow> byte" where
  "pack_p n v b d i z c = push_bit 7 (of_bool n) OR push_bit 6 (of_bool v) OR push_bit 5 1 OR push_bit 4 (of_bool b) OR
     push_bit 3 (of_bool d) OR push_bit 2 (of_bool i) OR push_bit 1 (of_bool z) OR of_bool c"

definition p_reg :: "core \<Rightarrow> byte" where
  "p_reg q = pack_p (q_n q) (q_v q) (q_irq_sel q = INTERRUPT_BRK) (q_d q) (q_i q) (q_z q) (q_c q)"

definition a_out :: "core \<Rightarrow> ushort" where
  "a_out q = le16 (q_abl q) (q_abh q)"

section \<open>Control signals\<close>

datatype pc_ctl = load_prg_byte | load_prg_byte_noinc | incpc_noload | alusum_to_pch | dl_to_pch |
   alusum_to_pcl | s_to_pcl

datatype op_ctl = adc_op | and_op | asl_acc_op | asl_mem_op | bit_op | cmp_op | clc_op | cld_op | cli_op |
   clv_op | dec_op | dex_op | dey_op | eor_op | inc_op | inx_op | iny_op | lda_op | ldx_op | ldy_op |
   lsr_acc_op | lsr_mem_op | ora_op | rol_acc_op | rol_mem_op | ror_acc_op | ror_mem_op | sec_op | sed_op |
   sei_op | tax_op | tay_op | tsx_op | txa_op | txs_op | tya_op

datatype dor_ctl = ac_to_dor | p_to_dor | pch_to_dor | pcl_to_dor | x_to_dor | y_to_dor

datatype ab_ctl = aluinc_to_abh | alusum_to_abh | dl_to_abh | ff_to_abh | one_to_abh | zero_to_abh |
   aluinc_to_abl | alusum_to_abl | dl_to_abl | fa_to_abl | fb_to_abl | fc_to_abl | fd_to_abl | fe_to_abl |
   ff_to_abl | s_to_abl

datatype ai_ctl = ac_to_ai | dl_to_ai | one_to_ai | neg1_to_ai | s_to_ai | x_to_ai | y_to_ai | zero_to_ai

datatype bi_ctl = ac_to_bi | aluinc_to_bi | alusum_to_bi | dl_to_bi | invdl_to_bi | neg1_to_bi | pch_to_bi |
   pcl_to_bi | s_to_bi | x_to_bi | y_to_bi

datatype stk_ctl = aluinc_to_s | alusum_to_s | dl_to_s

datatype psr_ctl = dl_bits67_to_p | dl_to_p | one_to_i

datatype out_ctl = r_nw_0 | clear_rst | clear_nmi

datatype ctl = Pc pc_ctl | Op op_ctl | Dor dor_ctl | Ab ab_ctl | Ai ai_ctl | Bi bi_ctl | Stk stk_ctl | Psr psr_ctl | Out out_ctl

section \<open>Decode ROM\<close>

definition dec_T1 :: "core \<Rightarrow> ctl list" where
  "dec_T1 q = (let ir = q_ir q in
     if ir \<in> {ADC_ABS, AND_ABS, ASL_ABS, BIT_ABS, CMP_ABS, CPX_ABS, CPY_ABS, DEC_ABS, EOR_ABS, INC_ABS,
        JMP_ABS, JMP_IND, LDA_ABS, LDX_ABS, LDY_ABS, LSR_ABS, ORA_ABS, ROL_ABS, ROR_ABS, SAX_ABS, SBC_ABS,
        STA_ABS, STX_ABS, STY_ABS} then [Pc load_prg_byte, Ai zero_to_ai, Bi dl_to_bi]
     else if ir \<in> {ADC_ABSX, AND_ABSX, ASL_ABSX, CMP_ABSX, DEC_ABSX, EOR_ABSX, INC_ABSX, LDA_ABSX,
        LDY_ABSX, LSR_ABSX, ORA_ABSX, ROL_ABSX, ROR_ABSX, SBC_ABSX, STA_ABSX} then [Pc load_prg_byte, Ai
        x_to_ai, Bi dl_to_bi]
     else if ir \<in> {ADC_ABSY, AND_ABSY, CMP_ABSY, EOR_ABSY, LDA_ABSY, LDX_ABSY, ORA_ABSY, SBC_ABSY,
        STA_ABSY} then [Pc load_prg_byte, Ai y_to_ai, Bi dl_to_bi]
     else if ir \<in> {ADC_IMM, AND_IMM, EOR_IMM, ORA_IMM} then [Pc load_prg_byte, Ai ac_to_ai, Bi dl_to_bi]
     else if ir \<in> {ADC_INDX, AND_INDX, CMP_INDX, EOR_INDX, LDA_INDX, ORA_INDX, SAX_INDX, SBC_INDX,
        STA_INDX, ADC_ZPX, AND_ZPX, ASL_ZPX, CMP_ZPX, DEC_ZPX, EOR_ZPX, INC_ZPX, LDA_ZPX, LDY_ZPX, LSR_ZPX,
        ORA_ZPX, ROL_ZPX, ROR_ZPX, SBC_ZPX, STA_ZPX, STY_ZPX} then [Ai x_to_ai, Bi dl_to_bi]
     else if ir \<in> {ADC_INDY, AND_INDY, CMP_INDY, EOR_INDY, LDA_INDY, ORA_INDY, SBC_INDY, STA_INDY} then
        [Ab zero_to_abh, Ab dl_to_abl, Ai zero_to_ai, Bi dl_to_bi]
     else if ir \<in> {ADC_ZP, AND_ZP, ASL_ZP, BIT_ZP, CMP_ZP, CPX_ZP, CPY_ZP, DEC_ZP, EOR_ZP, INC_ZP,
        LDA_ZP, LDX_ZP, LDY_ZP, LSR_ZP, ORA_ZP, ROL_ZP, ROR_ZP, SBC_ZP} then [Ab zero_to_abh, Ab dl_to_abl]
     else if ir \<in> {ASL_ACC, LSR_ACC, ROL_ACC, ROR_ACC} then [Ai ac_to_ai, Bi ac_to_bi]
     else if ir \<in> {BCC, BCS, BEQ, BMI, BNE, BPL, BVC, BVS} then [Pc load_prg_byte, Ai dl_to_ai, Bi
        pcl_to_bi]
     else if ir = BRK then [Dor pch_to_dor, Ab one_to_abh, Ab s_to_abl, Ai neg1_to_ai, Bi s_to_bi] @ (if
        q_irq_sel q = INTERRUPT_BRK then [Pc incpc_noload] else [])
     else if ir = CLC then [Op clc_op]
     else if ir = CLD then [Op cld_op]
     else if ir = CLI then [Op cli_op]
     else if ir = CLV then [Op clv_op]
     else if ir \<in> {CMP_IMM, SBC_IMM} then [Pc load_prg_byte, Ai ac_to_ai, Bi invdl_to_bi]
     else if ir = CPX_IMM then [Pc load_prg_byte, Ai x_to_ai, Bi invdl_to_bi]
     else if ir = CPY_IMM then [Pc load_prg_byte, Ai y_to_ai, Bi invdl_to_bi]
     else if ir = DEX then [Ai x_to_ai, Bi neg1_to_bi]
     else if ir = DEY then [Ai y_to_ai, Bi neg1_to_bi]
     else if ir = INX then [Ai zero_to_ai, Bi x_to_bi]
     else if ir = INY then [Ai zero_to_ai, Bi y_to_bi]
     else if ir = JSR then [Pc incpc_noload, Ab one_to_abh, Ab s_to_abl, Bi s_to_bi, Stk dl_to_s]
     else if ir \<in> {LDX_ZPY, SAX_ZPY, STX_ZPY} then [Ai y_to_ai, Bi dl_to_bi]
     else if ir = LDA_IMM then [Pc load_prg_byte, Op lda_op]
     else if ir = LDX_IMM then [Pc load_prg_byte, Op ldx_op]
     else if ir = LDY_IMM then [Pc load_prg_byte, Op ldy_op]
     else if ir = PHA then [Dor ac_to_dor, Ab one_to_abh, Ab s_to_abl]
     else if ir = PHP then [Dor p_to_dor, Ab one_to_abh, Ab s_to_abl]
     else if ir \<in> {PLA, PLP, RTI, RTS} then [Ai zero_to_ai, Bi s_to_bi]
     else if ir = SEC then [Op sec_op]
     else if ir = SED then [Op sed_op]
     else if ir = SEI then [Op sei_op]
     else if ir = SAX_ZP then [Dor ac_to_dor, Dor x_to_dor, Ab zero_to_abh, Ab dl_to_abl]
     else if ir = STA_ZP then [Dor ac_to_dor, Ab zero_to_abh, Ab dl_to_abl]
     else if ir = STX_ZP then [Dor x_to_dor, Ab zero_to_abh, Ab dl_to_abl]
     else if ir = STY_ZP then [Dor y_to_dor, Ab zero_to_abh, Ab dl_to_abl]
     else if ir = TAX then [Op tax_op]
     else if ir = TAY then [Op tay_op]
     else if ir = TSX then [Op tsx_op]
     else if ir = TXA then [Op txa_op]
     else if ir = TXS then [Op txs_op]
     else if ir = TYA then [Op tya_op]
     else [])"

definition dec_T2 :: "core \<Rightarrow> ctl list" where
  "dec_T2 q = (let ir = q_ir q in
     if ir \<in> {ADC_ABS, AND_ABS, ASL_ABS, BIT_ABS, CMP_ABS, CPX_ABS, CPY_ABS, DEC_ABS, EOR_ABS, INC_ABS,
        LDA_ABS, LDX_ABS, LDY_ABS, LSR_ABS, ORA_ABS, ROL_ABS, ROR_ABS, SBC_ABS, JMP_IND} then [Ab dl_to_abh,
        Ab alusum_to_abl]
     else if ir \<in> {ADC_ABSX, AND_ABSX, ASL_ABSX, CMP_ABSX, DEC_ABSX, EOR_ABSX, INC_ABSX, LDA_ABSX,
        LDY_ABSX, LSR_ABSX, ORA_ABSX, ROL_ABSX, ROR_ABSX, SBC_ABSX, STA_ABSX, ADC_ABSY, AND_ABSY, CMP_ABSY,
        EOR_ABSY, LDA_ABSY, LDX_ABSY, ORA_ABSY, SBC_ABSY, STA_ABSY} then [Ab dl_to_abh, Ab alusum_to_abl, Ai
        zero_to_ai, Bi dl_to_bi]
     else if ir \<in> {ADC_IMM, SBC_IMM} then [Pc load_prg_byte, Op adc_op]
     else if ir \<in> {ADC_INDX, AND_INDX, CMP_INDX, EOR_INDX, LDA_INDX, ORA_INDX, SAX_INDX, SBC_INDX,
        STA_INDX, ADC_ZPX, AND_ZPX, ASL_ZPX, CMP_ZPX, DEC_ZPX, EOR_ZPX, INC_ZPX, LDA_ZPX, LDY_ZPX, LSR_ZPX,
        ORA_ZPX, ROL_ZPX, ROR_ZPX, SBC_ZPX, LDX_ZPY} then [Ab zero_to_abh, Ab alusum_to_abl]
     else if ir \<in> {ADC_INDY, AND_INDY, CMP_INDY, EOR_INDY, LDA_INDY, ORA_INDY, SBC_INDY, STA_INDY} then
        [Ab zero_to_abh, Ab aluinc_to_abl, Ai y_to_ai, Bi dl_to_bi]
     else if ir \<in> {ADC_ZP, AND_ZP, EOR_ZP, ORA_ZP} then [Pc load_prg_byte, Ai ac_to_ai, Bi dl_to_bi]
     else if ir = AND_IMM then [Pc load_prg_byte, Op and_op]
     else if ir = ASL_ACC then [Pc load_prg_byte, Op asl_acc_op]
     else if ir \<in> {ASL_ZP, LSR_ZP, ROL_ZP, ROR_ZP} then [Ai dl_to_ai, Bi dl_to_bi]
     else if ir = LSR_ACC then [Pc load_prg_byte, Op lsr_acc_op]
     else if ir \<in> {BCC, BCS, BEQ, BMI, BNE, BPL, BVC, BVS} then [Pc alusum_to_pcl, Ab alusum_to_abl, Bi
        pch_to_bi] @ (if bit (q_ai q) 7 then [Ai neg1_to_ai] else [Ai one_to_ai])
     else if ir = BIT_ZP then [Pc load_prg_byte, Ai ac_to_ai, Bi dl_to_bi, Psr dl_bits67_to_p]
     else if ir = BRK then [Dor pcl_to_dor, Ab alusum_to_abl, Bi alusum_to_bi, Out r_nw_0]
     else if ir \<in> {CMP_IMM, CPX_IMM, CPY_IMM} then [Pc load_prg_byte, Op cmp_op]
     else if ir \<in> {CMP_ZP, SBC_ZP} then [Pc load_prg_byte, Ai ac_to_ai, Bi invdl_to_bi]
     else if ir = CPX_ZP then [Pc load_prg_byte, Ai x_to_ai, Bi invdl_to_bi]
     else if ir = CPY_ZP then [Pc load_prg_byte, Ai y_to_ai, Bi invdl_to_bi]
     else if ir = DEC_ZP then [Ai neg1_to_ai, Bi dl_to_bi]
     else if ir = DEX then [Pc load_prg_byte, Op dex_op]
     else if ir = DEY then [Pc load_prg_byte, Op dey_op]
     else if ir = EOR_IMM then [Pc load_prg_byte, Op eor_op]
     else if ir = INC_ZP then [Ai zero_to_ai, Bi dl_to_bi]
     else if ir = INX then [Pc load_prg_byte, Op inx_op]
     else if ir = INY then [Pc load_prg_byte, Op iny_op]
     else if ir = JMP_ABS then [Pc dl_to_pch, Pc alusum_to_pcl, Ab dl_to_abh, Ab alusum_to_abl]
     else if ir = JSR then [Dor pch_to_dor, Ai neg1_to_ai]
     else if ir = LDA_ZP then [Pc load_prg_byte, Op lda_op]
     else if ir = LDX_ZP then [Pc load_prg_byte, Op ldx_op]
     else if ir = LDY_ZP then [Pc load_prg_byte, Op ldy_op]
     else if ir = ORA_IMM then [Pc load_prg_byte, Op ora_op]
     else if ir \<in> {PHA, PHP} then [Pc load_prg_byte_noinc, Ai s_to_ai, Bi neg1_to_bi, Out r_nw_0]
     else if ir \<in> {PLA, PLP} then [Ab one_to_abh, Ab aluinc_to_abl, Stk aluinc_to_s]
     else if ir = ROL_ACC then [Pc load_prg_byte, Op rol_acc_op]
     else if ir = ROR_ACC then [Pc load_prg_byte, Op ror_acc_op]
     else if ir \<in> {RTI, RTS} then [Ab one_to_abh, Ab aluinc_to_abl, Bi aluinc_to_bi]
     else if ir = SAX_ABS then [Dor ac_to_dor, Dor x_to_dor, Ab dl_to_abh, Ab alusum_to_abl]
     else if ir \<in> {SAX_ZP, STA_ZP, STX_ZP, STY_ZP} then [Pc load_prg_byte, Out r_nw_0]
     else if ir = SAX_ZPY then [Dor ac_to_dor, Dor x_to_dor, Ab zero_to_abh, Ab alusum_to_abl]
     else if ir = STA_ABS then [Dor ac_to_dor, Ab dl_to_abh, Ab alusum_to_abl]
     else if ir = STA_ZPX then [Dor ac_to_dor, Ab zero_to_abh, Ab alusum_to_abl]
     else if ir = STX_ABS then [Dor x_to_dor, Ab dl_to_abh, Ab alusum_to_abl]
     else if ir = STX_ZPY then [Dor x_to_dor, Ab zero_to_abh, Ab alusum_to_abl]
     else if ir = STY_ABS then [Dor y_to_dor, Ab dl_to_abh, Ab alusum_to_abl]
     else if ir = STY_ZPX then [Dor y_to_dor, Ab zero_to_abh, Ab alusum_to_abl]
     else [])"

definition dec_T3 :: "core \<Rightarrow> ctl list" where
  "dec_T3 q = (let ir = q_ir q in
     if ir \<in> {ADC_ABS, AND_ABS, EOR_ABS, ORA_ABS, ADC_ZPX, AND_ZPX, EOR_ZPX, ORA_ZPX} then [Pc
        load_prg_byte, Ai ac_to_ai, Bi dl_to_bi]
     else if ir \<in> {ADC_ABSX, AND_ABSX, ASL_ABSX, CMP_ABSX, DEC_ABSX, EOR_ABSX, INC_ABSX, LDA_ABSX,
        LDY_ABSX, LSR_ABSX, ORA_ABSX, ROL_ABSX, ROR_ABSX, SBC_ABSX, ADC_ABSY, AND_ABSY, CMP_ABSY, EOR_ABSY,
        LDA_ABSY, LDX_ABSY, ORA_ABSY, SBC_ABSY} then (if q_acr q then [Ab aluinc_to_abh] else [])
     else if ir \<in> {ADC_INDX, AND_INDX, CMP_INDX, EOR_INDX, LDA_INDX, ORA_INDX, SAX_INDX, STA_INDX,
        SBC_INDX} then [Ab zero_to_abh, Ab aluinc_to_abl, Ai zero_to_ai, Bi dl_to_bi]
     else if ir \<in> {ADC_INDY, AND_INDY, CMP_INDY, EOR_INDY, LDA_INDY, ORA_INDY, SBC_INDY, STA_INDY} then
        [Ab dl_to_abh, Ab alusum_to_abl, Ai zero_to_ai, Bi dl_to_bi]
     else if ir \<in> {ADC_ZP, SBC_ZP} then [Pc load_prg_byte, Op adc_op]
     else if ir = AND_ZP then [Pc load_prg_byte, Op and_op]
     else if ir \<in> {ASL_ABS, LSR_ABS, ROL_ABS, ROR_ABS, ASL_ZPX, LSR_ZPX, ROL_ZPX, ROR_ZPX} then [Ai
        dl_to_ai, Bi dl_to_bi]
     else if ir = ASL_ZP then [Op asl_mem_op]
     else if ir \<in> {BCC, BCS, BEQ, BMI, BNE, BPL, BVC, BVS} then [Pc alusum_to_pch, Ab alusum_to_abh]
     else if ir = BIT_ABS then [Pc load_prg_byte, Ai ac_to_ai, Bi dl_to_bi, Psr dl_bits67_to_p]
     else if ir = BIT_ZP then [Pc load_prg_byte, Op bit_op]
     else if ir = BRK then [Dor p_to_dor, Ab alusum_to_abl, Bi alusum_to_bi, Out r_nw_0]
     else if ir \<in> {CMP_ABS, SBC_ABS, CMP_ZPX, SBC_ZPX} then [Pc load_prg_byte, Ai ac_to_ai, Bi
        invdl_to_bi]
     else if ir \<in> {CMP_ZP, CPX_ZP, CPY_ZP} then [Pc load_prg_byte, Op cmp_op]
     else if ir = CPX_ABS then [Pc load_prg_byte, Ai x_to_ai, Bi invdl_to_bi]
     else if ir = CPY_ABS then [Pc load_prg_byte, Ai y_to_ai, Bi invdl_to_bi]
     else if ir \<in> {DEC_ABS, DEC_ZPX} then [Ai neg1_to_ai, Bi dl_to_bi]
     else if ir = DEC_ZP then [Op dec_op]
     else if ir = EOR_ZP then [Pc load_prg_byte, Op eor_op]
     else if ir \<in> {INC_ABS, INC_ZPX} then [Ai zero_to_ai, Bi dl_to_bi]
     else if ir = INC_ZP then [Op inc_op]
     else if ir = JMP_IND then [Ab aluinc_to_abl, Ai zero_to_ai, Bi dl_to_bi]
     else if ir = JSR then [Dor pcl_to_dor, Ab alusum_to_abl, Bi alusum_to_bi, Out r_nw_0]
     else if ir \<in> {LDA_ABS, LDA_ZPX} then [Pc load_prg_byte, Op lda_op]
     else if ir \<in> {LDX_ABS, LDX_ZPY} then [Pc load_prg_byte, Op ldx_op]
     else if ir \<in> {LDY_ABS, LDY_ZPX} then [Pc load_prg_byte, Op ldy_op]
     else if ir = LSR_ZP then [Op lsr_mem_op]
     else if ir = ORA_ZP then [Pc load_prg_byte, Op ora_op]
     else if ir \<in> {PHA, PHP} then [Pc load_prg_byte, Stk alusum_to_s]
     else if ir = PLA then [Pc load_prg_byte_noinc, Op lda_op]
     else if ir = PLP then [Pc load_prg_byte_noinc, Psr dl_to_p]
     else if ir = ROL_ZP then [Op rol_mem_op]
     else if ir = ROR_ZP then [Op ror_mem_op]
     else if ir = RTI then [Ab aluinc_to_abl, Bi aluinc_to_bi, Psr dl_to_p]
     else if ir = RTS then [Ab aluinc_to_abl, Stk dl_to_s]
     else if ir \<in> {SAX_ABS, STA_ABS, STX_ABS, STY_ABS, STA_ZPX, STY_ZPX, SAX_ZPY, STX_ZPY} then [Pc
        load_prg_byte, Out r_nw_0]
     else if ir \<in> {STA_ABSX, STA_ABSY} then [Dor ac_to_dor] @ (if q_acr q then [Ab aluinc_to_abh] else
        [])
     else [])"

definition dec_T4 :: "core \<Rightarrow> ctl list" where
  "dec_T4 q = (let ir = q_ir q in
     if ir \<in> {ADC_ABS, SBC_ABS, ADC_ZPX, SBC_ZPX} then [Pc load_prg_byte, Op adc_op]
     else if ir \<in> {ADC_ABSX, AND_ABSX, EOR_ABSX, ORA_ABSX, ADC_ABSY, AND_ABSY, EOR_ABSY, ORA_ABSY} then
        [Pc load_prg_byte, Ai ac_to_ai, Bi dl_to_bi]
     else if ir \<in> {ADC_INDX, AND_INDX, CMP_INDX, EOR_INDX, LDA_INDX, ORA_INDX, SBC_INDX} then [Ab
        dl_to_abh, Ab alusum_to_abl]
     else if ir \<in> {ADC_INDY, AND_INDY, CMP_INDY, EOR_INDY, LDA_INDY, ORA_INDY, SBC_INDY} then (if q_acr q
        then [Ab aluinc_to_abh] else [])
     else if ir \<in> {AND_ABS, AND_ZPX} then [Pc load_prg_byte, Op and_op]
     else if ir \<in> {ASL_ABS, ASL_ZPX} then [Op asl_mem_op]
     else if ir \<in> {ASL_ZP, DEC_ZP, INC_ZP, LSR_ZP, ROL_ZP, ROR_ZP, STA_ABSX, STA_ABSY} then [Pc
        load_prg_byte, Out r_nw_0]
     else if ir \<in> {ASL_ABSX, LSR_ABSX, ROL_ABSX, ROR_ABSX} then [Ai dl_to_ai, Bi dl_to_bi]
     else if ir = BIT_ABS then [Pc load_prg_byte, Op bit_op]
     else if ir = BRK then [Ab ff_to_abh, Out r_nw_0, Psr one_to_i] @ (case q_irq_sel q of INTERRUPT_RST
        \<Rightarrow> [Ab fc_to_abl] | INTERRUPT_NMI \<Rightarrow> [Ab fa_to_abl] | INTERRUPT_IRQ
        \<Rightarrow> [Ab fe_to_abl] | INTERRUPT_BRK \<Rightarrow> [Ab fe_to_abl])
     else if ir \<in> {CMP_ABS, CPX_ABS, CPY_ABS, CMP_ZPX} then [Pc load_prg_byte, Op cmp_op]
     else if ir \<in> {CMP_ABSX, SBC_ABSX, CMP_ABSY, SBC_ABSY} then [Pc load_prg_byte, Ai ac_to_ai, Bi
        invdl_to_bi]
     else if ir \<in> {DEC_ABS, DEC_ZPX} then [Op dec_op]
     else if ir = DEC_ABSX then [Ai neg1_to_ai, Bi dl_to_bi]
     else if ir \<in> {EOR_ABS, EOR_ZPX} then [Pc load_prg_byte, Op eor_op]
     else if ir \<in> {INC_ABS, INC_ZPX} then [Op inc_op]
     else if ir = INC_ABSX then [Ai zero_to_ai, Bi dl_to_bi]
     else if ir = JMP_IND then [Pc dl_to_pch, Pc alusum_to_pcl, Ab dl_to_abh, Ab alusum_to_abl]
     else if ir = JSR then [Pc load_prg_byte_noinc, Out r_nw_0]
     else if ir \<in> {LDA_ABSX, LDA_ABSY} then [Pc load_prg_byte, Op lda_op]
     else if ir = LDX_ABSY then [Pc load_prg_byte, Op ldx_op]
     else if ir = LDY_ABSX then [Pc load_prg_byte, Op ldy_op]
     else if ir \<in> {LSR_ABS, LSR_ZPX} then [Op lsr_mem_op]
     else if ir \<in> {ORA_ABS, ORA_ZPX} then [Pc load_prg_byte, Op ora_op]
     else if ir \<in> {ROL_ABS, ROL_ZPX} then [Op rol_mem_op]
     else if ir \<in> {ROR_ABS, ROR_ZPX} then [Op ror_mem_op]
     else if ir = RTI then [Ab aluinc_to_abl, Stk dl_to_s]
     else if ir = RTS then [Pc dl_to_pch, Pc s_to_pcl, Stk aluinc_to_s]
     else if ir = SAX_INDX then [Dor ac_to_dor, Dor x_to_dor, Ab dl_to_abh, Ab alusum_to_abl]
     else if ir = STA_INDX then [Dor ac_to_dor, Ab dl_to_abh, Ab alusum_to_abl]
     else if ir = STA_INDY then [Dor ac_to_dor] @ (if q_acr q then [Ab aluinc_to_abh] else [])
     else [])"

definition dec_T5 :: "core \<Rightarrow> ctl list" where
  "dec_T5 q = (let ir = q_ir q in
     if ir \<in> {ADC_ABSX, SBC_ABSX, ADC_ABSY, SBC_ABSY} then [Pc load_prg_byte, Op adc_op]
     else if ir \<in> {ADC_INDX, AND_INDX, EOR_INDX, ORA_INDX, ADC_INDY, AND_INDY, EOR_INDY, ORA_INDY} then
        [Pc load_prg_byte, Ai ac_to_ai, Bi dl_to_bi]
     else if ir \<in> {AND_ABSX, AND_ABSY} then [Pc load_prg_byte, Op and_op]
     else if ir \<in> {ASL_ABS, DEC_ABS, INC_ABS, LSR_ABS, ROL_ABS, ROR_ABS, ASL_ZPX, DEC_ZPX, INC_ZPX,
        LSR_ZPX, ROL_ZPX, ROR_ZPX, SAX_INDX, STA_INDX, STA_INDY} then [Pc load_prg_byte, Out r_nw_0]
     else if ir = ASL_ABSX then [Op asl_mem_op]
     else if ir = BRK then [Ab ff_to_abh, Stk dl_to_s] @ (case q_irq_sel q of INTERRUPT_RST \<Rightarrow> [Ab
        fd_to_abl] | INTERRUPT_NMI \<Rightarrow> [Ab fb_to_abl] | INTERRUPT_IRQ \<Rightarrow> [Ab ff_to_abl]
        | INTERRUPT_BRK \<Rightarrow> [Ab ff_to_abl])
     else if ir \<in> {CMP_ABSX, CMP_ABSY} then [Pc load_prg_byte, Op cmp_op]
     else if ir \<in> {CMP_INDX, SBC_INDX, CMP_INDY, SBC_INDY} then [Pc load_prg_byte, Ai ac_to_ai, Bi
        invdl_to_bi]
     else if ir = DEC_ABSX then [Op dec_op]
     else if ir \<in> {EOR_ABSX, EOR_ABSY} then [Pc load_prg_byte, Op eor_op]
     else if ir = INC_ABSX then [Op inc_op]
     else if ir = JSR then [Pc dl_to_pch, Pc s_to_pcl, Ab dl_to_abh, Ab s_to_abl, Stk alusum_to_s]
     else if ir \<in> {LDA_INDX, LDA_INDY} then [Pc load_prg_byte, Op lda_op]
     else if ir = LSR_ABSX then [Op lsr_mem_op]
     else if ir \<in> {ORA_ABSX, ORA_ABSY} then [Pc load_prg_byte, Op ora_op]
     else if ir = ROL_ABSX then [Op rol_mem_op]
     else if ir = ROR_ABSX then [Op ror_mem_op]
     else if ir = RTI then [Pc dl_to_pch, Pc s_to_pcl, Ab dl_to_abh, Ab s_to_abl, Stk aluinc_to_s]
     else if ir = RTS then [Pc load_prg_byte]
     else [])"

definition dec_T6 :: "core \<Rightarrow> ctl list" where
  "dec_T6 q = (let ir = q_ir q in
     if ir \<in> {ADC_INDX, SBC_INDX, ADC_INDY, SBC_INDY} then [Pc load_prg_byte, Op adc_op]
     else if ir \<in> {AND_INDX, AND_INDY} then [Pc load_prg_byte, Op and_op]
     else if ir \<in> {ASL_ABSX, DEC_ABSX, INC_ABSX, LSR_ABSX, ROL_ABSX, ROR_ABSX} then [Pc load_prg_byte,
        Out r_nw_0]
     else if ir = BRK then [Pc dl_to_pch, Pc s_to_pcl, Ab dl_to_abh, Ab s_to_abl, Stk alusum_to_s] @ (case
        q_irq_sel q of INTERRUPT_RST \<Rightarrow> [Out clear_rst] | INTERRUPT_NMI \<Rightarrow> [Out
        clear_nmi] | _ \<Rightarrow> [])
     else if ir \<in> {CMP_INDX, CMP_INDY} then [Pc load_prg_byte, Op cmp_op]
     else if ir \<in> {EOR_INDX, EOR_INDY} then [Pc load_prg_byte, Op eor_op]
     else if ir \<in> {ORA_INDX, ORA_INDY} then [Pc load_prg_byte, Op ora_op]
     else [])"

definition decode :: "core \<Rightarrow> ctl list" where
  "decode q = (case q_t q of T0 \<Rightarrow> [Pc load_prg_byte] | T1 \<Rightarrow> dec_T1 q | T2 \<Rightarrow> dec_T2 q | T3 \<Rightarrow> dec_T3 q
     | T4 \<Rightarrow> dec_T4 q | T5 \<Rightarrow> dec_T5 q | T6 \<Rightarrow> dec_T6 q)"

section \<open>Random control logic\<close>

definition any_of :: "ctl list \<Rightarrow> ctl list \<Rightarrow> bool" where
  "any_of xs cs \<longleftrightarrow> list_ex (\<lambda>x. x \<in> set cs) xs"

definition add_adl :: "ctl list \<Rightarrow> bool" where
  "add_adl = any_of [Ab aluinc_to_abl, Bi aluinc_to_bi, Ab alusum_to_abl, Bi alusum_to_bi, Pc alusum_to_pcl]"

definition dl_adl :: "ctl list \<Rightarrow> bool" where
  "dl_adl = any_of [Ab dl_to_abl]"

definition pcl_adl :: "ctl list \<Rightarrow> bool" where
  "pcl_adl = any_of [Pc load_prg_byte, Pc load_prg_byte_noinc, Bi pcl_to_bi]"

definition s_adl :: "ctl list \<Rightarrow> bool" where
  "s_adl = any_of [Ab s_to_abl, Bi s_to_bi, Pc s_to_pcl]"

definition zero_adl0 :: "ctl list \<Rightarrow> bool" where
  "zero_adl0 = any_of [Ab fa_to_abl, Ab fc_to_abl, Ab fe_to_abl]"

definition zero_adl1 :: "ctl list \<Rightarrow> bool" where
  "zero_adl1 = any_of [Ab fc_to_abl, Ab fd_to_abl]"

definition zero_adl2 :: "ctl list \<Rightarrow> bool" where
  "zero_adl2 = any_of [Ab fa_to_abl, Ab fb_to_abl]"

definition dl_adh :: "ctl list \<Rightarrow> bool" where
  "dl_adh = any_of [Ab dl_to_abh, Pc dl_to_pch]"

definition pch_adh :: "ctl list \<Rightarrow> bool" where
  "pch_adh = any_of [Pc load_prg_byte, Pc load_prg_byte_noinc]"

definition zero_adh0 :: "ctl list \<Rightarrow> bool" where
  "zero_adh0 = any_of [Ab zero_to_abh]"

definition zero_adh17 :: "ctl list \<Rightarrow> bool" where
  "zero_adh17 = any_of [Ab one_to_abh, Ai one_to_ai, Ab zero_to_abh]"

definition ac_db :: "ctl list \<Rightarrow> bool" where
  "ac_db = any_of [Bi ac_to_bi, Dor ac_to_dor]"

definition dl_db :: "ctl list \<Rightarrow> bool" where
  "dl_db = any_of [Ai dl_to_ai, Bi dl_to_bi, Psr dl_to_p, Stk dl_to_s, Bi invdl_to_bi, Op lda_op, Op ldx_op,
     Op ldy_op]"

definition p_db :: "ctl list \<Rightarrow> bool" where
  "p_db = any_of [Dor p_to_dor]"

definition pch_db :: "ctl list \<Rightarrow> bool" where
  "pch_db = any_of [Bi pch_to_bi, Dor pch_to_dor]"

definition pcl_db :: "ctl list \<Rightarrow> bool" where
  "pcl_db = any_of [Dor pcl_to_dor]"

definition ac_sb :: "ctl list \<Rightarrow> bool" where
  "ac_sb = any_of [Ai ac_to_ai, Op tax_op, Op tay_op]"

definition add_sb :: "ctl list \<Rightarrow> bool" where
  "add_sb = any_of [Op adc_op, Ab aluinc_to_abh, Stk aluinc_to_s, Ab alusum_to_abh, Pc alusum_to_pch, Stk
     alusum_to_s, Op and_op, Op asl_acc_op, Op asl_mem_op, Op bit_op, Op cmp_op, Op dec_op, Op dex_op, Op
     dey_op, Op eor_op, Op inc_op, Op inx_op, Op iny_op, Op lsr_acc_op, Op lsr_mem_op, Op ora_op, Op
     rol_acc_op, Op rol_mem_op, Op ror_acc_op, Op ror_mem_op]"

definition x_sb :: "ctl list \<Rightarrow> bool" where
  "x_sb = any_of [Op txa_op, Op txs_op, Ai x_to_ai, Bi x_to_bi, Dor x_to_dor]"

definition y_sb :: "ctl list \<Rightarrow> bool" where
  "y_sb = any_of [Op tya_op, Ai y_to_ai, Bi y_to_bi, Dor y_to_dor]"

definition s_sb :: "ctl list \<Rightarrow> bool" where
  "s_sb = any_of [Ai s_to_ai, Op tsx_op]"

definition sb_adh :: "ctl list \<Rightarrow> bool" where
  "sb_adh = any_of [Ab aluinc_to_abh, Ab alusum_to_abh, Pc alusum_to_pch, Ai one_to_ai, Psr one_to_i]"

definition sb_db :: "ctl list \<Rightarrow> bool" where
  "sb_db = any_of [Op adc_op, Op and_op, Op asl_acc_op, Op asl_mem_op, Op bit_op, Op cmp_op, Stk dl_to_s, Op
     dec_op, Op dex_op, Op dey_op, Ai dl_to_ai, Op eor_op, Op inc_op, Op inx_op, Op iny_op, Op lda_op, Op
     ldx_op, Op ldy_op, Op lsr_acc_op, Op lsr_mem_op, Psr one_to_i, Op ora_op, Op rol_acc_op, Op rol_mem_op,
     Op ror_acc_op, Op ror_mem_op, Op tax_op, Op tay_op, Op tsx_op, Op txa_op, Op tya_op, Bi x_to_bi, Dor
     x_to_dor, Bi y_to_bi, Dor y_to_dor]"

definition adh_abh :: "ctl list \<Rightarrow> bool" where
  "adh_abh = any_of [Ab aluinc_to_abh, Ab alusum_to_abh, Ab dl_to_abh, Ab ff_to_abh, Pc load_prg_byte, Pc
     load_prg_byte_noinc, Ab one_to_abh, Ab zero_to_abh]"

definition adl_abl :: "ctl list \<Rightarrow> bool" where
  "adl_abl = any_of [Ab aluinc_to_abl, Ab alusum_to_abl, Ab dl_to_abl, Ab fa_to_abl, Ab fb_to_abl, Ab
     fc_to_abl, Ab fd_to_abl, Ab fe_to_abl, Ab ff_to_abl, Pc load_prg_byte, Pc load_prg_byte_noinc, Ab
     s_to_abl]"

definition adl_add :: "ctl list \<Rightarrow> bool" where
  "adl_add = any_of [Bi aluinc_to_bi, Bi alusum_to_bi, Bi pcl_to_bi, Bi s_to_bi]"

definition db_add :: "ctl list \<Rightarrow> bool" where
  "db_add = any_of [Bi ac_to_bi, Bi dl_to_bi, Bi neg1_to_bi, Bi pch_to_bi, Bi x_to_bi, Bi y_to_bi]"

definition invdb_add :: "ctl list \<Rightarrow> bool" where
  "invdb_add = any_of [Bi invdl_to_bi]"

definition sb_s :: "ctl list \<Rightarrow> bool" where
  "sb_s = any_of [Stk aluinc_to_s, Stk alusum_to_s, Stk dl_to_s, Op txs_op]"

definition zero_add :: "ctl list \<Rightarrow> bool" where
  "zero_add = any_of [Ai zero_to_ai]"

definition sb_ac :: "ctl list \<Rightarrow> bool" where
  "sb_ac = any_of [Op adc_op, Op and_op, Op asl_acc_op, Op eor_op, Op lda_op, Op lsr_acc_op, Op ora_op, Op
     rol_acc_op, Op ror_acc_op, Op txa_op, Op tya_op]"

definition sb_add :: "ctl list \<Rightarrow> bool" where
  "sb_add = any_of [Ai ac_to_ai, Ai dl_to_ai, Ai neg1_to_ai, Ai one_to_ai, Ai s_to_ai, Ai x_to_ai, Ai
     y_to_ai]"

definition adh_pch :: "ctl list \<Rightarrow> bool" where
  "adh_pch = any_of [Pc alusum_to_pch, Pc dl_to_pch]"

definition adl_pcl :: "ctl list \<Rightarrow> bool" where
  "adl_pcl = any_of [Pc alusum_to_pcl, Pc s_to_pcl]"

definition sb_x :: "ctl list \<Rightarrow> bool" where
  "sb_x = any_of [Op dex_op, Op inx_op, Op ldx_op, Op tax_op, Op tsx_op]"

definition sb_y :: "ctl list \<Rightarrow> bool" where
  "sb_y = any_of [Op dey_op, Op iny_op, Op ldy_op, Op tay_op]"

definition acr_c :: "ctl list \<Rightarrow> bool" where
  "acr_c = any_of [Op adc_op, Op asl_acc_op, Op asl_mem_op, Op cmp_op, Op lsr_acc_op, Op lsr_mem_op, Op
     rol_acc_op, Op rol_mem_op, Op ror_acc_op, Op ror_mem_op]"

definition db0_c :: "ctl list \<Rightarrow> bool" where
  "db0_c = any_of [Psr dl_to_p]"

definition ir5_c :: "ctl list \<Rightarrow> bool" where
  "ir5_c = any_of [Op clc_op, Op sec_op]"

definition db3_d :: "ctl list \<Rightarrow> bool" where
  "db3_d = any_of [Psr dl_to_p]"

definition ir5_d :: "ctl list \<Rightarrow> bool" where
  "ir5_d = any_of [Op cld_op, Op sed_op]"

definition db2_i :: "ctl list \<Rightarrow> bool" where
  "db2_i = any_of [Psr dl_to_p, Psr one_to_i]"

definition ir5_i :: "ctl list \<Rightarrow> bool" where
  "ir5_i = any_of [Op cli_op, Op sei_op]"

definition db7_n :: "ctl list \<Rightarrow> bool" where
  "db7_n = any_of [Op adc_op, Op and_op, Op asl_acc_op, Op asl_mem_op, Op cmp_op, Op dec_op, Op dex_op, Op
     dey_op, Psr dl_bits67_to_p, Psr dl_to_p, Op eor_op, Op inc_op, Op inx_op, Op iny_op, Op lda_op, Op
     ldx_op, Op ldy_op, Op lsr_acc_op, Op lsr_mem_op, Op ora_op, Op rol_acc_op, Op rol_mem_op, Op ror_acc_op,
     Op ror_mem_op, Op tax_op, Op tay_op, Op tsx_op, Op txa_op, Op tya_op]"

definition avr_v :: "ctl list \<Rightarrow> bool" where
  "avr_v = any_of [Op adc_op]"

definition db6_v :: "ctl list \<Rightarrow> bool" where
  "db6_v = any_of [Psr dl_bits67_to_p, Psr dl_to_p]"

definition zero_v :: "ctl list \<Rightarrow> bool" where
  "zero_v = any_of [Op clv_op]"

definition db1_z :: "ctl list \<Rightarrow> bool" where
  "db1_z = any_of [Psr dl_to_p]"

definition dbz_z :: "ctl list \<Rightarrow> bool" where
  "dbz_z = any_of [Op adc_op, Op and_op, Op asl_acc_op, Op asl_mem_op, Op bit_op, Op cmp_op, Op dec_op, Op
     dex_op, Op dey_op, Op eor_op, Op inc_op, Op inx_op, Op iny_op, Op lda_op, Op ldx_op, Op ldy_op, Op
     lsr_acc_op, Op lsr_mem_op, Op ora_op, Op rol_acc_op, Op rol_mem_op, Op ror_acc_op, Op ror_mem_op, Op
     tax_op, Op tay_op, Op tsx_op, Op txa_op, Op tya_op]"

definition ands :: "ctl list \<Rightarrow> bool" where
  "ands = any_of [Op and_op, Op bit_op]"

definition eors :: "ctl list \<Rightarrow> bool" where
  "eors = any_of [Op eor_op]"

definition ors :: "ctl list \<Rightarrow> bool" where
  "ors = any_of [Op ora_op]"

definition sums :: "ctl list \<Rightarrow> bool" where
  "sums = any_of [Op adc_op, Ab aluinc_to_abh, Ab aluinc_to_abl, Bi aluinc_to_bi, Stk aluinc_to_s, Ab
     alusum_to_abh, Ab alusum_to_abl, Bi alusum_to_bi, Pc alusum_to_pch, Pc alusum_to_pcl, Stk alusum_to_s,
     Op asl_acc_op, Op asl_mem_op, Op cmp_op, Op dec_op, Op dex_op, Op dey_op, Op inc_op, Op inx_op, Op
     iny_op, Op rol_acc_op, Op rol_mem_op]"

definition srs :: "ctl list \<Rightarrow> bool" where
  "srs = any_of [Op lsr_acc_op, Op lsr_mem_op, Op ror_acc_op, Op ror_mem_op]"

definition addc :: "ctl list \<Rightarrow> core \<Rightarrow> bool" where
  "addc cs q = (if any_of [Op adc_op, Op rol_acc_op, Op rol_mem_op, Op ror_acc_op, Op ror_mem_op] cs then q_c q
     else any_of [Ab aluinc_to_abh, Ab aluinc_to_abl, Bi aluinc_to_bi, Stk aluinc_to_s, Op cmp_op, Op inc_op, Op inx_op, Op iny_op] cs)"

definition r_nw :: "ctl list \<Rightarrow> bool" where
  "r_nw cs = (Out r_nw_0 \<notin> set cs)"

section \<open>ALU\<close>

text \<open>The result, the carry out and the overflow out.\<close>

definition alu :: "ctl list \<Rightarrow> core \<Rightarrow> byte \<times> bool \<times> bool" where
  "alu cs q =
     (if ands cs then (q_ai q AND q_bi q, False, False)
      else if eors cs then (q_ai q XOR q_bi q, False, False)
      else if ors cs then (q_ai q OR q_bi q, False, False)
      else if sums cs then
        (let s = ucast (q_ai q) + ucast (q_bi q) + of_bool (addc cs q) :: 9 word; d_add = ucast s; acr = bit s 8 in
         (d_add, acr, ((bit (q_ai q) 7 \<noteq> bit (q_bi q) 7) \<noteq> bit d_add 7) \<noteq> acr))
      else if srs cs then
        (push_bit 7 (of_bool (addc cs q)) OR drop_bit 1 (q_bi q), bit (q_bi q) 0, False)
      else (q_add q, False, False))"

definition acr :: "ctl list \<Rightarrow> core \<Rightarrow> bool" where
  "acr cs q = fst (snd (alu cs q))"

definition avr :: "ctl list \<Rightarrow> core \<Rightarrow> bool" where
  "avr cs q = snd (snd (alu cs q))"

section \<open>Timing generation\<close>

definition next_t :: "bool \<Rightarrow> core \<Rightarrow> tstate" where
  "next_t c_out q = (let ir = q_ir q in
     case q_t q of
       T0 \<Rightarrow> T1
     | T1 \<Rightarrow>
         if ir \<in> {CLC, CLD, CLI, CLV, HLT, LDA_IMM, LDX_IMM, LDY_IMM, NOP, SEC, SED, SEI, TAX, TAY, TSX,
            TXA, TXS, TYA} then T0
         else if ir = BCC \<and> q_c q \<or> ir = BCS \<and> \<not> q_c q \<or> ir = BPL \<and> q_n q \<or> ir = BMI \<and> \<not> q_n q \<or>
           ir = BVC \<and> q_v q \<or> ir = BVS \<and> \<not> q_v q \<or> ir = BNE \<and> q_z q \<or> ir = BEQ \<and> \<not> q_z q then T0
         else T2
     | T2 \<Rightarrow>
         if ir \<in> {ADC_IMM, AND_IMM, ASL_ACC, CMP_IMM, CPX_IMM, CPY_IMM, DEX, DEY, EOR_IMM, INX, INY,
            LSR_ACC, ORA_IMM, ROL_ACC, ROR_ACC, SBC_IMM} then T1
         else if ir \<in> {JMP_ABS, LDA_ZP, LDX_ZP, LDY_ZP, SAX_ZP, STA_ZP, STX_ZP, STY_ZP} then T0
         else if \<not> c_out \<and> ir \<in> {ADC_ABSX, ADC_ABSY, AND_ABSX, AND_ABSY, CMP_ABSX, CMP_ABSY,
            EOR_ABSX, EOR_ABSY, LDA_ABSX, LDA_ABSY, ORA_ABSX, ORA_ABSY, SBC_ABSX, SBC_ABSY} then T4
         else if c_out = bit (q_ai q) 7 \<and> ir \<in> {BCC, BCS, BEQ, BMI, BNE, BPL, BVC, BVS} then T0
         else T3
     | T3 \<Rightarrow>
         if ir \<in> {ADC_ZP, AND_ZP, BIT_ZP, CMP_ZP, CPX_ZP, CPY_ZP, EOR_ZP, ORA_ZP, PHA, PHP, SBC_ZP} then
            T1
         else if ir \<in> {BCC, BCS, BEQ, BMI, BNE, BPL, BVC, BVS, LDA_ABS, LDA_ZPX, LDX_ABS, LDX_ZPY,
            LDY_ABS, LDY_ZPX, PLA, PLP, SAX_ABS, SAX_ZPY, STA_ABS, STA_ZPX, STX_ABS, STX_ZPY, STY_ABS,
            STY_ZPX} then T0
         else if \<not> c_out \<and> ir \<in> {ADC_INDY, AND_INDY, CMP_INDY, EOR_INDY, LDA_INDY, ORA_INDY,
            SBC_INDY} then T5
         else T4
     | T4 \<Rightarrow>
         if ir \<in> {ADC_ABS, ADC_ZPX, AND_ABS, AND_ZPX, BIT_ABS, CMP_ABS, CMP_ZPX, CPX_ABS, CPY_ABS,
            EOR_ABS, EOR_ZPX, ORA_ABS, ORA_ZPX, SBC_ABS, SBC_ZPX} then T1
         else if ir \<in> {ASL_ZP, DEC_ZP, INC_ZP, JMP_IND, LDA_ABSX, LDA_ABSY, LDX_ABSY, LDY_ABSX, LSR_ZP,
            ROL_ZP, ROR_ZP, STA_ABSX, STA_ABSY} then T0
         else T5
     | T5 \<Rightarrow>
         if ir \<in> {ADC_ABSX, ADC_ABSY, AND_ABSX, AND_ABSY, CMP_ABSX, CMP_ABSY, EOR_ABSX, EOR_ABSY,
            ORA_ABSX, ORA_ABSY, SBC_ABSX, SBC_ABSY} then T1
         else if ir \<in> {ASL_ABS, ASL_ZPX, DEC_ABS, DEC_ZPX, INC_ABS, INC_ZPX, JSR, LDA_INDX, LDA_INDY,
            LSR_ABS, LSR_ZPX, ROL_ABS, ROL_ZPX, ROR_ABS, ROR_ZPX, RTI, RTS, SAX_INDX, STA_INDX, STA_INDY}
            then T0
         else T6
     | T6 \<Rightarrow>
         if ir \<in> {ADC_INDX, ADC_INDY, AND_INDX, AND_INDY, CMP_INDX, CMP_INDY, EOR_INDX, EOR_INDY,
            ORA_INDX, ORA_INDY, SBC_INDX, SBC_INDY} then T1
         else T0)"

text \<open>The next instruction: an interrupt is a BRK that does not increment the program counter.\<close>

definition irq_pending :: "core_in \<Rightarrow> core \<Rightarrow> bool" where
  "irq_pending i q \<longleftrightarrow> q_rst q \<or> q_nmi q \<or> \<not> nirq_in i"

definition force_noinc_pc :: "core_in \<Rightarrow> tstate \<Rightarrow> core \<Rightarrow> bool" where
  "force_noinc_pc i t q \<longleftrightarrow> t = T1 \<and> irq_pending i q"

definition next_ir :: "core_in \<Rightarrow> tstate \<Rightarrow> core \<Rightarrow> byte" where
  "next_ir i t q = (if t = T1 then if irq_pending i q then BRK else q_pd q else q_ir q)"

definition next_irq_sel :: "core_in \<Rightarrow> tstate \<Rightarrow> core \<Rightarrow> irq_type" where
  "next_irq_sel i t q =
     (if t = T1 then
        if irq_pending i q then if q_rst q then INTERRUPT_RST else if q_nmi q then INTERRUPT_NMI else INTERRUPT_IRQ
        else INTERRUPT_BRK
      else q_irq_sel q)"

section \<open>Buses\<close>

definition adl :: "ctl list \<Rightarrow> core \<Rightarrow> byte" where
  "adl cs q =
     (if add_adl cs then q_add q
      else if dl_adl cs then q_dl q
      else if pcl_adl cs then q_pcl q
      else if s_adl cs then q_s q
      else 0xF8 OR (if zero_adl2 cs then 0 else 4) OR (if zero_adl1 cs then 0 else 2) OR (if zero_adl0 cs then 0 else 1))"

definition adh_in :: "ctl list \<Rightarrow> core \<Rightarrow> byte" where
  "adh_in cs q =
     (if dl_adh cs then q_dl q
      else if pch_adh cs then q_pch q
      else (if zero_adh17 cs then 0 else 0xFE) OR (if zero_adh0 cs then 0 else 1))"

text \<open>A bus nobody drives is high; several drivers pull it low together.\<close>

definition drive :: "bool \<Rightarrow> byte \<Rightarrow> byte" where
  "drive en v = (if en then v else - 1)"

definition db_in :: "ctl list \<Rightarrow> core \<Rightarrow> byte" where
  "db_in cs q = drive (ac_db cs) (q_ac q) AND drive (dl_db cs) (q_dl q) AND drive (p_db cs) (p_reg q) AND
     drive (pch_db cs) (q_pch q) AND drive (pcl_db cs) (q_pcl q)"

definition sb_in :: "ctl list \<Rightarrow> core \<Rightarrow> byte" where
  "sb_in cs q = drive (ac_sb cs) (q_ac q) AND drive (add_sb cs) (q_add q) AND drive (s_sb cs) (q_s q) AND
     drive (x_sb cs) (q_x q) AND drive (y_sb cs) (q_y q)"

definition adh_out :: "ctl list \<Rightarrow> core \<Rightarrow> byte" where
  "adh_out cs q =
     (if sb_adh cs \<and> sb_db cs then adh_in cs q AND sb_in cs q AND db_in cs q
      else if sb_adh cs then adh_in cs q AND sb_in cs q
      else adh_in cs q)"

definition db_out :: "ctl list \<Rightarrow> core \<Rightarrow> byte" where
  "db_out cs q =
     (if sb_db cs \<and> sb_adh cs then db_in cs q AND sb_in cs q AND adh_in cs q
      else if sb_db cs then db_in cs q AND sb_in cs q
      else db_in cs q)"

definition sb_out :: "ctl list \<Rightarrow> core \<Rightarrow> byte" where
  "sb_out cs q =
     (if sb_adh cs \<and> sb_db cs then sb_in cs q AND db_in cs q AND adh_in cs q
      else if sb_db cs then sb_in cs q AND db_in cs q
      else if sb_adh cs then sb_in cs q AND adh_in cs q
      else sb_in cs q)"

section \<open>Clocked registers\<close>

text \<open>The two halves of a CPU cycle. Each takes the registers as they were before the clock edge.\<close>

definition pc_next :: "ctl list \<Rightarrow> core_in \<Rightarrow> core \<Rightarrow> ushort" where
  "pc_next cs i q =
     (let pc = le16 (q_pcls q) (q_pchs q);
          i_pc = any_of [Pc incpc_noload, Pc load_prg_byte] cs \<and> \<not> force_noinc_pc i (next_t (acr cs q) q) q
      in if i_pc then pc + 1 else pc)"

definition phase2 :: "ctl list \<Rightarrow> core_in \<Rightarrow> core \<Rightarrow> core \<Rightarrow> core" where
  "phase2 cs i q r = r\<lparr>
     q_pcl := lo8 (pc_next cs i q), q_pch := hi8 (pc_next cs i q),
     q_dl := (if r_nw cs then d_in i else q_dl q),
     q_pd := (if r_nw cs then d_in i else q_pd q),
     q_add := fst (alu cs q)\<rparr>"

definition phase1 :: "ctl list \<Rightarrow> core_in \<Rightarrow> core \<Rightarrow> core \<Rightarrow> core" where
  "phase1 cs i q r = (let t = next_t (acr cs q) q in r\<lparr>
     q_ac := (if sb_ac cs then sb_out cs q else q_ac q),
     q_x := (if sb_x cs then sb_out cs q else q_x q),
     q_y := (if sb_y cs then sb_out cs q else q_y q),
     q_c := (if acr_c cs then acr cs q else if db0_c cs then bit (db_out cs q) 0 else if ir5_c cs then bit (q_ir q) 5 else q_c q),
     q_d := (if db3_d cs then bit (db_out cs q) 3 else if ir5_d cs then bit (q_ir q) 5 else q_d q),
     q_i := (if db2_i cs then bit (db_out cs q) 2 else if ir5_i cs then bit (q_ir q) 5 else q_i q),
     q_n := (if db7_n cs then bit (db_out cs q) 7 else q_n q),
     q_v := (if avr_v cs then avr cs q else if db6_v cs then bit (db_out cs q) 6 else if zero_v cs then False else q_v q),
     q_z := (if db1_z cs then bit (db_out cs q) 1 else if dbz_z cs then db_out cs q = 0 else q_z q),
     q_abh := (if adh_abh cs then adh_out cs q else q_abh q),
     q_abl := (if adl_abl cs then adl cs q else q_abl q),
     q_acr := acr cs q,
     q_ai := (if sb_add cs then sb_out cs q else if zero_add cs then 0 else q_ai q),
     q_bi := (if adl_add cs then adl cs q else if db_add cs then db_out cs q else if invdb_add cs then NOT (db_out cs q) else q_bi q),
     q_dor := db_out cs q,
     q_ir := next_ir i t q,
     q_pchs := (if adh_pch cs then adh_out cs q else q_pch q),
     q_pcls := (if adl_pcl cs then adl cs q else q_pcl q),
     q_s := (if sb_s cs then sb_out cs q else q_s q),
     q_t := t\<rparr>)"

text \<open>Interrupt control, in the first clock of a cycle, whether the CPU is ready or not.\<close>

definition irq_clk :: "ctl list \<Rightarrow> core_in \<Rightarrow> core \<Rightarrow> core \<Rightarrow> core" where
  "irq_clk cs i q r = r\<lparr>
     q_irq_sel := next_irq_sel i (next_t (acr cs q) q) q,
     q_rst := (if Out clear_rst \<in> set cs then False else if \<not> nres_in i \<and> q_nres q then True else q_rst q),
     q_nres := nres_in i,
     q_nmi := (if Out clear_nmi \<in> set cs then False else if \<not> nnmi_in i \<and> q_nnmi q then True else q_nmi q),
     q_nnmi := nnmi_in i\<rparr>"

text \<open>Register writes of the debugger, while the CPU is not ready.\<close>

definition dbg_regs :: "4 word \<Rightarrow> byte \<Rightarrow> core \<Rightarrow> core" where
  "dbg_regs sel v q = q\<lparr>
     q_ac := (if sel = 2 then v else q_ac q),
     q_x := (if sel = 3 then v else q_x q),
     q_y := (if sel = 4 then v else q_y q),
     q_c := (if sel = 5 then bit v 0 else q_c q),
     q_d := (if sel = 5 then bit v 3 else q_d q),
     q_i := (if sel = 5 then bit v 2 else q_i q),
     q_n := (if sel = 5 then bit v 7 else q_n q),
     q_v := (if sel = 5 then bit v 6 else q_v q),
     q_z := (if sel = 5 then bit v 1 else q_z q),
     q_pchs := (if sel = 1 then v else q_pchs q),
     q_pcls := (if sel = 0 then v else q_pcls q),
     q_abh := (if sel = 1 then v else q_abh q),
     q_abl := (if sel = 0 then v else q_abl q),
     q_t := (if sel = 1 \<or> sel = 0 then T0 else q_t q),
     q_pcl := (if sel = 0 then v else q_pcl q),
     q_pch := (if sel = 1 then v else q_pch q)\<rparr>"

section \<open>One clock\<close>

definition rdy :: "core_in \<Rightarrow> core \<Rightarrow> bool" where
  "rdy i q \<longleftrightarrow> ready_in i \<and> q_ready q"

definition core_clk :: "core_in \<Rightarrow> core \<Rightarrow> core" where
  "core_clk i q =
     (let cs = decode q;
          q1 = (if q_clk_phase q = 0 then irq_clk cs i q q else q);
          q2 = (if rdy i q \<and> q_clk_phase q = 0 then phase1 cs i q q1
                else if \<not> rdy i q \<and> dbgreg_wr_in i then dbg_regs (dbgreg_sel_in i) (dbgreg_in i) q1
                else q1);
          q3 = (if rdy i q \<and> q_clk_phase q = 0x1C then phase2 cs i q q2 else q2)
      in q3\<lparr>q_ready := ready_in i,
          q_clk_phase := (if rdy i q then if q_clk_phase q = 0x37 then 0 else q_clk_phase q + 1
             else if dbgreg_wr_in i \<and> (dbgreg_sel_in i = 1 \<or> dbgreg_sel_in i = 0) then 1
             else q_clk_phase q)\<rparr>)"

text \<open>What the CPU puts on the bus, and the break that HLT asks the debugger for.\<close>

definition core_r_nw :: "core \<Rightarrow> bool" where
  "core_r_nw q = r_nw (decode q)"

definition brk_out :: "core_in \<Rightarrow> core \<Rightarrow> bool" where
  "brk_out i q \<longleftrightarrow> q_t q = T1 \<and> q_ir q = HLT \<and> q_clk_phase q = 1 \<and> rdy i q"

end
