(* ===== verification/Cpu_Cycle.thy ===== *)
theory Cpu_Cycle
  imports Cpu
begin

text \<open>
  One CPU cycle, 56 clocks of the core, as two steps: the registers that change in its middle, and those that change at its
  end; and how a cycle is evaluated for known control signals.
\<close>

section \<open>A cycle\<close>

definition xfer :: "ctl list \<Rightarrow> core_in \<Rightarrow> core \<Rightarrow> core" where
  "xfer cs i q = (let m = phase2 cs i q q in phase1 cs i m (irq_clk cs i m m))"

definition core_cycle :: "core_in \<Rightarrow> core \<Rightarrow> core" where
  "core_cycle i q = xfer (decode q) i q"

text \<open>The control signals do not change during a cycle.\<close>

lemma decode_stable:
  assumes "q_t r = q_t q" and "q_ir r = q_ir q" and "q_irq_sel r = q_irq_sel q" and "q_acr r = q_acr q" and "q_ai r = q_ai q"
  shows "decode r = decode q"
  unfolding decode_def dec_T1_def dec_T2_def dec_T3_def dec_T4_def dec_T5_def dec_T6_def assms ..

section \<open>Sums\<close>

definition add9 :: "byte \<Rightarrow> byte \<Rightarrow> bool \<Rightarrow> 9 word" where
  "add9 a b c = ucast a + ucast b + of_bool c"

definition carry :: "byte \<Rightarrow> byte \<Rightarrow> bool \<Rightarrow> bool" where
  "carry a b c = bit (add9 a b c) 8"

definition overflow :: "byte \<Rightarrow> byte \<Rightarrow> bool \<Rightarrow> bool" where
  "overflow a b c \<longleftrightarrow> ((bit a 7 \<noteq> bit b 7) \<noteq> bit (a + b + of_bool c) 7) \<noteq> carry a b c"

lemma sum_bound: "unat (a :: byte) + unat (b :: byte) + of_bool c < 512"
proof -
  have "unat a \<le> 255" "unat b \<le> 255" "(of_bool c :: nat) \<le> 1" using unat_byte[of a] unat_byte[of b] by (linarith, linarith, simp)
  then show ?thesis by linarith
qed

lemma unat_add9: "unat (add9 a b c) = unat a + unat b + of_bool c"
proof -
  have "add9 a b c = of_nat (unat a + unat b + of_bool c)" by (cases c) (simp_all add: add9_def)
  then show ?thesis using sum_bound[of a b c] by (simp only: unat_of_nat take_bit_nat_eq_self_iff) simp
qed

lemma add9_low [simp]: "ucast (add9 a b c) = a + b + of_bool c"
  unfolding word_unat_eq_iff unsigned_ucast_eq unat_add9
  by (cases c) (simp_all add: unat_word_ariths take_bit_eq_mod mod_Suc_eq)

lemma carry_iff: "carry a b c \<longleftrightarrow> 256 \<le> unat a + unat b + of_bool c"
proof -
  have b: "bit (add9 a b c) 8 = bit (unat (add9 a b c)) 8" by (simp add: bit_unsigned_iff)
  have *: "odd (n div 2 ^ 8) \<longleftrightarrow> 256 \<le> n" if "n < 512" for n :: nat
  proof -
    have "n div 2 ^ 8 = (if 256 \<le> n then 1 else 0)" using that by (auto intro: div_nat_eqI)
    then show ?thesis by (cases "256 \<le> n") (simp_all only: if_True if_False odd_one even_zero not_True_eq_False not_False_eq_True)
  qed
  show ?thesis using *[OF sum_bound[of a b c]] b unfolding carry_def unat_add9 bit_iff_odd[of "_ :: nat"] by (simp only:)
qed

section \<open>Evaluation\<close>

lemma alu_eq:
  "alu cs q =
     (if ands cs then (q_ai q AND q_bi q, False, False)
      else if eors cs then (q_ai q XOR q_bi q, False, False)
      else if ors cs then (q_ai q OR q_bi q, False, False)
      else if sums cs then
        (q_ai q + q_bi q + of_bool (addc cs q), carry (q_ai q) (q_bi q) (addc cs q), overflow (q_ai q) (q_bi q) (addc cs q))
      else if srs cs then (push_bit 7 (of_bool (addc cs q)) OR drop_bit 1 (q_bi q), bit (q_bi q) 0, False)
      else (q_add q, False, False))"
  by (simp add: alu_def Let_def carry_def overflow_def flip: add9_def)

lemma next_t_cong:
  assumes "q_t r = q_t q" and "q_ir r = q_ir q" and "q_c r = q_c q" and "q_n r = q_n q" and "q_v r = q_v q" and "q_z r = q_z q"
    and "q_ai r = q_ai q"
  shows "next_t c r = next_t c q"
  unfolding next_t_def assms ..

lemma next_t_frame [simp]:
  "next_t c (q\<lparr>q_pcl := v\<rparr>) = next_t c q" "next_t c (q\<lparr>q_pch := v\<rparr>) = next_t c q" "next_t c (q\<lparr>q_dl := v\<rparr>) = next_t c q"
  "next_t c (q\<lparr>q_pd := v\<rparr>) = next_t c q" "next_t c (q\<lparr>q_add := v\<rparr>) = next_t c q"
  by (rule next_t_cong; simp)+

lemma acr_frame [simp]:
  "acr cs (q\<lparr>q_pcl := v\<rparr>) = acr cs q" "acr cs (q\<lparr>q_pch := v\<rparr>) = acr cs q" "acr cs (q\<lparr>q_dl := v\<rparr>) = acr cs q"
  "acr cs (q\<lparr>q_pd := v\<rparr>) = acr cs q" "acr cs (q\<lparr>q_add := v\<rparr>) = acr cs q"
  by (simp_all add: acr_def alu_def addc_def)

text \<open>A cycle, given the next timing state; the buses are arguments, so that each is evaluated once.\<close>

definition half2 :: "tstate \<Rightarrow> byte \<Rightarrow> ctl list \<Rightarrow> core_in \<Rightarrow> core \<Rightarrow> core" where
  "half2 t add cs i q =
     (let pc = le16 (q_pcls q) (q_pchs q);
          pc' = if any_of [Pc incpc_noload, Pc load_prg_byte] cs \<and> \<not> force_noinc_pc i t q then pc + 1 else pc
      in q\<lparr>q_pcl := lo8 pc', q_pch := hi8 pc', q_dl := (if r_nw cs then d_in i else q_dl q),
          q_pd := (if r_nw cs then d_in i else q_pd q), q_add := add\<rparr>)"

definition half1 :: "byte \<Rightarrow> byte \<Rightarrow> byte \<Rightarrow> byte \<Rightarrow> bool \<Rightarrow> bool \<Rightarrow> tstate \<Rightarrow> ctl list \<Rightarrow> core_in \<Rightarrow> core \<Rightarrow> core" where
  "half1 sb db adh ad c v t cs i q = q\<lparr>
     q_irq_sel := next_irq_sel i t q,
     q_rst := (if Out clear_rst \<in> set cs then False else if \<not> nres_in i \<and> q_nres q then True else q_rst q),
     q_nres := nres_in i,
     q_nmi := (if Out clear_nmi \<in> set cs then False else if \<not> nnmi_in i \<and> q_nnmi q then True else q_nmi q),
     q_nnmi := nnmi_in i,
     q_ac := (if sb_ac cs then sb else q_ac q),
     q_x := (if sb_x cs then sb else q_x q),
     q_y := (if sb_y cs then sb else q_y q),
     q_c := (if acr_c cs then c else if db0_c cs then bit db 0 else if ir5_c cs then bit (q_ir q) 5 else q_c q),
     q_d := (if db3_d cs then bit db 3 else if ir5_d cs then bit (q_ir q) 5 else q_d q),
     q_i := (if db2_i cs then bit db 2 else if ir5_i cs then bit (q_ir q) 5 else q_i q),
     q_n := (if db7_n cs then bit db 7 else q_n q),
     q_v := (if avr_v cs then v else if db6_v cs then bit db 6 else if zero_v cs then False else q_v q),
     q_z := (if db1_z cs then bit db 1 else if dbz_z cs then db = 0 else q_z q),
     q_abh := (if adh_abh cs then adh else q_abh q),
     q_abl := (if adl_abl cs then ad else q_abl q),
     q_acr := c,
     q_ai := (if sb_add cs then sb else if zero_add cs then 0 else q_ai q),
     q_bi := (if adl_add cs then ad else if db_add cs then db else if invdb_add cs then NOT db else q_bi q),
     q_dor := db,
     q_ir := next_ir i t q,
     q_pchs := (if adh_pch cs then adh else q_pch q),
     q_pcls := (if adl_pcl cs then ad else q_pcl q),
     q_s := (if sb_s cs then sb else q_s q),
     q_t := t\<rparr>"

definition xfer_t :: "tstate \<Rightarrow> ctl list \<Rightarrow> core_in \<Rightarrow> core \<Rightarrow> core" where
  "xfer_t t cs i q = (let m = half2 t (fst (alu cs q)) cs i q in
     half1 (sb_out cs m) (db_out cs m) (adh_out cs m) (adl cs m) (acr cs m) (avr cs m) t cs i m)"

lemma xfer_t: "xfer cs i q = xfer_t (next_t (acr cs q) q) cs i q"
  by (simp add: xfer_def xfer_t_def half1_def half2_def phase1_def phase2_def irq_clk_def pc_next_def Let_def)

lemmas ctl_lines =
  any_of_def add_adl_def dl_adl_def pcl_adl_def s_adl_def zero_adl0_def zero_adl1_def zero_adl2_def dl_adh_def pch_adh_def
  zero_adh0_def zero_adh17_def ac_db_def dl_db_def p_db_def pch_db_def pcl_db_def ac_sb_def add_sb_def x_sb_def y_sb_def s_sb_def
  sb_adh_def sb_db_def adh_abh_def adl_abl_def adl_add_def db_add_def invdb_add_def sb_s_def zero_add_def sb_ac_def sb_add_def
  adh_pch_def adl_pcl_def sb_x_def sb_y_def acr_c_def db0_c_def ir5_c_def db3_d_def ir5_d_def db2_i_def ir5_i_def db7_n_def
  avr_v_def db6_v_def zero_v_def db1_z_def dbz_z_def ands_def eors_def ors_def sums_def srs_def addc_def r_nw_def

lemmas bus_lines = adl_def adh_in_def drive_def db_in_def sb_in_def adh_out_def db_out_def sb_out_def acr_def avr_def alu_eq

lemmas xfer_eval = half1_def bus_lines ctl_lines

section \<open>A CPU with memory\<close>

text \<open>No interrupts, always ready.\<close>

definition calm :: "byte \<Rightarrow> core_in" where
  "calm d = \<lparr>ready_in = True, nnmi_in = True, nres_in = True, nirq_in = True, d_in = d,
     dbgreg_sel_in = 0, dbgreg_in = 0, dbgreg_wr_in = False\<rparr>"

lemma calm_sels [simp]:
  "nnmi_in (calm d) = True" "nres_in (calm d) = True" "nirq_in (calm d) = True" "d_in (calm d) = d" "ready_in (calm d) = True"
  by (simp_all add: calm_def)

text \<open>What is taken at an instruction boundary: a latched reset or NMI, or the instruction fetched.\<close>

definition taken_ir :: "bool \<Rightarrow> bool \<Rightarrow> byte \<Rightarrow> byte" where
  "taken_ir rst nmi op = (if rst \<or> nmi then BRK else op)"

definition taken_pc :: "bool \<Rightarrow> bool \<Rightarrow> ushort \<Rightarrow> ushort" where
  "taken_pc rst nmi pc = (if rst \<or> nmi then pc else pc + 1)"

definition taken_sel :: "bool \<Rightarrow> bool \<Rightarrow> irq_type" where
  "taken_sel rst nmi = (if rst then INTERRUPT_RST else if nmi then INTERRUPT_NMI else INTERRUPT_BRK)"

definition at_T1 :: "tstate \<Rightarrow> 'a \<Rightarrow> 'a \<Rightarrow> 'a" where
  "at_T1 t a b = (if t = T1 then a else b)"

lemma calm_next [simp]:
  "next_ir (calm d) t q = at_T1 t (taken_ir (q_rst q) (q_nmi q) (q_pd q)) (q_ir q)"
  "next_irq_sel (calm d) t q = at_T1 t (taken_sel (q_rst q) (q_nmi q)) (q_irq_sel q)"
  by (simp_all add: next_ir_def next_irq_sel_def taken_ir_def taken_sel_def irq_pending_def at_T1_def)

lemma half2_calm: "half2 t add cs (calm d) q =
     (let pc = le16 (q_pcls q) (q_pchs q);
          pc' = if any_of [Pc incpc_noload, Pc load_prg_byte] cs then at_T1 t (taken_pc (q_rst q) (q_nmi q) pc) (pc + 1) else pc
      in q\<lparr>q_pcl := lo8 pc', q_pch := hi8 pc', q_dl := (if r_nw cs then d else q_dl q),
          q_pd := (if r_nw cs then d else q_pd q), q_add := add\<rparr>)"
  by (simp add: half2_def force_noinc_pc_def irq_pending_def at_T1_def taken_pc_def Let_def)

type_synonym mem = "ushort \<Rightarrow> byte"

text \<open>One cycle of the CPU and its memory. A cycle that writes reads nothing: the core ignores its data input then.\<close>

definition mem_cycle :: "core \<times> mem \<Rightarrow> core \<times> mem" where
  "mem_cycle = (\<lambda>(q, m). (core_cycle (calm (m (a_out q))) q, if core_r_nw q then m else m(a_out q := q_dor q)))"


text \<open>The same, in the order in which it is evaluated: the control word, the next timing state, the transfer.\<close>

definition mstep :: "ctl list \<Rightarrow> core \<Rightarrow> mem \<Rightarrow> core \<times> mem" where
  "mstep cs q m = (xfer cs (calm (m (a_out q))) q, if r_nw cs then m else m(a_out q := q_dor q))"

lemma mem_cycle_eq: "mem_cycle (q, m) = mstep (decode q) q m"
  by (simp add: mem_cycle_def mstep_def core_cycle_def core_r_nw_def)

definition going :: "tstate \<Rightarrow> (tstate \<Rightarrow> core \<times> mem) \<Rightarrow> core \<times> mem" where
  "going t f = f t"

lemma mstep_eq: "mstep cs q m = going (next_t (acr cs q) q)
    (\<lambda>t. (xfer_t t cs (calm (m (a_out q))) q, if r_nw cs then m else m(a_out q := q_dor q)))"
  by (simp add: mstep_def xfer_t going_def)

fun cycles :: "nat \<Rightarrow> core \<times> mem \<Rightarrow> core \<times> mem" where
  "cycles 0 c = c"
| "cycles (Suc n) c = cycles n (mem_cycle c)"

lemma cycles_numeral [simp]: "cycles (numeral n) c = cycles (pred_numeral n) (mem_cycle c)"
  by (simp add: numeral_eq_Suc)

section \<open>What a control word does\<close>

text \<open>Each control word of the ROM, evaluated once for all registers.\<close>

lemmas mstep_core = mstep_eq [where q = "\<lparr>q_ac = a, q_x = x, q_y = y, q_c = c, q_d = d, q_i = i, q_n = n, q_v = v, q_z = z,
  q_abh = abh, q_abl = abl, q_acr = cy, q_add = add, q_ai = ai, q_bi = bi, q_dl = dl, q_dor = dr, q_ir = ir, q_pch = pch,
  q_pcl = pcl, q_pchs = pchs, q_pcls = pcls, q_pd = pd, q_s = s, q_t = k, q_ready = rd, q_clk_phase = ph, q_irq_sel = sel,
  q_rst = rst, q_nres = nres, q_nmi = nmi, q_nnmi = nnmi\<rparr>"] for a x y c d i n v z abh abl cy add ai bi dl dr ir pch pcl
  pchs pcls pd s k rd ph sel rst nres nmi nnmi

declare xfer_t_def [simp] half2_calm [simp] xfer_eval [simp] a_out_def [simp] p_reg_def [simp] Let_def [simp]

lemmas words =
  mstep_core [where cs = "[Pc load_prg_byte]", simplified]
  mstep_core [where cs = "[]", simplified]
  mstep_core [where cs = "[Pc load_prg_byte, Ai zero_to_ai, Bi dl_to_bi]", simplified]
  mstep_core [where cs = "[Pc load_prg_byte, Ai x_to_ai, Bi dl_to_bi]", simplified]
  mstep_core [where cs = "[Pc load_prg_byte, Ai y_to_ai, Bi dl_to_bi]", simplified]
  mstep_core [where cs = "[Pc load_prg_byte, Ai ac_to_ai, Bi dl_to_bi]", simplified]
  mstep_core [where cs = "[Ai x_to_ai, Bi dl_to_bi]", simplified]
  mstep_core [where cs = "[Ab zero_to_abh, Ab dl_to_abl, Ai zero_to_ai, Bi dl_to_bi]", simplified]
  mstep_core [where cs = "[Ab zero_to_abh, Ab dl_to_abl]", simplified]
  mstep_core [where cs = "[Ai ac_to_ai, Bi ac_to_bi]", simplified]
  mstep_core [where cs = "[Pc load_prg_byte, Ai dl_to_ai, Bi pcl_to_bi]", simplified]
  mstep_core [where cs = "[Dor pch_to_dor, Ab one_to_abh, Ab s_to_abl, Ai neg1_to_ai, Bi s_to_bi, Pc incpc_noload]", simplified]
  mstep_core [where cs = "[Dor pch_to_dor, Ab one_to_abh, Ab s_to_abl, Ai neg1_to_ai, Bi s_to_bi]", simplified]
  mstep_core [where cs = "[Op clc_op]", simplified]
  mstep_core [where cs = "[Op cld_op]", simplified]
  mstep_core [where cs = "[Op cli_op]", simplified]
  mstep_core [where cs = "[Op clv_op]", simplified]
  mstep_core [where cs = "[Pc load_prg_byte, Ai ac_to_ai, Bi invdl_to_bi]", simplified]
  mstep_core [where cs = "[Pc load_prg_byte, Ai x_to_ai, Bi invdl_to_bi]", simplified]
  mstep_core [where cs = "[Pc load_prg_byte, Ai y_to_ai, Bi invdl_to_bi]", simplified]
  mstep_core [where cs = "[Ai x_to_ai, Bi neg1_to_bi]", simplified]
  mstep_core [where cs = "[Ai y_to_ai, Bi neg1_to_bi]", simplified]
  mstep_core [where cs = "[Ai zero_to_ai, Bi x_to_bi]", simplified]
  mstep_core [where cs = "[Ai zero_to_ai, Bi y_to_bi]", simplified]
  mstep_core [where cs = "[Pc incpc_noload, Ab one_to_abh, Ab s_to_abl, Bi s_to_bi, Stk dl_to_s]", simplified]
  mstep_core [where cs = "[Ai y_to_ai, Bi dl_to_bi]", simplified]
  mstep_core [where cs = "[Pc load_prg_byte, Op lda_op]", simplified]
  mstep_core [where cs = "[Pc load_prg_byte, Op ldx_op]", simplified]
  mstep_core [where cs = "[Pc load_prg_byte, Op ldy_op]", simplified]
  mstep_core [where cs = "[Dor ac_to_dor, Ab one_to_abh, Ab s_to_abl]", simplified]
  mstep_core [where cs = "[Dor p_to_dor, Ab one_to_abh, Ab s_to_abl]", simplified]
  mstep_core [where cs = "[Ai zero_to_ai, Bi s_to_bi]", simplified]
  mstep_core [where cs = "[Op sec_op]", simplified]
  mstep_core [where cs = "[Op sed_op]", simplified]
  mstep_core [where cs = "[Op sei_op]", simplified]
  mstep_core [where cs = "[Dor ac_to_dor, Dor x_to_dor, Ab zero_to_abh, Ab dl_to_abl]", simplified]
  mstep_core [where cs = "[Dor ac_to_dor, Ab zero_to_abh, Ab dl_to_abl]", simplified]
  mstep_core [where cs = "[Dor x_to_dor, Ab zero_to_abh, Ab dl_to_abl]", simplified]
  mstep_core [where cs = "[Dor y_to_dor, Ab zero_to_abh, Ab dl_to_abl]", simplified]
  mstep_core [where cs = "[Op tax_op]", simplified]
  mstep_core [where cs = "[Op tay_op]", simplified]
  mstep_core [where cs = "[Op tsx_op]", simplified]
  mstep_core [where cs = "[Op txa_op]", simplified]
  mstep_core [where cs = "[Op txs_op]", simplified]
  mstep_core [where cs = "[Op tya_op]", simplified]
  mstep_core [where cs = "[Ab dl_to_abh, Ab alusum_to_abl]", simplified]
  mstep_core [where cs = "[Ab dl_to_abh, Ab alusum_to_abl, Ai zero_to_ai, Bi dl_to_bi]", simplified]
  mstep_core [where cs = "[Pc load_prg_byte, Op adc_op]", simplified]
  mstep_core [where cs = "[Ab zero_to_abh, Ab alusum_to_abl]", simplified]
  mstep_core [where cs = "[Ab zero_to_abh, Ab aluinc_to_abl, Ai y_to_ai, Bi dl_to_bi]", simplified]
  mstep_core [where cs = "[Pc load_prg_byte, Op and_op]", simplified]
  mstep_core [where cs = "[Pc load_prg_byte, Op asl_acc_op]", simplified]
  mstep_core [where cs = "[Ai dl_to_ai, Bi dl_to_bi]", simplified]
  mstep_core [where cs = "[Pc load_prg_byte, Op lsr_acc_op]", simplified]
  mstep_core [where cs = "[Pc alusum_to_pcl, Ab alusum_to_abl, Bi pch_to_bi, Ai neg1_to_ai]", simplified]
  mstep_core [where cs = "[Pc alusum_to_pcl, Ab alusum_to_abl, Bi pch_to_bi, Ai one_to_ai]", simplified]
  mstep_core [where cs = "[Pc load_prg_byte, Ai ac_to_ai, Bi dl_to_bi, Psr dl_bits67_to_p]", simplified]
  mstep_core [where cs = "[Dor pcl_to_dor, Ab alusum_to_abl, Bi alusum_to_bi, Out r_nw_0]", simplified]
  mstep_core [where cs = "[Pc load_prg_byte, Op cmp_op]", simplified]
  mstep_core [where cs = "[Ai neg1_to_ai, Bi dl_to_bi]", simplified]
  mstep_core [where cs = "[Pc load_prg_byte, Op dex_op]", simplified]
  mstep_core [where cs = "[Pc load_prg_byte, Op dey_op]", simplified]
  mstep_core [where cs = "[Pc load_prg_byte, Op eor_op]", simplified]
  mstep_core [where cs = "[Ai zero_to_ai, Bi dl_to_bi]", simplified]
  mstep_core [where cs = "[Pc load_prg_byte, Op inx_op]", simplified]
  mstep_core [where cs = "[Pc load_prg_byte, Op iny_op]", simplified]
  mstep_core [where cs = "[Pc dl_to_pch, Pc alusum_to_pcl, Ab dl_to_abh, Ab alusum_to_abl]", simplified]
  mstep_core [where cs = "[Dor pch_to_dor, Ai neg1_to_ai]", simplified]
  mstep_core [where cs = "[Pc load_prg_byte, Op ora_op]", simplified]
  mstep_core [where cs = "[Pc load_prg_byte_noinc, Ai s_to_ai, Bi neg1_to_bi, Out r_nw_0]", simplified]
  mstep_core [where cs = "[Ab one_to_abh, Ab aluinc_to_abl, Stk aluinc_to_s]", simplified]
  mstep_core [where cs = "[Pc load_prg_byte, Op rol_acc_op]", simplified]
  mstep_core [where cs = "[Pc load_prg_byte, Op ror_acc_op]", simplified]
  mstep_core [where cs = "[Ab one_to_abh, Ab aluinc_to_abl, Bi aluinc_to_bi]", simplified]
  mstep_core [where cs = "[Dor ac_to_dor, Dor x_to_dor, Ab dl_to_abh, Ab alusum_to_abl]", simplified]
  mstep_core [where cs = "[Pc load_prg_byte, Out r_nw_0]", simplified]
  mstep_core [where cs = "[Dor ac_to_dor, Dor x_to_dor, Ab zero_to_abh, Ab alusum_to_abl]", simplified]
  mstep_core [where cs = "[Dor ac_to_dor, Ab dl_to_abh, Ab alusum_to_abl]", simplified]
  mstep_core [where cs = "[Dor ac_to_dor, Ab zero_to_abh, Ab alusum_to_abl]", simplified]
  mstep_core [where cs = "[Dor x_to_dor, Ab dl_to_abh, Ab alusum_to_abl]", simplified]
  mstep_core [where cs = "[Dor x_to_dor, Ab zero_to_abh, Ab alusum_to_abl]", simplified]
  mstep_core [where cs = "[Dor y_to_dor, Ab dl_to_abh, Ab alusum_to_abl]", simplified]
  mstep_core [where cs = "[Dor y_to_dor, Ab zero_to_abh, Ab alusum_to_abl]", simplified]
  mstep_core [where cs = "[Ab aluinc_to_abh]", simplified]
  mstep_core [where cs = "[Ab zero_to_abh, Ab aluinc_to_abl, Ai zero_to_ai, Bi dl_to_bi]", simplified]
  mstep_core [where cs = "[Op asl_mem_op]", simplified]
  mstep_core [where cs = "[Pc alusum_to_pch, Ab alusum_to_abh]", simplified]
  mstep_core [where cs = "[Pc load_prg_byte, Op bit_op]", simplified]
  mstep_core [where cs = "[Dor p_to_dor, Ab alusum_to_abl, Bi alusum_to_bi, Out r_nw_0]", simplified]
  mstep_core [where cs = "[Op dec_op]", simplified]
  mstep_core [where cs = "[Op inc_op]", simplified]
  mstep_core [where cs = "[Ab aluinc_to_abl, Ai zero_to_ai, Bi dl_to_bi]", simplified]
  mstep_core [where cs = "[Op lsr_mem_op]", simplified]
  mstep_core [where cs = "[Pc load_prg_byte, Stk alusum_to_s]", simplified]
  mstep_core [where cs = "[Pc load_prg_byte_noinc, Op lda_op]", simplified]
  mstep_core [where cs = "[Pc load_prg_byte_noinc, Psr dl_to_p]", simplified]
  mstep_core [where cs = "[Op rol_mem_op]", simplified]
  mstep_core [where cs = "[Op ror_mem_op]", simplified]
  mstep_core [where cs = "[Ab aluinc_to_abl, Bi aluinc_to_bi, Psr dl_to_p]", simplified]
  mstep_core [where cs = "[Ab aluinc_to_abl, Stk dl_to_s]", simplified]
  mstep_core [where cs = "[Dor ac_to_dor, Ab aluinc_to_abh]", simplified]
  mstep_core [where cs = "[Dor ac_to_dor]", simplified]
  mstep_core [where cs = "[Ab ff_to_abh, Out r_nw_0, Psr one_to_i, Ab fc_to_abl]", simplified]
  mstep_core [where cs = "[Ab ff_to_abh, Out r_nw_0, Psr one_to_i, Ab fa_to_abl]", simplified]
  mstep_core [where cs = "[Ab ff_to_abh, Out r_nw_0, Psr one_to_i, Ab fe_to_abl]", simplified]
  mstep_core [where cs = "[Pc load_prg_byte_noinc, Out r_nw_0]", simplified]
  mstep_core [where cs = "[Pc dl_to_pch, Pc s_to_pcl, Stk aluinc_to_s]", simplified]
  mstep_core [where cs = "[Ab ff_to_abh, Stk dl_to_s, Ab fd_to_abl]", simplified]
  mstep_core [where cs = "[Ab ff_to_abh, Stk dl_to_s, Ab fb_to_abl]", simplified]
  mstep_core [where cs = "[Ab ff_to_abh, Stk dl_to_s, Ab ff_to_abl]", simplified]
  mstep_core [where cs = "[Pc dl_to_pch, Pc s_to_pcl, Ab dl_to_abh, Ab s_to_abl, Stk alusum_to_s]", simplified]
  mstep_core [where cs = "[Pc dl_to_pch, Pc s_to_pcl, Ab dl_to_abh, Ab s_to_abl, Stk aluinc_to_s]", simplified]
  mstep_core [where cs = "[Pc dl_to_pch, Pc s_to_pcl, Ab dl_to_abh, Ab s_to_abl, Stk alusum_to_s, Out clear_rst]", simplified]
  mstep_core [where cs = "[Pc dl_to_pch, Pc s_to_pcl, Ab dl_to_abh, Ab s_to_abl, Stk alusum_to_s, Out clear_nmi]", simplified]

declare xfer_t_def [simp del] half2_calm [simp del] xfer_eval [simp del] a_out_def [simp del] p_reg_def [simp del] Let_def [simp del]

section \<open>Looking up the ROM\<close>

text \<open>Opcodes are compared as numbers.\<close>

definition irn :: "core \<Rightarrow> int" where
  "irn q = uint (q_ir q)"

lemma ir_eq: "q_ir q = w \<longleftrightarrow> irn q = uint w"
  by (simp add: irn_def word_uint_eq_iff)

lemma decode_T:
  "q_t q = T0 \<Longrightarrow> decode q = [Pc load_prg_byte]" "q_t q = T1 \<Longrightarrow> decode q = dec_T1 q" "q_t q = T2 \<Longrightarrow> decode q = dec_T2 q"
  "q_t q = T3 \<Longrightarrow> decode q = dec_T3 q" "q_t q = T4 \<Longrightarrow> decode q = dec_T4 q" "q_t q = T5 \<Longrightarrow> decode q = dec_T5 q"
  "q_t q = T6 \<Longrightarrow> decode q = dec_T6 q"
  by (simp_all add: decode_def)

lemma case_T:
  "t = T0 \<Longrightarrow> case_tstate a0 a1 a2 a3 a4 a5 a6 t = a0" "t = T1 \<Longrightarrow> case_tstate a0 a1 a2 a3 a4 a5 a6 t = a1"
  "t = T2 \<Longrightarrow> case_tstate a0 a1 a2 a3 a4 a5 a6 t = a2" "t = T3 \<Longrightarrow> case_tstate a0 a1 a2 a3 a4 a5 a6 t = a3"
  "t = T4 \<Longrightarrow> case_tstate a0 a1 a2 a3 a4 a5 a6 t = a4" "t = T5 \<Longrightarrow> case_tstate a0 a1 a2 a3 a4 a5 a6 t = a5"
  "t = T6 \<Longrightarrow> case_tstate a0 a1 a2 a3 a4 a5 a6 t = a6"
  by simp_all

declare if_weak_cong [cong del]

lemmas dec_rom =
  dec_T1_def [unfolded Let_def insert_iff empty_iff ir_eq, simplified]
  dec_T2_def [unfolded Let_def insert_iff empty_iff ir_eq, simplified]
  dec_T3_def [unfolded Let_def insert_iff empty_iff ir_eq, simplified]
  dec_T4_def [unfolded Let_def insert_iff empty_iff ir_eq, simplified]
  dec_T5_def [unfolded Let_def insert_iff empty_iff ir_eq, simplified]
  dec_T6_def [unfolded Let_def insert_iff empty_iff ir_eq, simplified]

lemmas next_T = case_T [THEN trans [OF next_t_def [unfolded Let_def insert_iff empty_iff ir_eq]], simplified]

declare if_weak_cong [cong]

end
