(* ===== verification/Isa.thy ===== *)
theory Isa
  imports Prelude
begin

text \<open>
  The instruction set of the 6502 as its programmers know it, independent of how \<^verbatim>\<open>hw/src/cpu/cpu.v\<close> does it: one
  step per instruction on the registers and the memory, results stated by their arithmetic value, and the cycles each
  instruction is documented to take. Of the undocumented opcodes only those the core implements are included: SAX, and 0x02, with
  which a program stops for the debugger. Decimal mode is absent, as in the console's CPU: the D flag is kept and has no effect.
\<close>

unbundle bit_operations_syntax

section \<open>State\<close>

record isa =
  r_a :: byte
  r_x :: byte
  r_y :: byte
  r_s :: byte
  r_pc :: ushort
  f_n :: bool
  f_v :: bool
  f_d :: bool
  f_i :: bool
  f_z :: bool
  f_c :: bool
  ram :: "ushort \<Rightarrow> byte"

datatype mnemonic =
  Adc | And | Asl | Bit | Bpl | Bmi | Bvc | Bvs | Bcc | Bcs | Bne | Beq | Brk | Cmp | Cpx | Cpy | Dec | Eor |
  Clc | Sec | Cli | Sei | Clv | Cld | Sed | Inc | Jmp | Jsr | Lda | Ldx | Ldy | Lsr | Nop | Ora | Tax | Txa |
  Dex | Inx | Tay | Tya | Dey | Iny | Rol | Ror | Rti | Rts | Sbc | Sta | Stx | Sty | Txs | Tsx | Pha | Pla |
  Php | Plp | Sax | Hlt

datatype mode = Imp | Acc | Imm | Zp | ZpX | ZpY | Rel | Abs | AbsX | AbsY | Ind | IndX | IndY

definition isa_table :: "(int \<times> mnemonic \<times> mode) list" where
  "isa_table = [
     (0x69, Adc, Imm), (0x65, Adc, Zp), (0x75, Adc, ZpX), (0x6D, Adc, Abs), (0x7D, Adc, AbsX), (0x79, Adc, AbsY),
     (0x61, Adc, IndX), (0x71, Adc, IndY),
     (0x29, And, Imm), (0x25, And, Zp), (0x35, And, ZpX), (0x2D, And, Abs), (0x3D, And, AbsX), (0x39, And, AbsY),
     (0x21, And, IndX), (0x31, And, IndY),
     (0x0A, Asl, Acc), (0x06, Asl, Zp), (0x16, Asl, ZpX), (0x0E, Asl, Abs), (0x1E, Asl, AbsX),
     (0x24, Bit, Zp), (0x2C, Bit, Abs), (0x10, Bpl, Rel), (0x30, Bmi, Rel), (0x50, Bvc, Rel), (0x70, Bvs, Rel),
     (0x90, Bcc, Rel), (0xB0, Bcs, Rel), (0xD0, Bne, Rel), (0xF0, Beq, Rel), (0x00, Brk, Imp),
     (0xC9, Cmp, Imm), (0xC5, Cmp, Zp), (0xD5, Cmp, ZpX), (0xCD, Cmp, Abs), (0xDD, Cmp, AbsX), (0xD9, Cmp, AbsY),
     (0xC1, Cmp, IndX), (0xD1, Cmp, IndY),
     (0xE0, Cpx, Imm), (0xE4, Cpx, Zp), (0xEC, Cpx, Abs), (0xC0, Cpy, Imm), (0xC4, Cpy, Zp), (0xCC, Cpy, Abs),
     (0xC6, Dec, Zp), (0xD6, Dec, ZpX), (0xCE, Dec, Abs), (0xDE, Dec, AbsX),
     (0x49, Eor, Imm), (0x45, Eor, Zp), (0x55, Eor, ZpX), (0x4D, Eor, Abs), (0x5D, Eor, AbsX), (0x59, Eor, AbsY),
     (0x41, Eor, IndX), (0x51, Eor, IndY),
     (0x18, Clc, Imp), (0x38, Sec, Imp), (0x58, Cli, Imp), (0x78, Sei, Imp), (0xB8, Clv, Imp), (0xD8, Cld, Imp),
     (0xF8, Sed, Imp), (0xE6, Inc, Zp), (0xF6, Inc, ZpX), (0xEE, Inc, Abs), (0xFE, Inc, AbsX),
     (0x4C, Jmp, Abs), (0x6C, Jmp, Ind), (0x20, Jsr, Abs),
     (0xA9, Lda, Imm), (0xA5, Lda, Zp), (0xB5, Lda, ZpX), (0xAD, Lda, Abs), (0xBD, Lda, AbsX), (0xB9, Lda, AbsY),
     (0xA1, Lda, IndX), (0xB1, Lda, IndY),
     (0xA2, Ldx, Imm), (0xA6, Ldx, Zp), (0xB6, Ldx, ZpY), (0xAE, Ldx, Abs), (0xBE, Ldx, AbsY),
     (0xA0, Ldy, Imm), (0xA4, Ldy, Zp), (0xB4, Ldy, ZpX), (0xAC, Ldy, Abs), (0xBC, Ldy, AbsX),
     (0x4A, Lsr, Acc), (0x46, Lsr, Zp), (0x56, Lsr, ZpX), (0x4E, Lsr, Abs), (0x5E, Lsr, AbsX), (0xEA, Nop, Imp),
     (0x09, Ora, Imm), (0x05, Ora, Zp), (0x15, Ora, ZpX), (0x0D, Ora, Abs), (0x1D, Ora, AbsX), (0x19, Ora, AbsY),
     (0x01, Ora, IndX), (0x11, Ora, IndY),
     (0xAA, Tax, Imp), (0x8A, Txa, Imp), (0xCA, Dex, Imp), (0xE8, Inx, Imp), (0xA8, Tay, Imp), (0x98, Tya, Imp),
     (0x88, Dey, Imp), (0xC8, Iny, Imp),
     (0x2A, Rol, Acc), (0x26, Rol, Zp), (0x36, Rol, ZpX), (0x2E, Rol, Abs), (0x3E, Rol, AbsX),
     (0x6A, Ror, Acc), (0x66, Ror, Zp), (0x76, Ror, ZpX), (0x6E, Ror, Abs), (0x7E, Ror, AbsX), (0x40, Rti, Imp),
     (0x60, Rts, Imp),
     (0xE9, Sbc, Imm), (0xE5, Sbc, Zp), (0xF5, Sbc, ZpX), (0xED, Sbc, Abs), (0xFD, Sbc, AbsX), (0xF9, Sbc, AbsY),
     (0xE1, Sbc, IndX), (0xF1, Sbc, IndY),
     (0x85, Sta, Zp), (0x95, Sta, ZpX), (0x8D, Sta, Abs), (0x9D, Sta, AbsX), (0x99, Sta, AbsY), (0x81, Sta, IndX),
     (0x91, Sta, IndY),
     (0x86, Stx, Zp), (0x96, Stx, ZpY), (0x8E, Stx, Abs), (0x84, Sty, Zp), (0x94, Sty, ZpX), (0x8C, Sty, Abs),
     (0x9A, Txs, Imp), (0xBA, Tsx, Imp), (0x48, Pha, Imp), (0x68, Pla, Imp), (0x08, Php, Imp), (0x28, Plp, Imp),
     (0x87, Sax, Zp), (0x97, Sax, ZpY), (0x8F, Sax, Abs), (0x83, Sax, IndX), (0x02, Hlt, Imp)]"

definition isa_decode :: "byte \<Rightarrow> (mnemonic \<times> mode) option" where
  "isa_decode op = map_of isa_table (uint op)"

section \<open>Addresses\<close>

definition zp_addr :: "byte \<Rightarrow> ushort" where
  "zp_addr b = le16 b 0"

definition stack_addr :: "byte \<Rightarrow> ushort" where
  "stack_addr b = le16 b 1"

definition byte1 :: "isa \<Rightarrow> byte" where
  "byte1 s = ram s (r_pc s + 1)"

definition byte2 :: "isa \<Rightarrow> byte" where
  "byte2 s = ram s (r_pc s + 2)"

text \<open>A pointer in the zero page; both of its bytes are there. An indirect jump does not leave the page of its pointer either.\<close>

definition zp_ptr :: "isa \<Rightarrow> byte \<Rightarrow> ushort" where
  "zp_ptr s b = le16 (ram s (zp_addr b)) (ram s (zp_addr (b + 1)))"

fun base_addr :: "mode \<Rightarrow> isa \<Rightarrow> ushort" where
  "base_addr IndY s = zp_ptr s (byte1 s)"
| "base_addr _ s = le16 (byte1 s) (byte2 s)"

fun index_of :: "mode \<Rightarrow> isa \<Rightarrow> byte" where
  "index_of AbsX s = r_x s"
| "index_of AbsY s = r_y s"
| "index_of IndY s = r_y s"
| "index_of _ s = 0"

fun eff_addr :: "mode \<Rightarrow> isa \<Rightarrow> ushort" where
  "eff_addr Imm s = r_pc s + 1"
| "eff_addr Zp s = zp_addr (byte1 s)"
| "eff_addr ZpX s = zp_addr (r_x s + byte1 s)"
| "eff_addr ZpY s = zp_addr (r_y s + byte1 s)"
| "eff_addr Ind s = le16 (ram s (le16 (byte1 s) (byte2 s))) (ram s (le16 (byte1 s + 1) (byte2 s)))"
| "eff_addr IndX s = zp_ptr s (r_x s + byte1 s)"
| "eff_addr md s = base_addr md s + ucast (index_of md s)"

fun op_len :: "mode \<Rightarrow> ushort" where
  "op_len Imp = 1"
| "op_len Acc = 1"
| "op_len Abs = 3"
| "op_len AbsX = 3"
| "op_len AbsY = 3"
| "op_len Ind = 3"
| "op_len _ = 2"

section \<open>Operations\<close>

definition set_nz :: "byte \<Rightarrow> isa \<Rightarrow> isa" where
  "set_nz v s = s\<lparr>f_n := sint v < 0, f_z := v = 0\<rparr>"

definition signed_range :: "int set" where
  "signed_range = {-128..127}"

definition do_adc :: "byte \<Rightarrow> isa \<Rightarrow> isa" where
  "do_adc v s = (let k = unat (r_a s) + unat v + of_bool (f_c s); r = of_nat k in
     set_nz r (s\<lparr>r_a := r, f_c := 255 < k, f_v := sint (r_a s) + sint v + of_bool (f_c s) \<notin> signed_range\<rparr>))"

definition do_sbc :: "byte \<Rightarrow> isa \<Rightarrow> isa" where
  "do_sbc v s = (let k = uint (r_a s) - uint v - of_bool (\<not> f_c s); r = of_int k in
     set_nz r (s\<lparr>r_a := r, f_c := 0 \<le> k, f_v := sint (r_a s) - sint v - of_bool (\<not> f_c s) \<notin> signed_range\<rparr>))"

definition do_cmp :: "byte \<Rightarrow> byte \<Rightarrow> isa \<Rightarrow> isa" where
  "do_cmp r v s = set_nz (r - v) (s\<lparr>f_c := v \<le> r\<rparr>)"

definition do_bit :: "byte \<Rightarrow> isa \<Rightarrow> isa" where
  "do_bit v s = s\<lparr>f_n := bit v 7, f_v := bit v 6, f_z := r_a s AND v = 0\<rparr>"

text \<open>Shifts and steps: the new value and the carry it leaves.\<close>

fun rmw :: "mnemonic \<Rightarrow> bool \<Rightarrow> byte \<Rightarrow> byte \<times> bool" where
  "rmw Asl c v = (push_bit 1 v, bit v 7)"
| "rmw Lsr c v = (drop_bit 1 v, bit v 0)"
| "rmw Rol c v = (push_bit 1 v OR of_bool c, bit v 7)"
| "rmw Ror c v = (drop_bit 1 v OR push_bit 7 (of_bool c), bit v 0)"
| "rmw Inc c v = (v + 1, c)"
| "rmw Dec c v = (v - 1, c)"
| "rmw _ c v = (v, c)"

definition do_rmw :: "mnemonic \<Rightarrow> mode \<Rightarrow> isa \<Rightarrow> isa" where
  "do_rmw mn md s =
     (if md = Acc then let (v, c) = rmw mn (f_c s) (r_a s) in set_nz v (s\<lparr>r_a := v, f_c := c\<rparr>)
      else let e = eff_addr md s; (v, c) = rmw mn (f_c s) (ram s e) in set_nz v (s\<lparr>ram := (ram s)(e := v), f_c := c\<rparr>))"

definition store :: "mode \<Rightarrow> byte \<Rightarrow> isa \<Rightarrow> isa" where
  "store md v s = s\<lparr>ram := (ram s)(eff_addr md s := v)\<rparr>"

definition push :: "byte \<Rightarrow> isa \<Rightarrow> isa" where
  "push v s = s\<lparr>ram := (ram s)(stack_addr (r_s s) := v), r_s := r_s s - 1\<rparr>"

definition pull :: "isa \<Rightarrow> byte \<times> isa" where
  "pull s = (ram s (stack_addr (r_s s + 1)), s\<lparr>r_s := r_s s + 1\<rparr>)"

definition push16 :: "ushort \<Rightarrow> isa \<Rightarrow> isa" where
  "push16 v s = push (lo8 v) (push (hi8 v) s)"

definition pull16 :: "isa \<Rightarrow> ushort \<times> isa" where
  "pull16 s = (let (lo, s) = pull s; (hi, s) = pull s in (le16 lo hi, s))"

text \<open>The status register in memory: bit 5 is set, bit 4 tells a BRK or PHP from an interrupt.\<close>

definition status :: "bool \<Rightarrow> isa \<Rightarrow> byte" where
  "status b s = push_bit 7 (of_bool (f_n s)) OR push_bit 6 (of_bool (f_v s)) OR push_bit 5 1 OR push_bit 4 (of_bool b) OR
     push_bit 3 (of_bool (f_d s)) OR push_bit 2 (of_bool (f_i s)) OR push_bit 1 (of_bool (f_z s)) OR of_bool (f_c s)"

definition set_status :: "byte \<Rightarrow> isa \<Rightarrow> isa" where
  "set_status v s = s\<lparr>f_n := bit v 7, f_v := bit v 6, f_d := bit v 3, f_i := bit v 2, f_z := bit v 1, f_c := bit v 0\<rparr>"

fun taken :: "mnemonic \<Rightarrow> isa \<Rightarrow> bool" where
  "taken Bpl s = (\<not> f_n s)"
| "taken Bmi s = f_n s"
| "taken Bvc s = (\<not> f_v s)"
| "taken Bvs s = f_v s"
| "taken Bcc s = (\<not> f_c s)"
| "taken Bcs s = f_c s"
| "taken Bne s = (\<not> f_z s)"
| "taken Beq s = f_z s"
| "taken _ s = False"

definition branch_target :: "isa \<Rightarrow> ushort" where
  "branch_target s = r_pc s + 2 + scast (byte1 s)"

text \<open>An interrupt: the program counter and the status go to the stack, the rest comes from the vector.\<close>

definition enter :: "bool \<Rightarrow> ushort \<Rightarrow> ushort \<Rightarrow> isa \<Rightarrow> isa" where
  "enter b back vec s = (let s = push (status b s) (push16 back s) in
     s\<lparr>f_i := True, r_pc := le16 (ram s vec) (ram s (vec + 1))\<rparr>)"

text \<open>
  What an instruction does, the program counter apart unless it jumps. A call reads the high byte of its target after the
  pushes, which matters where the stack holds the call itself.
\<close>

fun perform :: "mnemonic \<Rightarrow> mode \<Rightarrow> isa \<Rightarrow> isa" where
  "perform Adc md s = do_adc (ram s (eff_addr md s)) s"
| "perform Sbc md s = do_sbc (ram s (eff_addr md s)) s"
| "perform And md s = (let v = r_a s AND ram s (eff_addr md s) in set_nz v (s\<lparr>r_a := v\<rparr>))"
| "perform Ora md s = (let v = r_a s OR ram s (eff_addr md s) in set_nz v (s\<lparr>r_a := v\<rparr>))"
| "perform Eor md s = (let v = r_a s XOR ram s (eff_addr md s) in set_nz v (s\<lparr>r_a := v\<rparr>))"
| "perform Cmp md s = do_cmp (r_a s) (ram s (eff_addr md s)) s"
| "perform Cpx md s = do_cmp (r_x s) (ram s (eff_addr md s)) s"
| "perform Cpy md s = do_cmp (r_y s) (ram s (eff_addr md s)) s"
| "perform Bit md s = do_bit (ram s (eff_addr md s)) s"
| "perform Lda md s = (let v = ram s (eff_addr md s) in set_nz v (s\<lparr>r_a := v\<rparr>))"
| "perform Ldx md s = (let v = ram s (eff_addr md s) in set_nz v (s\<lparr>r_x := v\<rparr>))"
| "perform Ldy md s = (let v = ram s (eff_addr md s) in set_nz v (s\<lparr>r_y := v\<rparr>))"
| "perform Sta md s = store md (r_a s) s"
| "perform Stx md s = store md (r_x s) s"
| "perform Sty md s = store md (r_y s) s"
| "perform Sax md s = store md (r_a s AND r_x s) s"
| "perform Tax md s = set_nz (r_a s) (s\<lparr>r_x := r_a s\<rparr>)"
| "perform Tay md s = set_nz (r_a s) (s\<lparr>r_y := r_a s\<rparr>)"
| "perform Txa md s = set_nz (r_x s) (s\<lparr>r_a := r_x s\<rparr>)"
| "perform Tya md s = set_nz (r_y s) (s\<lparr>r_a := r_y s\<rparr>)"
| "perform Tsx md s = set_nz (r_s s) (s\<lparr>r_x := r_s s\<rparr>)"
| "perform Txs md s = s\<lparr>r_s := r_x s\<rparr>"
| "perform Inx md s = set_nz (r_x s + 1) (s\<lparr>r_x := r_x s + 1\<rparr>)"
| "perform Iny md s = set_nz (r_y s + 1) (s\<lparr>r_y := r_y s + 1\<rparr>)"
| "perform Dex md s = set_nz (r_x s - 1) (s\<lparr>r_x := r_x s - 1\<rparr>)"
| "perform Dey md s = set_nz (r_y s - 1) (s\<lparr>r_y := r_y s - 1\<rparr>)"
| "perform Clc md s = s\<lparr>f_c := False\<rparr>"
| "perform Sec md s = s\<lparr>f_c := True\<rparr>"
| "perform Cli md s = s\<lparr>f_i := False\<rparr>"
| "perform Sei md s = s\<lparr>f_i := True\<rparr>"
| "perform Clv md s = s\<lparr>f_v := False\<rparr>"
| "perform Cld md s = s\<lparr>f_d := False\<rparr>"
| "perform Sed md s = s\<lparr>f_d := True\<rparr>"
| "perform Pha md s = push (r_a s) s"
| "perform Php md s = push (status True s) s"
| "perform Pla md s = (let (v, s) = pull s in set_nz v (s\<lparr>r_a := v\<rparr>))"
| "perform Plp md s = (let (v, s) = pull s in set_status v s)"
| "perform Jmp md s = s\<lparr>r_pc := eff_addr md s\<rparr>"
| "perform Jsr md s = (let lo = byte1 s; s = push16 (r_pc s + 2) s in s\<lparr>r_pc := le16 lo (byte2 s)\<rparr>)"
| "perform Rts md s = (let (a, s) = pull16 s in s\<lparr>r_pc := a + 1\<rparr>)"
| "perform Rti md s = (let (v, s) = pull s; s = set_status v s; (a, s) = pull16 s in s\<lparr>r_pc := a\<rparr>)"
| "perform Brk md s = enter True (r_pc s + 2) 0xFFFE s"
| "perform Nop md s = s"
| "perform Hlt md s = s"
| "perform mn md s = (if mn \<in> {Asl, Lsr, Rol, Ror, Inc, Dec} then do_rmw mn md s
     else s\<lparr>r_pc := if taken mn s then branch_target s else r_pc s + 2\<rparr>)"

definition jumps :: "mnemonic \<Rightarrow> bool" where
  "jumps mn \<longleftrightarrow> mn \<in> {Jmp, Jsr, Rts, Rti, Brk, Bpl, Bmi, Bvc, Bvs, Bcc, Bcs, Bne, Beq}"

definition execute :: "mnemonic \<Rightarrow> mode \<Rightarrow> isa \<Rightarrow> isa" where
  "execute mn md s = (let s' = perform mn md s in if jumps mn then s' else s'\<lparr>r_pc := r_pc s + op_len md\<rparr>)"

section \<open>Time\<close>

definition page_cross :: "mode \<Rightarrow> isa \<Rightarrow> nat" where
  "page_cross md s = of_bool (hi8 (base_addr md s) \<noteq> hi8 (base_addr md s + ucast (index_of md s)))"

definition branch_time :: "mnemonic \<Rightarrow> isa \<Rightarrow> nat" where
  "branch_time mn s = (if taken mn s then if hi8 (r_pc s + 2) = hi8 (branch_target s) then 3 else 4 else 2)"

fun read_time :: "mode \<Rightarrow> isa \<Rightarrow> nat" where
  "read_time Imm s = 2"
| "read_time Zp s = 3"
| "read_time IndX s = 6"
| "read_time IndY s = 5 + page_cross IndY s"
| "read_time AbsX s = 4 + page_cross AbsX s"
| "read_time AbsY s = 4 + page_cross AbsY s"
| "read_time _ s = 4"

fun store_time :: "mode \<Rightarrow> nat" where
  "store_time Zp = 3"
| "store_time AbsX = 5"
| "store_time AbsY = 5"
| "store_time IndX = 6"
| "store_time IndY = 6"
| "store_time _ = 4"

fun rmw_time :: "mode \<Rightarrow> nat" where
  "rmw_time Acc = 2"
| "rmw_time Zp = 5"
| "rmw_time AbsX = 7"
| "rmw_time _ = 6"

definition isa_time :: "mnemonic \<Rightarrow> mode \<Rightarrow> isa \<Rightarrow> nat" where
  "isa_time mn md s =
     (if mn \<in> {Adc, And, Bit, Cmp, Cpx, Cpy, Eor, Lda, Ldx, Ldy, Ora, Sbc} then read_time md s
      else if mn \<in> {Sta, Stx, Sty, Sax} then store_time md
      else if mn \<in> {Asl, Lsr, Rol, Ror, Inc, Dec} then rmw_time md
      else if mn \<in> {Bpl, Bmi, Bvc, Bvs, Bcc, Bcs, Bne, Beq} then branch_time mn s
      else if mn \<in> {Pha, Php} then 3
      else if mn \<in> {Pla, Plp} then 4
      else if mn = Jmp then if md = Ind then 5 else 3
      else if mn \<in> {Jsr, Rts, Rti} then 6
      else if mn = Brk then 7
      else 2)"

end
