(* ===== verification/Isa_Arith.thy ===== *)
theory Isa_Arith
  imports Cpu_Cycle Isa
begin

text \<open>
  The arithmetic of the instruction set in the terms of the core: sums with carry, inverted operands, addresses in two bytes.
\<close>

unbundle bit_operations_syntax

section \<open>Signs, carries, overflows\<close>

lemma uint_byte: "0 \<le> uint (w :: byte)" "uint (w :: byte) < 256"
  using uint_bounded[of w] by simp_all

lemma bit7: "bit (w :: byte) 7 \<longleftrightarrow> 128 \<le> uint w"
proof -
  have "uint w div 128 = (if 128 \<le> uint w then 1 else 0)" using uint_byte[of w] by (auto intro: div_pos_pos_trivial int_div_pos_eq)
  moreover have "bit w 7 \<longleftrightarrow> odd (uint w div 128)" using bit_iff_odd[of "uint w" 7] by (simp add: bit_unsigned_iff)
  ultimately show ?thesis by simp
qed

lemma neg_bit7: "sint (w :: byte) < 0 \<longleftrightarrow> bit w 7"
  using bit_last_iff[of w] by simp

lemma sint_byte: "sint (w :: byte) = uint w - 256 * of_bool (bit w 7)"
proof -
  have "take_bit 8 (uint w) = uint w" by (rule take_bit_int_eq_self) (use uint_bounded[of w] in simp_all)
  then show ?thesis by (simp add: sint_uint signed_take_bit_eq_take_bit_minus bit_uint_iff)
qed

lemma carry_uint: "carry a b c \<longleftrightarrow> 256 \<le> uint a + uint b + of_bool c"
  unfolding carry_iff uint_nat by (cases c) (simp_all only: of_bool_eq, linarith+)

lemma uint_sum: "uint (a + b + of_bool c :: byte) = uint a + uint b + of_bool c - 256 * of_bool (carry a b c)"
proof -
  have "uint (a + b + of_bool c) = (uint a + uint b + of_bool c) mod 256"
    by (cases c) (simp_all add: uint_word_ariths mod_simps)
  then show ?thesis
    using uint_byte[of a] uint_byte[of b] unfolding carry_uint by (cases c) (auto simp: mod_pos_pos_trivial int_mod_pos_eq)
qed

lemma overflow_signed: "overflow a b c \<longleftrightarrow> sint a + sint b + of_bool c \<notin> signed_range"
proof -
  note facts = uint_byte[of a] uint_byte[of b] uint_sum[of a b c] bit7[of a] bit7[of b] bit7[of "a + b + of_bool c"]
  show ?thesis unfolding overflow_def signed_range_def sint_byte carry_uint atLeastAtMost_iff
    using facts unfolding carry_uint
    by (cases "bit a 7"; cases "bit b 7"; cases "256 \<le> uint a + uint b + of_bool c"; cases "bit (a + b + of_bool c) 7"; cases c)
      (simp_all only: of_bool_eq simp_thms mult_1_right mult_zero_right, linarith+)
qed

lemma uint_NOT: "uint (NOT v :: byte) = 255 - uint v"
proof -
  have "uint (NOT v) = (- uint v - 1) mod 256" by (simp add: unsigned_not_eq take_bit_eq_mod not_int_def)
  also have "\<dots> = (255 - uint v) mod 256" using mod_add_self2[of "- uint v - 1" 256] by simp
  also have "\<dots> = 255 - uint v" using uint_byte[of v] by (intro mod_pos_pos_trivial; linarith)
  finally show ?thesis .
qed

lemma sint_NOT: "sint (NOT v :: byte) = - sint v - 1"
proof -
  have "bit (NOT v) 7 \<longleftrightarrow> \<not> bit v 7" by (simp add: bit_not_iff)
  then show ?thesis unfolding sint_byte uint_NOT by (cases "bit v 7") simp_all
qed

lemma nz_eq: "set_nz v s = s\<lparr>f_n := bit v 7, f_z := v = 0\<rparr>"
  by (simp add: set_nz_def neg_bit7)

lemma adc_eq: "do_adc v s = set_nz (r_a s + v + of_bool (f_c s))
  (s\<lparr>r_a := r_a s + v + of_bool (f_c s), f_c := carry (r_a s) v (f_c s), f_v := overflow (r_a s) v (f_c s)\<rparr>)"
  by (simp add: do_adc_def overflow_signed carry_iff Let_def Suc_le_eq [symmetric])

lemma borrow: "carry a (NOT v) c \<longleftrightarrow> 0 \<le> uint a - uint v - of_bool (\<not> c)"
  unfolding carry_uint uint_NOT by (cases c) auto

lemma sbc_eq: "do_sbc v s = set_nz (r_a s + NOT v + of_bool (f_c s))
  (s\<lparr>r_a := r_a s + NOT v + of_bool (f_c s), f_c := carry (r_a s) (NOT v) (f_c s), f_v := overflow (r_a s) (NOT v) (f_c s)\<rparr>)"
proof -
  have r: "of_int (uint (r_a s) - uint v - of_bool (\<not> f_c s)) = r_a s + NOT v + of_bool (f_c s)"
    by (cases "f_c s") (simp_all add: not_eq_complement)
  have v: "overflow (r_a s) (NOT v) (f_c s) \<longleftrightarrow> sint (r_a s) - sint v - of_bool (\<not> f_c s) \<notin> signed_range"
    unfolding overflow_signed sint_NOT by (cases "f_c s") (simp_all add: algebra_simps)
  show ?thesis unfolding do_sbc_def Let_def r v borrow ..
qed

lemma cmp_eq: "do_cmp r v s = set_nz (r + NOT v + 1) (s\<lparr>f_c := carry r (NOT v) True\<rparr>)"
proof -
  have "carry r (NOT v) True \<longleftrightarrow> v \<le> r" by (simp only: borrow word_le_def) simp
  moreover have "r + NOT v + 1 = r - v" by (simp add: not_eq_complement)
  ultimately show ?thesis by (simp only: do_cmp_def)
qed

section \<open>Shifts\<close>

lemma shl_sum: "push_bit 1 (v :: byte) OR of_bool c = v + v + of_bool c"
proof -
  have "push_bit 1 v OR of_bool c = push_bit 1 v + of_bool c"
    by (rule disjunctive_add [symmetric]) (unfold bit_push_bit_iff bit_of_bool_iff, simp)
  then show ?thesis by (simp add: push_bit_eq_mult)
qed

lemma carry_double: "carry v v c \<longleftrightarrow> bit v 7"
  unfolding carry_uint bit7 by (cases c) auto

lemma rmw_eq:
  "rmw Asl c v = (v + v, carry v v False)"
  "rmw Lsr c v = (drop_bit 1 v, bit v 0)"
  "rmw Rol c v = (v + v + of_bool c, carry v v c)"
  "rmw Ror c v = (push_bit 7 (of_bool c) OR drop_bit 1 v, bit v 0)"
  "rmw Inc c v = (v + 1, c)"
  "rmw Dec c v = (v - 1, c)"
  using shl_sum[of v False] shl_sum[of v c] by (simp_all add: carry_double or.commute)

section \<open>Addresses\<close>

lemma uint_ucast16: "uint (ucast (b :: byte) :: ushort) = uint b"
  using uint_byte[of b] by (simp add: unsigned_ucast_eq take_bit_int_eq_self)

lemma uint_le16: "uint (le16 l h) = uint l + 256 * uint h"
proof -
  have "le16 l h = ucast l + push_bit 8 (ucast h)" unfolding le16_def
    by (rule disjunctive_add [symmetric]) (auto simp: bit_simps dest: bit_imp_le_length)
  then show ?thesis
    using uint_byte[of l] uint_byte[of h] by (simp add: push_bit_eq_mult uint_word_ariths uint_ucast16 mod_pos_pos_trivial)
qed

lemma mod_wrap: "n \<le> k \<Longrightarrow> k < n + n \<Longrightarrow> k mod n = k - n" for k n :: int
  by (auto intro: int_mod_pos_eq[of _ n 1])

lemma le16_index: "le16 l h + ucast x = le16 (x + l) (h + of_bool (carry x l False))"
proof (rule word_uint_eqI)
  have "uint (x + l) = uint x + uint l - 256 * of_bool (carry x l False)" using uint_sum[of x l False] by simp
  moreover have "uint (h + 1) = uint h + 1 - 256 * of_bool (uint h = 255)"
    using uint_sum[of h 0 True] uint_byte[of h] by (auto simp: carry_uint)
  moreover have "uint (le16 l h + ucast x) = (uint l + 256 * uint h + uint x) mod 65536"
    by (simp add: uint_word_ariths uint_le16 uint_ucast16)
  ultimately show "uint (le16 l h + ucast x) = uint (le16 (x + l) (h + of_bool (carry x l False)))"
    using uint_byte[of x] uint_byte[of l] uint_byte[of h]
    by (cases "carry x l False"; cases "uint h = 255") (auto simp: uint_le16 carry_uint mod_wrap)
qed

lemma le16_high: "le16 l h + le16 0 k = le16 l (h + k)"
proof (rule word_uint_eqI)
  define n where "n = uint l + 256 * uint h + 256 * uint k"
  have "uint (h + k) = uint h + uint k - 256 * of_bool (carry h k False)" using uint_sum[of h k False] by simp
  moreover have "n mod 65536 = (if carry h k False then n - 65536 else n)"
  proof (cases "carry h k False")
    case True
    then have "65536 \<le> n" "n < 65536 + 65536"
      using uint_byte[of l] uint_byte[of h] uint_byte[of k] unfolding n_def carry_uint of_bool_eq by linarith+
    then show ?thesis using True by (simp add: mod_wrap)
  next
    case False
    then have "0 \<le> n" "n < 65536"
      using uint_byte[of l] uint_byte[of h] uint_byte[of k] unfolding n_def carry_uint of_bool_eq by linarith+
    then show ?thesis using False by simp
  qed
  ultimately show "uint (le16 l h + le16 0 k) = uint (le16 l (h + k))"
    by (simp add: uint_word_ariths uint_le16 n_def)
qed

lemma scast_byte: "(scast (b :: byte) :: ushort) = ucast b - le16 0 (of_bool (bit b 7))"
proof -
  have "scast b = (of_int (uint b - 256 * of_bool (bit b 7)) :: ushort)" by (simp flip: sint_byte)
  moreover have "le16 0 (of_bool (bit b 7)) = of_int (256 * of_bool (bit b 7))"
    by (rule word_uint_eqI) (cases "bit b 7", simp_all add: uint_le16)
  ultimately show ?thesis by (simp only: of_int_diff) simp
qed

lemma le16_branch: "le16 l h + scast b = le16 (b + l) (h + of_bool (carry b l False) - of_bool (bit b 7))"
proof -
  define k :: byte where "k = of_bool (bit b 7)"
  define h' where "h' = h + of_bool (carry b l False)"
  have "le16 l h + scast b = le16 (b + l) h' - le16 0 k" by (simp add: scast_byte le16_index [symmetric] h'_def k_def)
  also have "\<dots> = le16 (b + l) (h' - k)" using le16_high[of "b + l" "h' - k" k] by (simp add: diff_eq_eq)
  finally show ?thesis unfolding h'_def k_def .
qed

lemma branch_eq: "branch_target s =
  (let w = r_pc s + 2 in le16 (byte1 s + lo8 w) (of_bool (carry (byte1 s) (lo8 w) False) + hi8 w - of_bool (bit (byte1 s) 7)))"
  using le16_branch[of "lo8 (r_pc s + 2)" "hi8 (r_pc s + 2)" "byte1 s"] by (simp add: branch_target_def Let_def add.commute)

lemma page_carry: "hi8 (le16 l h) \<noteq> hi8 (le16 l h + ucast x) \<longleftrightarrow> carry x l False"
  by (cases "carry x l False") (simp_all add: le16_index)

end
