(* ===== verification/Cpu_Exec.thy ===== *)
theory Cpu_Exec
  imports Isa_Arith
begin

text \<open>
  What the core does from the first cycle of an instruction to the first cycle of the next, instruction by instruction.
\<close>

unbundle bit_operations_syntax

section \<open>Instruction boundaries\<close>

text \<open>
  In the first cycle of an instruction (state T1) the core has the opcode in its instruction register and the address of the byte
  after it on the address bus. \<open>start s j\<close> is the core there, with registers \<open>s\<close> and everything else as in \<open>j\<close>. A reset or NMI
  that is latched by then waits for the next boundary, where the core goes through a BRK of its own instead: \<open>boundary s j\<close> is
  the core between two instructions, with whatever it does next.
\<close>

definition start :: "isa \<Rightarrow> core \<Rightarrow> core" where
  "start s j = \<lparr>q_ac = r_a s, q_x = r_x s, q_y = r_y s, q_c = f_c s, q_d = f_d s, q_i = f_i s, q_n = f_n s, q_v = f_v s,
     q_z = f_z s, q_abh = hi8 (r_pc s + 1), q_abl = lo8 (r_pc s + 1), q_acr = q_acr j, q_add = q_add j, q_ai = q_ai j,
     q_bi = q_bi j, q_dl = q_dl j, q_dor = q_dor j, q_ir = ram s (r_pc s), q_pch = q_pch j, q_pcl = q_pcl j,
     q_pchs = hi8 (r_pc s + 1), q_pcls = lo8 (r_pc s + 1), q_pd = q_pd j, q_s = r_s s, q_t = T1, q_ready = q_ready j,
     q_clk_phase = q_clk_phase j, q_irq_sel = INTERRUPT_BRK, q_rst = q_rst j, q_nres = True, q_nmi = q_nmi j, q_nnmi = True\<rparr>"

definition pending :: "core \<Rightarrow> bool" where
  "pending q \<longleftrightarrow> q_rst q \<or> q_nmi q"

definition boundary :: "isa \<Rightarrow> core \<Rightarrow> core" where
  "boundary s j = (let pc = taken_pc (q_rst j) (q_nmi j) (r_pc s) in (start s j)\<lparr>
     q_abh := hi8 pc, q_abl := lo8 pc, q_pchs := hi8 pc, q_pcls := lo8 pc,
     q_ir := taken_ir (q_rst j) (q_nmi j) (ram s (r_pc s)), q_irq_sel := taken_sel (q_rst j) (q_nmi j)\<rparr>)"

lemma boundary_start: "\<not> pending j \<Longrightarrow> boundary s j = start s j"
  by (simp add: boundary_def pending_def start_def Let_def taken_pc_def taken_ir_def taken_sel_def)

text \<open>The cycles the core takes: those documented, but for two instructions it always gives the extra cycle of a page crossing.\<close>

definition core_time :: "mnemonic \<Rightarrow> mode \<Rightarrow> isa \<Rightarrow> nat" where
  "core_time mn md s = (if mn = Ldx \<and> md = AbsY \<or> mn = Ldy \<and> md = AbsX then 5 else isa_time mn md s)"

text \<open>
  After \<open>n\<close> cycles the core is at a boundary with registers and memory \<open>s\<close>, and what is latched is \<open>rst\<close> and \<open>nmi\<close>.
\<close>

definition goes_to :: "nat \<Rightarrow> isa \<Rightarrow> bool \<Rightarrow> bool \<Rightarrow> core \<times> mem \<Rightarrow> bool" where
  "goes_to n s rst nmi c \<longleftrightarrow> (case cycles n c of (q, m) \<Rightarrow>
     q = boundary s q \<and> m = ram s \<and> q_rst q = rst \<and> q_nmi q = nmi)"

definition implements :: "mnemonic \<Rightarrow> mode \<Rightarrow> isa \<Rightarrow> core \<Rightarrow> bool" where
  "implements mn md s j \<longleftrightarrow>
     goes_to (core_time mn md s) (execute mn md s) (q_rst j) (q_nmi j) (start s j, ram s)"

section \<open>Evaluation\<close>

lemma pc_norm: "(w :: ushort) + numeral n = numeral n + w"
  by (rule add.commute)

lemma mask_FF: "(- 1 :: byte) = 255"
  by simp

lemma byte_ones: "(255 :: byte) AND w = w" "w AND (255 :: byte) = w"
  using and.left_neutral[of w] and.right_neutral[of w] by (simp_all only: mask_FF)

lemma status_eq: "status b s = pack_p (f_n s) (f_v s) b (f_d s) (f_i s) (f_z s) (f_c s)"
  by (simp only: status_def pack_p_def)

lemma vectors: "le16 0xFA 0xFF = 0xFFFA" "le16 0xFB 0xFF = 0xFFFB" "le16 0xFC 0xFF = 0xFFFC" "le16 0xFD 0xFF = 0xFFFD"
  "le16 0xFE 0xFF = 0xFFFE" "le16 0xFF 0xFF = 0xFFFF"
  by (simp_all add: le16_def)

lemma opcode_bit5: "bit (w :: byte) 5 \<longleftrightarrow> odd (uint w div 32)"
  using bit_iff_odd[of "uint w" 5] by (simp add: bit_unsigned_iff)

lemmas core_evals = implements_def goes_to_def core_time_def boundary_def start_def opcode_bit5 mem_cycle_eq words going_def
    at_T1_def decode_T dec_rom next_T irn_def vectors

lemmas isa_evals = execute_def isa_time_def jumps_def adc_eq sbc_eq cmp_eq nz_eq do_bit_def do_rmw_def rmw_eq store_def push_def
  pull_def push16_def pull16_def status_eq set_status_def enter_def branch_time_def branch_eq page_cross_def page_carry
  byte1_def byte2_def zp_addr_def stack_addr_def zp_ptr_def le16_index le16_branch pc_norm Let_def byte_ones

declare rmw.simps [simp del] if_split [split del] split_of_bool [split del]

section \<open>Instructions\<close>

text \<open>One lemma for each addressing mode; the cases tell apart the ways an address or a branch crosses a page.\<close>

lemma exec_Imm:
  assumes "(uint (ram s (r_pc s)), mn, Imm) \<in> set isa_table"
  shows "implements mn Imm s j"
  using assms
  by (simp add: isa_table_def; (elim disjE conjE)?; simp add: core_evals isa_evals)

lemma exec_Zp:
  assumes "(uint (ram s (r_pc s)), mn, Zp) \<in> set isa_table"
  shows "implements mn Zp s j"
  using assms
  by (simp add: isa_table_def; (elim disjE conjE)?; simp add: core_evals isa_evals)

lemma exec_ZpX:
  assumes "(uint (ram s (r_pc s)), mn, ZpX) \<in> set isa_table"
  shows "implements mn ZpX s j"
  using assms
  by (simp add: isa_table_def; (elim disjE conjE)?; simp add: core_evals isa_evals)

lemma exec_Abs:
  assumes "(uint (ram s (r_pc s)), mn, Abs) \<in> set isa_table"
  shows "implements mn Abs s j"
  using assms
  by (simp add: isa_table_def; (elim disjE conjE)?; simp add: core_evals isa_evals)

lemma exec_AbsX:
  assumes "(uint (ram s (r_pc s)), mn, AbsX) \<in> set isa_table"
  shows "implements mn AbsX s j"
  using assms
  by (cases "carry (r_x s) (ram s (r_pc s + 1)) False"; simp add: isa_table_def; (elim disjE conjE)?; simp add: core_evals
    isa_evals)

lemma exec_AbsY:
  assumes "(uint (ram s (r_pc s)), mn, AbsY) \<in> set isa_table"
  shows "implements mn AbsY s j"
  using assms
  by (cases "carry (r_y s) (ram s (r_pc s + 1)) False"; simp add: isa_table_def; (elim disjE conjE)?; simp add: core_evals
    isa_evals)

lemma exec_IndX:
  assumes "(uint (ram s (r_pc s)), mn, IndX) \<in> set isa_table"
  shows "implements mn IndX s j"
  using assms
  by (simp add: isa_table_def; (elim disjE conjE)?; simp add: core_evals isa_evals)

lemma exec_IndY:
  assumes "(uint (ram s (r_pc s)), mn, IndY) \<in> set isa_table"
  shows "implements mn IndY s j"
  using assms
  by (cases "carry (r_y s) (ram s (le16 (ram s (r_pc s + 1)) 0)) False"; simp add: isa_table_def; (elim disjE conjE)?; simp
    add: core_evals isa_evals)

lemma exec_Acc:
  assumes "(uint (ram s (r_pc s)), mn, Acc) \<in> set isa_table"
  shows "implements mn Acc s j"
  using assms
  by (simp add: isa_table_def; (elim disjE conjE)?; simp add: core_evals isa_evals)

lemma exec_Rel:
  assumes "(uint (ram s (r_pc s)), mn, Rel) \<in> set isa_table"
  shows "implements mn Rel s j"
  using assms
  by (cases "taken mn s"; cases "carry (ram s (r_pc s + 1)) (lo8 (2 + r_pc s)) False"; cases "bit (ram s (r_pc s + 1)) 7";
    simp add: isa_table_def; (elim disjE conjE)?; simp add: core_evals isa_evals)

lemma exec_Imp:
  assumes "(uint (ram s (r_pc s)), mn, Imp) \<in> set isa_table"
  shows "implements mn Imp s j"
  using assms
  by (simp add: isa_table_def; (elim disjE conjE)?; simp add: core_evals isa_evals)

lemma exec_Ind:
  assumes "(uint (ram s (r_pc s)), mn, Ind) \<in> set isa_table"
  shows "implements mn Ind s j"
  using assms
  by (simp add: isa_table_def; (elim disjE conjE)?; simp add: core_evals isa_evals)

lemma exec_ZpY:
  assumes "(uint (ram s (r_pc s)), mn, ZpY) \<in> set isa_table"
  shows "implements mn ZpY s j"
  using assms
  by (simp add: isa_table_def; (elim disjE conjE)?; simp add: core_evals isa_evals)

section \<open>Every opcode\<close>

lemma exec_known:
  assumes "isa_decode (ram s (r_pc s)) = Some (mn, md)"
  shows "implements mn md s j"
proof -
  have "(uint (ram s (r_pc s)), mn, md) \<in> set isa_table"
    using assms unfolding isa_decode_def by (rule map_of_SomeD)
  then show ?thesis
    by (cases md) (auto intro: exec_Imp exec_Acc exec_Imm exec_Zp exec_ZpX exec_ZpY exec_Rel exec_Abs exec_AbsX exec_AbsY
      exec_Ind exec_IndX exec_IndY)
qed

lemma exec_unknown:
  assumes "isa_decode (ram s (r_pc s)) = None"
  shows "goes_to 7 (s\<lparr>r_pc := r_pc s + 1\<rparr>) (q_rst j) (q_nmi j) (start s j, ram s)"
proof -
  have "uint (ram s (r_pc s)) \<notin> fst ` set isa_table" using assms by (simp add: isa_decode_def map_of_eq_None_iff)
  then show ?thesis by (simp add: isa_table_def core_evals isa_evals)
qed

lemma exec_interrupt:
  assumes "pending j"
  shows "goes_to 7 (enter False (r_pc s) (if q_rst j then 0xFFFC else 0xFFFA) s) False (q_rst j \<and> q_nmi j) (boundary s j, ram s)"
  using assms
  by (cases "q_rst j"; cases "q_nmi j"; simp add: pending_def taken_pc_def taken_ir_def taken_sel_def core_evals isa_evals)

declare rmw.simps [simp] if_split [split] split_of_bool [split]

end
