(* ===== verification/Cpu_Run.thy ===== *)
theory Cpu_Run
  imports Cpu_Exec
begin

text \<open>
  Programs on the core: every opcode, the interrupts, and any number of instructions in sequence.
\<close>

section \<open>Any number of instructions\<close>

text \<open>An opcode the core does not implement takes the longest time there is and does nothing.\<close>

definition core_step :: "isa \<Rightarrow> isa" where
  "core_step s = (case isa_decode (ram s (r_pc s)) of Some (mn, md) \<Rightarrow> execute mn md s | None \<Rightarrow> s\<lparr>r_pc := r_pc s + 1\<rparr>)"

definition step_time :: "isa \<Rightarrow> nat" where
  "step_time s = (case isa_decode (ram s (r_pc s)) of Some (mn, md) \<Rightarrow> core_time mn md s | None \<Rightarrow> 7)"

text \<open>
  The contract of a machine whose steps take time: \<open>advance\<close> lets time pass, \<open>ok s c\<close> says that the machine \<open>c\<close> is between two
  steps in the abstract state \<open>s\<close>.
\<close>

fun run_time :: "('s \<Rightarrow> 's) \<Rightarrow> ('s \<Rightarrow> nat) \<Rightarrow> nat \<Rightarrow> 's \<Rightarrow> nat" where
  "run_time step time 0 s = 0"
| "run_time step time (Suc n) s = time s + run_time step time n (step s)"

locale timed_machine =
  fixes advance :: "nat \<Rightarrow> 'c \<Rightarrow> 'c" and ok :: "'s \<Rightarrow> 'c \<Rightarrow> bool" and step :: "'s \<Rightarrow> 's" and time :: "'s \<Rightarrow> nat"
  assumes advance_0: "advance 0 c = c"
    and advance_add: "advance (a + b) c = advance b (advance a c)"
    and step_ok: "ok s c \<Longrightarrow> ok (step s) (advance (time s) c)"
begin

lemma runs: "ok s c \<Longrightarrow> ok ((step ^^ n) s) (advance (run_time step time n s) c)"
proof (induction n arbitrary: s c)
  case (Suc n)
  from Suc.IH[OF step_ok[OF Suc.prems]] show ?case by (simp add: advance_add funpow_swap1)
qed (simp add: advance_0)

end

lemma run_time_scale: "run_time step (\<lambda>s. k * time s) n s = k * run_time step time n s"
  by (induction n arbitrary: s) (simp_all add: distrib_left)

lemma exec_step: "goes_to (step_time s) (core_step s) (q_rst j) (q_nmi j) (start s j, ram s)"
proof (cases "isa_decode (ram s (r_pc s))")
  case None
  then show ?thesis using exec_unknown by (simp add: core_step_def step_time_def)
next
  case (Some i)
  then show ?thesis using exec_known[of s "fst i" "snd i"] by (cases i) (simp add: core_step_def step_time_def implements_def)
qed

lemma cycles_add: "cycles (a + b) c = cycles b (cycles a c)"
  by (induction a arbitrary: c) simp_all

lemma page_cross_le: "page_cross md s \<le> 1"
  by (simp add: page_cross_def)

lemma isa_time_bounds: "2 \<le> isa_time mn md s \<and> isa_time mn md s \<le> 7"
proof -
  have "2 \<le> read_time md s \<and> read_time md s \<le> 6" using page_cross_le[of md s] by (cases md) auto
  moreover have "2 \<le> store_time md \<and> store_time md \<le> 6" by (cases md) auto
  moreover have "2 \<le> rmw_time md \<and> rmw_time md \<le> 7" by (cases md) auto
  moreover have "2 \<le> branch_time mn s \<and> branch_time mn s \<le> 4" by (auto simp: branch_time_def split: if_splits)
  ultimately show ?thesis unfolding isa_time_def by (auto split: if_split)
qed

lemma step_time_bounds: "2 \<le> step_time s" "step_time s \<le> 7"
  using isa_time_bounds by (auto simp: step_time_def core_time_def split: option.split if_split)

text \<open>Core and memory between two instructions.\<close>

definition at_boundary :: "isa \<Rightarrow> core \<times> mem \<Rightarrow> bool" where
  "at_boundary s c \<longleftrightarrow> fst c = boundary s (fst c) \<and> snd c = ram s"

lemma goes_to_iff: "goes_to n s rst nmi c \<longleftrightarrow>
  at_boundary s (cycles n c) \<and> q_rst (fst (cycles n c)) = rst \<and> q_nmi (fst (cycles n c)) = nmi"
  by (auto simp: goes_to_def at_boundary_def split: prod.split)

lemma boundary_step:
  assumes "at_boundary s c" and "\<not> pending (fst c)"
  shows "at_boundary (core_step s) (cycles (step_time s) c) \<and> \<not> pending (fst (cycles (step_time s) c))"
proof -
  have c: "c = (start s (fst c), ram s)" using assms by (simp add: at_boundary_def boundary_start prod_eq_iff)
  have "goes_to (step_time s) (core_step s) False False c"
    using exec_step[of s "fst c"] assms(2) by (subst c) (simp add: pending_def)
  then show ?thesis by (simp add: goes_to_iff pending_def)
qed

interpretation cyc: timed_machine cycles "\<lambda>s c. at_boundary s c \<and> \<not> pending (fst c)" core_step step_time
  by unfold_locales (simp_all add: cycles_add boundary_step)

text \<open>Whatever comes next, an instruction, an unused opcode or an interrupt, takes from two to seven cycles.\<close>

lemma boundary_within:
  assumes "at_boundary s c"
  obtains n s' where "2 \<le> n" and "n \<le> 7" and "at_boundary s' (cycles n c)"
proof (cases "pending (fst c)")
  case True
  have "c = (boundary s (fst c), ram s)" using assms by (simp add: at_boundary_def prod_eq_iff)
  then have "\<exists>s'. at_boundary s' (cycles 7 c)" using exec_interrupt[OF True, of s] by (metis goes_to_iff)
  then show ?thesis using that[of 7] by auto
next
  case False
  show ?thesis using that[OF step_time_bounds[of s]] boundary_step[OF assms False] by blast
qed

lemma boundary_interrupt:
  assumes "at_boundary s c" and "pending (fst c)"
  shows "at_boundary (enter False (r_pc s) (if q_rst (fst c) then 0xFFFC else 0xFFFA) s) (cycles 7 c) \<and>
    \<not> q_rst (fst (cycles 7 c)) \<and> (q_nmi (fst (cycles 7 c)) \<longleftrightarrow> q_rst (fst c) \<and> q_nmi (fst c))"
proof -
  have "c = (boundary s (fst c), ram s)" using assms by (simp add: at_boundary_def prod_eq_iff)
  then show ?thesis using exec_interrupt[OF assms(2), of s] by (simp add: goes_to_iff)
qed

text \<open>One instruction, with its documented time; the two loads that always take the time of a page crossing.\<close>

lemma boundary_instruction:
  assumes "at_boundary s c" and "\<not> pending (fst c)" and "isa_decode (ram s (r_pc s)) = Some (mn, md)"
  shows "at_boundary (execute mn md s) (cycles (core_time mn md s) c)"
  using boundary_step[OF assms(1,2)] assms(3) by (simp add: core_step_def step_time_def)

lemma decode_index_loads:
  "isa_decode op = Some (Ldx, AbsY) \<Longrightarrow> uint op = 0xBE" "isa_decode op = Some (Ldy, AbsX) \<Longrightarrow> uint op = 0xBC"
  unfolding isa_decode_def by (drule map_of_SomeD, simp add: isa_table_def)+

lemma index_load_late:
  assumes "at_boundary s c" and "\<not> pending (fst c)" and "isa_decode (ram s (r_pc s)) = Some (mn, md)"
    and "(mn, md) \<in> {(Ldx, AbsY), (Ldy, AbsX)}"
  shows "q_t (fst (cycles 4 c)) = T0"
proof -
  have c: "c = (start s (fst c), ram s)" using assms by (simp add: at_boundary_def boundary_start prod_eq_iff)
  have "uint (ram s (r_pc s)) = 0xBE \<or> uint (ram s (r_pc s)) = 0xBC" using assms(3,4) decode_index_loads by auto
  then show ?thesis
    by (subst c, cases "carry (r_x s) (ram s (r_pc s + 1)) False"; cases "carry (r_y s) (ram s (r_pc s + 1)) False")
      (elim disjE; simp add: core_evals split del: if_split split_of_bool)+
qed

end
