(* ===== verification/Cpu_Clock.thy ===== *)
theory Cpu_Clock
  imports Cpu_Cycle
begin

text \<open>
  The clocks of the core: how 56 of them make a CPU cycle, when the data bus is read, and what happens while the core waits.
\<close>

section \<open>Clocks without effect\<close>

text \<open>Ready, the clock before too, and no debugger: the counter runs.\<close>

definition running :: "core_in \<Rightarrow> core \<Rightarrow> bool" where
  "running i q \<longleftrightarrow> ready_in i \<and> q_ready q"

lemma clk_idle:
  assumes "running i q" and "q_clk_phase q \<noteq> 0" and "q_clk_phase q \<noteq> 0x1C" and "q_clk_phase q \<noteq> 0x37"
  shows "core_clk i q = q\<lparr>q_clk_phase := q_clk_phase q + 1\<rparr>"
  using assms by (simp add: core_clk_def rdy_def running_def Let_def)

definition clocks :: "core_in list \<Rightarrow> core \<Rightarrow> core" where
  "clocks is q = fold core_clk is q"

lemma clocks_idle:
  assumes "\<forall>i \<in> set is. ready_in i" and "q_ready q" and "0 < k" and "q_clk_phase q = of_nat k"
    and "k + length is \<le> 0x1C \<or> 0x1C < k \<and> k + length is \<le> 0x37"
  shows "clocks is q = q\<lparr>q_clk_phase := of_nat (k + length is)\<rparr>"
  using assms
proof (induction "is" arbitrary: q k)
  case Nil
  then show ?case by (simp add: clocks_def)
next
  case (Cons i "is")
  have k: "k < 0x37" "k \<noteq> 0x1C" using Cons.prems(5) by auto
  have ph: "(of_nat k :: 6 word) = of_nat n \<longleftrightarrow> k = n" if "n < 64" for n
    using that k by (simp add: word_unat_eq_iff unat_of_nat take_bit_nat_eq_self)
  have "q_clk_phase q \<noteq> 0" "q_clk_phase q \<noteq> 0x1C" "q_clk_phase q \<noteq> 0x37"
    using ph[of 0] ph[of "0x1C"] ph[of "0x37"] Cons.prems(3,4) k by simp_all
  then have "core_clk i q = q\<lparr>q_clk_phase := of_nat (Suc k)\<rparr>"
    using clk_idle[of i q] Cons.prems(1,2,4) by (simp add: running_def add.commute)
  moreover have "clocks is (q\<lparr>q_clk_phase := of_nat (Suc k)\<rparr>) = q\<lparr>q_clk_phase := of_nat (Suc k + length is)\<rparr>"
    using Cons.IH[of "q\<lparr>q_clk_phase := of_nat (Suc k)\<rparr>" "Suc k"] Cons.prems by auto
  ultimately show ?case by (simp add: clocks_def)
qed


section \<open>A cycle in 56 clocks\<close>

lemma decode_frame [simp]: "decode (q\<lparr>q_clk_phase := k\<rparr>) = decode q"
  by (rule decode_stable) simp_all

lemma next_frame [simp]: "next_t c (q\<lparr>q_clk_phase := k\<rparr>) = next_t c q"
  by (rule next_t_cong) simp_all

lemma alu_frame [simp]: "alu cs (q\<lparr>q_clk_phase := k\<rparr>) = alu cs q"
  by (simp add: alu_def addc_def)

lemma in_frame [simp]:
  "adl cs (q\<lparr>q_clk_phase := k\<rparr>) = adl cs q" "adh_in cs (q\<lparr>q_clk_phase := k\<rparr>) = adh_in cs q"
  "db_in cs (q\<lparr>q_clk_phase := k\<rparr>) = db_in cs q" "sb_in cs (q\<lparr>q_clk_phase := k\<rparr>) = sb_in cs q"
  by (simp_all add: adl_def adh_in_def db_in_def sb_in_def p_reg_def)

lemma irq_frame [simp]:
  "next_ir i t (q\<lparr>q_clk_phase := k\<rparr>) = next_ir i t q" "next_irq_sel i t (q\<lparr>q_clk_phase := k\<rparr>) = next_irq_sel i t q"
  "force_noinc_pc i t (q\<lparr>q_clk_phase := k\<rparr>) = force_noinc_pc i t q"
  by (simp_all add: next_ir_def next_irq_sel_def force_noinc_pc_def irq_pending_def)

lemma bus_frame [simp]:
  "acr cs (q\<lparr>q_clk_phase := k\<rparr>) = acr cs q" "avr cs (q\<lparr>q_clk_phase := k\<rparr>) = avr cs q"
  "adh_out cs (q\<lparr>q_clk_phase := k\<rparr>) = adh_out cs q" "db_out cs (q\<lparr>q_clk_phase := k\<rparr>) = db_out cs q"
  "sb_out cs (q\<lparr>q_clk_phase := k\<rparr>) = sb_out cs q" "pc_next cs i (q\<lparr>q_clk_phase := k\<rparr>) = pc_next cs i q"
  by (simp_all add: acr_def avr_def adh_out_def db_out_def sb_out_def pc_next_def)

lemma decode_phase2 [simp]: "decode (phase2 cs i q q) = decode q"
  by (rule decode_stable) (simp_all add: phase2_def)

lemma clk_phase2:
  assumes "running i q" and "q_clk_phase q = 0x1C"
  shows "core_clk i q = (phase2 (decode q) i q q)\<lparr>q_clk_phase := 0x1D\<rparr>"
  using assms by (simp add: core_clk_def rdy_def running_def Let_def phase2_def)

lemma clk_phase1:
  assumes "running i q" and "q_clk_phase q = 0"
  shows "core_clk i q = (phase1 (decode q) i q (irq_clk (decode q) i q q))\<lparr>q_clk_phase := 1\<rparr>"
  using assms by (simp add: core_clk_def rdy_def running_def Let_def phase1_def irq_clk_def)

lemma clk_wrap:
  assumes "running i q" and "q_clk_phase q = 0x37"
  shows "core_clk i q = q\<lparr>q_clk_phase := 0\<rparr>"
  using assms by (simp add: core_clk_def rdy_def running_def Let_def)

lemma phase2_frame: "phase2 cs i (q\<lparr>q_clk_phase := k\<rparr>) (q\<lparr>q_clk_phase := k\<rparr>) = (phase2 cs i q q)\<lparr>q_clk_phase := k\<rparr>"
  by (simp add: phase2_def)

lemma phase1_frame: "phase1 cs i (q\<lparr>q_clk_phase := k\<rparr>) (irq_clk cs i (q\<lparr>q_clk_phase := k\<rparr>) (q\<lparr>q_clk_phase := k\<rparr>)) =
  (phase1 cs i q (irq_clk cs i q q))\<lparr>q_clk_phase := k\<rparr>"
  by (simp add: phase1_def irq_clk_def Let_def)

lemma phase2_input: "nirq_in i = nirq_in i' \<Longrightarrow> d_in i = d_in i' \<Longrightarrow> phase2 cs i q r = phase2 cs i' q r"
  by (simp add: phase2_def pc_next_def force_noinc_pc_def irq_pending_def)

lemma phase1_input: "phase1 cs (i\<lparr>d_in := d\<rparr>) q (irq_clk cs (i\<lparr>d_in := d\<rparr>) q q) = phase1 cs i q (irq_clk cs i q q)"
  by (simp add: phase1_def irq_clk_def next_ir_def next_irq_sel_def irq_pending_def Let_def)

text \<open>The data bus counts in the 28th clock only, the other inputs in the last one.\<close>

lemma cycle_of_clocks:
  assumes "length is = 56" and "\<forall>i \<in> set is. ready_in i" and "q_ready q" and "q_clk_phase q = 1"
    and "nirq_in (is ! 27) = nirq_in (is ! 55)"
  shows "clocks is q = core_cycle ((is ! 55)\<lparr>d_in := d_in (is ! 27)\<rparr>) q"
proof -
  define i2 i1 where "i2 = is ! 27" and "i1 = is ! 55"
  define m where "m = phase2 (decode q) i2 q q"
  have split: "is = take 27 is @ i2 # take 26 (drop 28 is) @ [is ! 54, i1]"
  proof (rule nth_equalityI)
    show "length is = length (take 27 is @ i2 # take 26 (drop 28 is) @ [is ! 54, i1])" using assms(1) by simp
    fix n assume "n < length is"
    then have "n < 27 \<or> n = 27 \<or> 27 < n \<and> n < 54 \<or> n = 54 \<or> n = 55" using assms(1) by arith
    then show "is ! n = (take 27 is @ i2 # take 26 (drop 28 is) @ [is ! 54, i1]) ! n"
      using assms(1) by (auto simp: nth_append nth_Cons' i2_def i1_def)
  qed
  have rdy: "ready_in (is ! n)" if "n < 56" for n using that assms(1,2) by simp
  have mem: "\<forall>i \<in> set (take 27 is). ready_in i" "\<forall>i \<in> set (take 26 (drop 28 is)). ready_in i"
    using assms(2) by (auto dest: in_set_takeD in_set_dropD)
  have 1: "clocks (take 27 is) q = q\<lparr>q_clk_phase := 0x1C\<rparr>"
    using clocks_idle[OF mem(1), of q 1] assms by simp
  have 2: "core_clk i2 (q\<lparr>q_clk_phase := 0x1C\<rparr>) = m\<lparr>q_clk_phase := 0x1D\<rparr>"
    using rdy[of 27] assms(3) by (simp add: clk_phase2 running_def i2_def phase2_frame m_def)
  have r: "q_ready m" using assms(3) by (simp add: m_def phase2_def)
  have 3: "clocks (take 26 (drop 28 is)) (m\<lparr>q_clk_phase := 0x1D\<rparr>) = m\<lparr>q_clk_phase := 0x37\<rparr>"
    using clocks_idle[OF mem(2), of "m\<lparr>q_clk_phase := 0x1D\<rparr>" "0x1D"] assms(1) r by simp
  have 4: "core_clk (is ! 54) (m\<lparr>q_clk_phase := 0x37\<rparr>) = m\<lparr>q_clk_phase := 0\<rparr>"
    using rdy[of 54] r by (simp add: clk_wrap running_def)
  have 5: "core_clk i1 (m\<lparr>q_clk_phase := 0\<rparr>) = (phase1 (decode q) i1 m (irq_clk (decode q) i1 m m))\<lparr>q_clk_phase := 1\<rparr>"
    using rdy[of 55] r by (simp add: clk_phase1 running_def i1_def phase1_frame m_def)
  have ph: "m\<lparr>q_clk_phase := 1\<rparr> = m" using assms(4) by (simp add: m_def phase2_def)
  have m': "m = phase2 (decode q) (i1\<lparr>d_in := d_in i2\<rparr>) q q"
    using assms(5) unfolding m_def by (intro phase2_input) (simp_all add: i1_def i2_def)
  have "clocks is q = (phase1 (decode q) i1 m (irq_clk (decode q) i1 m m))\<lparr>q_clk_phase := 1\<rparr>"
    by (subst split) (use 1 2 3 4 5 in \<open>simp add: clocks_def\<close>)
  also have "\<dots> = phase1 (decode q) i1 m (irq_clk (decode q) i1 m m)"
    using phase1_frame[where cs = "decode q" and i = i1 and q = m and k = 1] ph by simp
  also have "\<dots> = core_cycle (i1\<lparr>d_in := d_in i2\<rparr>) q"
    by (simp add: core_cycle_def xfer_def Let_def phase1_input flip: m')
  finally show ?thesis by (simp add: i1_def i2_def)
qed

end
