(* ===== verification/Cpu_System.thy ===== *)
theory Cpu_System
  imports Cpu_Run Cpu_Clock
begin

text \<open>
  The core on its memory, clock by clock: a block RAM that gives the data of the address it saw a clock ago and is written in
  every clock in which the core holds its write line low. Fifty-six of its clocks are one \<open>mem_cycle\<close>.
\<close>

record sys =
  scpu :: core
  cells :: mem
  s_addr :: ushort

definition sys_clk :: "sys \<Rightarrow> sys" where
  "sys_clk z = \<lparr>scpu = core_clk (calm (cells z (s_addr z))) (scpu z),
     cells = (if core_r_nw (scpu z) then cells z else (cells z)(a_out (scpu z) := q_dor (scpu z))),
     s_addr = a_out (scpu z)\<rparr>"

text \<open>What the bus shows does not change before the last clock of a cycle.\<close>

definition same_bus :: "core \<Rightarrow> core \<Rightarrow> bool" where
  "same_bus q r \<longleftrightarrow> decode r = decode q \<and> a_out r = a_out q \<and> q_dor r = q_dor q \<and> q_ready r"

lemma phase2_sels: "a_out (phase2 cs i r r) = a_out r" "q_dor (phase2 cs i r r) = q_dor r" "q_ready (phase2 cs i r r) = q_ready r"
  by (simp_all add: phase2_def a_out_def)

lemma a_out_frame: "a_out (q\<lparr>q_clk_phase := k\<rparr>) = a_out q"
  by (simp add: a_out_def)

lemma same_bus_clk:
  assumes "same_bus q r" and "q_clk_phase r \<noteq> 0"
  shows "same_bus q (core_clk (calm d) r)"
proof -
  have run: "running (calm d) r" using assms(1) by (simp add: running_def same_bus_def)
  consider "q_clk_phase r = 0x1C" | "q_clk_phase r = 0x37" | "q_clk_phase r \<noteq> 0x1C" "q_clk_phase r \<noteq> 0x37" by blast
  then show ?thesis
  proof cases
    case 1
    then show ?thesis using assms(1) by (simp add: clk_phase2[OF run] same_bus_def a_out_frame phase2_sels)
  qed (use assms in \<open>simp_all add: clk_wrap[OF run] clk_idle[OF run] same_bus_def a_out_frame\<close>)
qed

lemma phase_clk:
  assumes "q_ready r"
  shows "q_clk_phase (core_clk (calm d) r) = (if q_clk_phase r = 0x37 then 0 else q_clk_phase r + 1)"
  using assms by (simp add: core_clk_def rdy_def Let_def)

definition sys_at :: "nat \<Rightarrow> sys \<Rightarrow> sys" where
  "sys_at n z = (sys_clk ^^ n) z"

definition sys_input :: "sys \<Rightarrow> nat \<Rightarrow> core_in" where
  "sys_input z n = calm (cells (sys_at n z) (s_addr (sys_at n z)))"

lemma sys_core: "scpu (sys_at n z) = clocks (map (sys_input z) [0..<n]) (scpu z)"
  by (induction n) (simp_all add: sys_at_def sys_clk_def clocks_def sys_input_def)

lemma sys_bus:
  assumes "q_ready (scpu z)" and "q_clk_phase (scpu z) = 1" and "n < 56"
  shows "same_bus (scpu z) (scpu (sys_at n z)) \<and> q_clk_phase (scpu (sys_at n z)) = (if n = 55 then 0 else of_nat (Suc n))"
  using assms(3)
proof (induction n)
  case 0
  then show ?case using assms by (simp add: sys_at_def same_bus_def)
next
  case (Suc n)
  let ?r = "scpu (sys_at n z)"
  have b: "same_bus (scpu z) ?r" and ph: "q_clk_phase ?r = of_nat (Suc n)" using Suc by auto
  have ne: "(of_nat (Suc n) :: 6 word) = of_nat k \<longleftrightarrow> Suc n = k" if "k < 64" for k
    using that Suc.prems by (simp add: word_unat_eq_iff unat_of_nat take_bit_nat_eq_self del: of_nat_Suc)
  have "q_clk_phase ?r \<noteq> 0" "q_clk_phase ?r = 0x37 \<longleftrightarrow> Suc n = 55" using ne[of 0] ne[of "0x37"] unfolding ph by simp_all
  moreover have "scpu (sys_at (Suc n) z) = core_clk (sys_input z n) ?r" by (simp add: sys_at_def sys_clk_def sys_input_def)
  ultimately show ?case
    using same_bus_clk[OF b] phase_clk[of ?r] b ph by (auto simp: sys_input_def same_bus_def add.commute)
qed

lemma sys_mem:
  assumes "q_ready (scpu z)" and "q_clk_phase (scpu z) = 1" and "n < 56"
  shows "s_addr (sys_at (Suc n) z) = a_out (scpu z)"
    and "cells (sys_at (Suc n) z) = (if core_r_nw (scpu z) then cells z else (cells z)(a_out (scpu z) := q_dor (scpu z)))"
proof -
  have step: "sys_at (Suc n) z = sys_clk (sys_at n z)" for n by (simp add: sys_at_def)
  show "s_addr (sys_at (Suc n) z) = a_out (scpu z)"
    using sys_bus[OF assms] by (simp add: step sys_clk_def same_bus_def)
  show "cells (sys_at (Suc n) z) = (if core_r_nw (scpu z) then cells z else (cells z)(a_out (scpu z) := q_dor (scpu z)))"
    using assms(3)
  proof (induction n)
    case 0
    then show ?case by (simp add: sys_at_def sys_clk_def)
  next
    case (Suc n)
    then have b: "same_bus (scpu z) (scpu (sys_at (Suc n) z))" using sys_bus[OF assms(1,2), of "Suc n"] by simp
    then have "core_r_nw (scpu (sys_at (Suc n) z)) = core_r_nw (scpu z)" by (simp add: core_r_nw_def same_bus_def)
    then show ?case using b Suc by (simp add: step[of "Suc n"] sys_clk_def same_bus_def)
  qed
qed

lemma half1_calm: "half1 sb db ah al c v t cs (calm d) m = half1 sb db ah al c v t cs (calm d') m"
  by (simp add: half1_def cong: if_cong)

lemma write_ignores_input: "\<not> core_r_nw q \<Longrightarrow> core_cycle (calm d) q = core_cycle (calm d') q"
  by (simp add: core_cycle_def xfer_t core_r_nw_def xfer_t_def half2_calm Let_def half1_calm[where d = d and d' = d'])

lemma sys_cycle:
  assumes "q_ready (scpu z)" and "q_clk_phase (scpu z) = 1"
  shows "(scpu (sys_at 56 z), cells (sys_at 56 z)) = mem_cycle (scpu z, cells z)"
proof -
  let ?is = "map (sys_input z) [0..<56]"
  have d: "d_in (sys_input z 27) = (if core_r_nw (scpu z) then cells z (a_out (scpu z)) else q_dor (scpu z))"
    using sys_mem[OF assms, of 26] by (simp add: sys_input_def)
  have "clocks ?is (scpu z) = core_cycle ((?is ! 55)\<lparr>d_in := d_in (?is ! 27)\<rparr>) (scpu z)"
    using assms by (intro cycle_of_clocks) (auto simp: sys_input_def nth_map)
  also have "(?is ! 55)\<lparr>d_in := d_in (?is ! 27)\<rparr> = calm (d_in (sys_input z 27))" by (simp add: nth_map sys_input_def calm_def)
  also have "core_cycle \<dots> (scpu z) = core_cycle (calm (cells z (a_out (scpu z)))) (scpu z)"
    unfolding d by (auto intro: write_ignores_input)
  finally show ?thesis using sys_mem(2)[OF assms, of 55] by (simp add: sys_core mem_cycle_def)
qed

lemma cycle_keeps_clock: "q_clk_phase (core_cycle i q) = q_clk_phase q" "q_ready (core_cycle i q) = q_ready q"
  by (simp_all add: core_cycle_def xfer_t xfer_t_def half1_def half2_def Let_def)

lemma cycles_keep_clock: "q_clk_phase (fst (cycles n c)) = q_clk_phase (fst c)" "q_ready (fst (cycles n c)) = q_ready (fst c)"
  by (induction n arbitrary: c) (auto simp: mem_cycle_def cycle_keeps_clock split: prod.split)

lemma sys_cycles:
  assumes "q_ready (scpu z)" and "q_clk_phase (scpu z) = 1"
  shows "(scpu (sys_at (56 * n) z), cells (sys_at (56 * n) z)) = cycles n (scpu z, cells z)"
  using assms
proof (induction n arbitrary: z)
  case (Suc n)
  have k: "scpu (sys_at 56 z) = fst (mem_cycle (scpu z, cells z))" using sys_cycle[OF Suc.prems] by (metis fst_conv)
  then have "q_ready (scpu (sys_at 56 z))" "q_clk_phase (scpu (sys_at 56 z)) = 1"
    using Suc.prems by (simp_all add: mem_cycle_def cycle_keeps_clock)
  then have "(scpu (sys_at (56 * n) (sys_at 56 z)), cells (sys_at (56 * n) (sys_at 56 z))) =
      cycles n (mem_cycle (scpu z, cells z))"
    using Suc.IH[of "sys_at 56 z"] sys_cycle[OF Suc.prems] by simp
  moreover have "sys_at (56 * Suc n) z = sys_at (56 * n) (sys_at 56 z)"
    by (simp add: sys_at_def add.commute[of 56] funpow_add)
  ultimately show ?case by simp
qed (simp add: sys_at_def)

end
