(* ===== verification/Cpu_Debug.thy ===== *)
theory Cpu_Debug
  imports Cpu_System Console
begin

text \<open>
  The core and the debugger: while it waits its registers are those the HCI's register port writes (theory Console), a
  program counter written there is where it goes on, and HLT asks for the break.
\<close>

section \<open>The register port\<close>

text \<open>
  In the first clock of a cycle the interrupt logic is clocked whether the core is ready or not. A core that is held there
  has, from the second clock of the hold on, the interrupt it would select next; anywhere else it keeps the one it has.
  Theory Console means this value by \<open>irq_brk\<close>. The interrupt request line is tied high (\<^verbatim>\<open>cpu/rp2a03.v\<close>).
\<close>

definition held_irq :: "core \<Rightarrow> irq_type" where
  "held_irq q = (if q_clk_phase q = 0 then next_irq_sel (calm 0) (next_t (acr (decode q) q) q) q else q_irq_sel q)"

definition debug_view :: "byte \<Rightarrow> core \<Rightarrow> cpu_regs" where
  "debug_view xx q = \<lparr>cpu_regs.q_pcl = core.q_pcl q, q_pch = core.q_pch q, q_ac = core.q_ac q, q_x = core.q_x q, q_y = core.q_y q,
     q_s = core.q_s q, q_n = core.q_n q, q_v = core.q_v q, q_d = core.q_d q, q_i = core.q_i q, q_z = core.q_z q, q_c = core.q_c q,
     irq_brk = (held_irq q = INTERRUPT_BRK), q_pchs = core.q_pchs q, q_pcls = core.q_pcls q, q_abh = core.q_abh q,
     q_abl = core.q_abl q, q_t_is_T0 = (q_t q = T0), clk_phase = q_clk_phase q, dbg_xx = xx\<rparr>"

text \<open>Whether the cycle is the last of an instruction depends on neither the flags nor the carry.\<close>

lemma if_T1: "(if b then x else y) = T1 \<longleftrightarrow> (b \<and> x = T1) \<or> (\<not> b \<and> y = T1)"
  by simp

lemma next_T1:
  assumes "q_t r = q_t q" and "q_ir r = q_ir q"
  shows "next_t c r = T1 \<longleftrightarrow> next_t d q = T1"
  unfolding next_t_def Let_def assms by (cases "q_t q") (simp_all only: tstate.case tstate.distinct if_T1 simp_thms)

text \<open>The cycle that clears a request is not the last of its instruction's cycles before T1.\<close>

definition clears :: "ctl list \<Rightarrow> bool" where
  "clears cs \<longleftrightarrow> Out clear_rst \<in> set cs \<or> Out clear_nmi \<in> set cs"

lemma clears_if [simp]: "clears (if b then xs else ys) \<longleftrightarrow> (b \<and> clears xs) \<or> (\<not> b \<and> clears ys)"
  by simp

lemma clears_irq:
  "clears (case s of INTERRUPT_RST \<Rightarrow> c1 | INTERRUPT_NMI \<Rightarrow> c2 | INTERRUPT_IRQ \<Rightarrow> c3 | INTERRUPT_BRK \<Rightarrow> c4) \<longleftrightarrow>
    (s = INTERRUPT_RST \<and> clears c1) \<or> (s = INTERRUPT_NMI \<and> clears c2) \<or> (s = INTERRUPT_IRQ \<and> clears c3) \<or>
    (s = INTERRUPT_BRK \<and> clears c4)"
  by (cases s) simp_all

lemma clears_simps [simp]: "\<not> clears []" "clears (xs @ ys) \<longleftrightarrow> clears xs \<or> clears ys" "clears (Pc p # cs) = clears cs"
  "clears (Op op # cs) = clears cs" "clears (Dor dor # cs) = clears cs" "clears (Ab ab # cs) = clears cs"
  "clears (Ai ai # cs) = clears cs" "clears (Bi bi # cs) = clears cs" "clears (Stk stk # cs) = clears cs"
  "clears (Psr ps # cs) = clears cs" "clears (Out r_nw_0 # cs) = clears cs"
  by (auto simp: clears_def)

lemma clears_dec: "\<not> clears (dec_T1 q)" "\<not> clears (dec_T2 q)" "\<not> clears (dec_T3 q)" "\<not> clears (dec_T4 q)" "\<not> clears (dec_T5 q)"
  unfolding dec_T1_def dec_T2_def dec_T3_def dec_T4_def dec_T5_def Let_def
  by (simp_all only: clears_if clears_irq clears_simps simp_thms)

lemma clears_dec_T6: "clears (dec_T6 q) \<Longrightarrow> q_ir q = BRK"
  unfolding dec_T6_def Let_def by (simp only: clears_if clears_simps simp_thms)

lemma clears_T6:
  assumes "clears (decode q)"
  shows "next_t c q \<noteq> T1"
proof -
  have "q_t q = T6 \<and> q_ir q = BRK"
    using assms clears_dec[of q] clears_dec_T6[of q] by (cases "q_t q") (simp_all add: decode_def)
  then show ?thesis by (simp add: next_t_def)
qed

definition no_edge :: "core_in \<Rightarrow> core \<Rightarrow> bool" where
  "no_edge i q \<longleftrightarrow> nirq_in i \<and> (nnmi_in i \<or> \<not> q_nnmi q) \<and> (nres_in i \<or> \<not> q_nres q)"

lemma held_irq_clk:
  assumes "\<not> rdy i q" and "q_clk_phase q = 0" and "no_edge i q"
  shows "q_irq_sel (core_clk i q) = held_irq q" and "held_irq (core_clk i q) = held_irq q"
proof -
  let ?r = "core_clk i q"
  let ?t = "next_t (acr (decode q) q) q"
  have sel: "next_irq_sel i ?t q = held_irq q"
    using assms(2,3) by (simp add: held_irq_def next_irq_sel_def irq_pending_def no_edge_def)
  then show irq: "q_irq_sel ?r = held_irq q"
    using assms(1,2) by (simp add: core_clk_def Let_def irq_clk_def dbg_regs_def)
  show "held_irq ?r = held_irq q"
  proof (cases "q_clk_phase ?r = 0 \<and> next_t (acr (decode ?r) ?r) ?r = T1")
    case True
    then have w: "\<not> (dbgreg_wr_in i \<and> (dbgreg_sel_in i = 1 \<or> dbgreg_sel_in i = 0))"
      using assms(1) by (auto simp: core_clk_def Let_def)
    then have "q_t ?r = q_t q" "q_ir ?r = q_ir q"
      using assms(1,2) by (auto simp: core_clk_def Let_def irq_clk_def dbg_regs_def)
    then have t: "?t = T1" using True next_T1 by blast
    then have "Out clear_rst \<notin> set (decode q)" "Out clear_nmi \<notin> set (decode q)" using clears_T6 by (auto simp: clears_def)
    then have "q_rst ?r = q_rst q" "q_nmi ?r = q_nmi q"
      using assms by (auto simp: core_clk_def Let_def irq_clk_def dbg_regs_def no_edge_def)
    then show ?thesis using True t assms(2) by (simp add: held_irq_def next_irq_sel_def irq_pending_def)
  qed (auto simp: held_irq_def[of ?r] next_irq_sel_def irq)
qed

lemma debug_port:
  assumes "\<not> rdy i q" and "q_clk_phase q = 0 \<longrightarrow> no_edge i q"
  shows "debug_view xx (core_clk i q) =
    (if dbgreg_wr_in i then dbgreg_write (dbgreg_sel_in i) (dbgreg_in i) (debug_view xx q) else debug_view xx q)"
    (is ?port)
  and "p_reg (core_clk i q) = cpu_p (debug_view xx (core_clk i q))" (is ?p)
proof -
  let ?r = "core_clk i q"
  have h: "held_irq ?r = held_irq q \<and> q_irq_sel ?r = held_irq q"
  proof (cases "q_clk_phase q = 0")
    case True
    then show ?thesis using held_irq_clk[OF assms(1)] assms(2) by simp
  next
    case False
    moreover from this have "q_clk_phase ?r \<noteq> 0" "q_irq_sel ?r = q_irq_sel q"
      using assms(1) by (simp_all add: core_clk_def Let_def dbg_regs_def)
    ultimately show ?thesis by (simp add: held_irq_def)
  qed
  show ?port using assms(1) h
    by (simp add: debug_view_def) (simp add: core_clk_def Let_def irq_clk_def dbgreg_write_def dbg_regs_def)
  show ?p using h by (simp add: p_reg_def pack_p_def cpu_p_def debug_view_def bit_of_def of_bool_def)
qed

section \<open>Going on at a program counter\<close>

text \<open>The registers a program sees, in a core about to fetch.\<close>

definition fetching :: "core \<Rightarrow> mem \<Rightarrow> isa" where
  "fetching q m = \<lparr>r_a = core.q_ac q, r_x = core.q_x q, r_y = core.q_y q, r_s = core.q_s q,
     r_pc = le16 (core.q_pcls q) (core.q_pchs q), f_n = core.q_n q, f_v = core.q_v q, f_d = core.q_d q, f_i = core.q_i q,
     f_z = core.q_z q, f_c = core.q_c q, isa.ram = m\<rparr>"

lemma fetch_cycle:
  assumes "q_t q = T0" and "a_out q = le16 (core.q_pcls q) (core.q_pchs q)"
  shows "at_boundary (fetching q m) (mem_cycle (q, m)) \<and>
    q_rst (fst (mem_cycle (q, m))) = q_rst q \<and> q_nmi (fst (mem_cycle (q, m))) = q_nmi q"
  using assms
  by (cases q) (simp add: fetching_def at_boundary_def boundary_def start_def mem_cycle_eq decode_T words going_def next_T
    at_T1_def a_out_def Let_def)

text \<open>A clock in which the debugger holds the core and writes one of its registers.\<close>

definition debug_in :: "4 word \<Rightarrow> byte \<Rightarrow> core_in" where
  "debug_in sel v = \<lparr>ready_in = False, nnmi_in = True, nres_in = True, nirq_in = True, d_in = 0,
     dbgreg_sel_in = sel, dbgreg_in = v, dbgreg_wr_in = True\<rparr>"

definition set_pc :: "ushort \<Rightarrow> core \<Rightarrow> core" where
  "set_pc v q = core_clk (debug_in 1 (hi8 v)) (core_clk (debug_in 0 (lo8 v)) q)"

lemma hold_clk:
  "core_clk (debug_in sel v) q = (let r = (if q_clk_phase q = 0 then irq_clk (decode q) (debug_in sel v) q q else q) in
    (dbg_regs sel v r)\<lparr>q_ready := False, q_clk_phase := (if sel = 1 \<or> sel = 0 then 1 else q_clk_phase q)\<rparr>)"
  by (simp add: core_clk_def Let_def rdy_def debug_in_def)

lemma set_pc_quiet: "\<not> pending q \<Longrightarrow> \<not> pending (set_pc v q)"
proof -
  have "\<not> pending (core_clk (debug_in sel b) r)" if "\<not> pending r" for sel b r
    using that by (simp add: hold_clk Let_def pending_def dbg_regs_def irq_clk_def) (simp add: debug_in_def)
  then show "\<not> pending q \<Longrightarrow> \<not> pending (set_pc v q)" by (simp add: set_pc_def)
qed

lemma set_pc_eq:
  obtains sel rst nres nmi nnmi where
    "set_pc v q = q\<lparr>core.q_pcl := lo8 v, core.q_pch := hi8 v, core.q_pcls := lo8 v, core.q_pchs := hi8 v, core.q_abl := lo8 v,
      core.q_abh := hi8 v, q_t := T0, q_ready := False, q_clk_phase := 1, q_irq_sel := sel, q_rst := rst, q_nres := nres,
      q_nmi := nmi, q_nnmi := nnmi\<rparr>"
proof
  let ?r = "if q_clk_phase q = 0 then irq_clk (decode q) (debug_in 0 (lo8 v)) q q else q"
  have "q_clk_phase (core_clk (debug_in 0 (lo8 v)) q) = 1" by (simp add: hold_clk Let_def)
  then show "set_pc v q = q\<lparr>core.q_pcl := lo8 v, core.q_pch := hi8 v, core.q_pcls := lo8 v, core.q_pchs := hi8 v, core.q_abl := lo8 v,
      core.q_abh := hi8 v, q_t := T0, q_ready := False, q_clk_phase := 1, q_irq_sel := q_irq_sel ?r, q_rst := q_rst ?r,
      q_nres := q_nres ?r, q_nmi := q_nmi ?r, q_nnmi := q_nnmi ?r\<rparr>"
    unfolding set_pc_def by (subst hold_clk) (simp add: hold_clk dbg_regs_def irq_clk_def Let_def)
qed

lemma wake_clk:
  assumes "\<not> q_ready q" and "q_clk_phase q \<noteq> 0"
  shows "core_clk (calm d) q = q\<lparr>q_ready := True\<rparr>"
  using assms by (simp add: core_clk_def Let_def rdy_def calm_def)

text \<open>What is latched when the core is let go is served first, the reset before the NMI.\<close>

definition serve :: "core \<Rightarrow> isa \<Rightarrow> isa" where
  "serve q s = (let s1 = (if q_rst q then enter False (r_pc s) 0xFFFC s else s) in
     if q_nmi q then enter False (r_pc s1) 0xFFFA s1 else s1)"

definition serve_time :: "core \<Rightarrow> nat" where
  "serve_time q = (if q_rst q then 7 else 0) + (if q_nmi q then 7 else 0)"

lemma serve_cycles:
  assumes "at_boundary s c"
  shows "at_boundary (serve (fst c) s) (cycles (serve_time (fst c)) c) \<and> \<not> pending (fst (cycles (serve_time (fst c)) c))"
proof -
  define k :: nat where "k = 7"
  note int = boundary_interrupt[folded k_def]
  have "at_boundary (enter False (r_pc s1) 0xFFFA s1) (cycles k c1) \<and> \<not> pending (fst (cycles k c1))"
    if "at_boundary s1 c1" "\<not> q_rst (fst c1)" "q_nmi (fst c1)" for s1 c1
    using int[OF that(1)] that(2,3) by (simp add: pending_def)
  then show ?thesis
    using int[OF assms] assms by (cases "q_rst (fst c)"; cases "q_nmi (fst c)")
      (simp_all add: serve_def serve_time_def[folded k_def] pending_def cycles_add Let_def)
qed

lemma let_go:
  assumes y: "y = sys_at (57 + 56 * serve_time (set_pc v q)) \<lparr>scpu = set_pc v q, cells = m, s_addr = a\<rparr>"
  shows "at_boundary (serve (set_pc v q) ((fetching q m)\<lparr>r_pc := v\<rparr>)) (scpu y, cells y)" and "\<not> pending (scpu y)"
    and "q_ready (scpu y)" and "q_clk_phase (scpu y) = 1"
proof -
  let ?q = "(set_pc v q)\<lparr>q_ready := True\<rparr>" and ?k = "serve_time (set_pc v q)"
  obtain sel rst nres nmi nnmi where e: "set_pc v q = q\<lparr>core.q_pcl := lo8 v, core.q_pch := hi8 v, core.q_pcls := lo8 v,
      core.q_pchs := hi8 v, core.q_abl := lo8 v, core.q_abh := hi8 v, q_t := T0, q_ready := False, q_clk_phase := 1,
      q_irq_sel := sel, q_rst := rst, q_nres := nres, q_nmi := nmi, q_nnmi := nnmi\<rparr>"
    by (rule set_pc_eq)
  have r: "core_r_nw (set_pc v q)" by (simp add: core_r_nw_def decode_T e r_nw_def)
  define x where "x = sys_clk \<lparr>scpu = set_pc v q, cells = m, s_addr = a\<rparr>"
  have x: "scpu x = ?q" "cells x = m" using r unfolding x_def sys_clk_def by (simp_all add: wake_clk e)
  have c: "q_ready (scpu x)" "q_clk_phase (scpu x) = 1" by (simp_all add: x e)
  have "57 + 56 * ?k = 56 * Suc ?k + 1" by simp
  then have "y = sys_at (56 * Suc ?k) x" unfolding y x_def sys_at_def by (simp only: funpow_add o_apply funpow_simps_right(2)[of 0, folded One_nat_def] funpow_0 id_apply)
  then have y2: "(scpu y, cells y) = cycles ?k (mem_cycle (?q, m))" using sys_cycles[OF c, of "Suc ?k"] by (simp add: x)
  have f: "fetching ?q m = (fetching q m)\<lparr>r_pc := v\<rparr>" by (simp add: fetching_def e)
  have t: "q_t ?q = T0" "a_out ?q = le16 (core.q_pcls ?q) (core.q_pchs ?q)" by (simp_all add: e a_out_def)
  note b = fetch_cycle[OF t, of m]
  have s: "serve (fst (mem_cycle (?q, m))) = serve (set_pc v q)" "serve_time (fst (mem_cycle (?q, m))) = ?k"
    using b by (simp_all add: serve_def serve_time_def fun_eq_iff)
  note k = serve_cycles[OF conjunct1[OF b], unfolded f s, folded y2]
  from k show "at_boundary (serve (set_pc v q) ((fetching q m)\<lparr>r_pc := v\<rparr>)) (scpu y, cells y)" "\<not> pending (scpu y)" by simp_all
  have "scpu y = fst (cycles ?k (mem_cycle (?q, m)))" using y2 by (metis fst_conv)
  then show "q_ready (scpu y)" "q_clk_phase (scpu y) = 1"
    using c by (simp_all add: cycles_keep_clock mem_cycle_def cycle_keeps_clock x)
qed

section \<open>HLT\<close>

lemma brk_boundary:
  assumes "at_boundary s (q, m)" and "\<not> pending q" and "q_ready q" and "q_clk_phase q = 1"
  shows "brk_out (calm d) q \<longleftrightarrow> isa.ram s (r_pc s) = HLT"
proof -
  have q: "q = start s q" using assms by (simp add: at_boundary_def boundary_start)
  have "q_t q = T1" "q_ir q = isa.ram s (r_pc s)" by (subst q, simp add: start_def)+
  then show ?thesis using assms(3,4) by (simp add: brk_out_def rdy_def)
qed

end
