(* ===== verification/Cpu_Props.thy ===== *)
theory Cpu_Props
  imports Cpu_Debug
begin

text \<open>
  What holds of the CPU: instructions, programs and interrupts against the instruction set of theory Isa, the cycles and
  clocks they take, and the debugger's hold on it.
\<close>

section \<open>A program\<close>

text \<open>LDA \#\$42, STA \$0210, HLT at \$8000, in a memory that holds NOP elsewhere.\<close>

definition demo :: isa where
  "demo = \<lparr>r_a = 0, r_x = 0, r_y = 0, r_s = 0xFF, r_pc = 0x8000, f_n = False, f_v = False, f_d = False, f_i = False,
     f_z = False, f_c = False, isa.ram = (\<lambda>_. NOP)(0x8000 := LDA_IMM, 0x8001 := 0x42, 0x8002 := STA_ABS, 0x8003 := 0x10,
       0x8004 := 0x02, 0x8005 := HLT)\<rparr>"

definition demo_core :: core where
  "demo_core = start demo (core_reset\<lparr>q_ready := True\<rparr>)"

lemma demo_sels [simp]: "q_ready demo_core" "q_clk_phase demo_core = 1" "\<not> pending demo_core"
  by (simp_all add: demo_core_def start_def core_reset_def pending_def)

lemma start_start: "start s (start s j) = start s j"
  by (simp add: start_def)

lemma demo_boundary [simp]: "at_boundary demo (demo_core, isa.ram demo)"
  using boundary_start[OF demo_sels(3), of demo] by (simp add: at_boundary_def demo_core_def start_start)

lemma demo_bytes [simp]: "isa.ram demo 0x8000 = LDA_IMM" "isa.ram demo 0x8001 = 0x42" "isa.ram demo 0x8002 = STA_ABS"
  "isa.ram demo 0x8003 = 0x10" "isa.ram demo 0x8004 = 0x02" "isa.ram demo 0x8005 = HLT" "r_pc demo = 0x8000"
  by (simp_all add: demo_def)

lemma demo_decode [simp]: "isa_decode LDA_IMM = Some (Lda, Imm)" "isa_decode STA_ABS = Some (Sta, Abs)"
  "isa_decode HLT = Some (Hlt, Imp)" "isa_decode LDX_ABSY = Some (Ldx, AbsY)"
  by (simp_all add: isa_decode_def isa_table_def)

definition demo1 :: isa where
  "demo1 = demo\<lparr>r_a := 0x42, f_n := False, f_z := False, r_pc := 0x8002\<rparr>"

definition demo2 :: isa where
  "demo2 = demo1\<lparr>isa.ram := (isa.ram demo)(0x210 := 0x42), r_pc := 0x8005\<rparr>"

lemma demo_runs: "core_step demo = demo1" "step_time demo = 2" "core_step demo1 = demo2" "step_time demo1 = 4"
  by (simp_all add: core_step_def step_time_def core_time_def isa_time_def execute_def jumps_def set_nz_def store_def byte1_def
    byte2_def le16_def demo1_def demo2_def)

lemma demo_two: "(core_step ^^ 2) demo = demo2" "run_time core_step step_time 2 demo = 6"
  by (simp_all add: demo_runs numeral_2_eq_2)

section \<open>Properties\<close>

interpretation clk: timed_machine sys_at
  "\<lambda>s z. at_boundary s (scpu z, cells z) \<and> \<not> pending (scpu z) \<and> q_ready (scpu z) \<and> q_clk_phase (scpu z) = 1" core_step
  "\<lambda>s. 56 * step_time s"
proof unfold_locales
  show "sys_at 0 z = z" for z by (simp add: sys_at_def)
  show "sys_at (a + b) z = sys_at b (sys_at a z)" for a b z unfolding sys_at_def add.commute[of a b] by (simp add: funpow_add)
  fix s and z :: sys
  assume a: "at_boundary s (scpu z, cells z) \<and> \<not> pending (scpu z) \<and> q_ready (scpu z) \<and> q_clk_phase (scpu z) = 1"
  let ?z = "sys_at (56 * step_time s) z"
  have e: "(scpu ?z, cells ?z) = cycles (step_time s) (scpu z, cells z)" using sys_cycles[of z "step_time s"] a by simp
  from cycles_keep_clock[of "step_time s" "(scpu z, cells z)"] boundary_step[of s "(scpu z, cells z)"] a
  show "at_boundary (core_step s) (scpu ?z, cells ?z) \<and> \<not> pending (scpu ?z) \<and> q_ready (scpu ?z) \<and> q_clk_phase (scpu ?z) = 1"
    unfolding e[symmetric] by simp
qed

text \<open>
  C10: Programs. A CPU with its memory, clocked at 100 MHz from an instruction boundary, is after the clocks of n instructions
  at a boundary again, with the registers, flags and memory that n steps of the instruction set give, whatever the program:
  all 151 documented opcodes, SAX and HLT as documented, every other opcode without effect.
\<close>

theorem cpu_runs_programs:
  assumes "at_boundary s (scpu z, cells z)" and "\<not> pending (scpu z)" and "q_ready (scpu z)" and "q_clk_phase (scpu z) = 1"
  shows "let y = sys_at (56 * run_time core_step step_time n s) z in at_boundary ((core_step ^^ n) s) (scpu y, cells y)"
  using clk.runs[of s z n] assms by (simp add: run_time_scale Let_def)

theorem cpu_runs_programs_witness:
  "at_boundary demo2 (scpu (sys_at 336 \<lparr>scpu = demo_core, cells = isa.ram demo, s_addr = 0\<rparr>),
      cells (sys_at 336 \<lparr>scpu = demo_core, cells = isa.ram demo, s_addr = 0\<rparr>))"
  using cpu_runs_programs[of demo "\<lparr>scpu = demo_core, cells = isa.ram demo, s_addr = 0\<rparr>" 2]
  by (simp add: demo_two Let_def)

text \<open>
  C11: An instruction of every addressing mode does to registers, flags and memory what the instruction set says, and takes the
  documented number of cycles, page crossings and taken branches included; only LDX absolute,Y and LDY absolute,X always take
  the five cycles of a page crossing.
\<close>

theorem cpu_executes_instruction:
  assumes "at_boundary s c" and "\<not> pending (fst c)" and "isa_decode (isa.ram s (r_pc s)) = Some (mn, md)"
  shows "at_boundary (execute mn md s) (cycles (if (mn, md) \<in> {(Ldx, AbsY), (Ldy, AbsX)} then 5 else isa_time mn md s) c)"
  using boundary_instruction[OF assms] by (auto simp: core_time_def split: if_split_asm)

theorem cpu_executes_instruction_witness:
  "at_boundary demo1 (cycles 2 (demo_core, isa.ram demo))"
  using cpu_executes_instruction[of demo "(demo_core, isa.ram demo)" Lda Imm]
  by (simp add: isa_time_def execute_def jumps_def set_nz_def demo1_def)

text \<open>
  C12: A latched reset or NMI is served at the next instruction boundary: within seven cycles the program counter and the status
  with a clear break bit are on the stack, interrupts are disabled, the program counter comes from the vector, and the
  request is cleared; a reset goes before an NMI, which stays latched.
\<close>

theorem cpu_takes_interrupts:
  assumes "at_boundary s c" and "pending (fst c)"
  shows "at_boundary (enter False (r_pc s) (if q_rst (fst c) then 0xFFFC else 0xFFFA) s) (cycles 7 c) \<and>
    \<not> q_rst (fst (cycles 7 c)) \<and> (q_nmi (fst (cycles 7 c)) \<longleftrightarrow> q_rst (fst c) \<and> q_nmi (fst c))"
  using assms by (rule boundary_interrupt)

theorem cpu_takes_interrupts_witness:
  "at_boundary (enter False 0x8000 0xFFFA demo) (cycles 7 (boundary demo (core_reset\<lparr>q_nmi := True\<rparr>), isa.ram demo))"
proof -
  let ?c = "(boundary demo (core_reset\<lparr>q_nmi := True\<rparr>), isa.ram demo)"
  have f: "\<not> q_rst (fst ?c)" "q_nmi (fst ?c)" by (simp_all add: boundary_def start_def core_reset_def Let_def)
  have "boundary demo (fst ?c) = fst ?c" by (simp add: boundary_def start_def core_reset_def Let_def)
  then have b: "at_boundary demo ?c" by (simp add: at_boundary_def)
  show ?thesis using cpu_takes_interrupts[OF b] f by (simp add: pending_def)
qed

text \<open>
  C15: The core never stops: whatever it has fetched, an opcode without meaning included, and whatever is latched, two to seven
  cycles later it is at an instruction boundary again.
\<close>

theorem cpu_reaches_boundary:
  assumes "at_boundary s c"
  shows "\<exists>n s'. 2 \<le> n \<and> n \<le> 7 \<and> at_boundary s' (cycles n c)"
  using boundary_within[OF assms] by blast

theorem cpu_reaches_boundary_witness: "\<exists>n s'. 2 \<le> n \<and> n \<le> 7 \<and> at_boundary s' (cycles n (demo_core, isa.ram demo))"
  using cpu_reaches_boundary[of demo "(demo_core, isa.ram demo)"] by simp

text \<open>
  C14: A CPU cycle takes 56 clocks of an undisturbed core, and of its inputs only the data bus in the 28th and the interrupt and
  reset lines in the last clock count, if the interrupt request is the same in both.
\<close>

theorem cpu_cycle_is_56_clocks:
  assumes "length is = 56" and "\<forall>i \<in> set is. ready_in i" and "q_ready q" and "q_clk_phase q = 1"
    and "nirq_in (is ! 27) = nirq_in (is ! 55)"
  shows "clocks is q = core_cycle ((is ! 55)\<lparr>d_in := d_in (is ! 27)\<rparr>) q"
  using assms by (rule cycle_of_clocks)

theorem cpu_cycle_is_56_clocks_witness:
  "clocks (replicate 27 (calm 1) @ calm 2 # replicate 28 (calm 3)) demo_core = core_cycle (calm 2) demo_core"
proof -
  have "(calm 3)\<lparr>d_in := 2\<rparr> = calm 2" by (simp add: calm_def)
  then show ?thesis
    using cpu_cycle_is_56_clocks[of "replicate 27 (calm 1) @ calm 2 # replicate 28 (calm 3)" demo_core]
    by (simp add: nth_append nth_Cons' set_replicate_conv_if)
qed

text \<open>
  C40: LDX absolute,Y and LDY absolute,X without a page crossing are documented to take four cycles; after four cycles this core
  is still to fetch the next opcode.
\<close>

theorem cpu_index_load_late:
  assumes "at_boundary s c" and "\<not> pending (fst c)" and "isa_decode (isa.ram s (r_pc s)) = Some (mn, md)"
    and "(mn, md) \<in> {(Ldx, AbsY), (Ldy, AbsX)}" and "page_cross md s = 0"
  shows "isa_time mn md s = 4 \<and> q_t (fst (cycles 4 c)) = T0 \<and> at_boundary (execute mn md s) (cycles 5 c)"
  using index_load_late[OF assms(1-4)] boundary_instruction[OF assms(1-3)] assms(4,5)
  by (auto simp: isa_time_def core_time_def)

theorem cpu_index_load_late_witness:
  "q_t (fst (cycles 4 (start (demo\<lparr>isa.ram := \<lambda>_. LDX_ABSY\<rparr>) demo_core, \<lambda>_. LDX_ABSY))) = T0"
proof -
  let ?s = "demo\<lparr>isa.ram := \<lambda>_. LDX_ABSY\<rparr>"
  have p: "\<not> pending (start ?s demo_core)" using demo_sels(3) by (simp add: pending_def start_def)
  have b: "at_boundary ?s (start ?s demo_core, \<lambda>_. LDX_ABSY)" using boundary_start[OF p, of ?s] by (simp add: at_boundary_def start_start)
  have "page_cross AbsY ?s = 0" by (simp add: page_cross_def demo_def)
  then show ?thesis using cpu_index_load_late[OF b, of Ldx AbsY] p by simp
qed

text \<open>
  C39: While the core waits, a clock writes exactly the registers the console model of theory Console says, if the debugger's
  register port is written in it, and changes nothing else of them; and the status register the port reads after the clock is
  that of the model. The model's break bit is that of the interrupt a held core selects: a core held in the first clock of a cycle
  still selects one, in the first clock of the hold, and keeps it. For a clock in which the core is held there it is assumed
  that neither reset nor NMI goes low (it would be the interrupt selected) and that the interrupt request line is high,
  as rp2a03.v ties it; a core held in any other clock needs neither.
\<close>

theorem cpu_debug_port:
  assumes "\<not> rdy i q" and "q_clk_phase q = 0 \<longrightarrow> no_edge i q"
  shows "debug_view xx (core_clk i q) =
    (if dbgreg_wr_in i then dbgreg_write (dbgreg_sel_in i) (dbgreg_in i) (debug_view xx q) else debug_view xx q) \<and>
    p_reg (core_clk i q) = cpu_p (debug_view xx (core_clk i q))"
  using debug_port[OF assms] by simp

text \<open>The witness holds the core in the first clock of the cycle in which it selects BRK.\<close>

theorem cpu_debug_port_witness:
  "let q = demo_core\<lparr>q_clk_phase := 0, q_t := T0, q_irq_sel := INTERRUPT_NMI\<rparr> in
    debug_view 0 (core_clk (debug_in 2 7) q) = dbgreg_write 2 7 (debug_view 0 q) \<and> irq_brk (debug_view 0 q)"
proof -
  let ?q = "demo_core\<lparr>q_clk_phase := 0, q_t := T0, q_irq_sel := INTERRUPT_NMI\<rparr>"
  have "\<not> q_rst demo_core" "\<not> q_nmi demo_core" using demo_sels(3) by (simp_all add: pending_def)
  then have "irq_brk (debug_view 0 ?q)"
    by (simp add: debug_view_def held_irq_def next_irq_sel_def next_t_def irq_pending_def)
  then show ?thesis using cpu_debug_port[of "debug_in 2 7" ?q 0] by (simp add: debug_in_def rdy_def no_edge_def Let_def)
qed

text \<open>
  C13: A program under the debugger: wherever the core was stopped, once both bytes of a program counter have been written and
  it is let go, it runs the program there, with the registers and memory it had, and the break for the debugger is
  requested at an instruction exactly when that instruction is HLT. A reset or NMI that is latched when it is let go is
  served first, with that program counter as the address to return to; no further one arrives.
\<close>

theorem cpu_debug_run:
  assumes "w = set_pc v q" and "s = serve w ((fetching q m)\<lparr>r_pc := v\<rparr>)"
    and "z = sys_at (57 + 56 * (serve_time w + run_time core_step step_time n s)) \<lparr>scpu = w, cells = m, s_addr = a\<rparr>"
  shows "at_boundary ((core_step ^^ n) s) (scpu z, cells z) \<and>
    (brk_out (calm d) (scpu z) \<longleftrightarrow> isa.ram ((core_step ^^ n) s) (r_pc ((core_step ^^ n) s)) = HLT)"
proof -
  note y = let_go[OF refl, where v = v and q = q and m = m and a = a, folded assms(1)]
  have "z = sys_at (56 * run_time core_step step_time n s) (sys_at (57 + 56 * serve_time w) \<lparr>scpu = w, cells = m, s_addr = a\<rparr>)"
    unfolding assms(3) clk.advance_add[symmetric] by (simp add: distrib_left add.assoc)
  then have c: "at_boundary ((core_step ^^ n) s) (scpu z, cells z)" "\<not> pending (scpu z)" "q_ready (scpu z)" "q_clk_phase (scpu z) = 1"
    using clk.runs[of s _ n] y unfolding assms(2) by (simp_all add: run_time_scale)
  then show ?thesis using brk_boundary[OF c] by simp
qed

text \<open>The witness stops the core in the first clock of a cycle.\<close>

theorem cpu_debug_run_witness:
  "brk_out (calm 0) (scpu (sys_at 393 \<lparr>scpu = set_pc 0x8000 (demo_core\<lparr>q_clk_phase := 0\<rparr>), cells = isa.ram demo, s_addr = 0\<rparr>))"
proof -
  let ?q = "demo_core\<lparr>q_clk_phase := 0\<rparr>"
  have f: "fetching ?q (isa.ram demo)\<lparr>r_pc := 0x8000\<rparr> = demo"
    by (simp add: fetching_def demo_core_def start_def demo_def core_reset_def)
  have "\<not> pending (set_pc 0x8000 ?q)" using demo_sels(3) by (intro set_pc_quiet) (simp add: pending_def)
  then have s: "serve (set_pc 0x8000 ?q) demo = demo" "serve_time (set_pc 0x8000 ?q) = 0"
    by (simp_all add: serve_def serve_time_def pending_def)
  then show ?thesis using cpu_debug_run[where w = "set_pc 0x8000 ?q" and q = ?q and s = demo and m = "isa.ram demo" and v = "0x8000"
    and n = 2 and z = "sys_at 393 \<lparr>scpu = set_pc 0x8000 ?q, cells = isa.ram demo, s_addr = 0\<rparr>" and a = 0 and d = 0]
    by (simp add: demo_two demo2_def f s)
qed

end
