(* ===== verification/Spec2Isabelle.thy ===== *)
theory Spec2Isabelle
  imports Lua_Props App_Props Text_Props Wire_Rig Cpu_Props
begin

text \<open>
  The FPGA NES debugger: a Windows program (\<^verbatim>\<open>src/sw/src\<close>, C++) that drives an FPGA
  implementation of the NES (\<^verbatim>\<open>src/hw/src\<close>, Verilog) over a serial line. The program builds debug
  packets, sends them to the host communication interface (HCI) on the FPGA and reads the replies;
  on top of that it loads ROM images, runs Lua test scripts and offers a raw packet dialog. The
  development models the whole C++ program, and of the hardware the HCI with the buses, memories
  and debug registers it reaches, so that the two ends of the protocol meet in one specification, and
  the 6502 core that runs the programs it loads.

  The parts and their theories, in the order of the import graph:

  \<^item> Prelude: Win32 integer types at their width (\<open>byte\<close>, \<open>ushort\<close>, \<open>uint\<close> are words, arithmetic
    wraps), heap buffers whose cells are \<open>None\<close> until written, the faults that stand for undefined
    behaviour of C++ (\<open>OobRead\<close>, \<open>OobWrite\<close>, \<open>UninitRead\<close> and the others), and the combinators the
    C++ functions are written in. \<open>ebind\<close> is sequencing of code that may fault, \<open>bnd\<close>, \<open>seq\<close> and
    \<open>call\<close> of code that also changes the world: a function of the program is a
    \<open>'w \<Rightarrow> fault + 'a \<times> 'w\<close> over an arbitrary type of worlds.
  \<^item> Packet (\<^verbatim>\<open>dbgpacket.h\<close>, \<^verbatim>\<open>dbgpacket.cpp\<close>): the twelve packet classes, each constructor and
    virtual method one definition, and the parser \<open>CreateObjFromString\<close>. Protocol holds the
    specification: commands (\<open>cmd\<close>), their wire format (\<open>encode\<close>, \<open>decode\<close>) and the relation
    \<open>carries\<close> between an object and the command it stands for. RawText relates the parser to the
    reference \<open>nibbles\<close>, \<open>pack\<close>, and to the output loop of the raw dialog (\<open>hex_dump\<close>).
  \<^item> Hci (\<^verbatim>\<open>hw/src/hci/hci.v\<close>): the flip-flops, inputs, outputs and the combinational block
    of the state machine, one definition per group of states. Console (\<^verbatim>\<open>nes_top.v\<close>, \<^verbatim>\<open>cart.v\<close>,
    \<^verbatim>\<open>block_ram.v\<close>, the debug port of \<^verbatim>\<open>cpu.v\<close>): address decoding, memories and registers. Target:
    the abstract debug target, which executes a command in one step (\<open>exec\<close>). Board: one clock
    cycle of HCI and console together, its lemma for every state, and the runs. Arrivals: the runs in
    which the bytes come in at any times and the transmit FIFO is full at any times, except for ever, and what they
    lead to (\<open>leads\<close>). Hci_Packets: every packet, cycle by cycle, refines \<open>exec\<close>.
  \<^item> Win32: what the program calls and does not define (Win32, C runtime, the Lua C interface) as
    one record of functions \<open>'w env\<close>, a parameter of every definition that calls out; and
    \<^verbatim>\<open>util.h\<close>. Serial (\<^verbatim>\<open>serialcomm.cpp\<close>), App (the object graph and formatted output), Script
    (\<^verbatim>\<open>scriptmgr.cpp\<close>), Script_Dlg (\<^verbatim>\<open>scriptmgrdlg.cpp\<close>), Nes_Dbg (\<^verbatim>\<open>nesdbg.cpp\<close>), App_Main
    (\<^verbatim>\<open>main.cpp\<close>): one definition per function of the program, large ones cut into the consecutive
    blocks of the source, composed in its order with every early return.
  \<^item> Link: the contracts of the interfaces, as locales. \<open>nes_link\<close>: a port whose other end executes
    packets as the abstract target; \<open>lua_vm\<close>: the documented stack behaviour of the Lua functions;
    \<open>script_host\<close>: both without interference; \<open>ui_host\<close>: dialogs and files on top, single precision
    rounding, the range of a progress bar.
  \<^item> Script_Host, Progress, Rom_Image, Rom_Host, Host_Specs: the program's functions verified under
    these contracts. Bench: a protocol-level world that meets them, with the interpretations.
  \<^item> Rig: a world whose serial port has the modelled board at its other end. Writing puts the bytes
    in the HCI's receive queue and clocks the board until it is at rest (\<open>settle\<close>), sleeping clocks
    it for the time slept, reading takes what it has sent. The contracts are interpreted on it for
    every CPU and every fair schedule of the transmit FIFO. System: properties of host and FPGA
    together, over the board's block RAMs, registers and state machine.
  \<^item> Fifo (\<^verbatim>\<open>cmn/fifo/fifo.v\<close>): the circular buffer of the UART, and the contract \<open>queue_port\<close> of a
    clocked queue, which it meets in all cycles but one kind.
  \<^item> Uart_Rx (\<^verbatim>\<open>cmn/uart/uart_rx.v\<close>), Uart_Tx (\<^verbatim>\<open>cmn/uart/uart_tx.v\<close>): one clock of the receiver and of
    the transmitter, each seen as a counter of baud clock ticks within a frame. Uart
    (\<^verbatim>\<open>cmn/uart/uart_baud_clk.v\<close>): the baud clock, the serial line of a host with its own bit time, and
    a transmitter and a receiver on one line. Uart_Top (\<^verbatim>\<open>cmn/uart/uart.v\<close>): the whole module with
    its two buffers and the sticky parity flag, under any client.
  \<^item> In_Step: the bytes the HCI still waits for, in every state of its state machine, and that a byte which
    is there is taken at once or after a cycle. Fpga: HCI, UART and console buses clocked together,
    driven by one wire. It refines the board with byte queues (\<open>fpga_refines_board\<close>): the clocks in
    which the receiver reports a byte are the arrival times, the full flag of the transmit buffer is
    the stall schedule, and both are discharged, the one from the timing of the line, the other from the
    28514 clocks in which the transmitter ends a byte (a frame is 176 ticks of 162 clocks, and two).
  \<^item> Uart_Stream: whatever a client writes comes out on the line, if it writes when the transmit buffer has
    room and keeps the byte (\<open>uart_streams\<close>). Fpga_Reply: the HCI does so in every packet, so that its replies
    are on the line and a host can go on with the next packet (\<open>packet_heard\<close>, \<open>session\<close>).
  \<^item> Wire: what a host at 38400 baud sees that sends one packet and waits until the line is quiet (\<open>wire_quiet\<close>), for a
    halted and for a running console. Wire_Rig: a second world for the host program, whose serial port has the FPGA with
    its UART at its other end, on the wire; the contracts are interpreted on it for every CPU, and the loader, a script's write
    and the polling loop are stated of host and FPGA together.
  \<^item> Cpu (\<^verbatim>\<open>hw/src/cpu/cpu.v\<close>): the 6502 core, every flip-flop and control line, one 100 MHz clock at a
    time (\<open>core_clk\<close>). Cpu_Cycle: 56 clocks as one CPU cycle, and each control word of the decode ROM evaluated once
    (\<open>words\<close>). Isa: the instruction set as a program sees it, with its documented times, independent of the core. Isa_Arith:
    carries, overflows and addresses in the terms of both. Cpu_Exec: every addressing mode executed cycle by cycle
    (\<open>implements\<close>), unused opcodes and interrupts. Cpu_Run: the contract \<open>timed_machine\<close> of a machine whose steps take
    time, interpreted on CPU cycles, and in Cpu_Props on clocks. Cpu_Clock: how clocks make cycles, and when inputs count.
    Cpu_System: the core on a synchronous memory. Cpu_Debug: the core held by the debugger in any clock, against the register port of
    theory Console, and let go at a program counter.
  \<^item> Lua_Props, App_Props, Text_Props, Hci_Packets, System, Fifo, Uart_Top, Fpga, Fpga_Reply, Wire_Rig,
    Cpu_Props hold the properties, each with an instance.

  What the lemmas show. A packet object's array is the encoding of its command, its announced sizes
  are those of the protocol (Protocol). The halted HCI consumes exactly the bytes of each packet, sends
  exactly the reply of \<open>exec\<close> and leaves exactly its state, whenever the bytes arrive and however long
  the transmit FIFO is full in between (Hci_Packets): of every packet but a CPU_MEM_RD of the PPU's registers, and up to a
  DBG_RUN, after which it only takes a halt or a query. The UART delivers every byte of a host
  whose bit time is from 4.9 percent less to 3.8 percent more than its own (2475 to 2705 clocks, Uart_Top), fast enough for the HCI and not too fast, so that a packet on the wire is
  executed (Fpga), and its reply appears on the wire (Fpga_Reply), so that the loader's data arrive in the block RAMs (Wire_Rig). The core
  runs every program as the instruction set says (Cpu_Props). Under the contracts the scripting functions, the ROM loader and the
  dialogs do to the target what their packets say, with every error path; where the C++ code has no
  defined behaviour (a text with an odd number of digits, a truncated packet, a short file, a bad
  script result) the theorems say which fault is reached.

  Bounds and fuel. Payloads have fewer than 65536 bytes, since the packet's length field is a
  USHORT; the theorems assume it where the caller does not guarantee it. The buffers of \<open>LoadRom\<close>
  (0x100000 bytes) and \<open>LuaLoadAsm\<close> (0x10000) are those of the source; files of at most that size
  are read completely. Two loops of the program may run for ever and take fuel, with \<open>None\<close> for
  not returning: the polling loop of \<open>LuaWaitForHlt\<close> and the message loop of \<open>WinMain\<close>. The
  theorems about them state how much fuel is enough (the number of polls until the console halts,
  the number of messages before the quit message), and the first also that no fuel is enough
  when the console never halts; on the rig a round of polling is at least 1000001 clock cycles.
  The board runs for the least number of cycles after which it is at rest; that there is one is
  part of what is proved of every packet.

  Not modelled. In the world of Wire_Rig a write returns when the FPGA is done with the packet; a host that sends the next packet
  while the FPGA still works on the last one is not treated, nor is a packet other than a halt or a query
  that reaches a running console over the wire (on the rig with byte queues both are, Hci_Packets and System). The sprite DMA,
  joypads, APU, PPU and video: one cycle of the running console is the parameter \<open>run_cpu\<close> of the board, the
  PPU register interface is reduced to the accesses it recognises, and no theorem gives the value that one of them reads
  (\<open>plain_cmd\<close> of theory Target excludes CPU_MEM_RD from $2000 to $3FFF). In the registers behind the
  debug port the break bit of P is that of the interrupt a held core is about to select, which supposes that no reset and no NMI
  begins in a clock in which it is held in the first clock of a cycle (theories Console and Cpu_Debug). The 6502 core is modelled on its own memory; the
  theorems about it do not put it into the board in place of \<open>run_cpu\<close>, since the devices on its bus are missing. In
  them its interrupt request line is high, as \<^verbatim>\<open>rp2a03.v\<close> ties it, and resets and NMIs are those latched before an
  instruction begins. The vendored Lua headers, whose
  library is not in the repository. Window layout, fonts and resources, test scripts and assembly
  programs, and the freeing of memory (destructors of packets, \<open>DestroyAsciiString\<close>).
\<close>

end
